(* ===== verification/Go_Prelude.thy ===== *)
theory Go_Prelude
  imports
    Main
    "HOL-Library.Word"
    "HOL-Library.Signed_Division"
    "HOL-Library.Char_ord"
    "HOL-Library.List_Lexorder"
    "HOL-Library.Product_Lexorder"
    "HOL-Library.Multiset"
    "HOL-Library.Sublist"
begin

text \<open>
  What every component of the development shares: the parts of Go and of its standard library
  the sources use.

  \<^item> Integers. Go's \<open>int32\<close>, \<open>int64\<close> and \<open>int\<close> are HOL integers with the wrap-around written
    out (\<open>wrap32\<close>, \<open>wrap64\<close>) wherever an operation of the source can leave its range; Go's
    division truncates towards zero and is \<open>sdiv\<close>.
  \<^item> Time. A \<open>time.Time\<close> is the number of nanoseconds since Go's zero instant, so that the zero
    value is \<open>0\<close> and \<open>IsZero\<close> is a comparison with it; a \<open>time.Duration\<close> is an \<open>int64\<close> number
    of nanoseconds and \<open>Time.Sub\<close> saturates.
  \<^item> Strings are byte lists, ordered byte by byte.
  \<^item> \<open>slices.SortFunc\<close> is an insertion sort over the source's three-way comparator. The locale
    \<open>go_comparator\<close> says when such a comparator is the order of a key, and carries the facts
    about the sorted list that the components use.
\<close>

named_theorems go_int \<open>wrap-around and range facts of Go integers\<close>
named_theorems go_time \<open>facts about instants and durations\<close>
named_theorems go_sort \<open>facts about sorted slices\<close>

section \<open>Integers\<close>

definition in_int32 :: "int \<Rightarrow> bool" where
  "in_int32 x \<longleftrightarrow> - 2147483648 \<le> x \<and> x < 2147483648"

definition in_int64 :: "int \<Rightarrow> bool" where
  "in_int64 x \<longleftrightarrow> - 9223372036854775808 \<le> x \<and> x < 9223372036854775808"

definition wrap32 :: "int \<Rightarrow> int" where
  "wrap32 x = (x + 2147483648) mod 4294967296 - 2147483648"

definition wrap64 :: "int \<Rightarrow> int" where
  "wrap64 x = (x + 9223372036854775808) mod 18446744073709551616 - 9223372036854775808"

lemma wrap32_id [go_int]: "in_int32 x \<Longrightarrow> wrap32 x = x"
  by (simp add: wrap32_def in_int32_def)

lemma wrap64_id [go_int]: "in_int64 x \<Longrightarrow> wrap64 x = x"
  by (simp add: wrap64_def in_int64_def)

lemma wrap32_range [simp, intro]: "in_int32 (wrap32 x)"
  by (simp add: wrap32_def in_int32_def)

lemma wrap64_range [simp, intro]: "in_int64 (wrap64 x)"
  by (simp add: wrap64_def in_int64_def)

lemma in_int32_int64: "in_int32 x \<Longrightarrow> in_int64 x"
  by (simp add: in_int32_def in_int64_def)

text \<open>The wrap-around is that of the two's complement word of the same width.\<close>

lemma wrap32_word: "wrap32 x = sint (word_of_int x :: 32 word)"
  by (simp add: wrap32_def sint_sbintrunc' signed_take_bit_eq_take_bit_shift take_bit_eq_mod)

lemma wrap64_word: "wrap64 x = sint (word_of_int x :: 64 word)"
  by (simp add: wrap64_def sint_sbintrunc' signed_take_bit_eq_take_bit_shift take_bit_eq_mod)

lemma wrap64_add: "wrap64 (wrap64 x + y) = wrap64 (x + y)"
  by (simp add: wrap64_word)

lemma sdiv_nonneg: "0 \<le> a \<Longrightarrow> 0 < b \<Longrightarrow> a sdiv b = a div (b::int)"
  by (cases "a = 0") (simp_all add: signed_divide_int_def)

section \<open>Instants and durations\<close>

type_synonym time = int
type_synonym duration = int

definition second :: duration where "second = 1000000000"
definition minute :: duration where "minute = 60 * second"
definition hour :: duration where "hour = 60 * minute"

definition IsZero :: "time \<Rightarrow> bool" where
  "IsZero t \<longleftrightarrow> t = 0"

text \<open>\<open>Time.Sub\<close> returns the nearest representable duration when the difference is out of range.\<close>

definition time_sub :: "time \<Rightarrow> time \<Rightarrow> duration" where
  "time_sub t u = max (- 9223372036854775808) (min 9223372036854775807 (t - u))"

lemma time_sub_range [simp, intro]: "in_int64 (time_sub t u)"
  by (auto simp: time_sub_def in_int64_def)

lemma time_sub_self [simp]: "time_sub t t = 0"
  by (simp add: time_sub_def)

lemma time_sub_less [go_time]:
  "d < 9223372036854775807 \<Longrightarrow> - 9223372036854775808 \<le> d \<Longrightarrow> d < time_sub t u \<longleftrightarrow> d < t - u"
  by (auto simp: time_sub_def)

lemma time_sub_mono [go_time]: "t \<le> t' \<Longrightarrow> time_sub t u \<le> time_sub t' u"
  by (auto simp: time_sub_def)

section \<open>Maps used as sets\<close>

text \<open>\<open>setOf\<close> (candidate.go) builds a \<open>map[string]bool\<close>; looking a key up in it is membership.\<close>

definition setOf :: "'a list \<Rightarrow> ('a \<Rightarrow> bool)" where
  "setOf values = foldl (\<lambda>m v. m(v := True)) (\<lambda>_. False) values"

lemma foldl_upd_True: "foldl (\<lambda>m v. m(v := True)) m xs k \<longleftrightarrow> k \<in> set xs \<or> m k"
  by (induction xs arbitrary: m) auto

lemma setOf_member [simp]: "setOf xs = (\<lambda>k. k \<in> set xs)"
  by (rule ext) (simp add: setOf_def foldl_upd_True)

lemma length_filter_mono:
  "(\<And>x. x \<in> set xs \<Longrightarrow> P x \<Longrightarrow> Q x) \<Longrightarrow> length (filter P xs) \<le> length (filter Q xs)"
  by (induction xs) (auto intro: le_SucI)

section \<open>Three-way comparison and sorting\<close>

definition go_compare :: "'a::linorder \<Rightarrow> 'a \<Rightarrow> int" where
  "go_compare a b = (if a < b then -1 else if b < a then 1 else 0)"

lemma go_compare_le [simp]: "go_compare a b \<le> 0 \<longleftrightarrow> a \<le> b"
  by (auto simp: go_compare_def)

lemma go_compare_zero [simp]: "go_compare a b = 0 \<longleftrightarrow> a = b"
  by (auto simp: go_compare_def)

lemma go_compare_less [simp]: "go_compare a b < 0 \<longleftrightarrow> a < b"
  by (auto simp: go_compare_def)

primrec insert_by :: "('a \<Rightarrow> 'a \<Rightarrow> int) \<Rightarrow> 'a \<Rightarrow> 'a list \<Rightarrow> 'a list" where
  "insert_by c x [] = [x]"
| "insert_by c x (y # ys) = (if c x y \<le> 0 then x # y # ys else y # insert_by c x ys)"

definition sort_func :: "('a \<Rightarrow> 'a \<Rightarrow> int) \<Rightarrow> 'a list \<Rightarrow> 'a list" where
  "sort_func c xs = foldr (insert_by c) xs []"

lemma mset_insert_by: "mset (insert_by c x xs) = add_mset x (mset xs)"
  by (induction xs) auto

lemma mset_sort_func [simp, go_sort]: "mset (sort_func c xs) = mset xs"
  by (induction xs) (auto simp: sort_func_def mset_insert_by)

lemma set_sort_func [simp, go_sort]: "set (sort_func c xs) = set xs"
  by (metis mset_sort_func set_mset_mset)

lemma length_sort_func [simp, go_sort]: "length (sort_func c xs) = length xs"
  by (metis mset_sort_func size_mset)

lemma sort_func_Nil_iff [simp]: "sort_func c xs = [] \<longleftrightarrow> xs = []"
  by (metis length_0_conv length_sort_func)

lemma distinct_sort_func [simp]: "distinct (sort_func c xs) \<longleftrightarrow> distinct xs"
  by (metis mset_eq_imp_distinct_iff mset_sort_func)

text \<open>
  A comparator of the sources compares one field after another. It is the order of the key that
  lists those fields: what the locale asks of a comparator, and what every comparator of the
  components is shown to satisfy where it is defined.
\<close>

locale go_comparator =
  fixes cmp :: "'a \<Rightarrow> 'a \<Rightarrow> int"
    and key :: "'a \<Rightarrow> 'k::linorder"
  assumes cmp_le: "cmp x y \<le> 0 \<longleftrightarrow> key x \<le> key y"
begin

lemma insert_by_insort_key: "insert_by cmp x xs = insort_key key x xs"
  by (induction xs) (auto simp: cmp_le)

lemma sort_func_sort_key: "sort_func cmp xs = sort_key key xs"
  by (induction xs) (simp_all add: sort_func_def insert_by_insort_key)

lemma sorted_keys: "sorted (map key (sort_func cmp xs))"
  by (simp add: sort_func_sort_key)

lemma hd_least:
  assumes "xs \<noteq> []" and "x \<in> set xs"
  shows "key (hd (sort_func cmp xs)) \<le> key x"
proof -
  have x: "x \<in> set (sort_func cmp xs)" using assms(2) by simp
  then obtain y ys where eq: "sort_func cmp xs = y # ys"
    by (cases "sort_func cmp xs") auto
  then have "sorted (key y # map key ys)" using sorted_keys[of xs] by simp
  with x eq show ?thesis by auto
qed

text \<open>
  When no two elements share a key, the sorted slice does not depend on the order of the input
  nor on how the sort breaks ties: it is the only sorted rearrangement.
\<close>

lemma sort_unique:
  assumes "inj_on key (set xs)" and "mset ys = mset xs" and "sorted (map key ys)"
  shows "sort_func cmp xs = ys"
proof -
  have same: "set ys = set xs" using assms(2) by (metis set_mset_mset)
  have "mset (map key ys) = mset (map key (sort_func cmp xs))"
    by (simp add: assms(2))
  then have "map key ys = map key (sort_func cmp xs)"
    using assms(3) sorted_keys[of xs] by (metis properties_for_sort)
  moreover have "inj_on key (set ys \<union> set (sort_func cmp xs))"
    by (simp add: same assms(1))
  ultimately show ?thesis by (metis map_inj_on)
qed

lemma sort_permutation:
  assumes "inj_on key (set xs)" and "mset ys = mset xs"
  shows "sort_func cmp ys = sort_func cmp xs"
proof -
  have "inj_on key (set ys)" using assms by (metis set_mset_mset)
  then show ?thesis
    by (rule sort_unique) (simp_all add: assms sorted_keys)
qed

end

interpretation compare_order: go_comparator go_compare "\<lambda>x. x"
  by unfold_locales simp

lemmas string_sort = compare_order.sorted_keys [unfolded list.map_ident]

section \<open>Strings\<close>

text \<open>
  \<open>strings.TrimSpace\<close> removes the runes \<open>unicode.IsSpace\<close> accepts from both ends. They are listed
  by their UTF-8 encodings; UTF-8 is self-synchronising, so removing a rune is removing its bytes.
\<close>

definition space_runes :: "string list" where
  "space_runes =
     [[CHR 0x09], [CHR 0x0A], [CHR 0x0B], [CHR 0x0C], [CHR 0x0D], [CHR 0x20],
      [CHR 0xC2, CHR 0x85], [CHR 0xC2, CHR 0xA0], [CHR 0xE1, CHR 0x9A, CHR 0x80],
      [CHR 0xE2, CHR 0x80, CHR 0x80], [CHR 0xE2, CHR 0x80, CHR 0x81], [CHR 0xE2, CHR 0x80, CHR 0x82],
      [CHR 0xE2, CHR 0x80, CHR 0x83], [CHR 0xE2, CHR 0x80, CHR 0x84], [CHR 0xE2, CHR 0x80, CHR 0x85],
      [CHR 0xE2, CHR 0x80, CHR 0x86], [CHR 0xE2, CHR 0x80, CHR 0x87], [CHR 0xE2, CHR 0x80, CHR 0x88],
      [CHR 0xE2, CHR 0x80, CHR 0x89], [CHR 0xE2, CHR 0x80, CHR 0x8A], [CHR 0xE2, CHR 0x80, CHR 0xA8],
      [CHR 0xE2, CHR 0x80, CHR 0xA9], [CHR 0xE2, CHR 0x80, CHR 0xAF], [CHR 0xE2, CHR 0x81, CHR 0x9F],
      [CHR 0xE3, CHR 0x80, CHR 0x80]]"

lemma space_runes_nonempty: "r \<in> set space_runes \<Longrightarrow> r \<noteq> []"
  by (auto simp: space_runes_def)

function trim_runes :: "string list \<Rightarrow> string \<Rightarrow> string" where
  "trim_runes rs s =
     (case find (\<lambda>r. r \<noteq> [] \<and> prefix r s) rs of
        None \<Rightarrow> s
      | Some r \<Rightarrow> trim_runes rs (drop (length r) s))"
  by pat_completeness auto
termination
proof (relation "measure (\<lambda>(rs, s). length s)", goal_cases)
  case 1
  show ?case by simp
next
  case (2 rs s r)
  then have "r \<noteq> [] \<and> prefix r s" by (auto simp: find_Some_iff)
  then show ?case by (cases s; cases r) auto
qed

declare trim_runes.simps [simp del]

definition TrimSpace :: "string \<Rightarrow> string" where
  "TrimSpace s = rev (trim_runes (map rev space_runes) (rev (trim_runes space_runes s)))"

lemma trim_runes_id: "find (\<lambda>r. r \<noteq> [] \<and> prefix r s) rs = None \<Longrightarrow> trim_runes rs s = s"
  by (simp add: trim_runes.simps)

lemma trim_runes_Nil [simp]: "trim_runes rs [] = []"
  by (rule trim_runes_id) (auto simp: find_None_iff)

text \<open>\<open>strings.Cut s sep\<close> for a one-byte separator: the parts around its first occurrence.\<close>

fun Cut :: "string \<Rightarrow> char \<Rightarrow> string \<times> string \<times> bool" where
  "Cut [] sep = ([], [], False)"
| "Cut (c # s) sep =
     (if c = sep then ([], s, True)
      else case Cut s sep of
             (before, after, True) \<Rightarrow> (c # before, after, True)
           | (before, after, False) \<Rightarrow> (c # before, [], False))"

lemma Cut_append: "sep \<notin> set a \<Longrightarrow> Cut (a @ sep # b) sep = (a, b, True)"
  by (induction a) auto

text \<open>\<open>strings.SplitSeq s sep\<close> for a one-byte separator.\<close>

fun Split :: "char \<Rightarrow> string \<Rightarrow> string list" where
  "Split sep [] = [[]]"
| "Split sep (c # s) =
     (if c = sep then [] # Split sep s
      else case Split sep s of [] \<Rightarrow> [[c]] | f # fs \<Rightarrow> (c # f) # fs)"

definition newline :: char where
  "newline = CHR 0x0A"

lemma Split_nonempty [simp]: "Split sep s \<noteq> []"
  by (induction s) (auto split: list.split)

lemma Split_append: "sep \<notin> set v \<Longrightarrow> Split sep (v @ sep # s) = v # Split sep s"
  by (induction v) auto

lemma Split_plain: "sep \<notin> set v \<Longrightarrow> Split sep v = [v]"
  by (induction v) auto

text \<open>\<open>strings.ReplaceAll\<close> of a one-byte pattern.\<close>

definition ReplaceAll :: "string \<Rightarrow> char \<Rightarrow> string \<Rightarrow> string" where
  "ReplaceAll s old new = concat (map (\<lambda>c. if c = old then new else [c]) s)"

text \<open>\<open>strconv.Itoa\<close> and the verb \<open>%d\<close>.\<close>

fun show_nat :: "nat \<Rightarrow> string" where
  "show_nat n = (if n < 10 then [char_of (48 + n)] else show_nat (n div 10) @ [char_of (48 + n mod 10)])"

declare show_nat.simps [simp del]

definition Itoa :: "int \<Rightarrow> string" where
  "Itoa n = (if n < 0 then CHR ''-'' # show_nat (nat (- n)) else show_nat (nat n))"

section \<open>Error kinds of the standard library\<close>

datatype num_error = ErrSyntax | ErrRange

text \<open>
  \<open>strconv.ParseUint s base bitSize\<close> for an explicit base between 2 and 16 and a bit size up to
  64: every digit is checked before it is accumulated, and the first accumulated value above the
  largest of the width is a range error.
\<close>

definition digit_value :: "char \<Rightarrow> nat option" where
  "digit_value c =
     (let b = (of_char c :: nat) in
      if 48 \<le> b \<and> b \<le> 57 then Some (b - 48)
      else if 97 \<le> b \<and> b \<le> 122 then Some (b - 97 + 10)
      else if 65 \<le> b \<and> b \<le> 90 then Some (b - 65 + 10)
      else None)"

fun parse_uint_loop :: "nat \<Rightarrow> nat \<Rightarrow> nat \<Rightarrow> string \<Rightarrow> num_error + nat" where
  "parse_uint_loop base maxval n [] = Inr n"
| "parse_uint_loop base maxval n (c # s) =
     (case digit_value c of
        None \<Rightarrow> Inl ErrSyntax
      | Some d \<Rightarrow>
          if base \<le> d then Inl ErrSyntax
          else let n1 = n * base + d in
               if maxval < n1 then Inl ErrRange else parse_uint_loop base maxval n1 s)"

definition ParseUint :: "string \<Rightarrow> nat \<Rightarrow> nat \<Rightarrow> num_error + nat" where
  "ParseUint s base bits =
     (if s = [] then Inl ErrSyntax else parse_uint_loop base (2 ^ bits - 1) 0 s)"

text \<open>\<open>strconv.ParseInt s 10 64\<close>, and \<open>strconv.Atoi\<close> on a 64-bit platform.\<close>

definition ParseInt :: "string \<Rightarrow> num_error + int" where
  "ParseInt s =
     (let (negative, digits) =
        (case s of
           [] \<Rightarrow> (False, [])
         | c # rest \<Rightarrow> if c = CHR ''-'' then (True, rest) else if c = CHR ''+'' then (False, rest) else (False, s)) in
      case ParseUint digits 10 64 of
        Inl e \<Rightarrow> Inl e
      | Inr n \<Rightarrow>
          if \<not> negative \<and> n \<ge> 2 ^ 63 \<or> negative \<and> n > 2 ^ 63 then Inl ErrRange
          else Inr (if negative then - int n else int n))"

end
