(* ===== verification/Pgconf.thy ===== *)
theory Pgconf
  imports Go_Prelude "HOL-Library.AList"
begin

text \<open>
  The PostgreSQL configuration the operator renders (\<open>internal/instance/pgconf\<close>): who owns a
  parameter, the split of \<open>max_connections\<close>, the two files of a member, and reading a rendered file
  back. A Go map that is walked is an association list with one entry per key; the files are byte
  lists.
\<close>

section \<open>Ownership of parameters\<close>

datatype setting_context =
    ContextInternal
  | ContextPostmaster
  | ContextSighup
  | ContextSuperuserBackend
  | ContextBackend
  | ContextSuperuser
  | ContextUser

datatype ownership = OwnershipFixed | OwnershipBlocked | OwnershipTuned | OwnershipUser

record owned =
  ow_Ownership :: ownership
  ow_Context :: setting_context
  ow_Value :: string
  ow_Omit :: bool

abbreviation ow_Fixed :: "setting_context \<Rightarrow> owned" where
  "ow_Fixed context \<equiv> \<lparr>ow_Ownership = OwnershipFixed, ow_Context = context, ow_Value = [], ow_Omit = False\<rparr>"

abbreviation ow_Tuned :: "setting_context \<Rightarrow> owned" where
  "ow_Tuned context \<equiv> \<lparr>ow_Ownership = OwnershipTuned, ow_Context = context, ow_Value = [], ow_Omit = False\<rparr>"

abbreviation ow_Blocked :: "setting_context \<Rightarrow> string \<Rightarrow> owned" where
  "ow_Blocked context v \<equiv>
     \<lparr>ow_Ownership = OwnershipBlocked, ow_Context = context, ow_Value = v, ow_Omit = False\<rparr>"

definition CustomGUCPrefix :: string where "CustomGUCPrefix = ''pgelastic.''"
definition GUCPrimaryEpoch :: string where "GUCPrimaryEpoch = CustomGUCPrefix @ ''primary_epoch''"
definition GUCConfigSHA256 :: string where "GUCConfigSHA256 = CustomGUCPrefix @ ''config_sha256''"
definition GUCMaxConnections :: string where "GUCMaxConnections = ''max_connections''"
definition GUCMaxPreparedTransactions :: string where "GUCMaxPreparedTransactions = ''max_prepared_transactions''"
definition GUCMaxWALSenders :: string where "GUCMaxWALSenders = ''max_wal_senders''"
definition GUCMaxWorkerProcesses :: string where "GUCMaxWorkerProcesses = ''max_worker_processes''"
definition GUCMaxParallelWorkers :: string where "GUCMaxParallelWorkers = ''max_parallel_workers''"
definition GUCMaxLocksPerTransaction :: string where "GUCMaxLocksPerTransaction = ''max_locks_per_transaction''"
definition GUCWALLevel :: string where "GUCWALLevel = ''wal_level''"
definition GUCWALLogHints :: string where "GUCWALLogHints = ''wal_log_hints''"
definition GUCTrackCommitTimestamp :: string where "GUCTrackCommitTimestamp = ''track_commit_timestamp''"
definition GUCSynchronousStandbyNames :: string where "GUCSynchronousStandbyNames = ''synchronous_standby_names''"
definition GUCArchiveMode :: string where "GUCArchiveMode = ''archive_mode''"
definition GUCArchiveCommand :: string where "GUCArchiveCommand = ''archive_command''"
definition GUCAllowAlterSystem :: string where "GUCAllowAlterSystem = ''allow_alter_system''"
definition GUCRestartAfterCrash :: string where "GUCRestartAfterCrash = ''restart_after_crash''"
definition GUCIOMethod :: string where "GUCIOMethod = ''io_method''"
definition GUCLoggingCollector :: string where "GUCLoggingCollector = ''logging_collector''"
definition GUCSharedPreloadLibraries :: string where "GUCSharedPreloadLibraries = ''shared_preload_libraries''"
definition GUCClusterName :: string where "GUCClusterName = ''cluster_name''"
definition GUCSynchronousCommit :: string where "GUCSynchronousCommit = ''synchronous_commit''"
definition valueOff :: string where "valueOff = ''off''"
definition valueOn :: string where "valueOn = ''on''"

lemmas guc_defs =
    GUCMaxConnections_def GUCMaxPreparedTransactions_def GUCMaxWALSenders_def
  GUCMaxWorkerProcesses_def GUCMaxParallelWorkers_def GUCMaxLocksPerTransaction_def GUCWALLevel_def
  GUCWALLogHints_def GUCTrackCommitTimestamp_def GUCSynchronousStandbyNames_def GUCArchiveMode_def
  GUCArchiveCommand_def GUCAllowAlterSystem_def GUCRestartAfterCrash_def GUCIOMethod_def
  GUCLoggingCollector_def GUCSharedPreloadLibraries_def GUCClusterName_def GUCSynchronousCommit_def
  GUCPrimaryEpoch_def GUCConfigSHA256_def CustomGUCPrefix_def valueOff_def valueOn_def

definition EnforcedParameters :: "string list" where
  "EnforcedParameters =
     [GUCMaxConnections, GUCMaxPreparedTransactions, GUCMaxWALSenders, GUCMaxWorkerProcesses,
      GUCMaxLocksPerTransaction]"

definition ownedParameters :: "(string \<times> owned) list" where
  "ownedParameters =
     [
      (GUCMaxConnections, ow_Fixed ContextPostmaster),
      (''superuser_reserved_connections'', ow_Fixed ContextPostmaster),
      (''reserved_connections'', ow_Fixed ContextPostmaster),
      (GUCWALLevel, ow_Blocked ContextPostmaster ''logical''),
      (GUCTrackCommitTimestamp, ow_Blocked ContextPostmaster valueOn),
      (GUCMaxWALSenders, ow_Fixed ContextPostmaster),
      (''max_replication_slots'', ow_Fixed ContextPostmaster),
      (''max_active_replication_origins'', ow_Fixed ContextPostmaster),
      (GUCMaxWorkerProcesses, ow_Fixed ContextPostmaster),
      (GUCMaxParallelWorkers, ow_Tuned ContextUser),
      (GUCMaxPreparedTransactions, ow_Fixed ContextPostmaster),
      (GUCMaxLocksPerTransaction, ow_Fixed ContextPostmaster),
      (''hot_standby'', ow_Blocked ContextPostmaster valueOn),
      (''hot_standby_feedback'', ow_Blocked ContextSighup valueOn),
      (''sync_replication_slots'', ow_Blocked ContextSighup valueOn),
      (''synchronized_standby_slots'', ow_Fixed ContextSighup),
      (GUCSynchronousStandbyNames, ow_Fixed ContextSighup),
      (GUCSynchronousCommit, ow_Fixed ContextUser),
      (''primary_conninfo'', ow_Fixed ContextSighup),
      (''primary_slot_name'', ow_Fixed ContextSighup),
      (''restore_command'', ow_Fixed ContextSighup),
      (''recovery_target_time'', ow_Fixed ContextPostmaster),
      (''recovery_target_lsn'', ow_Fixed ContextPostmaster),
      (''recovery_target_name'', ow_Fixed ContextPostmaster),
      (''recovery_target_action'', ow_Fixed ContextPostmaster),
      (''max_slot_wal_keep_size'', ow_Fixed ContextSighup),
      (''wal_keep_size'', ow_Fixed ContextSighup),
      (GUCWALLogHints, \<lparr>ow_Ownership = OwnershipBlocked, ow_Context = ContextPostmaster, ow_Value = [], ow_Omit = True\<rparr>),
      (GUCArchiveMode, ow_Blocked ContextPostmaster valueOn),
      (GUCArchiveCommand, ow_Fixed ContextSighup),
      (''archive_timeout'', ow_Fixed ContextSighup),
      (GUCAllowAlterSystem, ow_Blocked ContextSighup valueOff),
      (GUCRestartAfterCrash, ow_Blocked ContextSighup valueOff),
      (''fsync'', ow_Blocked ContextSighup valueOn),
      (''full_page_writes'', ow_Blocked ContextSighup valueOn),
      (GUCIOMethod, ow_Blocked ContextPostmaster ''worker''),
      (GUCLoggingCollector, ow_Blocked ContextPostmaster valueOn),
      (''log_destination'', ow_Blocked ContextSighup ''jsonlog''),
      (''log_directory'', ow_Fixed ContextSighup),
      (''log_filename'', ow_Fixed ContextSighup),
      (''log_rotation_age'', ow_Blocked ContextSighup ''0''),
      (''log_rotation_size'', ow_Blocked ContextSighup ''0''),
      (''log_truncate_on_rotation'', ow_Blocked ContextSighup valueOff),
      (''listen_addresses'', ow_Fixed ContextPostmaster),
      (''port'', ow_Fixed ContextPostmaster),
      (''unix_socket_directories'', ow_Fixed ContextPostmaster),
      (''password_encryption'', ow_Blocked ContextSighup ''scram-sha-256''),
      (''ssl'', ow_Fixed ContextSighup),
      (''ssl_cert_file'', ow_Fixed ContextSighup),
      (''ssl_key_file'', ow_Fixed ContextSighup),
      (''ssl_ca_file'', ow_Fixed ContextSighup),
      (''hba_file'', ow_Fixed ContextPostmaster),
      (''ident_file'', ow_Fixed ContextPostmaster),
      (''data_directory'', ow_Fixed ContextPostmaster),
      (GUCClusterName, ow_Fixed ContextPostmaster),
      (GUCSharedPreloadLibraries, ow_Fixed ContextPostmaster),
      (''autovacuum_worker_slots'', ow_Fixed ContextPostmaster),
      (''shared_buffers'', ow_Fixed ContextPostmaster),
      (''effective_cache_size'', ow_Fixed ContextUser)]"

definition Classify :: "string \<Rightarrow> owned" where
  "Classify name =
     (case map_of ownedParameters name of
        Some entry \<Rightarrow> entry
      | None \<Rightarrow> \<lparr>ow_Ownership = OwnershipUser, ow_Context = ContextUser, ow_Value = [], ow_Omit = False\<rparr>)"

definition IsOwned :: "string \<Rightarrow> bool" where
  "IsOwned name \<longleftrightarrow> map_of ownedParameters name \<noteq> None"

definition IsPinned :: "string \<Rightarrow> bool" where
  "IsPinned name \<longleftrightarrow>
     (case ow_Ownership (Classify name) of
        OwnershipFixed \<Rightarrow> True
      | OwnershipBlocked \<Rightarrow> True
      | _ \<Rightarrow> False)"

definition PinnedNames :: "string list" where
  "PinnedNames = sort (filter IsPinned (map fst ownedParameters))"

definition OwnedNames :: "string list" where
  "OwnedNames = sort (map fst ownedParameters)"

definition in_range :: "char \<Rightarrow> char \<Rightarrow> char \<Rightarrow> bool" where
  "in_range low high c \<longleftrightarrow> (of_char low :: nat) \<le> of_char c \<and> of_char c \<le> (of_char high :: nat)"

text \<open>A rune of more than one byte is in none of the ranges, and neither is any of its bytes.\<close>

definition guc_letter :: "char \<Rightarrow> bool" where
  "guc_letter c \<longleftrightarrow> in_range CHR ''a'' CHR ''z'' c \<or> in_range CHR ''A'' CHR ''Z'' c \<or> c = CHR ''_''"

definition validGUCIdentifier :: "string \<Rightarrow> bool" where
  "validGUCIdentifier identifier \<longleftrightarrow>
     (case identifier of
        [] \<Rightarrow> False
      | c # cs \<Rightarrow> guc_letter c \<and> list_all (\<lambda>d. guc_letter d \<or> in_range CHR ''0'' CHR ''9'' d) cs)"

definition validGUCName :: "string \<Rightarrow> bool" where
  "validGUCName name \<longleftrightarrow>
     name \<noteq> [] \<and>
     (case Cut name CHR ''.'' of
        (head, rest, qualified) \<Rightarrow>
          if qualified then validGUCIdentifier head \<and> validGUCIdentifier rest else validGUCIdentifier name)"

definition RenderableParameter :: "string \<Rightarrow> string \<Rightarrow> bool" where
  "RenderableParameter name v \<longleftrightarrow> validGUCName name \<and> \<not> (CHR 0x0A \<in> set v \<or> CHR 0x0D \<in> set v)"

definition UserParameters :: "(string \<times> string) list \<Rightarrow> (string \<times> string) list \<times> string list" where
  "UserParameters parameters =
     (let rejected = (\<lambda>(name, v). IsPinned name \<or> \<not> RenderableParameter name v) in
      (filter (\<lambda>p. \<not> rejected p) parameters, sort (map fst (filter rejected parameters))))"

definition BlockedDefaults :: "(string \<times> string) list" where
  "BlockedDefaults =
     map (\<lambda>(name, entry). (name, ow_Value entry))
       (filter (\<lambda>(name, entry). ow_Ownership entry = OwnershipBlocked \<and> \<not> ow_Omit entry) ownedParameters)"

section \<open>The capacity split\<close>

definition SuperuserReservedConnections :: int where "SuperuserReservedConnections = 3"
definition ReservedConnections :: int where "ReservedConnections = 5"
definition BaseAgentConnections :: int where "BaseAgentConnections = 10"
definition MaxAgentOverhead :: int where "MaxAgentOverhead = 16"

record pg_capacity =
  pc_Allocatable :: int
  pc_SuperuserReserved :: int
  pc_Reserved :: int
  pc_AgentOverhead :: int
  pc_MaxConnections :: int
  pc_ReplicationSlots :: int
  pc_WALSenders :: int

definition AgentOverhead :: "int \<Rightarrow> int" where
  "AgentOverhead concurrentDumps =
     (let dumps = (if concurrentDumps < 0 then 0 else concurrentDumps) in
      min (wrap32 (BaseAgentConnections + dumps)) MaxAgentOverhead)"

definition DeriveCapacity :: "int \<Rightarrow> int \<Rightarrow> int \<Rightarrow> int \<Rightarrow> pg_capacity" where
  "DeriveCapacity allocatable concurrentDumps replicas migrationSlots =
     (let a = max allocatable 0;
          standbys = max (wrap32 (replicas - 1)) 0;
          slots = max migrationSlots 0;
          overhead = AgentOverhead concurrentDumps in
      \<lparr>pc_Allocatable = a,
       pc_SuperuserReserved = SuperuserReservedConnections,
       pc_Reserved = ReservedConnections,
       pc_AgentOverhead = overhead,
       pc_MaxConnections =
         wrap32 (wrap32 (wrap32 (a + SuperuserReservedConnections) + ReservedConnections) + overhead),
       pc_ReplicationSlots = wrap32 (standbys + slots),
       pc_WALSenders = wrap32 (standbys + slots)\<rparr>)"

record sizing_class =
  sz_Name :: string
  sz_AllocatableConnections :: int
  sz_RatedCPUMillis :: int
  sz_RatedMemoryBytes :: int

definition pgconf_gibibyte :: int where "pgconf_gibibyte = 1073741824"
definition memoryPerVCPU :: int where "memoryPerVCPU = 4 * pgconf_gibibyte"

definition sizingClasses :: "(string \<times> sizing_class) list" where
  "sizingClasses =
     map (\<lambda>(name, a, c, m).
       (name, \<lparr>sz_Name = name, sz_AllocatableConnections = a, sz_RatedCPUMillis = c, sz_RatedMemoryBytes = m\<rparr>))
       [(''dev-1'', 50, 1000, 2 * pgconf_gibibyte),
        (''gp-2'', 100, 2000, 2 * memoryPerVCPU),
        (''gp-4'', 200, 4000, 4 * memoryPerVCPU),
        (''gp-8'', 400, 8000, 8 * memoryPerVCPU),
        (''gp-16'', 800, 16000, 16 * memoryPerVCPU),
        (''gp-32'', 1200, 32000, 32 * memoryPerVCPU)]"

definition SizingClassNames :: "string list" where
  "SizingClassNames = sort (map fst sizingClasses)"

datatype sizing_error = UnknownInstanceClass string "string list"

definition LookupSizingClass :: "string \<Rightarrow> sizing_error + sizing_class" where
  "LookupSizingClass name =
     (case map_of sizingClasses name of
        None \<Rightarrow> Inl (UnknownInstanceClass name SizingClassNames)
      | Some class \<Rightarrow> Inr class)"

definition logicalReplicationWorkers :: int where "logicalReplicationWorkers = 4"
definition backgroundWorkerReserve :: int where "backgroundWorkerReserve = 8"
definition minWorkerProcesses :: int where "minWorkerProcesses = 16"
definition minParallelWorkers :: int where "minParallelWorkers = 2"

definition workerProcesses :: "int \<Rightarrow> int" where
  "workerProcesses workers =
     max minWorkerProcesses (wrap32 (wrap32 (workers + logicalReplicationWorkers) + backgroundWorkerReserve))"

definition parallelWorkers :: "int \<Rightarrow> int" where
  "parallelWorkers declared = (if declared \<le> 0 then minParallelWorkers else max minParallelWorkers declared)"

definition ParallelWorkersForCPU :: "int \<Rightarrow> int" where
  "ParallelWorkersForCPU millis =
     (if millis \<le> 0 then minParallelWorkers else parallelWorkers (wrap32 (millis sdiv 1000)))"

definition maxLocksPerTransaction :: "int \<Rightarrow> string" where
  "maxLocksPerTransaction major = (if major \<ge> 19 then ''128'' else ''64'')"

section \<open>Rendering\<close>

record setting =
  st_Name :: string
  st_Value :: string

record instance_config =
  ic_MemberName :: string
  ic_Capacity :: pg_capacity
  ic_SocketDirectory :: string
  ic_Port :: int
  ic_LogDirectory :: string
  ic_LogFilename :: string
  ic_ArchiveCommand :: string
  ic_ArchiveTimeout :: string
  ic_WALVolumeBytes :: int
  ic_SynchronousCommit :: string
  ic_AutovacuumWorkerSlots :: int
  ic_ActiveReplicationOrigins :: int
  ic_SharedBuffers :: string
  ic_EffectiveCacheSize :: string
  ic_ParallelWorkers :: int
  ic_Major :: int
  ic_PrimaryEpoch :: int
  ic_UserParameters :: "(string \<times> string) list"

definition mebibyte :: int where "mebibyte = 1048576"

definition mebibytes :: "int \<Rightarrow> string" where
  "mebibytes bytes = Itoa (max (bytes sdiv mebibyte) 0) @ ''MB''"

definition sortedSettings :: "(string \<times> string) list \<Rightarrow> setting list" where
  "sortedSettings settings = map (\<lambda>(name, v). \<lparr>st_Name = name, st_Value = v\<rparr>) (sort_key fst settings)"

definition maps_Copy :: "('k \<times> 'v) list \<Rightarrow> ('k \<times> 'v) list \<Rightarrow> ('k \<times> 'v) list" where
  "maps_Copy dst src = foldl (\<lambda>m (k, v). AList.update k v m) dst src"

definition computed_settings :: "instance_config \<Rightarrow> (string \<times> string) list" where
  "computed_settings config =
     [(GUCMaxConnections, Itoa (pc_MaxConnections (ic_Capacity config))),
      (''superuser_reserved_connections'', Itoa (pc_SuperuserReserved (ic_Capacity config))),
      (''reserved_connections'', Itoa (pc_Reserved (ic_Capacity config))),
      (GUCMaxWALSenders, Itoa (pc_WALSenders (ic_Capacity config))),
      (''max_replication_slots'', Itoa (pc_ReplicationSlots (ic_Capacity config))),
      (''max_active_replication_origins'', Itoa (ic_ActiveReplicationOrigins config)),
      (GUCMaxWorkerProcesses, Itoa (workerProcesses (ic_ParallelWorkers config))),
      (GUCMaxParallelWorkers, Itoa (parallelWorkers (ic_ParallelWorkers config))),
      (GUCMaxPreparedTransactions, ''0''),
      (GUCMaxLocksPerTransaction, maxLocksPerTransaction (ic_Major config)),
      (''autovacuum_worker_slots'', Itoa (ic_AutovacuumWorkerSlots config)),
      (''listen_addresses'', ''*''),
      (''port'', Itoa (ic_Port config)),
      (''unix_socket_directories'', ic_SocketDirectory config),
      (GUCClusterName, ic_MemberName config),
      (GUCSharedPreloadLibraries, []),
      (''ssl'', valueOff),
      (''log_directory'', ic_LogDirectory config),
      (''log_filename'', ic_LogFilename config),
      (GUCArchiveCommand, ic_ArchiveCommand config),
      (''archive_timeout'', ic_ArchiveTimeout config),
      (''max_slot_wal_keep_size'', mebibytes (wrap64 (ic_WALVolumeBytes config * 2) sdiv 5)),
      (''wal_keep_size'', mebibytes (ic_WALVolumeBytes config sdiv 10)),
      (GUCSynchronousCommit, ic_SynchronousCommit config),
      (GUCPrimaryEpoch, Itoa (ic_PrimaryEpoch config))]"

definition owned_settings :: "instance_config \<Rightarrow> (string \<times> string) list" where
  "owned_settings config =
     AList.update ''effective_cache_size'' (ic_EffectiveCacheSize config)
       (AList.update ''shared_buffers'' (ic_SharedBuffers config)
         (maps_Copy (computed_settings config) BlockedDefaults))"

definition RenderCustomConf :: "instance_config \<Rightarrow> setting list" where
  "RenderCustomConf config =
     sortedSettings
       (foldl (\<lambda>m (name, v). if IsPinned name \<or> \<not> RenderableParameter name v then m else AList.update name v m)
         (owned_settings config) (ic_UserParameters config))"

record replication_config =
  rc_Standby :: bool
  rc_PrimaryConnInfo :: string
  rc_PrimarySlotName :: string
  rc_SynchronousStandbyNames :: string
  rc_SynchronizedStandbySlots :: string
  rc_RestoreCommand :: string

definition RenderOverrideConf :: "replication_config \<Rightarrow> setting list" where
  "RenderOverrideConf config =
     sortedSettings
       [(''primary_conninfo'', rc_PrimaryConnInfo config),
        (''primary_slot_name'', rc_PrimarySlotName config),
        (GUCSynchronousStandbyNames, rc_SynchronousStandbyNames config),
        (''synchronized_standby_slots'', rc_SynchronizedStandbySlots config),
        (''restore_command'', rc_RestoreCommand config)]"

definition generated_line :: string where
  "generated_line = ''# Generated by pgelastic. Edits are overwritten on the next reconcile.'' @ [newline]"

definition setting_line :: "setting \<Rightarrow> string" where
  "setting_line s =
     st_Name s @ '' = '' @ [CHR 0x27] @ ReplaceAll (st_Value s) (CHR 0x27) [CHR 0x27, CHR 0x27] @ [CHR 0x27]"

definition FormatSettings :: "string \<Rightarrow> setting list \<Rightarrow> string" where
  "FormatSettings header settings =
     ''# '' @ header @ [newline] @ generated_line @ concat (map (\<lambda>s. setting_line s @ [newline]) settings)"

record hba_config =
  hb_ProxySources :: "string list"
  hb_PeerSources :: "string list"
  hb_ReplicationRole :: string
  hb_OpsRole :: string
  hb_RewindRole :: string

definition hba_line :: "string list \<Rightarrow> string" where
  "hba_line columns = concat (map (\<lambda>c. c @ '' '') (butlast columns)) @ last columns @ [newline]"

definition RenderHBA :: "hba_config \<Rightarrow> string" where
  "RenderHBA config =
     (let peers = (\<lambda>database role. concat (map (\<lambda>source.
            hba_line [''host'', database, role, source, ''scram-sha-256'']) (hb_PeerSources config))) in
      generated_line @
      hba_line [''local'', ''all'', ''postgres'', ''peer''] @
      (if hb_OpsRole config \<noteq> [] then hba_line [''local'', ''all'', hb_OpsRole config, ''scram-sha-256''] else []) @
      hba_line [''local'', ''all'', ''all'', ''peer''] @
      hba_line [''local'', ''replication'', ''all'', ''peer''] @
      peers ''replication'' (hb_ReplicationRole config) @
      peers ''all'' (hb_ReplicationRole config) @
      peers ''all'' (hb_OpsRole config) @
      peers ''all'' (hb_RewindRole config) @
      concat (map (\<lambda>source. hba_line [''host'', ''all'', ''all'', source, ''scram-sha-256'']) (hb_ProxySources config)) @
      hba_line [''host'', ''all'', ''all'', ''all'', ''reject''])"

definition RenderIdent :: string where
  "RenderIdent = generated_line"

definition HashLine :: "string \<Rightarrow> string" where
  "HashLine hash = GUCConfigSHA256 @ '' = '' @ [CHR 0x27] @ hash @ [CHR 0x27, newline]"

text \<open>\<open>strings.ReplaceAll\<close> of a doubled byte by one: the leftmost pair is taken each time.\<close>

fun undouble :: "char \<Rightarrow> string \<Rightarrow> string" where
  "undouble q (c # d # s) = (if c = q \<and> d = q then q # undouble q s else c # undouble q (d # s))"
| "undouble q s = s"

definition unquote_value :: "string \<Rightarrow> string" where
  "unquote_value v =
     (if 2 \<le> length v \<and> hd v = CHR 0x27 \<and> last v = CHR 0x27
      then undouble (CHR 0x27) (butlast (drop 1 v)) else v)"

definition parse_line :: "string \<Rightarrow> (string \<times> string) option" where
  "parse_line text =
     (let line = TrimSpace text in
      if line = [] \<or> hd line = CHR ''#'' then None
      else case Cut line CHR ''='' of
        (name, v, found) \<Rightarrow>
          if \<not> found then None else Some (TrimSpace name, unquote_value (TrimSpace v)))"

definition ParseSettings :: "string \<Rightarrow> (string \<rightharpoonup> string)" where
  "ParseSettings contents =
     foldl (\<lambda>m line. case parse_line line of None \<Rightarrow> m | Some (name, v) \<Rightarrow> m(name \<mapsto> v))
       Map.empty (Split newline contents)"

section \<open>Maps as association lists\<close>

lemma map_of_maps_Copy:
  "distinct (map fst src) \<Longrightarrow> map_of (maps_Copy dst src) = map_of dst ++ map_of src"
proof (induction src arbitrary: dst)
  case (Cons p src)
  obtain k v where p: "p = (k, v)" by (cases p)
  from Cons.prems p have fresh: "map_of src k = None" by (simp add: map_of_eq_None_iff)
  have "map_of (maps_Copy dst (p # src)) = (map_of dst)(k \<mapsto> v) ++ map_of src"
    using Cons.IH [of "AList.update k v dst"] Cons.prems by (simp add: maps_Copy_def p AList.update_conv' fun_upd_def)
  also have "\<dots> = map_of dst ++ map_of (p # src)"
    using fresh by (auto simp: p map_add_def fun_eq_iff split: option.split)
  finally show ?case .
qed (simp add: maps_Copy_def)

lemma distinct_maps_Copy: "distinct (map fst dst) \<Longrightarrow> distinct (map fst (maps_Copy dst src))"
  by (induction src arbitrary: dst) (auto simp: maps_Copy_def AList.distinct_update)

definition setting_value :: "setting list \<Rightarrow> (string \<rightharpoonup> string)" where
  "setting_value settings = map_of (map (\<lambda>s. (st_Name s, st_Value s)) settings)"

lemma map_sortedSettings [simp]:
  "map (\<lambda>s. (st_Name s, st_Value s)) (sortedSettings al) = sort_key fst al"
  by (simp add: sortedSettings_def comp_def case_prod_beta)

lemma setting_value_sortedSettings:
  assumes "distinct (map fst al)"
  shows "setting_value (sortedSettings al) = map_of al"
proof -
  have "mset (map fst (sort_key fst al)) = mset (map fst al)" by simp
  then have "distinct (map fst (sort_key fst al))"
    using assms mset_eq_imp_distinct_iff by blast
  then show ?thesis
    using assms by (simp add: setting_value_def map_of_inject_set)
qed

section \<open>Ownership\<close>

lemma distinct_ownedParameters: "distinct (map fst ownedParameters)"
  by code_simp

lemma distinct_BlockedDefaults: "distinct (map fst BlockedDefaults)"
proof -
  have "map fst BlockedDefaults =
      map fst (filter (\<lambda>(name, entry). ow_Ownership entry = OwnershipBlocked \<and> \<not> ow_Omit entry) ownedParameters)"
    by (simp add: BlockedDefaults_def case_prod_beta comp_def)
  then show ?thesis using distinct_ownedParameters by (simp add: distinct_map_filter)
qed

lemma distinct_computed_settings: "distinct (map fst (computed_settings config))"
  by (simp add: computed_settings_def guc_defs)

lemma distinct_owned_settings: "distinct (map fst (owned_settings config))"
  by (simp add: owned_settings_def AList.distinct_update distinct_maps_Copy distinct_computed_settings)

lemma map_of_owned_settings:
  "map_of (owned_settings config) =
     (map_of (computed_settings config) ++ map_of BlockedDefaults)
       (''shared_buffers'' \<mapsto> ic_SharedBuffers config, ''effective_cache_size'' \<mapsto> ic_EffectiveCacheSize config)"
  by (simp add: owned_settings_def AList.update_conv' map_of_maps_Copy distinct_BlockedDefaults)

text \<open>The constant of a blocked parameter reaches the file.\<close>

lemma blocked_value_is_rendered:
  assumes "ow_Ownership (Classify name) = OwnershipBlocked" "\<not> ow_Omit (Classify name)"
  shows "map_of (owned_settings config) name = Some (ow_Value (Classify name))"
proof -
  obtain entry where entry: "map_of ownedParameters name = Some entry" "Classify name = entry"
    using assms(1) by (auto simp: Classify_def split: option.splits)
  then have "(name, entry) \<in> set ownedParameters" by (simp add: map_of_SomeD)
  then have "(name, ow_Value entry) \<in> set BlockedDefaults"
    using assms entry by (force simp: BlockedDefaults_def)
  then have "map_of BlockedDefaults name = Some (ow_Value entry)"
    by (simp add: distinct_BlockedDefaults)
  moreover have "ow_Ownership (Classify ''shared_buffers'') = OwnershipFixed"
      "ow_Ownership (Classify ''effective_cache_size'') = OwnershipFixed"
    by code_simp+
  then have "name \<noteq> ''shared_buffers''" "name \<noteq> ''effective_cache_size''" using assms(1) by auto
  ultimately show ?thesis by (simp add: map_of_owned_settings entry)
qed

abbreviation user_merge :: "(string \<times> string) list \<Rightarrow> (string \<times> string) list \<Rightarrow> (string \<times> string) list" where
  "user_merge \<equiv>
     foldl (\<lambda>m (name, v). if IsPinned name \<or> \<not> RenderableParameter name v then m else AList.update name v m)"

lemma distinct_user_merge: "distinct (map fst m) \<Longrightarrow> distinct (map fst (user_merge m ps))"
  by (induction ps arbitrary: m) (auto simp: AList.distinct_update)

lemma map_of_user_merge:
  assumes "distinct (map fst ps)"
  shows "map_of (user_merge m ps) name =
    (case map_of ps name of
       None \<Rightarrow> map_of m name
     | Some v \<Rightarrow> if IsPinned name \<or> \<not> RenderableParameter name v then map_of m name else Some v)"
  using assms
proof (induction ps arbitrary: m)
  case (Cons p ps)
  obtain k v where p: "p = (k, v)" by (cases p)
  from Cons.prems p have fresh: "map_of ps k = None" by (simp add: map_of_eq_None_iff)
  show ?case
    using Cons.IH [of "if IsPinned k \<or> \<not> RenderableParameter k v then m else AList.update k v m"] Cons.prems fresh
    by (auto simp: p AList.update_conv' split: option.split)
qed simp

lemma RenderCustomConf_value:
  assumes "distinct (map fst (ic_UserParameters config))"
  shows "setting_value (RenderCustomConf config) name =
    (case map_of (ic_UserParameters config) name of
       None \<Rightarrow> map_of (owned_settings config) name
     | Some v \<Rightarrow>
         if IsPinned name \<or> \<not> RenderableParameter name v then map_of (owned_settings config) name else Some v)"
  using assms
  by (simp add: RenderCustomConf_def setting_value_sortedSettings distinct_user_merge
      distinct_owned_settings map_of_user_merge)

section \<open>Reading a rendered file back\<close>

lemma trim_runes_stops:
  assumes "\<forall>r \<in> set rs. r \<noteq> [] \<longrightarrow> s \<noteq> [] \<longrightarrow> hd r \<noteq> hd s"
  shows "trim_runes rs s = s"
proof (rule trim_runes_id)
  have "\<not> (r \<noteq> [] \<and> prefix r s)" if "r \<in> set rs" for r
    using assms that by (cases r; cases s) auto
  then show "find (\<lambda>r. r \<noteq> [] \<and> prefix r s) rs = None" by (auto simp: find_None_iff)
qed

definition space_first :: "char set" where
  "space_first = hd ` set space_runes"

definition space_last :: "char set" where
  "space_last = last ` set space_runes"

lemma trailing_stops:
  assumes "last s \<notin> space_last"
  shows "trim_runes (map rev space_runes) (rev s) = rev s"
proof (rule trim_runes_stops, intro ballI impI)
  fix r assume "r \<in> set (map rev space_runes)" "r \<noteq> []" "rev s \<noteq> []"
  then obtain r' where "r' \<in> set space_runes" "r = rev r'" by auto
  then have "hd r \<in> space_last" using \<open>r \<noteq> []\<close> by (simp add: space_last_def hd_rev)
  then show "hd r \<noteq> hd (rev s)" using assms by (auto simp: hd_rev)
qed

lemma TrimSpace_id:
  assumes "s \<noteq> []" "hd s \<notin> space_first" "last s \<notin> space_last"
  shows "TrimSpace s = s"
proof -
  have "trim_runes space_runes s = s"
    using assms(2) by (intro trim_runes_stops) (metis space_first_def imageI)
  moreover have "trim_runes (map rev space_runes) (rev s) = rev s"
    using assms(3) by (rule trailing_stops)
  ultimately show ?thesis by (simp add: TrimSpace_def)
qed

lemma trim_space_step:
  "trim_runes space_runes (CHR 0x20 # s) = trim_runes space_runes s"
  "trim_runes (map rev space_runes) (CHR 0x20 # s) = trim_runes (map rev space_runes) s"
  by (subst trim_runes.simps, simp add: space_runes_def)+

lemma TrimSpace_leading: "s \<noteq> [] \<Longrightarrow> hd s \<notin> space_first \<Longrightarrow> last s \<notin> space_last \<Longrightarrow> TrimSpace (CHR 0x20 # s) = s"
  using TrimSpace_id [of s] by (simp add: TrimSpace_def trim_space_step)

lemma TrimSpace_trailing:
  assumes "s \<noteq> []" "hd s \<notin> space_first" "last s \<notin> space_last"
  shows "TrimSpace (s @ [CHR 0x20]) = s"
proof -
  have "trim_runes space_runes (s @ [CHR 0x20]) = s @ [CHR 0x20]"
    using assms(1,2) by (intro trim_runes_stops) (metis hd_append2 space_first_def imageI)
  moreover have "trim_runes (map rev space_runes) (rev s) = rev s"
    using assms(3) by (rule trailing_stops)
  ultimately show ?thesis by (simp add: TrimSpace_def trim_space_step)
qed

abbreviation plain_char :: "char \<Rightarrow> bool" where
  "plain_char c \<equiv>
     c \<notin> space_first \<and> c \<notin> space_last \<and> c \<noteq> CHR ''#'' \<and> c \<noteq> CHR ''='' \<and> c \<noteq> newline"

lemma guc_letter_plain: "guc_letter c \<or> in_range CHR ''0'' CHR ''9'' c \<Longrightarrow> plain_char c"
  by (auto simp: guc_letter_def in_range_def space_first_def space_last_def space_runes_def newline_def)

lemma Cut_found: "Cut s sep = (a, b, True) \<Longrightarrow> s = a @ sep # b \<and> sep \<notin> set a"
  by (induction s arbitrary: a) (auto split: if_splits prod.splits bool.splits)

lemma validGUCIdentifier_chars:
  assumes "validGUCIdentifier s"
  shows "s \<noteq> []" and "\<forall>c \<in> set s. plain_char c"
proof -
  have "\<forall>c \<in> set s. guc_letter c \<or> in_range CHR ''0'' CHR ''9'' c"
    using assms by (cases s) (auto simp: validGUCIdentifier_def list_all_iff)
  then show "\<forall>c \<in> set s. plain_char c" by (intro ballI guc_letter_plain) (rule bspec)
qed (use assms in \<open>auto simp: validGUCIdentifier_def\<close>)

lemma validGUCName_chars:
  assumes "validGUCName name"
  shows "name \<noteq> [] \<and> hd name \<notin> space_first \<and> last name \<notin> space_last \<and> hd name \<noteq> CHR ''#'' \<and>
    CHR ''='' \<notin> set name \<and> newline \<notin> set name"
proof -
  have dot: "CHR ''.'' \<noteq> CHR ''=''" "CHR ''.'' \<noteq> newline" by (simp_all add: newline_def)
  consider "validGUCIdentifier name"
    | a b where "name = a @ CHR ''.'' # b" "validGUCIdentifier a" "validGUCIdentifier b"
    using assms by (auto simp: validGUCName_def split: prod.splits if_splits dest!: Cut_found)
  then show ?thesis
  proof cases
    case 1
    from validGUCIdentifier_chars [OF this] hd_in_set [of name] last_in_set [of name] show ?thesis by blast
  next
    case (2 a b)
    have plain: "plain_char c" if "c \<in> set a \<union> set b" for c
      using that validGUCIdentifier_chars(2) [OF 2(2)] validGUCIdentifier_chars(2) [OF 2(3)] by (elim UnE bspec [rotated])
    have ends: "a \<noteq> []" "b \<noteq> []" using 2(2,3) by (simp_all add: validGUCIdentifier_chars(1))
    then have "hd name = hd a" "last name = last b" by (simp_all add: 2(1))
    moreover have "CHR ''='' \<notin> set a \<union> set b" "newline \<notin> set a \<union> set b"
      using plain by blast+
    then have "CHR ''='' \<notin> set name" "newline \<notin> set name"
      using dot not_sym [OF dot(2)] by (simp_all add: 2(1))
    ultimately show ?thesis
      using plain [of "hd a"] plain [of "last b"] ends hd_in_set [OF ends(1)] last_in_set [OF ends(2)] 2(1) by simp
  qed
qed

lemma undouble_other: "c \<noteq> q \<Longrightarrow> undouble q (c # s) = c # undouble q s"
  by (cases s) auto

lemma undouble_ReplaceAll [simp]: "undouble q (ReplaceAll v q [q, q]) = v"
  by (induction v) (auto simp: ReplaceAll_def undouble_other)

lemma newline_in_ReplaceAll: "newline \<notin> set v \<Longrightarrow> newline \<notin> set (ReplaceAll v (CHR 0x27) [CHR 0x27, CHR 0x27])"
  by (auto simp: ReplaceAll_def newline_def)

abbreviation printable :: "setting \<Rightarrow> bool" where
  "printable s \<equiv> validGUCName (st_Name s) \<and> newline \<notin> set (st_Value s)"

lemma parse_setting_line:
  assumes "printable s"
  shows "parse_line (setting_line s) = Some (st_Name s, st_Value s) \<and> newline \<notin> set (setting_line s)"
proof -
  let ?q = "[CHR 0x27] @ ReplaceAll (st_Value s) (CHR 0x27) [CHR 0x27, CHR 0x27] @ [CHR 0x27]"
  let ?n = "st_Name s"
  note name = validGUCName_chars [of ?n]
  have quote: "CHR 0x27 \<notin> space_first" "CHR 0x27 \<notin> space_last"
    by (auto simp: space_first_def space_last_def space_runes_def)
  have "TrimSpace (setting_line s) = setting_line s"
    using assms name quote by (intro TrimSpace_id) (auto simp: setting_line_def)
  moreover have "setting_line s = (?n @ '' '') @ CHR ''='' # (CHR 0x20 # ?q)"
    by (simp add: setting_line_def)
  then have "Cut (setting_line s) CHR ''='' = (?n @ '' '', CHR 0x20 # ?q, True)"
    using assms name Cut_append [of "CHR ''=''" "?n @ '' ''"] by auto
  moreover have "TrimSpace (CHR 0x20 # ?q) = ?q"
    using quote by (intro TrimSpace_leading) auto
  moreover have "TrimSpace (?n @ '' '') = ?n"
    using assms name TrimSpace_trailing [of ?n] by auto
  moreover have "unquote_value ?q = st_Value s"
    by (simp add: unquote_value_def)
  ultimately show ?thesis
    using assms name newline_in_ReplaceAll [of "st_Value s"]
    by (auto simp: parse_line_def setting_line_def newline_def)
qed

lemma trim_runes_keeps_last:
  "\<forall>r \<in> set rs. c \<notin> set r \<Longrightarrow> \<exists>ys. trim_runes rs (xs @ [c]) = ys @ [c]"
proof (induction "length xs" arbitrary: xs rule: less_induct)
  case less
  show ?case
  proof (cases "find (\<lambda>r. r \<noteq> [] \<and> prefix r (xs @ [c])) rs")
    case None
    then show ?thesis by (simp add: trim_runes_id)
  next
    case (Some r)
    then obtain i where "i < length rs" "r = rs ! i" "r \<noteq> []" "prefix r (xs @ [c])"
      unfolding find_Some_iff by blast
    then have r: "r \<in> set rs" "r \<noteq> []" "prefix r (xs @ [c])" by simp_all
    then have "prefix r xs" using less.prems by (auto simp: prefix_snoc)
    then obtain zs where "xs = r @ zs" by (auto simp: prefix_def)
    with r(2) less.hyps [of zs] less.prems Some show ?thesis by (subst trim_runes.simps) simp
  qed
qed

lemma parse_comment: "parse_line (CHR ''#'' # s) = None"
proof -
  have hash: "\<forall>r \<in> set space_runes. CHR ''#'' \<notin> set r" "CHR ''#'' \<notin> space_first"
    by (auto simp: space_runes_def space_first_def)
  have "trim_runes space_runes (CHR ''#'' # s) = CHR ''#'' # s"
    using hash(2) by (intro trim_runes_stops) (metis imageI list.sel(1) space_first_def)
  moreover obtain ys where "trim_runes (map rev space_runes) (rev s @ [CHR ''#'']) = ys @ [CHR ''#'']"
    using trim_runes_keeps_last [of "map rev space_runes" "CHR ''#''" "rev s"] hash(1) by auto
  ultimately have "TrimSpace (CHR ''#'' # s) = CHR ''#'' # rev ys" by (simp add: TrimSpace_def)
  then show ?thesis by (simp add: parse_line_def)
qed

lemma Split_lines:
  "\<forall>l \<in> set ls. newline \<notin> set l \<Longrightarrow> Split newline (concat (map (\<lambda>l. l @ [newline]) ls)) = ls @ [[]]"
  by (induction ls) (simp_all add: Split_append)

lemma foldl_parse_settings:
  "\<forall>s \<in> set settings. printable s \<Longrightarrow> distinct (map st_Name settings) \<Longrightarrow>
   foldl (\<lambda>m line. case parse_line line of None \<Rightarrow> m | Some (name, v) \<Rightarrow> m(name \<mapsto> v)) m (map setting_line settings) =
   m ++ setting_value settings"
proof (induction settings arbitrary: m)
  case (Cons s settings)
  then have "parse_line (setting_line s) = Some (st_Name s, st_Value s)" by (simp add: parse_setting_line)
  moreover have "setting_value settings (st_Name s) = None"
    using Cons.prems(2) by (auto simp: setting_value_def map_of_eq_None_iff)
  moreover have "(m(st_Name s \<mapsto> st_Value s) ++ setting_value settings) = m ++ setting_value (s # settings)"
    using calculation(2) by (auto simp: setting_value_def map_add_def fun_eq_iff split: option.split)
  ultimately show ?case using Cons by simp
qed (simp add: setting_value_def)

section \<open>Properties\<close>

text \<open>
  A user parameter decides exactly what is the user's to decide. Whatever the spec carries, a pinned
  parameter has the value it has without any user parameter, and a parameter that is not pinned and
  renders as one line has the user's value, over the computed default of a tuned one.
\<close>

theorem pinned_parameters_cannot_be_overridden:
  assumes "distinct (map fst users)"
  shows "(IsPinned name \<longrightarrow>
      setting_value (RenderCustomConf (config\<lparr>ic_UserParameters := users\<rparr>)) name =
      setting_value (RenderCustomConf (config\<lparr>ic_UserParameters := []\<rparr>)) name) \<and>
    (\<not> IsPinned name \<and> map_of users name = Some v \<and> RenderableParameter name v \<longrightarrow>
      setting_value (RenderCustomConf (config\<lparr>ic_UserParameters := users\<rparr>)) name = Some v)"
proof -
  have same: "owned_settings (config\<lparr>ic_UserParameters := u\<rparr>) = owned_settings config" for u
    by (simp add: owned_settings_def computed_settings_def)
  show ?thesis
    using assms by (cases "map_of users name") (simp_all add: RenderCustomConf_value same)
qed

text \<open>
  Reading a rendered file back gives the settings it was rendered from: quotes, spaces, equals signs and
  comment characters inside a value change nothing, and neither does the header.
\<close>

theorem settings_round_trip:
  assumes "newline \<notin> set header"
    and "\<forall>s \<in> set settings. validGUCName (st_Name s) \<and> newline \<notin> set (st_Value s)"
    and "distinct (map st_Name settings)"
  shows "ParseSettings (FormatSettings header settings) = setting_value settings"
proof -
  let ?generated = "''# Generated by pgelastic. Edits are overwritten on the next reconcile.''"
  let ?lines = "(''# '' @ header) # ?generated # map setting_line settings"
  have "\<forall>l \<in> set ?lines. newline \<notin> set l"
    using assms(1,2) parse_setting_line by (auto simp: newline_def)
  then have "Split newline (concat (map (\<lambda>l. l @ [newline]) ?lines)) = ?lines @ [[]]" by (rule Split_lines)
  then have "Split newline (FormatSettings header settings) = ?lines @ [[]]"
    by (simp add: FormatSettings_def generated_line_def comp_def)
  moreover have "parse_line [] = None" by (simp add: parse_line_def TrimSpace_def)
  ultimately show ?thesis
    using foldl_parse_settings [OF assms(2,3), of Map.empty] by (simp add: ParseSettings_def parse_comment)
qed

definition ascii_lower :: "char \<Rightarrow> char" where
  "ascii_lower c = (if in_range CHR ''A'' CHR ''Z'' c then char_of ((of_char c :: nat) + 32) else c)"

text \<open>
  C39. The ownership table is matched by exact spelling, while PostgreSQL reads parameter names without
  regard to case: \<open>wal_log_hints\<close> is blocked and never emitted, and the same name in capitals is the
  user's, passes both filters and is rendered.
\<close>

theorem capitals_escape_the_table:
  assumes "newline \<notin> set v \<and> CHR 0x0D \<notin> set v"
  shows "IsPinned ''wal_log_hints'' \<and> map ascii_lower ''WAL_LOG_HINTS'' = ''wal_log_hints'' \<and>
    UserParameters [(''WAL_LOG_HINTS'', v)] = ([(''WAL_LOG_HINTS'', v)], []) \<and>
    setting_value (RenderCustomConf (config\<lparr>ic_UserParameters := [(''WAL_LOG_HINTS'', v)]\<rparr>)) ''WAL_LOG_HINTS'' = Some v \<and>
    setting_value (RenderCustomConf (config\<lparr>ic_UserParameters := [(''WAL_LOG_HINTS'', v)]\<rparr>)) ''wal_log_hints'' = None"
proof -
  have pins: "IsPinned ''wal_log_hints''" "\<not> IsPinned ''WAL_LOG_HINTS''" "validGUCName ''WAL_LOG_HINTS''"
      "map_of BlockedDefaults ''wal_log_hints'' = None"
    by code_simp+
  have "RenderableParameter ''WAL_LOG_HINTS'' v"
    using assms pins(3) by (simp add: RenderableParameter_def newline_def)
  moreover have "map_of (owned_settings config) ''wal_log_hints'' = None" for config
    using pins(4) by (simp add: map_of_owned_settings computed_settings_def guc_defs map_add_def)
  moreover have "map ascii_lower ''WAL_LOG_HINTS'' = ''wal_log_hints''" by code_simp
  ultimately show ?thesis
    using pins by (simp add: UserParameters_def RenderCustomConf_value)
qed

section \<open>Witnesses\<close>

definition example_config :: instance_config where
  "example_config =
     \<lparr>ic_MemberName = ''pg-1'', ic_Capacity = DeriveCapacity 50 0 3 2, ic_SocketDirectory = ''/run'', ic_Port = 5432,
      ic_LogDirectory = ''/log'', ic_LogFilename = ''fifo'', ic_ArchiveCommand = ''archive %p'',
      ic_ArchiveTimeout = ''60s'', ic_WALVolumeBytes = 0, ic_SynchronousCommit = ''on'',
      ic_AutovacuumWorkerSlots = 16, ic_ActiveReplicationOrigins = 10, ic_SharedBuffers = ''512MB'',
      ic_EffectiveCacheSize = ''1GB'', ic_ParallelWorkers = 1, ic_Major = 18, ic_PrimaryEpoch = 1,
      ic_UserParameters = []\<rparr>"

theorem pinned_parameters_cannot_be_overridden_witness:
  "setting_value (RenderCustomConf (example_config\<lparr>ic_UserParameters := [(''fsync'', ''off''), (''work_mem'', ''64MB'')]\<rparr>))
     ''work_mem'' = Some ''64MB''"
proof -
  have "distinct (map fst [(''fsync'', ''off''), (''work_mem'', ''64MB'')])"
      "\<not> IsPinned ''work_mem''" "RenderableParameter ''work_mem'' ''64MB''"
    by code_simp+
  with pinned_parameters_cannot_be_overridden [of "[(''fsync'', ''off''), (''work_mem'', ''64MB'')]" "''work_mem''"]
  show ?thesis by simp
qed

theorem settings_round_trip_witness:
  "ParseSettings (FormatSettings ''a = b # c''
     [\<lparr>st_Name = ''archive_command'', st_Value = '' cp = '' @ [CHR 0x27] @ ''%p'' @ [CHR 0x27] @ ''  # x ''\<rparr>])
   ''archive_command'' = Some ('' cp = '' @ [CHR 0x27] @ ''%p'' @ [CHR 0x27] @ ''  # x '')"
proof -
  have "validGUCName ''archive_command''" by code_simp
  then show ?thesis by (subst settings_round_trip) (simp_all add: newline_def setting_value_def)
qed

theorem capitals_escape_the_table_witness:
  "setting_value (RenderCustomConf (example_config\<lparr>ic_UserParameters := [(''WAL_LOG_HINTS'', ''on'')]\<rparr>))
     ''WAL_LOG_HINTS'' = Some ''on''"
  using capitals_escape_the_table [of "''on''" example_config] by (simp add: newline_def)

end
