(* ===== verification/HA_Quorum.thy ===== *)
theory HA_Quorum
  imports Go_Prelude
begin

text \<open>
  The quorum gate (\<open>internal/ha/quorum.go\<close>) and the lifting of the stored record into it
  (\<open>internal/ha/adapt.go\<close>). The locale \<open>quorum_gate\<close> states what the failover decision relies
  on: a satisfied gate leaves fewer voters out of reach than a commit waits for, so every set of
  voters large enough to have acknowledged a commit has a member the operator can reach. It is
  interpreted on \<open>EvaluateQuorum\<close>.

  Message texts: each \<open>fmt.Sprintf\<close> of the source is a constructor applied to the values the
  format string interpolates. This holds for the messages of every component.
\<close>

record evidence =
  ev_SynchronousStandbyNames :: string
  ev_NumSync :: int
  ev_VotingMembers :: "string list"
  ev_StreamingMembers :: "string list"
  ev_ReportedBy :: string
  ev_ObservedAt :: time

definition zero_evidence :: evidence where
  "zero_evidence =
     \<lparr>ev_SynchronousStandbyNames = [], ev_NumSync = 0, ev_VotingMembers = [],
      ev_StreamingMembers = [], ev_ReportedBy = [], ev_ObservedAt = 0\<rparr>"

datatype quorum_reason =
    NoQuorumReason
  | QuorumEvidenceMissing
  | QuorumEvidenceStale
  | QuorumNotProven
  | QuorumProven

datatype quorum_message =
    NoQuorumMessage
  | NoLoadedClause
  | LastObserved time duration
  | QuorumArithmetic int int int string

record quorum_verdict =
  qv_Satisfied :: bool
  qv_N :: int
  qv_W :: int
  qv_R :: int
  qv_ReachableVoters :: "string list"
  qv_Reason :: quorum_reason
  qv_Message :: quorum_message

definition zero_verdict :: quorum_verdict where
  "zero_verdict =
     \<lparr>qv_Satisfied = False, qv_N = 0, qv_W = 0, qv_R = 0, qv_ReachableVoters = [],
      qv_Reason = NoQuorumReason, qv_Message = NoQuorumMessage\<rparr>"

definition MaxEvidenceAge :: duration where
  "MaxEvidenceAge = 5 * minute"

definition EvaluateQuorum :: "evidence \<Rightarrow> string list \<Rightarrow> time \<Rightarrow> quorum_verdict" where
  "EvaluateQuorum evidence reachable reference =
     (let verdict = zero_verdict
            \<lparr>qv_N := int (length (ev_VotingMembers evidence)), qv_W := ev_NumSync evidence\<rparr> in
      if qv_N verdict = 0 \<or> qv_W verdict \<le> 0 \<or> ev_SynchronousStandbyNames evidence = [] then
        verdict\<lparr>qv_Reason := QuorumEvidenceMissing, qv_Message := NoLoadedClause\<rparr>
      else if IsZero (ev_ObservedAt evidence) \<or>
              time_sub reference (ev_ObservedAt evidence) > MaxEvidenceAge then
        verdict\<lparr>qv_Reason := QuorumEvidenceStale,
                qv_Message := LastObserved (ev_ObservedAt evidence) MaxEvidenceAge\<rparr>
      else
        let reachableSet = setOf reachable;
            voters = sort_func go_compare
                       (filter (\<lambda>voter. reachableSet voter) (ev_VotingMembers evidence));
            r = int (length voters);
            satisfied = r + qv_W verdict > qv_N verdict
        in verdict\<lparr>qv_ReachableVoters := voters, qv_R := r, qv_Satisfied := satisfied,
                   qv_Reason := (if satisfied then QuorumProven else QuorumNotProven),
                   qv_Message := QuorumArithmetic r (qv_W verdict) (qv_N verdict)
                                   (ev_SynchronousStandbyNames evidence)\<rparr>)"

definition WriteStalled :: "evidence \<Rightarrow> bool" where
  "WriteStalled evidence =
     (if ev_NumSync evidence \<le> 0 then False
      else int (length (ev_StreamingMembers evidence)) < ev_NumSync evidence)"

fun remaining_loop :: "string \<Rightarrow> int \<Rightarrow> string list \<Rightarrow> int" where
  "remaining_loop member remaining [] = remaining"
| "remaining_loop member remaining (streaming # rest) =
     remaining_loop member (if streaming \<noteq> member then remaining + 1 else remaining) rest"

definition WouldStall :: "evidence \<Rightarrow> string \<Rightarrow> bool" where
  "WouldStall evidence member =
     (if ev_NumSync evidence \<le> 0 then False
      else remaining_loop member 0 (ev_StreamingMembers evidence) < ev_NumSync evidence)"

definition EvidenceStale :: "evidence \<Rightarrow> time \<Rightarrow> duration \<Rightarrow> bool" where
  "EvidenceStale evidence now maxAge =
     (if IsZero (ev_ObservedAt evidence) then True
      else time_sub now (ev_ObservedAt evidence) > maxAge)"

text \<open>The stored \<open>QuorumEvidence\<close> of the custom resource, whose timestamp may be absent.\<close>

record quorum_record =
  qr_SynchronousStandbyNames :: string
  qr_NumSync :: int
  qr_VotingMembers :: "string list"
  qr_StreamingMembers :: "string list"
  qr_ReportedBy :: string
  qr_ObservedAt :: "time option"

definition EvidenceFrom :: "quorum_record option \<Rightarrow> evidence" where
  "EvidenceFrom record =
     (case record of
        None \<Rightarrow> zero_evidence
      | Some r \<Rightarrow>
          (let evidence =
             \<lparr>ev_SynchronousStandbyNames = qr_SynchronousStandbyNames r,
              ev_NumSync = qr_NumSync r,
              ev_VotingMembers = qr_VotingMembers r,
              ev_StreamingMembers = qr_StreamingMembers r,
              ev_ReportedBy = qr_ReportedBy r,
              ev_ObservedAt = 0\<rparr>
           in case qr_ObservedAt r of
                None \<Rightarrow> evidence
              | Some t \<Rightarrow> evidence\<lparr>ev_ObservedAt := t\<rparr>))"

section \<open>The gate's interface\<close>

definition unreachable_voters :: "evidence \<Rightarrow> string list \<Rightarrow> string list" where
  "unreachable_voters evidence reachable =
     filter (\<lambda>v. v \<notin> set reachable) (ev_VotingMembers evidence)"

locale quorum_gate =
  fixes gate :: "evidence \<Rightarrow> string list \<Rightarrow> time \<Rightarrow> bool"
  assumes gate_counts:
      "gate ev reach t \<Longrightarrow> int (length (unreachable_voters ev reach)) < ev_NumSync ev"
    and gate_dated: "gate ev reach t \<Longrightarrow> \<not> IsZero (ev_ObservedAt ev)"
    and gate_fresh: "gate ev reach t \<Longrightarrow> time_sub t (ev_ObservedAt ev) \<le> MaxEvidenceAge"
    and gate_mono: "gate ev reach t \<Longrightarrow> set reach \<subseteq> set reach' \<Longrightarrow> gate ev reach' t"
begin

text \<open>
  Read and write quorums overlap: whichever voters acknowledged a commit, one of them answered.
\<close>

lemma overlap:
  assumes "gate ev reach t" and "acked \<subseteq> set (ev_VotingMembers ev)"
    and "ev_NumSync ev \<le> int (card acked)"
  shows "\<exists>v \<in> acked. v \<in> set reach"
proof (rule ccontr)
  assume "\<not> ?thesis"
  then have "acked \<subseteq> set (unreachable_voters ev reach)"
    using assms(2) by (auto simp: unreachable_voters_def)
  then have "card acked \<le> length (unreachable_voters ev reach)"
    by (meson List.finite_set card_length card_mono le_trans)
  with assms(3) gate_counts [OF assms(1)] show False by linarith
qed

lemma waits_for_someone: "gate ev reach t \<Longrightarrow> 0 < ev_NumSync ev"
  using gate_counts by fastforce

lemma needs_a_reachable_voter:
  assumes "gate ev reach t" and "ev_NumSync ev \<le> int (card (set (ev_VotingMembers ev)))"
  shows "\<exists>v \<in> set (ev_VotingMembers ev). v \<in> set reach"
  using overlap [OF assms(1) subset_refl assms(2)] .

end

section \<open>Facts about the gate\<close>

lemma length_unreachable:
  "length (filter (\<lambda>v. v \<in> set reach) (ev_VotingMembers ev)) + length (unreachable_voters ev reach)
     = length (ev_VotingMembers ev)"
  by (simp add: unreachable_voters_def sum_length_filter_compl)

lemma EvaluateQuorum_Satisfied:
  "qv_Satisfied (EvaluateQuorum ev reach t) \<longleftrightarrow>
     ev_VotingMembers ev \<noteq> [] \<and> 0 < ev_NumSync ev \<and> ev_SynchronousStandbyNames ev \<noteq> [] \<and>
     \<not> IsZero (ev_ObservedAt ev) \<and> time_sub t (ev_ObservedAt ev) \<le> MaxEvidenceAge \<and>
     int (length (unreachable_voters ev reach)) < ev_NumSync ev"
  using length_unreachable [of reach ev]
  by (auto simp: EvaluateQuorum_def zero_verdict_def Let_def)

lemma length_unreachable_mono:
  "set reach \<subseteq> set reach' \<Longrightarrow>
   length (unreachable_voters ev reach') \<le> length (unreachable_voters ev reach)"
  unfolding unreachable_voters_def by (rule length_filter_mono) auto

interpretation gate: quorum_gate "\<lambda>ev reach t. qv_Satisfied (EvaluateQuorum ev reach t)"
proof (unfold_locales, goal_cases)
  case (4 ev reach t reach')
  then show ?case
    using length_unreachable_mono [of reach reach' ev] by (auto simp: EvaluateQuorum_Satisfied)
qed (simp_all add: EvaluateQuorum_Satisfied)

lemma EvaluateQuorum_terms:
  "qv_N (EvaluateQuorum ev reach t) = int (length (ev_VotingMembers ev))"
  "qv_W (EvaluateQuorum ev reach t) = ev_NumSync ev"
  by (simp_all add: EvaluateQuorum_def zero_verdict_def Let_def)

lemma EvaluateQuorum_denies_with_reason:
  "\<not> qv_Satisfied (EvaluateQuorum ev reach t) \<longleftrightarrow>
     qv_Reason (EvaluateQuorum ev reach t)
       \<in> {QuorumEvidenceMissing, QuorumEvidenceStale, QuorumNotProven}"
  by (auto simp: EvaluateQuorum_def zero_verdict_def Let_def)

lemma EvaluateQuorum_ReachableVoters:
  "set (qv_ReachableVoters (EvaluateQuorum ev reach t)) \<subseteq> set (ev_VotingMembers ev) \<inter> set reach"
  by (auto simp: EvaluateQuorum_def zero_verdict_def Let_def)

lemma zero_evidence_denied [simp]: "\<not> qv_Satisfied (EvaluateQuorum zero_evidence reach t)"
  by (simp add: EvaluateQuorum_Satisfied zero_evidence_def)

lemma remaining_loop_filter:
  "remaining_loop member n xs = n + int (length (filter (\<lambda>s. s \<noteq> member) xs))"
  by (induction xs arbitrary: n) auto

section \<open>Properties\<close>

text \<open>
  A satisfied quorum gate proves that no acknowledged commit can be out of sight: for every set
  of voters that is large enough to have acknowledged a commit under the loaded clause (at least
  \<open>NumSync\<close> of the voting members), at least one of them is a member the operator reached.
\<close>

theorem quorum_overlap:
  assumes "qv_Satisfied (EvaluateQuorum ev reach t)"
    and "acked \<subseteq> set (ev_VotingMembers ev)"
    and "ev_NumSync ev \<le> int (card acked)"
  shows "\<exists>v \<in> acked. v \<in> set (qv_ReachableVoters (EvaluateQuorum ev reach t))"
proof -
  obtain v where v: "v \<in> acked" "v \<in> set reach"
    using gate.overlap [OF assms] by blast
  then have "v \<in> set (ev_VotingMembers ev)" using assms(2) by blast
  with v assms(1) show ?thesis
    by (auto simp: EvaluateQuorum_def zero_verdict_def Let_def split: if_splits)
qed

definition example_evidence :: evidence where
  "example_evidence =
     \<lparr>ev_SynchronousStandbyNames = ''ANY 1 (b, c)'', ev_NumSync = 1,
      ev_VotingMembers = [''b'', ''c''], ev_StreamingMembers = [''b'', ''c''],
      ev_ReportedBy = ''a'', ev_ObservedAt = 1000 * second\<rparr>"

theorem quorum_overlap_witness:
  "\<exists>v \<in> {''c''}. v \<in> set (qv_ReachableVoters
      (EvaluateQuorum example_evidence [''b'', ''c''] (1100 * second)))"
  by (rule quorum_overlap)
    (simp_all add: EvaluateQuorum_Satisfied example_evidence_def IsZero_def time_sub_def
      MaxEvidenceAge_def minute_def second_def unreachable_voters_def)

text \<open>
  \<open>WouldStall\<close> is \<open>WriteStalled\<close> asked of the instance the disruption would leave behind: the
  same loaded clause with every streaming entry of the disrupted member gone.
\<close>

theorem WouldStall_is_WriteStalled_after_removal:
  "WouldStall ev member =
     WriteStalled (ev\<lparr>ev_StreamingMembers := removeAll member (ev_StreamingMembers ev)\<rparr>)"
  by (simp add: WouldStall_def WriteStalled_def remaining_loop_filter removeAll_filter_not_eq)
    (simp add: eq_commute [of _ member])

end
