(* ===== verification/Go_Text.thy ===== *)
theory Go_Text
  imports Go_Prelude
begin

text \<open>
  Printing and reading text with Go's standard library: numbers in a base (\<open>strconv\<close>, the verbs \<open>%d\<close>,
  \<open>%X\<close>, \<open>%x\<close>), padding, and \<open>strings.Fields\<close>. The locale \<open>radix\<close> is what a printer of digits
  promises; the reader of \<open>strconv\<close> inverts every such printer.
\<close>

section \<open>Digits in a base\<close>

lemma parse_loop_append:
  "parse_uint_loop b m n s = Inr k \<Longrightarrow>
   parse_uint_loop b m n (s @ t) = parse_uint_loop b m k t"
  by (induction b m n s rule: parse_uint_loop.induct)
    (auto simp: Let_def split: option.splits if_splits)

lemma parse_loop_zeros:
  "1 < b \<Longrightarrow> parse_uint_loop b m 0 (replicate z (CHR ''0'') @ s) = parse_uint_loop b m 0 s"
  by (induction z) (auto simp: digit_value_def)

locale radix =
  fixes base :: nat
    and digit :: "nat \<Rightarrow> char"
    and digits :: "nat \<Rightarrow> string"
  assumes base: "1 < base"
    and digit_value_digit: "d < base \<Longrightarrow> digit_value (digit d) = Some d"
    and digits_eq: "digits k = (if k < base then [digit k] else digits (k div base) @ [digit (k mod base)])"
begin

lemma digits_induct [case_names digit more]:
  assumes "\<And>k. k < base \<Longrightarrow> P k" and "\<And>k. base \<le> k \<Longrightarrow> P (k div base) \<Longrightarrow> P k"
  shows "P k"
proof (induction k rule: less_induct)
  case (less k)
  show ?case
  proof (cases "k < base")
    case False
    then have "k div base < k" using base by (intro div_less_dividend) auto
    with less assms(2) False show ?thesis by simp
  qed (rule assms(1))
qed

lemma parse_digits: "k \<le> m \<Longrightarrow> parse_uint_loop base m 0 (digits k) = Inr k"
proof (induction k rule: digits_induct)
  case (digit k)
  then show ?case by (subst digits_eq) (simp add: digit_value_digit)
next
  case (more k)
  have "k div base \<le> m" using more(3) by (meson div_le_dividend le_trans)
  then have "parse_uint_loop base m 0 (digits (k div base)) = Inr (k div base)" by (rule more(2))
  moreover have "k mod base < base" using base by simp
  ultimately show ?case
    using parse_loop_append [of base m 0 "digits (k div base)" "k div base" "[digit (k mod base)]"] more(1,3)
    by (subst digits_eq) (simp add: digit_value_digit)
qed

lemma digits_nonempty [simp]: "digits k \<noteq> []"
  by (subst digits_eq) simp

lemma digits_all: "(\<And>d. d < base \<Longrightarrow> P (digit d)) \<Longrightarrow> \<forall>c \<in> set (digits k). P c"
proof (induction k rule: digits_induct)
  case (digit k)
  then show ?case by (subst digits_eq) simp
next
  case (more k)
  then show ?case using base by (subst digits_eq) auto
qed

lemma ParseUint_digits: "k < 2 ^ bits \<Longrightarrow> ParseUint (digits k) base bits = Inr k"
  by (simp add: ParseUint_def parse_digits)

lemma ParseUint_padded: "k < 2 ^ bits \<Longrightarrow> ParseUint (replicate z (CHR ''0'') @ digits k) base bits = Inr k"
  using parse_loop_zeros [OF base] by (simp add: ParseUint_def parse_digits)

end

interpretation decimal: radix 10 "\<lambda>d. char_of (48 + d)" show_nat
  by unfold_locales (auto simp: digit_value_def show_nat.simps)

text \<open>\<open>%X\<close> and \<open>%x\<close>, and \<open>%08X\<close> and \<open>%08x\<close> as the same digits padded with zeros to eight places.\<close>

definition hex_digit :: "nat \<Rightarrow> char" where
  "hex_digit d = char_of (if d < 10 then 48 + d else 55 + d)"

fun to_hex :: "nat \<Rightarrow> string" where
  "to_hex n = (if n < 16 then [hex_digit n] else to_hex (n div 16) @ [hex_digit (n mod 16)])"

definition hex_digit_lower :: "nat \<Rightarrow> char" where
  "hex_digit_lower d = char_of (if d < 10 then 48 + d else 87 + d)"

fun to_hex_lower :: "nat \<Rightarrow> string" where
  "to_hex_lower n =
     (if n < 16 then [hex_digit_lower n] else to_hex_lower (n div 16) @ [hex_digit_lower (n mod 16)])"

declare to_hex.simps [simp del] to_hex_lower.simps [simp del]

definition pad8 :: "string \<Rightarrow> string" where
  "pad8 s = replicate (8 - length s) (CHR ''0'') @ s"

interpretation hex: radix 16 hex_digit to_hex
  by unfold_locales (auto simp: digit_value_def hex_digit_def to_hex.simps)

interpretation hex_lower: radix 16 hex_digit_lower to_hex_lower
  by unfold_locales (auto simp: digit_value_def hex_digit_lower_def to_hex_lower.simps)

section \<open>Text without white space\<close>

definition graphic :: "char \<Rightarrow> bool" where
  "graphic c \<longleftrightarrow> 33 \<le> (of_char c :: nat) \<and> (of_char c :: nat) \<le> 126"

lemma newline_not_graphic: "\<not> graphic newline"
  by (simp add: graphic_def newline_def)

lemma space_rune_ends:
  "r \<in> set space_runes \<Longrightarrow> r \<noteq> [] \<and> \<not> graphic (hd r) \<and> \<not> graphic (last r)"
  by (auto simp: space_runes_def graphic_def)

lemma find_rune_graphic:
  assumes "s = [] \<or> graphic (hd s)" and "\<forall>r \<in> set rs. r \<noteq> [] \<longrightarrow> \<not> graphic (hd r)"
  shows "find (\<lambda>r. r \<noteq> [] \<and> prefix r s) rs = None"
proof (unfold find_None_iff, clarify)
  fix r assume "r \<in> set rs" "prefix r s" "r \<noteq> []"
  then obtain c r' s' where "r = c # r'" "s = c # s'" by (metis Cons_prefix_Cons list.exhaust prefix_Nil)
  with assms \<open>r \<in> set rs\<close> \<open>r \<noteq> []\<close> show False by auto
qed

lemma TrimSpace_graphic:
  assumes "\<forall>c \<in> set s. graphic c"
  shows "TrimSpace s = s"
proof -
  have "trim_runes space_runes s = s"
    using assms space_rune_ends by (intro trim_runes_id find_rune_graphic) (cases s; auto)+
  moreover have "rev s = [] \<or> graphic (hd (rev s))"
    using assms by (cases s rule: rev_cases) auto
  then have "trim_runes (map rev space_runes) (rev s) = rev s"
    using space_rune_ends by (intro trim_runes_id find_rune_graphic) (auto simp: hd_rev)
  ultimately show ?thesis by (simp add: TrimSpace_def)
qed

lemma hex_graphic:
  "c \<in> set (to_hex k) \<Longrightarrow> graphic c \<and> c \<noteq> CHR ''/''"
  "c \<in> set (to_hex_lower k) \<Longrightarrow> graphic c"
  "c \<in> set (show_nat k) \<Longrightarrow> graphic c \<and> c \<noteq> CHR ''-'' \<and> c \<noteq> CHR ''+''"
proof -
  have other: "c \<noteq> CHR ''/'' \<and> c \<noteq> CHR ''-'' \<and> c \<noteq> CHR ''+''" if "48 \<le> (of_char c :: nat)" for c
    using that by auto
  have "graphic (hex_digit d) \<and> hex_digit d \<noteq> CHR ''/''" if "d < 16" for d
  proof -
    have "(of_char (hex_digit d) :: nat) = (if d < 10 then 48 + d else 55 + d)"
      using that by (simp add: hex_digit_def)
    then have "48 \<le> (of_char (hex_digit d) :: nat)" "(of_char (hex_digit d) :: nat) \<le> 126"
      using that by (auto split: if_splits)
    then show ?thesis using other [of "hex_digit d"] by (simp add: graphic_def)
  qed
  then show "c \<in> set (to_hex k) \<Longrightarrow> graphic c \<and> c \<noteq> CHR ''/''"
    using hex.digits_all [of "\<lambda>c. graphic c \<and> c \<noteq> CHR ''/''" k] by blast
  have "graphic (hex_digit_lower d)" if "d < 16" for d
    using that by (simp add: hex_digit_lower_def graphic_def)
  then show "c \<in> set (to_hex_lower k) \<Longrightarrow> graphic c"
    using hex_lower.digits_all [of graphic k] by blast
  have "graphic (char_of (48 + d)) \<and> (char_of (48 + d) :: char) \<noteq> CHR ''-'' \<and> (char_of (48 + d) :: char) \<noteq> CHR ''+''"
    if "d < 10" for d :: nat
  proof -
    have "(of_char (char_of (48 + d) :: char) :: nat) = 48 + d" using that by simp
    then show ?thesis using that other [of "char_of (48 + d)"] by (simp add: graphic_def)
  qed
  then show "c \<in> set (show_nat k) \<Longrightarrow> graphic c \<and> c \<noteq> CHR ''-'' \<and> c \<noteq> CHR ''+''"
    using decimal.digits_all [of "\<lambda>c. graphic c \<and> c \<noteq> CHR ''-'' \<and> c \<noteq> CHR ''+''" k] by blast
qed

lemma pad8_graphic: "\<forall>c \<in> set s. graphic c \<Longrightarrow> \<forall>c \<in> set (pad8 s). graphic c"
  by (auto simp: pad8_def graphic_def)

lemma Itoa_graphic: "\<forall>c \<in> set (Itoa n). graphic c"
  using hex_graphic(3) by (auto simp: Itoa_def graphic_def)

lemma Itoa_nonempty [simp]: "Itoa n \<noteq> []"
  by (simp add: Itoa_def)

text \<open>Reading a printed \<open>int64\<close> gives it back.\<close>

lemma ParseInt_Itoa:
  assumes "in_int64 n"
  shows "ParseInt (Itoa n) = Inr n"
proof (cases "n < 0")
  case True
  with assms have "nat (- n) < 2 ^ 64" "\<not> nat (- n) > 2 ^ 63" by (auto simp: in_int64_def)
  with True show ?thesis by (simp add: ParseInt_def Itoa_def decimal.ParseUint_digits)
next
  case False
  obtain c rest where digits: "show_nat (nat n) = c # rest" using decimal.digits_nonempty by (cases "show_nat (nat n)") auto
  then have "c \<noteq> CHR ''-''" "c \<noteq> CHR ''+''" using hex_graphic(3) [of c "nat n"] by auto
  moreover have "ParseUint (c # rest) 10 64 = Inr (nat n)" "\<not> nat n \<ge> 2 ^ 63"
    using assms False decimal.ParseUint_digits [of "nat n" 64] by (auto simp: in_int64_def digits)
  ultimately show ?thesis using False by (simp add: ParseInt_def Itoa_def digits)
qed

section \<open>Fields\<close>

text \<open>
  \<open>strings.Fields\<close>: the maximal runs without a white-space rune. UTF-8 is self-synchronising, so a
  rune is recognised by its bytes; \<open>cur\<close> is the field being collected.
\<close>

function fields_from :: "string \<Rightarrow> string \<Rightarrow> string list" where
  "fields_from cur s =
     (case find (\<lambda>r. r \<noteq> [] \<and> prefix r s) space_runes of
        Some r \<Rightarrow> (if cur = [] then [] else [cur]) @ fields_from [] (drop (length r) s)
      | None \<Rightarrow>
          (case s of
             [] \<Rightarrow> if cur = [] then [] else [cur]
           | c # s' \<Rightarrow> fields_from (cur @ [c]) s'))"
  by pat_completeness auto
termination
proof (relation "measure (\<lambda>(cur, s). length s)", goal_cases)
  case (3 cur s r)
  then have "r \<noteq> [] \<and> prefix r s" by (auto simp: find_Some_iff)
  then show ?case by (cases s; cases r) auto
qed auto

declare fields_from.simps [simp del]

definition Fields :: "string \<Rightarrow> string list" where
  "Fields s = fields_from [] s"

lemma fields_from_word:
  "\<forall>c \<in> set w. graphic c \<Longrightarrow> fields_from cur (w @ rest) = fields_from (cur @ w) rest"
proof (induction w arbitrary: cur)
  case (Cons c w)
  have "find (\<lambda>r. r \<noteq> [] \<and> prefix r (c # w @ rest)) space_runes = None"
    using Cons.prems space_rune_ends by (intro find_rune_graphic) auto
  with Cons show ?case by (subst fields_from.simps) simp
qed simp

lemma fields_from_space: "fields_from cur (CHR 0x20 # s) = (if cur = [] then [] else [cur]) @ fields_from [] s"
  by (subst fields_from.simps) (simp add: space_runes_def)

lemma fields_from_Nil: "fields_from cur [] = (if cur = [] then [] else [cur])"
  by (subst fields_from.simps) (simp add: space_runes_def)

lemma Fields_word:
  assumes "\<forall>c \<in> set w. graphic c" "w \<noteq> []"
  shows "Fields (w @ CHR 0x20 # s) = w # Fields s" and "Fields w = [w]"
  using assms fields_from_word [OF assms(1), of "[]" "[]"]
  by (simp_all add: Fields_def fields_from_word fields_from_space fields_from_Nil)

text \<open>A space splits a line, wherever it stands.\<close>

lemma fields_from_split:
  "\<forall>c \<in> set p. graphic c \<or> c = CHR 0x20 \<Longrightarrow>
   fields_from cur (p @ CHR 0x20 # s) = fields_from cur p @ Fields s"
proof (induction p arbitrary: cur)
  case Nil
  then show ?case by (simp add: fields_from_space fields_from_Nil Fields_def)
next
  case (Cons c p)
  show ?case
  proof (cases "c = CHR 0x20")
    case True
    with Cons show ?thesis by (simp add: fields_from_space)
  next
    case False
    with Cons.prems have "graphic c" by simp
    with Cons fields_from_word [of "[c]" cur] show ?thesis by simp
  qed
qed

lemma Fields_split:
  "\<forall>c \<in> set p. graphic c \<or> c = CHR 0x20 \<Longrightarrow> Fields (p @ CHR 0x20 # s) = Fields p @ Fields s"
  by (simp add: Fields_def fields_from_split)

lemma fields_from_nonempty:
  "\<forall>c \<in> set p. graphic c \<or> c = CHR 0x20 \<Longrightarrow> cur \<noteq> [] \<Longrightarrow> fields_from cur p \<noteq> []"
proof (induction p arbitrary: cur)
  case (Cons c p)
  then show ?case using fields_from_word [of "[c]" cur p] by (cases "c = CHR 0x20") (simp_all add: fields_from_space)
qed (simp add: fields_from_Nil)

lemma Fields_nonempty:
  "\<forall>c \<in> set p. graphic c \<or> c = CHR 0x20 \<Longrightarrow> p \<noteq> [] \<Longrightarrow> graphic (hd p) \<Longrightarrow> Fields p \<noteq> []"
  using fields_from_word [of "[hd p]" "[]" "tl p"] fields_from_nonempty [of "tl p" "[hd p]"]
  by (cases p) (auto simp: Fields_def)

lemma Fields_three:
  assumes "\<forall>c \<in> set a. graphic c" "\<forall>c \<in> set b. graphic c" "\<forall>c \<in> set d. graphic c" "a \<noteq> []" "b \<noteq> []" "d \<noteq> []"
  shows "Fields (a @ CHR 0x20 # b @ CHR 0x20 # d) = [a, b, d]"
  using assms by (simp add: Fields_word)

end
