(* ===== verification/HA_LSN.thy ===== *)
theory HA_LSN
  imports Go_Text
begin

unbundle bit_operations_syntax

text \<open>
  Write-ahead log positions (\<open>internal/ha/lsn.go\<close>): the 64-bit number, its reader \<open>ParseLSN\<close>, the
  lenient reader \<open>MustParseLSN\<close> that candidate selection uses, and its printer. The printer and the
  reader are inverse to each other, so ranking on the parsed number is ranking on the position.
\<close>

type_synonym LSN = "64 word"

datatype lsn_error =
    NotALogSequenceNumber string
  | UnreadableSegment string num_error
  | UnreadableOffset string num_error

definition ParseLSN :: "string \<Rightarrow> lsn_error + LSN" where
  "ParseLSN value0 =
     (let v = TrimSpace value0 in
      if v = [] then Inr 0
      else case Cut v (CHR ''/'') of
        (high, low, found) \<Rightarrow>
          if \<not> found then Inl (NotALogSequenceNumber v)
          else case ParseUint high 16 32 of
            Inl err \<Rightarrow> Inl (UnreadableSegment v err)
          | Inr upper \<Rightarrow>
              (case ParseUint low 16 32 of
                 Inl err \<Rightarrow> Inl (UnreadableOffset v err)
               | Inr lower \<Rightarrow> Inr (push_bit 32 (of_nat upper) OR of_nat lower)))"

definition MustParseLSN :: "string \<Rightarrow> LSN" where
  "MustParseLSN v = (case ParseLSN v of Inl _ \<Rightarrow> 0 | Inr parsed \<Rightarrow> parsed)"

definition LSN_String :: "LSN \<Rightarrow> string" where
  "LSN_String l =
     to_hex (unat (drop_bit 32 l)) @ [CHR ''/''] @ pad8 (to_hex (unat (l AND 0xFFFFFFFF)))"

lemma LSN_String_graphic: "\<forall>c \<in> set (LSN_String l). graphic c"
proof -
  have "\<forall>c \<in> set (to_hex k). graphic c" for k using hex_graphic(1) by blast
  with pad8_graphic have "\<forall>c \<in> set (pad8 (to_hex k)). graphic c" for k by blast
  with \<open>\<And>k. \<forall>c \<in> set (to_hex k). graphic c\<close> show ?thesis
    by (simp add: LSN_String_def ball_Un) (simp add: graphic_def)
qed

subsection \<open>The two halves of a position\<close>

lemma low_mask: "(0xFFFFFFFF :: LSN) = mask 32"
  by (simp add: mask_eq_exp_minus_1)

lemma unat_low_half: "unat (l AND 0xFFFFFFFF :: LSN) = unat l mod 4294967296"
proof -
  have "unat (take_bit 32 l) = take_bit 32 (unat l)"
    by (rule unsigned_take_bit_eq)
  then show ?thesis
    unfolding low_mask take_bit_eq_mask [symmetric] by (simp add: take_bit_eq_mod)
qed

lemma unat_high_half: "unat (drop_bit 32 l :: LSN) = unat l div 4294967296"
proof -
  have "unat (drop_bit 32 l) = drop_bit 32 (unat l)"
    by (rule unat_drop_bit_eq)
  then show ?thesis by (simp only: drop_bit_eq_div) simp
qed

lemma halves_join: "push_bit 32 (drop_bit 32 l) OR (l AND 0xFFFFFFFF) = (l :: LSN)"
  unfolding low_mask take_bit_eq_mask [symmetric]
  by (rule bit_eqI) (auto simp: bit_or_iff bit_push_bit_iff bit_drop_bit_eq bit_take_bit_iff)

text \<open>Printing a position and reading it back is the identity on every 64-bit value.\<close>

lemma ParseLSN_String [simp]: "ParseLSN (LSN_String l) = Inr l"
proof -
  have trim: "TrimSpace (LSN_String l) = LSN_String l"
    by (rule TrimSpace_graphic) (rule LSN_String_graphic)
  have cut: "Cut (LSN_String l) (CHR ''/'') =
      (to_hex (unat (drop_bit 32 l)), pad8 (to_hex (unat (l AND 0xFFFFFFFF))), True)"
    unfolding LSN_String_def append.simps
    by (rule Cut_append) (use hex_graphic(1) in blast)
  have hi: "unat (drop_bit 32 l) < 2 ^ 32"
  proof -
    have "unat l < 2 ^ 64" using unsigned_less [where w = l and 'a = nat] by simp
    then show ?thesis by (simp add: unat_high_half)
  qed
  have lo: "unat (l AND 0xFFFFFFFF) < 2 ^ 32"
    by (simp add: unat_low_half)
  have "LSN_String l \<noteq> []" by (simp add: LSN_String_def)
  with trim cut hi lo show ?thesis
    by (simp add: ParseLSN_def hex.ParseUint_digits pad8_def hex.ParseUint_padded halves_join)
qed

end
