(* ===== verification/HA_Candidate.thy ===== *)
theory HA_Candidate
  imports HA_LSN
begin

text \<open>
  Candidate selection (\<open>internal/ha/candidate.go\<close>): which members may be promoted, in which
  order, and why each of the others may not. The two comparators of the source are shown to be the
  orders of a key (\<open>go_comparator\<close>), which is where the determinism of the ranking comes from.
\<close>

record member =
  m_Name :: string
  m_Timeline :: int
  m_ReceivedLSN :: LSN
  m_ReplayLSN :: LSN
  m_InRecovery :: bool
  m_StatusReachable :: bool
  m_PodReady :: bool
  m_WALReceiverActive :: bool
  m_WALVolumeFull :: bool

definition zero_member :: member where
  "zero_member =
     \<lparr>m_Name = [], m_Timeline = 0, m_ReceivedLSN = 0, m_ReplayLSN = 0, m_InRecovery = False,
      m_StatusReachable = False, m_PodReady = False, m_WALReceiverActive = False,
      m_WALVolumeFull = False\<rparr>"

datatype disqualified_reason =
    DisqualifiedBehindTimeline
  | DisqualifiedOutOfRecovery
  | DisqualifiedUnreachable
  | DisqualifiedNotInSyncSet
  | DisqualifiedNoReceiverAtDetection
  | DisqualifiedIsPrimary
  | DisqualifiedUnderMaintenance

record disqualification =
  dq_Member :: string
  dq_Reason :: disqualified_reason

record candidate_input =
  ci_Members :: "member list"
  ci_KnownPrimary :: string
  ci_LastKnownTimeline :: int
  ci_SyncSet :: "string list"
  ci_StreamingAtDetection :: "string list"
  ci_Maintenance :: "string list"

record candidate_result =
  cr_Candidate :: string
  cr_Ranked :: "string list"
  cr_Disqualified :: "disqualification list"

definition zero_candidate_result :: candidate_result where
  "zero_candidate_result = \<lparr>cr_Candidate = [], cr_Ranked = [], cr_Disqualified = []\<rparr>"

definition disqualify ::
  "member \<Rightarrow> candidate_input \<Rightarrow> (string \<Rightarrow> bool) \<Rightarrow> (string \<Rightarrow> bool) \<Rightarrow> (string \<Rightarrow> bool) \<Rightarrow>
   disqualified_reason option" where
  "disqualify member input syncSet streaming maintenance =
     (if m_Name member = ci_KnownPrimary input then Some DisqualifiedIsPrimary
      else if maintenance (m_Name member) then Some DisqualifiedUnderMaintenance
      else if \<not> m_StatusReachable member then Some DisqualifiedUnreachable
      else if \<not> m_InRecovery member then Some DisqualifiedOutOfRecovery
      else if m_Timeline member < ci_LastKnownTimeline input then Some DisqualifiedBehindTimeline
      else if \<not> syncSet (m_Name member) then Some DisqualifiedNotInSyncSet
      else if \<not> streaming (m_Name member) then Some DisqualifiedNoReceiverAtDetection
      else None)"

definition member_cmp :: "member \<Rightarrow> member \<Rightarrow> int" where
  "member_cmp a b =
     (let order = go_compare (m_Timeline b) (m_Timeline a) in
      if order \<noteq> 0 then order else
      let order = go_compare (m_ReceivedLSN b) (m_ReceivedLSN a) in
      if order \<noteq> 0 then order else
      let order = go_compare (m_ReplayLSN b) (m_ReplayLSN a) in
      if order \<noteq> 0 then order else
      go_compare (m_Name a) (m_Name b))"

definition disqualification_cmp :: "disqualification \<Rightarrow> disqualification \<Rightarrow> int" where
  "disqualification_cmp a b = go_compare (dq_Member a) (dq_Member b)"

fun candidate_loop ::
  "(member \<Rightarrow> disqualified_reason option) \<Rightarrow> disqualification list \<Rightarrow> member list \<Rightarrow> member list \<Rightarrow>
   disqualification list \<times> member list" where
  "candidate_loop judge disqualified eligible [] = (disqualified, eligible)"
| "candidate_loop judge disqualified eligible (member # members) =
     (case judge member of
        Some reason \<Rightarrow>
          candidate_loop judge
            (disqualified @ [\<lparr>dq_Member = m_Name member, dq_Reason = reason\<rparr>]) eligible members
      | None \<Rightarrow> candidate_loop judge disqualified (eligible @ [member]) members)"

definition SelectCandidate :: "candidate_input \<Rightarrow> candidate_result" where
  "SelectCandidate input =
     (let syncSet = setOf (ci_SyncSet input);
          streaming = setOf (ci_StreamingAtDetection input);
          maintenance = setOf (ci_Maintenance input);
          (disqualified, eligible) =
            candidate_loop (\<lambda>m. disqualify m input syncSet streaming maintenance) [] []
              (ci_Members input);
          ranked = map m_Name (sort_func member_cmp eligible)
      in \<lparr>cr_Candidate = (case ranked of [] \<Rightarrow> [] | first # _ \<Rightarrow> first),
          cr_Ranked = ranked,
          cr_Disqualified = sort_func disqualification_cmp disqualified\<rparr>)"

fun timeline_loop :: "int \<Rightarrow> member list \<Rightarrow> int" where
  "timeline_loop highest [] = highest"
| "timeline_loop highest (member # members) =
     timeline_loop
       (if m_StatusReachable member \<and> m_Timeline member > highest then m_Timeline member else highest)
       members"

definition LastKnownTimeline :: "member list \<Rightarrow> int" where
  "LastKnownTimeline members = timeline_loop 0 members"

section \<open>The comparators are orders\<close>

definition member_key :: "member \<Rightarrow> int \<times> int \<times> int \<times> string" where
  "member_key m =
     (- m_Timeline m, - uint (m_ReceivedLSN m), - uint (m_ReplayLSN m), m_Name m)"

lemma uint_le_iff: "(a :: LSN) \<le> b \<longleftrightarrow> uint a \<le> uint b"
  by (rule word_le_def)

lemma uint_eq_lsn: "uint a = uint b \<longleftrightarrow> a = (b :: LSN)"
  by (auto intro: unsigned_word_eqI)

interpretation member_order: go_comparator member_cmp member_key
  by unfold_locales
    (auto simp: member_cmp_def member_key_def Let_def uint_le_iff uint_eq_lsn
      less_eq_prod_def word_less_def order_less_le)

interpretation disqualification_order: go_comparator disqualification_cmp dq_Member
  by unfold_locales (simp add: disqualification_cmp_def)

lemma member_key_inj: "distinct (map m_Name ms) \<Longrightarrow> inj_on member_key (set ms)"
  by (auto simp: member_key_def inj_on_def distinct_map)

section \<open>The loop is a partition\<close>

definition judge_of :: "candidate_input \<Rightarrow> member \<Rightarrow> disqualified_reason option" where
  "judge_of input m =
     disqualify m input (setOf (ci_SyncSet input)) (setOf (ci_StreamingAtDetection input))
       (setOf (ci_Maintenance input))"

definition eligible_members :: "candidate_input \<Rightarrow> member list" where
  "eligible_members input = filter (\<lambda>m. judge_of input m = None) (ci_Members input)"

definition disqualified_members :: "candidate_input \<Rightarrow> disqualification list" where
  "disqualified_members input =
     map (\<lambda>m. \<lparr>dq_Member = m_Name m, dq_Reason = the (judge_of input m)\<rparr>)
       (filter (\<lambda>m. judge_of input m \<noteq> None) (ci_Members input))"

lemma candidate_loop_filter:
  "candidate_loop judge ds es ms =
     (ds @ map (\<lambda>m. \<lparr>dq_Member = m_Name m, dq_Reason = the (judge m)\<rparr>)
             (filter (\<lambda>m. judge m \<noteq> None) ms),
      es @ filter (\<lambda>m. judge m = None) ms)"
  by (induction ms arbitrary: ds es) (auto split: option.splits)

lemma SelectCandidate_eq:
  "SelectCandidate input =
     (let ranked = map m_Name (sort_func member_cmp (eligible_members input)) in
      \<lparr>cr_Candidate = (case ranked of [] \<Rightarrow> [] | first # _ \<Rightarrow> first),
       cr_Ranked = ranked,
       cr_Disqualified = sort_func disqualification_cmp (disqualified_members input)\<rparr>)"
  by (simp add: SelectCandidate_def candidate_loop_filter eligible_members_def
      disqualified_members_def judge_of_def Let_def)

lemma judge_None_iff:
  "judge_of input m = None \<longleftrightarrow>
     m_Name m \<noteq> ci_KnownPrimary input \<and> m_Name m \<notin> set (ci_Maintenance input) \<and>
     m_StatusReachable m \<and> m_InRecovery m \<and> ci_LastKnownTimeline input \<le> m_Timeline m \<and>
     m_Name m \<in> set (ci_SyncSet input) \<and> m_Name m \<in> set (ci_StreamingAtDetection input)"
  by (auto simp: judge_of_def disqualify_def)

lemma timeline_loop_upper: "m \<in> set ms \<Longrightarrow> m_StatusReachable m \<Longrightarrow> m_Timeline m \<le> timeline_loop h ms"
  and timeline_loop_ge: "h \<le> timeline_loop h ms"
proof (induction ms arbitrary: h)
  case (Cons x ms)
  { case 1
    then show ?case
      using Cons(2) [of "if m_StatusReachable x \<and> m_Timeline x > h then m_Timeline x else h"]
        Cons(1) by (auto split: if_splits)
  next
    case 2
    show ?case
      using Cons(2) [of "if m_StatusReachable x \<and> m_Timeline x > h then m_Timeline x else h"]
      by (auto split: if_splits) }
qed simp_all

lemma LastKnownTimeline_upper:
  "m \<in> set ms \<Longrightarrow> m_StatusReachable m \<Longrightarrow> m_Timeline m \<le> LastKnownTimeline ms"
  by (simp add: LastKnownTimeline_def timeline_loop_upper)

lemma timeline_loop_attained:
  "timeline_loop h ms = h \<or> (\<exists>m \<in> set ms. m_StatusReachable m \<and> m_Timeline m = timeline_loop h ms)"
  by (induction ms arbitrary: h) (auto, metis+)

section \<open>The chosen candidate\<close>

lemma Ranked_eq: "cr_Ranked (SelectCandidate input) =
    map m_Name (sort_func member_cmp (eligible_members input))"
  by (simp add: SelectCandidate_eq Let_def)

lemma Candidate_obtains:
  assumes "cr_Candidate (SelectCandidate input) \<noteq> []"
  obtains m where "m \<in> set (ci_Members input)" "judge_of input m = None"
    "m_Name m = cr_Candidate (SelectCandidate input)"
    "\<forall>m' \<in> set (ci_Members input). judge_of input m' = None \<longrightarrow> member_key m \<le> member_key m'"
proof -
  obtain m ms where sorted: "sort_func member_cmp (eligible_members input) = m # ms"
    using assms by (cases "sort_func member_cmp (eligible_members input)")
      (auto simp: SelectCandidate_eq Let_def)
  then have "m \<in> set (eligible_members input)"
    by (metis list.set_intros(1) set_sort_func)
  moreover have "eligible_members input \<noteq> []"
    using sorted by (metis list.distinct(1) sort_func_Nil_iff)
  ultimately show thesis
    using sorted member_order.hd_least [of "eligible_members input"]
    by (intro that [of m]) (auto simp: SelectCandidate_eq Let_def eligible_members_def)
qed

lemma Candidate_eligible:
  assumes "cr_Candidate (SelectCandidate input) \<noteq> []"
  shows "cr_Candidate (SelectCandidate input) \<noteq> ci_KnownPrimary input"
    "cr_Candidate (SelectCandidate input) \<notin> set (ci_Maintenance input)"
    "cr_Candidate (SelectCandidate input) \<in> set (ci_SyncSet input)"
    "cr_Candidate (SelectCandidate input) \<in> set (ci_StreamingAtDetection input)"
    "cr_Candidate (SelectCandidate input) \<in> m_Name ` set (ci_Members input)"
  using Candidate_obtains [OF assms] by (metis judge_None_iff image_eqI)+

section \<open>Properties\<close>

text \<open>
  C29. The candidate is an eligible member of the instance, and no eligible member is ahead of it:
  comparing timeline first, then received position, then replayed position, every other eligible
  member is at most level with it.
\<close>

theorem candidate_is_most_advanced:
  assumes "cr_Candidate (SelectCandidate input) \<noteq> []"
  shows "\<exists>m \<in> set (ci_Members input).
           m_Name m = cr_Candidate (SelectCandidate input) \<and>
           judge_of input m = None \<and>
           (\<forall>m' \<in> set (ci_Members input). judge_of input m' = None \<longrightarrow>
              (m_Timeline m', m_ReceivedLSN m', m_ReplayLSN m')
                \<le> (m_Timeline m, m_ReceivedLSN m, m_ReplayLSN m))"
proof -
  obtain m where m: "m \<in> set (ci_Members input)" "judge_of input m = None"
    "m_Name m = cr_Candidate (SelectCandidate input)"
    "\<forall>m' \<in> set (ci_Members input). judge_of input m' = None \<longrightarrow> member_key m \<le> member_key m'"
    using Candidate_obtains [OF assms] .
  then have "\<forall>m' \<in> set (ci_Members input). judge_of input m' = None \<longrightarrow>
      (m_Timeline m', m_ReceivedLSN m', m_ReplayLSN m')
        \<le> (m_Timeline m, m_ReceivedLSN m, m_ReplayLSN m)"
    by (fastforce simp: member_key_def less_eq_prod_def uint_le_iff word_less_def)
  with m show ?thesis by blast
qed

definition example_member :: "string \<Rightarrow> LSN \<Rightarrow> member" where
  "example_member n l =
     \<lparr>m_Name = n, m_Timeline = 3, m_ReceivedLSN = l, m_ReplayLSN = l, m_InRecovery = True,
      m_StatusReachable = True, m_PodReady = True, m_WALReceiverActive = False,
      m_WALVolumeFull = False\<rparr>"

definition example_input :: candidate_input where
  "example_input =
     \<lparr>ci_Members = [example_member ''b'' 10, example_member ''c'' 20], ci_KnownPrimary = ''a'',
      ci_LastKnownTimeline = 3, ci_SyncSet = [''b'', ''c''],
      ci_StreamingAtDetection = [''b'', ''c''], ci_Maintenance = []\<rparr>"

lemma example_candidate: "cr_Candidate (SelectCandidate example_input) = ''c''"
  by (simp add: SelectCandidate_def example_input_def example_member_def disqualify_def
      sort_func_def member_cmp_def go_compare_def Let_def)

theorem candidate_is_most_advanced_witness:
  "\<exists>m \<in> set (ci_Members example_input).
     m_Name m = cr_Candidate (SelectCandidate example_input) \<and>
     judge_of example_input m = None \<and>
     (\<forall>m' \<in> set (ci_Members example_input). judge_of example_input m' = None \<longrightarrow>
        (m_Timeline m', m_ReceivedLSN m', m_ReplayLSN m')
          \<le> (m_Timeline m, m_ReceivedLSN m, m_ReplayLSN m))"
  by (rule candidate_is_most_advanced) (simp add: example_candidate)

text \<open>
  The answer is deterministic: with distinct member names, two observations that list the same
  members in a different order produce the same candidate, the same ranking and the same record of
  disqualifications.
\<close>

theorem SelectCandidate_order_independent:
  assumes "distinct (map m_Name (ci_Members input))" and "mset ms = mset (ci_Members input)"
  shows "SelectCandidate (input\<lparr>ci_Members := ms\<rparr>) = SelectCandidate input"
proof -
  let ?input = "input\<lparr>ci_Members := ms\<rparr>"
  have judge: "judge_of ?input = judge_of input"
    by (rule ext) (simp add: judge_of_def disqualify_def)
  have "inj_on member_key (set (eligible_members input))"
    by (rule inj_on_subset [OF member_key_inj [OF assms(1)]]) (auto simp: eligible_members_def)
  moreover have "mset (eligible_members ?input) = mset (eligible_members input)"
    by (simp add: eligible_members_def judge assms(2))
  ultimately have eligible: "sort_func member_cmp (eligible_members ?input) =
      sort_func member_cmp (eligible_members input)"
    by (rule member_order.sort_permutation)
  have "inj_on dq_Member (set (disqualified_members input))"
    using assms(1) by (force simp: disqualified_members_def inj_on_def distinct_map)
  moreover have "mset (disqualified_members ?input) = mset (disqualified_members input)"
    by (simp add: disqualified_members_def judge assms(2))
  ultimately have disqualified: "sort_func disqualification_cmp (disqualified_members ?input) =
      sort_func disqualification_cmp (disqualified_members input)"
    by (rule disqualification_order.sort_permutation)
  show ?thesis by (simp add: SelectCandidate_eq eligible disqualified)
qed

theorem SelectCandidate_order_independent_witness:
  "SelectCandidate (example_input\<lparr>ci_Members :=
      [example_member ''c'' 20, example_member ''b'' 10]\<rparr>) = SelectCandidate example_input"
  by (rule SelectCandidate_order_independent)
    (simp_all add: example_input_def example_member_def add_mset_commute)

end
