(* ===== verification/HA_Decide.thy ===== *)
theory HA_Decide
  imports HA_Quorum HA_Candidate
begin

text \<open>
  The two-phase failover decision (\<open>internal/ha/decide.go\<close>). \<open>Decide\<close> is a function of one
  observation; it writes nothing and promotes nothing. The definitions below follow the source
  function by function. The theorems say when a new primary may be named, that naming one cannot
  discard an acknowledged commit, who the read-write Service may select meanwhile, and what each
  refusal leaves behind.
\<close>

definition TargetPrimaryPending :: string where
  "TargetPrimaryPending = ''pending''"

datatype phase =
    PhaseSteady
  | PhaseDebouncing
  | PhaseSentinel
  | PhaseWaitingWALReceivers
  | PhaseCandidateChosen
  | PhaseVetoed
  | PhaseSplitBrain
  | PhasePromoting
  | PhasePlannedSwitchover

datatype veto =
    VetoNone
  | VetoOperatorIsolated
  | VetoPrimaryUnobservable
  | VetoCandidateNotReady
  | VetoCandidateWALVolumeFull

definition Vetoes :: "veto list" where
  "Vetoes =
     [VetoOperatorIsolated, VetoPrimaryUnobservable, VetoCandidateNotReady,
      VetoCandidateWALVolumeFull]"

datatype decision_reason =
    NoPrimaryElectedYet
  | AwaitingPromotion
  | PrimaryHealthy
  | PrimaryUnhealthy
  | WithinFailoverDelay
  | FailoverStarted
  | WALReceiversStillActive
  | CandidateSelected
  | ReasonNoEligibleCandidate
  | ReasonSplitBrain
  | ReasonSwitchoverChosen
  | ReasonSwitchoverNoCandidate
  | ReasonOfQuorum quorum_reason
  | ReasonOfVeto veto

datatype decision_message =
    NotBootstrapped
  | ToldToPromote string
  | KubeletStillReady string
  | AllOutOfRecovery "string list"
  | NoneAnswered int
  | IsServing string
  | SwitchoverDenied string quorum_message
  | EveryoneElseDisqualified string "disqualification list"
  | HandOverFullVolume string
  | HandOverNotReady string
  | TakesTheRole string string quorum_message
  | StoppedAnswering string duration
  | FailingFor string duration duration
  | SentinelSet string
  | StillReceiving "string list"
  | FailoverDenied quorum_message
  | EveryoneDisqualified "disqualification list"
  | PromoteFullVolume string
  | PromoteNotReady string
  | WasChosen string quorum_message

record observation =
  o_Members :: "member list"
  o_CurrentPrimary :: string
  o_TargetPrimary :: string
  o_Evidence :: evidence
  o_FailingSince :: time
  o_FailoverDelay :: duration
  o_QuorumGateEnabled :: bool
  o_Maintenance :: "string list"
  o_Now :: time

definition ObservationUnderMaintenance :: "observation \<Rightarrow> string \<Rightarrow> bool" where
  "ObservationUnderMaintenance o' member \<longleftrightarrow> member \<in> set (o_Maintenance o')"

record decision =
  d_Phase :: phase
  d_TargetPrimary :: string
  d_DemoteMember :: string
  d_ServingPrimary :: string
  d_SetFailingSince :: "time option"
  d_ClearFailingSince :: bool
  d_Veto :: veto
  d_SplitBrain :: bool
  d_Quorum :: quorum_verdict
  d_Candidate :: candidate_result
  d_Reason :: decision_reason
  d_Message :: decision_message
  d_RequeueAfter :: duration

text \<open>A composite literal: the named fields are given, the others keep their zero values.\<close>

definition Decision :: "phase \<Rightarrow> decision_reason \<Rightarrow> decision_message \<Rightarrow> duration \<Rightarrow> decision" where
  "Decision p r msg requeue =
     \<lparr>d_Phase = p, d_TargetPrimary = [], d_DemoteMember = [], d_ServingPrimary = [],
      d_SetFailingSince = None, d_ClearFailingSince = False, d_Veto = VetoNone,
      d_SplitBrain = False, d_Quorum = zero_verdict, d_Candidate = zero_candidate_result,
      d_Reason = r, d_Message = msg, d_RequeueAfter = requeue\<rparr>"

definition FailoverInProgress :: "string \<Rightarrow> string \<Rightarrow> bool" where
  "FailoverInProgress currentPrimary targetPrimary \<longleftrightarrow>
     targetPrimary \<noteq> [] \<and> targetPrimary \<noteq> currentPrimary"

fun memberNamed :: "member list \<Rightarrow> string \<Rightarrow> member \<times> bool" where
  "memberNamed [] name = (zero_member, False)"
| "memberNamed (member # members) name =
     (if m_Name member = name then (member, True) else memberNamed members name)"

definition vetoed :: "observation \<Rightarrow> veto \<Rightarrow> decision_message \<Rightarrow> decision" where
  "vetoed obs v message =
     (Decision PhaseVetoed (ReasonOfVeto v) message (max (o_FailoverDelay obs) (5 * second)))
       \<lparr>d_Veto := v\<rparr>"

definition reachableMembers :: "member list \<Rightarrow> string list" where
  "reachableMembers members = map m_Name (filter m_StatusReachable members)"

definition receiversStillUp :: "observation \<Rightarrow> string list" where
  "receiversStillUp obs =
     sort_func go_compare
       (map m_Name
         (filter (\<lambda>m. \<not> (m_Name m = o_CurrentPrimary obs \<or> \<not> m_StatusReachable m) \<and>
                      m_WALReceiverActive m) (o_Members obs)))"

definition quorumReference :: "observation \<Rightarrow> time" where
  "quorumReference obs = (if IsZero (o_FailingSince obs) then o_Now obs else o_FailingSince obs)"

definition splitBrain :: "observation \<Rightarrow> decision option" where
  "splitBrain obs =
     (let primaries =
        map m_Name (filter (\<lambda>m. m_StatusReachable m \<and> \<not> m_InRecovery m) (o_Members obs)) in
      if length primaries < 2 then None
      else Some ((Decision PhaseSplitBrain ReasonSplitBrain
                   (AllOutOfRecovery (sort_func go_compare primaries)) 0)\<lparr>d_SplitBrain := True\<rparr>))"

definition operatorIsolated :: "observation \<Rightarrow> decision option" where
  "operatorIsolated obs =
     (let readyMembers = filter m_PodReady (o_Members obs);
          ready = length readyMembers;
          reachable = length (filter m_StatusReachable readyMembers) in
      if ready = 0 \<or> reachable > 0 then None
      else Some (vetoed obs VetoOperatorIsolated (NoneAnswered (int ready))))"

definition plannedSwitchover :: "observation \<Rightarrow> decision" where
  "plannedSwitchover obs =
     (let verdict = EvaluateQuorum (o_Evidence obs) (reachableMembers (o_Members obs)) (o_Now obs) in
      if o_QuorumGateEnabled obs \<and> \<not> qv_Satisfied verdict then
        (Decision PhaseVetoed (ReasonOfQuorum (qv_Reason verdict))
          (SwitchoverDenied (o_CurrentPrimary obs) (qv_Message verdict)) (5 * second))
            \<lparr>d_Quorum := verdict\<rparr>
      else
        let candidates = SelectCandidate
              \<lparr>ci_Members = o_Members obs, ci_KnownPrimary = o_CurrentPrimary obs,
               ci_LastKnownTimeline = LastKnownTimeline (o_Members obs),
               ci_SyncSet = ev_VotingMembers (o_Evidence obs),
               ci_StreamingAtDetection = ev_StreamingMembers (o_Evidence obs),
               ci_Maintenance = o_Maintenance obs\<rparr> in
        if cr_Candidate candidates = [] then
          (Decision PhaseVetoed ReasonSwitchoverNoCandidate
            (EveryoneElseDisqualified (o_CurrentPrimary obs) (cr_Disqualified candidates)) (5 * second))
              \<lparr>d_Quorum := verdict, d_Candidate := candidates\<rparr>
        else
          let chosen = fst (memberNamed (o_Members obs) (cr_Candidate candidates)) in
          if m_WALVolumeFull chosen then
            (vetoed obs VetoCandidateWALVolumeFull (HandOverFullVolume (m_Name chosen)))
              \<lparr>d_Candidate := candidates, d_Quorum := verdict\<rparr>
          else if \<not> m_PodReady chosen then
            (vetoed obs VetoCandidateNotReady (HandOverNotReady (m_Name chosen)))
              \<lparr>d_Candidate := candidates, d_Quorum := verdict\<rparr>
          else
            (Decision PhasePlannedSwitchover ReasonSwitchoverChosen
              (TakesTheRole (o_CurrentPrimary obs) (cr_Candidate candidates) (qv_Message verdict)) second)
                \<lparr>d_TargetPrimary := cr_Candidate candidates, d_Quorum := verdict,
                 d_Candidate := candidates\<rparr>)"

definition healthyPrimary :: "observation \<Rightarrow> decision" where
  "healthyPrimary obs =
     (let stale = \<not> IsZero (o_FailingSince obs) in
      if ObservationUnderMaintenance obs (o_CurrentPrimary obs) then
        let decision = plannedSwitchover obs in
        decision\<lparr>d_ClearFailingSince := d_ClearFailingSince decision \<or> stale\<rparr>
      else
        let decision = (Decision PhaseSteady PrimaryHealthy (IsServing (o_CurrentPrimary obs)) 0)
                         \<lparr>d_ClearFailingSince := stale\<rparr> in
        if o_TargetPrimary obs \<noteq> o_CurrentPrimary obs
        then decision\<lparr>d_TargetPrimary := o_CurrentPrimary obs\<rparr>
        else decision)"

definition chooseCandidate :: "observation \<Rightarrow> decision" where
  "chooseCandidate obs =
     (let streaming = receiversStillUp obs in
      if length streaming > 0 then
        Decision PhaseWaitingWALReceivers WALReceiversStillActive (StillReceiving streaming) second
      else
        let verdict = EvaluateQuorum (o_Evidence obs) (reachableMembers (o_Members obs))
              (quorumReference obs) in
        if o_QuorumGateEnabled obs \<and> \<not> qv_Satisfied verdict then
          (Decision PhaseVetoed (ReasonOfQuorum (qv_Reason verdict))
            (FailoverDenied (qv_Message verdict)) (5 * second))\<lparr>d_Quorum := verdict\<rparr>
        else
          let candidates = SelectCandidate
                \<lparr>ci_Members = o_Members obs, ci_KnownPrimary = o_CurrentPrimary obs,
                 ci_LastKnownTimeline = LastKnownTimeline (o_Members obs),
                 ci_SyncSet = ev_VotingMembers (o_Evidence obs),
                 ci_StreamingAtDetection = ev_StreamingMembers (o_Evidence obs),
                 ci_Maintenance = []\<rparr> in
          if cr_Candidate candidates = [] then
            (Decision PhaseVetoed ReasonNoEligibleCandidate
              (EveryoneDisqualified (cr_Disqualified candidates)) (5 * second))
                \<lparr>d_Quorum := verdict, d_Candidate := candidates\<rparr>
          else
            let chosen = fst (memberNamed (o_Members obs) (cr_Candidate candidates)) in
            if m_WALVolumeFull chosen then
              (vetoed obs VetoCandidateWALVolumeFull (PromoteFullVolume (m_Name chosen)))
                \<lparr>d_Candidate := candidates, d_Quorum := verdict\<rparr>
            else if \<not> m_PodReady chosen then
              (vetoed obs VetoCandidateNotReady (PromoteNotReady (m_Name chosen)))
                \<lparr>d_Candidate := candidates, d_Quorum := verdict\<rparr>
            else
              (Decision PhaseCandidateChosen CandidateSelected
                (WasChosen (cr_Candidate candidates) (qv_Message verdict)) second)
                  \<lparr>d_TargetPrimary := cr_Candidate candidates, d_Quorum := verdict,
                   d_Candidate := candidates\<rparr>)"

text \<open>\<open>Duration.Truncate\<close>: towards zero, to a multiple of \<open>m\<close>.\<close>

definition Truncate :: "duration \<Rightarrow> duration \<Rightarrow> duration" where
  "Truncate d m = (if m \<le> 0 then d else d - d smod m)"

definition failing :: "observation \<Rightarrow> decision" where
  "failing obs =
     (if IsZero (o_FailingSince obs) then
        (Decision PhaseDebouncing PrimaryUnhealthy
          (StoppedAnswering (o_CurrentPrimary obs) (o_FailoverDelay obs)) (o_FailoverDelay obs))
            \<lparr>d_SetFailingSince := Some (o_Now obs)\<rparr>
      else
        let elapsed = time_sub (o_Now obs) (o_FailingSince obs) in
        if elapsed < o_FailoverDelay obs then
          Decision PhaseDebouncing WithinFailoverDelay
            (FailingFor (o_CurrentPrimary obs) (Truncate elapsed second) (o_FailoverDelay obs))
            (wrap64 (o_FailoverDelay obs - elapsed))
        else if o_TargetPrimary obs \<noteq> TargetPrimaryPending then
          (Decision PhaseSentinel FailoverStarted (SentinelSet (o_CurrentPrimary obs)) second)
            \<lparr>d_TargetPrimary := TargetPrimaryPending, d_DemoteMember := o_CurrentPrimary obs\<rparr>
        else chooseCandidate obs)"

definition decide :: "observation \<Rightarrow> decision" where
  "decide obs =
     (case splitBrain obs of
        Some brain \<Rightarrow> brain
      | None \<Rightarrow>
          if o_CurrentPrimary obs = [] then
            Decision PhaseSteady NoPrimaryElectedYet NotBootstrapped 0
          else
            (case operatorIsolated obs of
               Some isolated \<Rightarrow> isolated
             | None \<Rightarrow>
                 if snd (memberNamed (o_Members obs) (o_TargetPrimary obs)) \<and>
                    FailoverInProgress (o_CurrentPrimary obs) (o_TargetPrimary obs) \<and>
                    o_TargetPrimary obs \<noteq> TargetPrimaryPending then
                   Decision PhasePromoting AwaitingPromotion (ToldToPromote (o_TargetPrimary obs)) second
                 else
                   let (primary, known) = memberNamed (o_Members obs) (o_CurrentPrimary obs) in
                   if known \<and> m_StatusReachable primary \<and> \<not> m_InRecovery primary then
                     healthyPrimary obs
                   else if known \<and> m_PodReady primary \<and> \<not> m_StatusReachable primary then
                     vetoed obs VetoPrimaryUnobservable (KubeletStillReady (m_Name primary))
                   else failing obs))"

definition servingPrimary :: "observation \<Rightarrow> decision \<Rightarrow> string" where
  "servingPrimary obs decision =
     (let primary = o_CurrentPrimary obs in
      if primary = [] \<or> d_SplitBrain decision \<or> d_DemoteMember decision = primary then []
      else
        let target = (if d_TargetPrimary decision \<noteq> [] then d_TargetPrimary decision
                      else o_TargetPrimary obs) in
        if target \<noteq> [] \<and> target \<noteq> TargetPrimaryPending \<and> target \<noteq> primary then []
        else if d_Veto decision = VetoOperatorIsolated \<or>
                d_Veto decision = VetoPrimaryUnobservable then primary
        else
          let (member, known) = memberNamed (o_Members obs) primary in
          if \<not> known \<or> \<not> m_StatusReachable member \<or> m_InRecovery member then [] else primary)"

definition Decide :: "observation \<Rightarrow> decision" where
  "Decide obs = (let decision = decide obs in
     decision\<lparr>d_ServingPrimary := servingPrimary obs decision\<rparr>)"

section \<open>Inputs of candidate selection\<close>

definition failover_input :: "observation \<Rightarrow> candidate_input" where
  "failover_input obs =
     \<lparr>ci_Members = o_Members obs, ci_KnownPrimary = o_CurrentPrimary obs,
      ci_LastKnownTimeline = LastKnownTimeline (o_Members obs),
      ci_SyncSet = ev_VotingMembers (o_Evidence obs),
      ci_StreamingAtDetection = ev_StreamingMembers (o_Evidence obs), ci_Maintenance = []\<rparr>"

definition switchover_input :: "observation \<Rightarrow> candidate_input" where
  "switchover_input obs = (failover_input obs)\<lparr>ci_Maintenance := o_Maintenance obs\<rparr>"

definition quorum_at :: "observation \<Rightarrow> time \<Rightarrow> bool" where
  "quorum_at obs t \<longleftrightarrow>
     qv_Satisfied (EvaluateQuorum (o_Evidence obs) (reachableMembers (o_Members obs)) t)"

text \<open>A member the role may be given to: it is there, its Pod is Ready and its log volume is not full.\<close>

definition promotable :: "observation \<Rightarrow> string \<Rightarrow> bool" where
  "promotable obs t \<longleftrightarrow>
     (case memberNamed (o_Members obs) t of
        (m, known) \<Rightarrow> known \<and> m_Name m = t \<and> m_PodReady m \<and> \<not> m_WALVolumeFull m)"

section \<open>Helper facts\<close>

lemma memberNamed_iff: "snd (memberNamed ms n) \<longleftrightarrow> n \<in> m_Name ` set ms"
  by (induction ms) auto

lemma memberNamed_Some:
  "memberNamed ms n = (m, True) \<Longrightarrow> m \<in> set ms \<and> m_Name m = n"
  by (induction ms) (auto split: if_splits)

lemma memberNamed_unique:
  "distinct (map m_Name ms) \<Longrightarrow> m \<in> set ms \<Longrightarrow> memberNamed ms (m_Name m) = (m, True)"
  by (induction ms) (auto simp: image_iff)

lemma memberNamed_present: "n \<in> m_Name ` set ms \<Longrightarrow> \<exists>m. memberNamed ms n = (m, True) \<and> m \<in> set ms \<and> m_Name m = n"
  by (metis memberNamed_Some memberNamed_iff prod.collapse)

lemma reachableMembers_iff:
  "n \<in> set (reachableMembers ms) \<longleftrightarrow> (\<exists>m \<in> set ms. m_StatusReachable m \<and> m_Name m = n)"
  by (auto simp: reachableMembers_def)

lemma Candidate_promotable:
  assumes "cr_Candidate (SelectCandidate input) \<noteq> []" "ci_Members input = o_Members obs"
    "\<not> m_WALVolumeFull (fst (memberNamed (o_Members obs) (cr_Candidate (SelectCandidate input))))"
    "m_PodReady (fst (memberNamed (o_Members obs) (cr_Candidate (SelectCandidate input))))"
  shows "promotable obs (cr_Candidate (SelectCandidate input))"
proof -
  have "cr_Candidate (SelectCandidate input) \<in> m_Name ` set (o_Members obs)"
    using Candidate_eligible(5) [OF assms(1)] assms(2) by simp
  from memberNamed_present [OF this] assms(3,4) show ?thesis
    by (auto simp: promotable_def)
qed

lemmas decision_projections = Decision_def vetoed_def

lemma chooseCandidate_names:
  assumes "d_TargetPrimary (chooseCandidate obs) \<noteq> []"
  shows "d_Phase (chooseCandidate obs) = PhaseCandidateChosen"
    "d_TargetPrimary (chooseCandidate obs) = cr_Candidate (SelectCandidate (failover_input obs))"
    "receiversStillUp obs = []"
    "o_QuorumGateEnabled obs \<longrightarrow> quorum_at obs (quorumReference obs)"
    "promotable obs (d_TargetPrimary (chooseCandidate obs))"
  using assms Candidate_promotable [of "failover_input obs" obs]
  by (auto simp: chooseCandidate_def decision_projections Let_def quorum_at_def failover_input_def
      split: if_splits)

lemma chooseCandidate_phase:
  "d_Phase (chooseCandidate obs) = PhaseCandidateChosen \<longleftrightarrow> d_TargetPrimary (chooseCandidate obs) \<noteq> []"
  by (auto simp: chooseCandidate_def decision_projections Let_def split: if_splits)

lemma plannedSwitchover_names:
  assumes "d_TargetPrimary (plannedSwitchover obs) \<noteq> []"
  shows "d_Phase (plannedSwitchover obs) = PhasePlannedSwitchover"
    "d_TargetPrimary (plannedSwitchover obs) = cr_Candidate (SelectCandidate (switchover_input obs))"
    "o_QuorumGateEnabled obs \<longrightarrow> quorum_at obs (o_Now obs)"
    "promotable obs (d_TargetPrimary (plannedSwitchover obs))"
  using assms Candidate_promotable [of "switchover_input obs" obs]
  by (auto simp: plannedSwitchover_def decision_projections Let_def quorum_at_def switchover_input_def
      failover_input_def split: if_splits)

lemma plannedSwitchover_shape:
  "d_SplitBrain (plannedSwitchover obs) = False"
  "d_DemoteMember (plannedSwitchover obs) = []"
  "d_SetFailingSince (plannedSwitchover obs) = None"
  "d_Veto (plannedSwitchover obs) \<in> {VetoNone, VetoCandidateWALVolumeFull, VetoCandidateNotReady}"
  "d_Phase (plannedSwitchover obs) \<in> {PhaseVetoed, PhasePlannedSwitchover}"
  "d_Phase (plannedSwitchover obs) = PhasePlannedSwitchover \<longleftrightarrow> d_TargetPrimary (plannedSwitchover obs) \<noteq> []"
  by (auto simp: plannedSwitchover_def decision_projections Let_def)

lemma chooseCandidate_shape:
  "d_SplitBrain (chooseCandidate obs) = False"
  "d_DemoteMember (chooseCandidate obs) = []"
  "d_SetFailingSince (chooseCandidate obs) = None"
  "d_ClearFailingSince (chooseCandidate obs) = False"
  "d_Phase (chooseCandidate obs) \<in> {PhaseWaitingWALReceivers, PhaseVetoed, PhaseCandidateChosen}"
  by (auto simp: chooseCandidate_def decision_projections Let_def)

text \<open>The eight ways one decision can come out.\<close>

lemma decide_cases [case_names SplitBrain Bootstrapping Isolated Promoting Healthy Unobservable
    Failing]:
  assumes "\<And>d. splitBrain obs = Some d \<Longrightarrow> decide obs = d \<Longrightarrow> P"
    and "splitBrain obs = None \<Longrightarrow> o_CurrentPrimary obs = [] \<Longrightarrow>
      decide obs = Decision PhaseSteady NoPrimaryElectedYet NotBootstrapped 0 \<Longrightarrow> P"
    and "\<And>d. splitBrain obs = None \<Longrightarrow> o_CurrentPrimary obs \<noteq> [] \<Longrightarrow>
      operatorIsolated obs = Some d \<Longrightarrow> decide obs = d \<Longrightarrow> P"
    and "splitBrain obs = None \<Longrightarrow> o_CurrentPrimary obs \<noteq> [] \<Longrightarrow> operatorIsolated obs = None \<Longrightarrow>
      FailoverInProgress (o_CurrentPrimary obs) (o_TargetPrimary obs) \<Longrightarrow>
      o_TargetPrimary obs \<noteq> TargetPrimaryPending \<Longrightarrow>
      decide obs = Decision PhasePromoting AwaitingPromotion (ToldToPromote (o_TargetPrimary obs)) second \<Longrightarrow> P"
    and "\<And>m. splitBrain obs = None \<Longrightarrow> o_CurrentPrimary obs \<noteq> [] \<Longrightarrow> operatorIsolated obs = None \<Longrightarrow>
      memberNamed (o_Members obs) (o_CurrentPrimary obs) = (m, True) \<Longrightarrow> m_StatusReachable m \<Longrightarrow>
      \<not> m_InRecovery m \<Longrightarrow> decide obs = healthyPrimary obs \<Longrightarrow> P"
    and "\<And>m. splitBrain obs = None \<Longrightarrow> o_CurrentPrimary obs \<noteq> [] \<Longrightarrow> operatorIsolated obs = None \<Longrightarrow>
      memberNamed (o_Members obs) (o_CurrentPrimary obs) = (m, True) \<Longrightarrow> m_PodReady m \<Longrightarrow>
      \<not> m_StatusReachable m \<Longrightarrow>
      decide obs = vetoed obs VetoPrimaryUnobservable (KubeletStillReady (m_Name m)) \<Longrightarrow> P"
    and "splitBrain obs = None \<Longrightarrow> o_CurrentPrimary obs \<noteq> [] \<Longrightarrow> operatorIsolated obs = None \<Longrightarrow>
      \<not> (\<exists>m. memberNamed (o_Members obs) (o_CurrentPrimary obs) = (m, True) \<and>
            m_StatusReachable m \<and> \<not> m_InRecovery m) \<Longrightarrow>
      decide obs = failing obs \<Longrightarrow> P"
  shows P
proof (cases "splitBrain obs")
  case (Some d)
  then show ?thesis by (intro assms(1)) (simp_all add: decide_def)
next
  case sane: None
  show ?thesis
  proof (cases "o_CurrentPrimary obs = [] \<or> operatorIsolated obs \<noteq> None")
    case True
    then show ?thesis using sane assms(2,3) by (auto simp: decide_def)
  next
    case False
    let ?promoting = "snd (memberNamed (o_Members obs) (o_TargetPrimary obs)) \<and>
      FailoverInProgress (o_CurrentPrimary obs) (o_TargetPrimary obs) \<and>
      o_TargetPrimary obs \<noteq> TargetPrimaryPending"
    obtain m known where named: "memberNamed (o_Members obs) (o_CurrentPrimary obs) = (m, known)"
      by fastforce
    consider "?promoting" | "\<not> ?promoting" "known \<and> m_StatusReachable m \<and> \<not> m_InRecovery m"
      | "\<not> ?promoting" "known \<and> m_PodReady m \<and> \<not> m_StatusReachable m"
      | "\<not> ?promoting" "\<not> (known \<and> m_StatusReachable m \<and> \<not> m_InRecovery m)"
        "\<not> (known \<and> m_PodReady m \<and> \<not> m_StatusReachable m)" by blast
    then show ?thesis
    proof cases
      case 1
      with False sane show ?thesis by (intro assms(4)) (simp_all add: decide_def)
    next
      case 2
      with False sane named show ?thesis by (intro assms(5) [of m]) (auto simp: decide_def)
    next
      case 3
      with False sane named show ?thesis by (intro assms(6) [of m]) (auto simp: decide_def)
    next
      case 4
      with False sane named show ?thesis by (intro assms(7)) (auto simp: decide_def)
    qed
  qed
qed

lemma splitBrain_shape:
  "splitBrain obs = Some d \<Longrightarrow>
   d_TargetPrimary d = [] \<and> d_Phase d = PhaseSplitBrain \<and> d_SplitBrain d \<and>
   d_SetFailingSince d = None \<and> \<not> d_ClearFailingSince d \<and> d_DemoteMember d = [] \<and> d_Veto d = VetoNone"
  by (auto simp: splitBrain_def Decision_def Let_def split: if_splits)

lemma operatorIsolated_shape:
  "operatorIsolated obs = Some d \<Longrightarrow>
   d_TargetPrimary d = [] \<and> d_Phase d = PhaseVetoed \<and> \<not> d_SplitBrain d \<and>
   d_SetFailingSince d = None \<and> \<not> d_ClearFailingSince d \<and> d_DemoteMember d = [] \<and>
   d_Veto d = VetoOperatorIsolated \<and> d_Reason d = ReasonOfVeto VetoOperatorIsolated"
  by (auto simp: operatorIsolated_def vetoed_def Decision_def Let_def split: if_splits)

lemma failing_cases [case_names Start Debounce Sentinel Choose]:
  assumes "IsZero (o_FailingSince obs) \<Longrightarrow> d_Phase (failing obs) = PhaseDebouncing \<Longrightarrow>
      d_SetFailingSince (failing obs) = Some (o_Now obs) \<Longrightarrow> d_TargetPrimary (failing obs) = [] \<Longrightarrow> P"
    and "\<not> IsZero (o_FailingSince obs) \<Longrightarrow>
      time_sub (o_Now obs) (o_FailingSince obs) < o_FailoverDelay obs \<Longrightarrow>
      d_Phase (failing obs) = PhaseDebouncing \<Longrightarrow> d_TargetPrimary (failing obs) = [] \<Longrightarrow> P"
    and "\<not> IsZero (o_FailingSince obs) \<Longrightarrow>
      o_FailoverDelay obs \<le> time_sub (o_Now obs) (o_FailingSince obs) \<Longrightarrow>
      o_TargetPrimary obs \<noteq> TargetPrimaryPending \<Longrightarrow> d_Phase (failing obs) = PhaseSentinel \<Longrightarrow>
      d_TargetPrimary (failing obs) = TargetPrimaryPending \<Longrightarrow>
      d_DemoteMember (failing obs) = o_CurrentPrimary obs \<Longrightarrow> P"
    and "\<not> IsZero (o_FailingSince obs) \<Longrightarrow>
      o_FailoverDelay obs \<le> time_sub (o_Now obs) (o_FailingSince obs) \<Longrightarrow>
      o_TargetPrimary obs = TargetPrimaryPending \<Longrightarrow> failing obs = chooseCandidate obs \<Longrightarrow> P"
  shows P
proof (cases "IsZero (o_FailingSince obs)")
  case True
  then show ?thesis by (intro assms(1)) (simp_all add: failing_def Decision_def)
next
  case False
  note started = this
  show ?thesis
  proof (cases "time_sub (o_Now obs) (o_FailingSince obs) < o_FailoverDelay obs")
    case True
    then show ?thesis
      using started by (intro assms(2)) (simp_all add: failing_def Decision_def Let_def)
  next
    case False
    then show ?thesis
      using started assms(3,4) by (cases "o_TargetPrimary obs = TargetPrimaryPending")
        (simp_all add: failing_def Decision_def Let_def)
  qed
qed

lemma healthyPrimary_target:
  "d_TargetPrimary (healthyPrimary obs) =
     (if ObservationUnderMaintenance obs (o_CurrentPrimary obs)
      then d_TargetPrimary (plannedSwitchover obs)
      else if o_TargetPrimary obs \<noteq> o_CurrentPrimary obs then o_CurrentPrimary obs else [])"
  "d_Phase (healthyPrimary obs) =
     (if ObservationUnderMaintenance obs (o_CurrentPrimary obs)
      then d_Phase (plannedSwitchover obs) else PhaseSteady)"
  by (auto simp: healthyPrimary_def Let_def Decision_def)

lemma Decide_projections [simp]:
  "d_TargetPrimary (Decide obs) = d_TargetPrimary (decide obs)"
  "d_Phase (Decide obs) = d_Phase (decide obs)"
  "d_Veto (Decide obs) = d_Veto (decide obs)"
  "d_Reason (Decide obs) = d_Reason (decide obs)"
  "d_DemoteMember (Decide obs) = d_DemoteMember (decide obs)"
  "d_SplitBrain (Decide obs) = d_SplitBrain (decide obs)"
  "d_SetFailingSince (Decide obs) = d_SetFailingSince (decide obs)"
  "d_ClearFailingSince (Decide obs) = d_ClearFailingSince (decide obs)"
  "d_ServingPrimary (Decide obs) = servingPrimary obs (decide obs)"
  by (simp_all add: Decide_def Let_def)

lemma servingPrimary_facts:
  assumes "servingPrimary obs d \<noteq> []"
  shows "servingPrimary obs d = o_CurrentPrimary obs" "o_CurrentPrimary obs \<noteq> []" "\<not> d_SplitBrain d"
    "d_DemoteMember d \<noteq> o_CurrentPrimary obs"
    "(if d_TargetPrimary d \<noteq> [] then d_TargetPrimary d else o_TargetPrimary obs)
       \<in> {[], TargetPrimaryPending, o_CurrentPrimary obs}"
proof -
  let ?target = "if d_TargetPrimary d \<noteq> [] then d_TargetPrimary d else o_TargetPrimary obs"
  obtain m known where named: "memberNamed (o_Members obs) (o_CurrentPrimary obs) = (m, known)"
    by fastforce
  have first: "\<not> (o_CurrentPrimary obs = [] \<or> d_SplitBrain d \<or> d_DemoteMember d = o_CurrentPrimary obs)"
    using assms by (auto simp: servingPrimary_def Let_def)
  moreover have second: "\<not> (?target \<noteq> [] \<and> ?target \<noteq> TargetPrimaryPending \<and> ?target \<noteq> o_CurrentPrimary obs)"
    using assms first by (auto simp only: servingPrimary_def Let_def if_True if_False simp_thms)
  moreover have "servingPrimary obs d \<in> {[], o_CurrentPrimary obs}"
    using first second by (simp add: servingPrimary_def Let_def named)
  ultimately show "servingPrimary obs d = o_CurrentPrimary obs" "o_CurrentPrimary obs \<noteq> []"
    "\<not> d_SplitBrain d" "d_DemoteMember d \<noteq> o_CurrentPrimary obs"
    "?target \<in> {[], TargetPrimaryPending, o_CurrentPrimary obs}"
    using assms by blast+
qed

section \<open>Who may be named\<close>

text \<open>
  Everything a decision that names a new member has established, for the two paths that can
  produce one.
\<close>

definition failover_justified :: "observation \<Rightarrow> string \<Rightarrow> bool" where
  "failover_justified obs t \<longleftrightarrow>
     t = cr_Candidate (SelectCandidate (failover_input obs)) \<and>
     o_TargetPrimary obs = TargetPrimaryPending \<and>
     \<not> IsZero (o_FailingSince obs) \<and>
     o_FailoverDelay obs \<le> time_sub (o_Now obs) (o_FailingSince obs) \<and>
     receiversStillUp obs = [] \<and>
     (o_QuorumGateEnabled obs \<longrightarrow> quorum_at obs (o_FailingSince obs))"

definition switchover_justified :: "observation \<Rightarrow> string \<Rightarrow> bool" where
  "switchover_justified obs t \<longleftrightarrow>
     t = cr_Candidate (SelectCandidate (switchover_input obs)) \<and>
     o_CurrentPrimary obs \<in> set (o_Maintenance obs) \<and>
     (\<exists>m. memberNamed (o_Members obs) (o_CurrentPrimary obs) = (m, True) \<and>
          m_StatusReachable m \<and> \<not> m_InRecovery m) \<and>
     (o_QuorumGateEnabled obs \<longrightarrow> quorum_at obs (o_Now obs))"

lemma decide_names_new_member:
  assumes t: "d_TargetPrimary (decide obs) = t" "t \<notin> {[], TargetPrimaryPending, o_CurrentPrimary obs}"
  shows "splitBrain obs = None \<and> operatorIsolated obs = None \<and> promotable obs t \<and>
    ((d_Phase (decide obs) = PhaseCandidateChosen \<and> failover_justified obs t) \<or>
     (d_Phase (decide obs) = PhasePlannedSwitchover \<and> switchover_justified obs t))"
proof (cases obs rule: decide_cases)
  case (SplitBrain d)
  with t splitBrain_shape show ?thesis by auto
next
  case (Isolated d)
  with t operatorIsolated_shape show ?thesis by auto
next
  case (Healthy m)
  then have maint: "ObservationUnderMaintenance obs (o_CurrentPrimary obs)"
    and target: "d_TargetPrimary (plannedSwitchover obs) = t"
    using t by (auto simp: healthyPrimary_target split: if_splits)
  with t have "d_TargetPrimary (plannedSwitchover obs) \<noteq> []" by simp
  note names = plannedSwitchover_names [OF this]
  from names target have "t = cr_Candidate (SelectCandidate (switchover_input obs))" by metis
  with Healthy maint names target show ?thesis
    by (simp add: healthyPrimary_target switchover_justified_def ObservationUnderMaintenance_def)
next
  case Failing
  show ?thesis
  proof (cases obs rule: failing_cases)
    case Choose
    then have target: "d_TargetPrimary (chooseCandidate obs) = t"
      using t Failing by simp
    with t have "d_TargetPrimary (chooseCandidate obs) \<noteq> []" by simp
    note names = chooseCandidate_names [OF this]
    from names target have "t = cr_Candidate (SelectCandidate (failover_input obs))" by metis
    with Failing Choose names target show ?thesis
      by (simp add: failover_justified_def quorumReference_def)
  qed (use t Failing in auto)
qed (use t in \<open>auto simp: Decision_def vetoed_def\<close>)

lemma chosen_phase_target:
  assumes "d_Phase (decide obs) = PhaseCandidateChosen"
  shows "failover_justified obs (d_TargetPrimary (decide obs)) \<and> d_TargetPrimary (decide obs) \<noteq> [] \<and>
    promotable obs (d_TargetPrimary (decide obs))"
proof (cases obs rule: decide_cases)
  case (SplitBrain d)
  with assms splitBrain_shape show ?thesis by auto
next
  case (Isolated d)
  with assms operatorIsolated_shape show ?thesis by auto
next
  case (Healthy m)
  with assms plannedSwitchover_shape(5) [of obs] show ?thesis
    by (auto simp: healthyPrimary_target split: if_splits)
next
  case Failing
  show ?thesis
  proof (cases obs rule: failing_cases)
    case Choose
    with assms Failing have named: "d_TargetPrimary (chooseCandidate obs) \<noteq> []"
      by (simp add: chooseCandidate_phase)
    from chooseCandidate_names [OF this] Choose Failing named show ?thesis
      by (simp add: failover_justified_def quorumReference_def)
  qed (use assms Failing in auto)
qed (use assms in \<open>auto simp: Decision_def vetoed_def\<close>)

section \<open>Properties\<close>


definition down_member :: "string \<Rightarrow> member" where
  "down_member n = zero_member\<lparr>m_Name := n\<rparr>"

definition example_failover :: observation where
  "example_failover =
     \<lparr>o_Members = [down_member ''a'', example_member ''b'' 10, example_member ''c'' 20],
      o_CurrentPrimary = ''a'', o_TargetPrimary = TargetPrimaryPending,
      o_Evidence = example_evidence, o_FailingSince = 1100 * second,
      o_FailoverDelay = 30 * second, o_QuorumGateEnabled = True, o_Maintenance = [],
      o_Now = 1200 * second\<rparr>"

lemmas decide_defs = Decide_def decide_def splitBrain_def operatorIsolated_def failing_def
  chooseCandidate_def healthyPrimary_def plannedSwitchover_def vetoed_def Decision_def
  receiversStillUp_def quorumReference_def reachableMembers_def servingPrimary_def
  ObservationUnderMaintenance_def FailoverInProgress_def TargetPrimaryPending_def

lemmas evaluation_defs = EvaluateQuorum_def SelectCandidate_def disqualify_def LastKnownTimeline_def
  sort_func_def member_cmp_def disqualification_cmp_def go_compare_def zero_verdict_def
  IsZero_def time_sub_def MaxEvidenceAge_def minute_def second_def Let_def

lemmas example_defs = example_evidence_def example_member_def down_member_def zero_member_def

lemma example_failover_phase: "d_Phase (Decide example_failover) = PhaseCandidateChosen"
  by code_simp

lemma example_failover_target: "d_TargetPrimary (Decide example_failover) = ''c''"
  by code_simp

lemmas example_failover_chosen = example_failover_phase example_failover_target


text \<open>
  When \<open>Decide\<close> names a member that is neither the sentinel nor the current primary, then no two
  members claimed to be primary, the operator was not the isolated party, the named member exists, is
  Ready and has room in its log volume, and either the failover is justified (the sentinel was already
  written, the primary has been failing for the whole delay, every log receiver is down and the gate
  holds at the failing instant) or the planned switchover is (the live primary is about to be
  disrupted and the gate holds now); in both cases the name is the result of candidate selection.
\<close>

theorem new_primary_is_justified:
  assumes "d_TargetPrimary (Decide obs) \<notin> {[], TargetPrimaryPending, o_CurrentPrimary obs}"
  shows "splitBrain obs = None \<and> operatorIsolated obs = None \<and>
    promotable obs (d_TargetPrimary (Decide obs)) \<and>
    (failover_justified obs (d_TargetPrimary (Decide obs)) \<or>
     switchover_justified obs (d_TargetPrimary (Decide obs)))"
  using decide_names_new_member [of obs, OF refl] assms by auto

theorem new_primary_is_justified_witness:
  "splitBrain example_failover = None \<and> operatorIsolated example_failover = None \<and>
   promotable example_failover (d_TargetPrimary (Decide example_failover)) \<and>
   (failover_justified example_failover (d_TargetPrimary (Decide example_failover)) \<or>
    switchover_justified example_failover (d_TargetPrimary (Decide example_failover)))"
proof (rule new_primary_is_justified)
  show "d_TargetPrimary (Decide example_failover)
      \<notin> {[], TargetPrimaryPending, o_CurrentPrimary example_failover}"
    unfolding example_failover_chosen by (simp add: example_failover_def TargetPrimaryPending_def)
qed

text \<open>
  At most one member is ever offered to the read-write Service, and only the recorded primary: the
  serving member is empty or the current primary, and it is empty as soon as two members report to
  be out of recovery, the primary is demoted by this decision, or the target after this decision
  names somebody else.
\<close>

theorem serving_primary_is_exclusive:
  "d_ServingPrimary (Decide obs) = [] \<or>
   d_ServingPrimary (Decide obs) = o_CurrentPrimary obs \<and>
   splitBrain obs = None \<and> d_DemoteMember (Decide obs) \<noteq> o_CurrentPrimary obs \<and>
   (if d_TargetPrimary (Decide obs) \<noteq> [] then d_TargetPrimary (Decide obs) else o_TargetPrimary obs)
     \<in> {[], TargetPrimaryPending, o_CurrentPrimary obs}"
proof (cases "d_ServingPrimary (Decide obs) = []")
  case False
  have "d_SplitBrain (decide obs)" if "splitBrain obs = Some d" for d
    using splitBrain_shape [OF that] that by (simp add: decide_def)
  with False servingPrimary_facts [of obs "decide obs"] show ?thesis
    by (cases "splitBrain obs") auto
qed simp

text \<open>
  Two members out of recovery freeze everything: the decision writes no target, starts no
  debounce, clears none, and offers nobody to the read-write Service.
\<close>

theorem split_brain_freezes:
  assumes "2 \<le> length (filter (\<lambda>m. m_StatusReachable m \<and> \<not> m_InRecovery m) (o_Members obs))"
  shows "d_Phase (Decide obs) = PhaseSplitBrain \<and> d_TargetPrimary (Decide obs) = [] \<and>
    d_SetFailingSince (Decide obs) = None \<and> \<not> d_ClearFailingSince (Decide obs) \<and>
    d_ServingPrimary (Decide obs) = []"
proof -
  obtain d where brain: "splitBrain obs = Some d"
    using assms by (auto simp: splitBrain_def Let_def)
  then have "decide obs = d" by (simp add: decide_def)
  moreover note splitBrain_shape [OF brain]
  ultimately show ?thesis
    by (auto simp: servingPrimary_def)
qed

definition example_split :: observation where
  "example_split = example_failover\<lparr>o_Members :=
     [(example_member ''b'' 10)\<lparr>m_InRecovery := False\<rparr>,
      (example_member ''c'' 20)\<lparr>m_InRecovery := False\<rparr>]\<rparr>"

theorem split_brain_freezes_witness:
  "d_Phase (Decide example_split) = PhaseSplitBrain \<and> d_TargetPrimary (Decide example_split) = [] \<and>
   d_SetFailingSince (Decide example_split) = None \<and> \<not> d_ClearFailingSince (Decide example_split) \<and>
   d_ServingPrimary (Decide example_split) = []"
  by (rule split_brain_freezes) (simp add: example_split_def example_defs)

text \<open>
  The sentinel is written only after the whole debounce: the decision that writes it has a failing
  instant on record, at least \<open>failoverDelay\<close> lies between that instant and now, the recorded
  primary is not a reachable member out of recovery, and it is demoted by the same decision, so that
  nobody is offered to the read-write Service.
\<close>

theorem sentinel_needs_the_whole_delay:
  assumes "d_Phase (Decide obs) = PhaseSentinel"
  shows "d_TargetPrimary (Decide obs) = TargetPrimaryPending \<and>
    \<not> IsZero (o_FailingSince obs) \<and>
    o_FailoverDelay obs \<le> time_sub (o_Now obs) (o_FailingSince obs) \<and>
    \<not> (\<exists>m. memberNamed (o_Members obs) (o_CurrentPrimary obs) = (m, True) \<and>
           m_StatusReachable m \<and> \<not> m_InRecovery m) \<and>
    d_DemoteMember (Decide obs) = o_CurrentPrimary obs \<and> d_ServingPrimary (Decide obs) = []"
proof (cases obs rule: decide_cases)
  case (SplitBrain d)
  with assms splitBrain_shape show ?thesis by auto
next
  case (Isolated d)
  with assms operatorIsolated_shape show ?thesis by auto
next
  case (Healthy m)
  with assms plannedSwitchover_shape(5) [of obs] show ?thesis
    by (auto simp: healthyPrimary_target split: if_splits)
next
  case Failing
  show ?thesis
  proof (cases obs rule: failing_cases)
    case Sentinel
    with Failing show ?thesis by (simp add: servingPrimary_def)
  next
    case Choose
    with assms Failing chooseCandidate_shape(5) [of obs] show ?thesis by auto
  qed (use assms Failing in auto)
qed (use assms in \<open>auto simp: Decision_def vetoed_def\<close>)

definition example_sentinel :: observation where
  "example_sentinel = example_failover\<lparr>o_TargetPrimary := ''a''\<rparr>"

lemma example_sentinel_phase: "d_Phase (Decide example_sentinel) = PhaseSentinel"
  by code_simp

theorem sentinel_needs_the_whole_delay_witness:
  "d_TargetPrimary (Decide example_sentinel) = TargetPrimaryPending \<and>
   \<not> IsZero (o_FailingSince example_sentinel) \<and>
   o_FailoverDelay example_sentinel
     \<le> time_sub (o_Now example_sentinel) (o_FailingSince example_sentinel) \<and>
   \<not> (\<exists>m. memberNamed (o_Members example_sentinel) (o_CurrentPrimary example_sentinel) = (m, True) \<and>
          m_StatusReachable m \<and> \<not> m_InRecovery m) \<and>
   d_DemoteMember (Decide example_sentinel) = o_CurrentPrimary example_sentinel \<and>
   d_ServingPrimary (Decide example_sentinel) = []"
  by (rule sentinel_needs_the_whole_delay) (rule example_sentinel_phase)

section \<open>Refused switchovers\<close>

lemma healthy_maintenance_serving:
  assumes primary: "memberNamed (o_Members obs) (o_CurrentPrimary obs) = (m, True)"
      "m_StatusReachable m" "\<not> m_InRecovery m" "o_CurrentPrimary obs \<noteq> []"
    and quiet: "splitBrain obs = None" "operatorIsolated obs = None"
    and maintenance: "o_CurrentPrimary obs \<in> set (o_Maintenance obs)"
    and idle: "\<not> snd (memberNamed (o_Members obs) (o_TargetPrimary obs)) \<or>
      o_TargetPrimary obs \<in> {[], TargetPrimaryPending, o_CurrentPrimary obs}"
    and refused: "d_Phase (Decide obs) = PhaseVetoed"
  shows "d_ServingPrimary (Decide obs) =
    (if o_TargetPrimary obs \<in> {[], TargetPrimaryPending, o_CurrentPrimary obs}
     then o_CurrentPrimary obs else [])"
proof -
  have "decide obs = healthyPrimary obs"
    using primary quiet idle by (auto simp: decide_def FailoverInProgress_def)
  then have decision: "decide obs = (plannedSwitchover obs)\<lparr>d_ClearFailingSince :=
      d_ClearFailingSince (plannedSwitchover obs) \<or> \<not> IsZero (o_FailingSince obs)\<rparr>"
    using maintenance by (simp add: healthyPrimary_def ObservationUnderMaintenance_def Let_def)
  then have "d_TargetPrimary (plannedSwitchover obs) = []"
    using refused plannedSwitchover_shape(6) [of obs] by auto
  with decision primary plannedSwitchover_shape [of obs] show ?thesis
    by (auto simp: servingPrimary_def Let_def)
qed

text \<open>
  A planned switchover that is refused leaves the live primary serving, provided the recorded
  target is unset, the sentinel or the primary itself.
\<close>

theorem refused_switchover_keeps_serving:
  assumes "memberNamed (o_Members obs) (o_CurrentPrimary obs) = (m, True)"
    and "m_StatusReachable m" and "\<not> m_InRecovery m" and "o_CurrentPrimary obs \<noteq> []"
    and "splitBrain obs = None" and "operatorIsolated obs = None"
    and "o_CurrentPrimary obs \<in> set (o_Maintenance obs)"
    and "o_TargetPrimary obs \<in> {[], TargetPrimaryPending, o_CurrentPrimary obs}"
    and "d_Phase (Decide obs) = PhaseVetoed"
  shows "d_ServingPrimary (Decide obs) = o_CurrentPrimary obs"
  using healthy_maintenance_serving [OF assms(1-7) _ assms(9)] assms(8) by simp

definition live_primary :: member where
  "live_primary = (example_member ''a'' 30)\<lparr>m_InRecovery := False\<rparr>"

definition example_refusal :: "string \<Rightarrow> observation" where
  "example_refusal target =
     \<lparr>o_Members = [live_primary, down_member ''b'', down_member ''c''],
      o_CurrentPrimary = ''a'', o_TargetPrimary = target,
      o_Evidence = example_evidence, o_FailingSince = 0,
      o_FailoverDelay = 30 * second, o_QuorumGateEnabled = True, o_Maintenance = [''a''],
      o_Now = 1100 * second\<rparr>"

lemma example_refusal_phase:
  "d_Phase (Decide (example_refusal ''a'')) = PhaseVetoed"
  by code_simp

lemma example_refusal_quiet:
  "splitBrain (example_refusal t) = None" "operatorIsolated (example_refusal t) = None"
  "memberNamed (o_Members (example_refusal t)) (o_CurrentPrimary (example_refusal t))
     = (live_primary, True)"
  by (simp_all add: splitBrain_def operatorIsolated_def example_refusal_def live_primary_def
      example_defs)

theorem refused_switchover_keeps_serving_witness:
  "d_ServingPrimary (Decide (example_refusal ''a'')) = o_CurrentPrimary (example_refusal ''a'')"
  by (rule refused_switchover_keeps_serving [OF example_refusal_quiet(3) _ _ _
        example_refusal_quiet(1,2) _ _ example_refusal_phase])
    (simp_all add: example_refusal_def live_primary_def example_defs)

text \<open>
  The proviso is needed. When the recorded target names a member that no longer exists, a refused
  switchover leaves a reachable primary out of recovery with nobody offered to the read-write
  Service: the maintenance path, unlike the ordinary one, does not write the target back.
\<close>

theorem refused_switchover_can_stop_serving:
  "d_Phase (Decide (example_refusal ''gone'')) = PhaseVetoed \<and>
   d_ServingPrimary (Decide (example_refusal ''gone'')) = [] \<and>
   memberNamed (o_Members (example_refusal ''gone'')) (o_CurrentPrimary (example_refusal ''gone''))
     = (live_primary, True) \<and>
   m_StatusReachable live_primary \<and> \<not> m_InRecovery live_primary \<and>
   d_TargetPrimary (Decide (example_refusal ''gone'')) = []"
proof -
  have "d_Phase (Decide (example_refusal ''gone'')) = PhaseVetoed" by code_simp
  moreover have "d_ServingPrimary (Decide (example_refusal ''gone'')) = []" by code_simp
  moreover have "d_TargetPrimary (Decide (example_refusal ''gone'')) = []" by code_simp
  ultimately show ?thesis
    using example_refusal_quiet(3) [of "''gone''"] by (simp add: live_primary_def example_defs)
qed

end
