(* ===== verification/HA_Startup.thy ===== *)
theory HA_Startup
  imports HA_Decide
begin

text \<open>
  What a member does before its postmaster may start (\<open>internal/ha/startup.go\<close>), whether its own
  history can still be reconciled with the primary's by streaming (\<open>internal/ha/divergence.go\<close>), and
  the maintenance annotation (\<open>internal/ha/maintenance.go\<close>).
\<close>

section \<open>Start-up\<close>

datatype startup_reason =
    StartupUnchanged
  | StartupFollowPrimary
  | StartupSupersededByTarget
  | StartupSupersededByLease
  | StartupSupersededByPrimary

record startup_action =
  sa_Follow :: string
  sa_Rejoin :: bool
  sa_Reason :: startup_reason

definition StartupDecision :: "string \<Rightarrow> bool \<Rightarrow> string \<Rightarrow> string \<Rightarrow> string \<Rightarrow> startup_action" where
  "StartupDecision self inRecovery currentPrimary targetPrimary leaseHolder =
     (let designated = (if targetPrimary \<noteq> [] \<and> targetPrimary \<noteq> TargetPrimaryPending
                        then targetPrimary else currentPrimary) in
      if inRecovery then
        (if designated = [] \<or> designated = self
         then \<lparr>sa_Follow = [], sa_Rejoin = False, sa_Reason = StartupUnchanged\<rparr>
         else \<lparr>sa_Follow = designated, sa_Rejoin = False, sa_Reason = StartupFollowPrimary\<rparr>)
      else if targetPrimary = self \<or> leaseHolder = self then
        \<lparr>sa_Follow = [], sa_Rejoin = False, sa_Reason = StartupUnchanged\<rparr>
      else if targetPrimary \<noteq> [] \<and> targetPrimary \<noteq> TargetPrimaryPending \<and> targetPrimary \<noteq> self then
        \<lparr>sa_Follow = targetPrimary, sa_Rejoin = True, sa_Reason = StartupSupersededByTarget\<rparr>
      else if leaseHolder \<noteq> [] \<and> leaseHolder \<noteq> self then
        \<lparr>sa_Follow = leaseHolder, sa_Rejoin = True, sa_Reason = StartupSupersededByLease\<rparr>
      else if targetPrimary = TargetPrimaryPending then
        \<lparr>sa_Follow = [], sa_Rejoin = False, sa_Reason = StartupUnchanged\<rparr>
      else if currentPrimary \<noteq> [] \<and> currentPrimary \<noteq> self then
        \<lparr>sa_Follow = currentPrimary, sa_Rejoin = True, sa_Reason = StartupSupersededByPrimary\<rparr>
      else \<lparr>sa_Follow = [], sa_Rejoin = False, sa_Reason = StartupUnchanged\<rparr>)"

section \<open>Divergence\<close>

record timeline_fork =
  tf_Parent :: int
  tf_SwitchLSN :: LSN

record timeline_position =
  tp_Timeline :: int
  tp_LSN :: LSN

record primary_history =
  ph_Timeline :: int
  ph_HistoryTimeline :: int
  ph_Forks :: "timeline_fork list"

datatype divergence_reason =
    NoDivergence
  | DivergenceAheadOfPrimary
  | DivergenceNoCommonAncestor
  | DivergencePastForkPoint

datatype divergence_message =
    NoDivergenceMessage
  | OnTimelineWhile int int
  | HoldsWALPast LSN int LSN int
  | NeverDescended int int

record divergence =
  dv_Diverged :: bool
  dv_Reason :: divergence_reason
  dv_Message :: divergence_message

definition no_divergence :: divergence where
  "no_divergence =
     \<lparr>dv_Diverged = False, dv_Reason = NoDivergence, dv_Message = NoDivergenceMessage\<rparr>"

fun fork_loop :: "timeline_position \<Rightarrow> primary_history \<Rightarrow> timeline_fork list \<Rightarrow> divergence" where
  "fork_loop local primary [] =
     \<lparr>dv_Diverged = True, dv_Reason = DivergenceNoCommonAncestor,
      dv_Message = NeverDescended (ph_HistoryTimeline primary) (tp_Timeline local)\<rparr>"
| "fork_loop local primary (fork # forks) =
     (if tf_Parent fork \<noteq> tp_Timeline local then fork_loop local primary forks
      else if tp_LSN local \<le> tf_SwitchLSN fork then no_divergence
      else \<lparr>dv_Diverged = True, dv_Reason = DivergencePastForkPoint,
            dv_Message = HoldsWALPast (tp_LSN local) (tp_Timeline local) (tf_SwitchLSN fork)
                           (ph_HistoryTimeline primary)\<rparr>)"

definition DetectDivergence :: "timeline_position \<Rightarrow> primary_history \<Rightarrow> divergence" where
  "DetectDivergence local primary =
     (if tp_Timeline local \<le> 0 \<or> ph_Timeline primary \<le> 0 then no_divergence
      else if tp_Timeline local > ph_Timeline primary then
        \<lparr>dv_Diverged = True, dv_Reason = DivergenceAheadOfPrimary,
         dv_Message = OnTimelineWhile (tp_Timeline local) (ph_Timeline primary)\<rparr>
      else if ph_HistoryTimeline primary \<le> tp_Timeline local \<or>
              ph_HistoryTimeline primary > ph_Timeline primary then no_divergence
      else fork_loop local primary (ph_Forks primary))"

text \<open>
  The abstract reading of a timeline history: a position lies on it when it is on the history's own
  timeline, or on an ancestor and no further than the point where the history left that ancestor.
\<close>

definition on_history :: "timeline_position \<Rightarrow> int \<Rightarrow> timeline_fork list \<Rightarrow> bool" where
  "on_history pos own forks \<longleftrightarrow>
     tp_Timeline pos = own \<or>
     (\<exists>fork \<in> set forks. tf_Parent fork = tp_Timeline pos \<and> tp_LSN pos \<le> tf_SwitchLSN fork)"

section \<open>Maintenance\<close>

definition AnnotationMaintenance :: string where
  "AnnotationMaintenance = ''pgelastic.io/maintenance-members''"

fun maintenance_loop :: "string list \<Rightarrow> string list \<Rightarrow> string list" where
  "maintenance_loop members [] = members"
| "maintenance_loop members (field # rest) =
     (let trimmed = TrimSpace field in
      maintenance_loop
        (if trimmed \<noteq> [] \<and> trimmed \<notin> set members then members @ [trimmed] else members) rest)"

definition MaintenanceMembers :: "(string \<rightharpoonup> string) \<Rightarrow> string list" where
  "MaintenanceMembers annotations =
     (let raw = (case annotations AnnotationMaintenance of None \<Rightarrow> [] | Some v \<Rightarrow> v) in
      if raw = [] then []
      else sort_func go_compare (maintenance_loop [] (Split (CHR '','') raw)))"

definition UnderMaintenance :: "(string \<rightharpoonup> string) \<Rightarrow> string \<Rightarrow> bool" where
  "UnderMaintenance annotations member \<longleftrightarrow> member \<in> set (MaintenanceMembers annotations)"

section \<open>Facts\<close>

lemma fork_loop_distinct:
  assumes "distinct (map tf_Parent forks)"
  shows "\<not> dv_Diverged (fork_loop local primary forks) \<longleftrightarrow>
    (\<exists>fork \<in> set forks. tf_Parent fork = tp_Timeline local \<and> tp_LSN local \<le> tf_SwitchLSN fork)"
  using assms by (induction forks) (auto simp: no_divergence_def image_iff)

lemma maintenance_loop_set:
  "set (maintenance_loop members rest) = set members \<union> (TrimSpace ` set rest - {[]})"
  by (induction rest arbitrary: members) (auto simp: Let_def)

lemma maintenance_loop_distinct:
  "distinct members \<Longrightarrow> distinct (maintenance_loop members rest)"
  by (induction rest arbitrary: members) (auto simp: Let_def)

lemma StartupDecision_unchanged_out_of_recovery:
  "sa_Reason (StartupDecision self False current target lease) = StartupUnchanged \<longleftrightarrow>
     target = self \<or> lease = self \<or>
     ((target = [] \<or> target = TargetPrimaryPending) \<and> lease = [] \<and>
      (target = TargetPrimaryPending \<or> current = [] \<or> current = self))"
  by (auto simp: StartupDecision_def Let_def)

section \<open>Properties\<close>

text \<open>
  Once somebody holds the promotion lease and the operator has named nobody else, no superseded
  data directory starts as a primary: a member out of recovery starts unchanged exactly when it is
  the holder, and every other one must rewind and follow the holder first.
\<close>

theorem only_the_lease_holder_starts_unchanged:
  assumes "holder \<noteq> []" and "target \<in> {[], TargetPrimaryPending, holder}"
    and "self \<noteq> []" and "self \<noteq> TargetPrimaryPending"
  shows "(sa_Reason (StartupDecision self False current target holder) = StartupUnchanged
          \<longleftrightarrow> self = holder) \<and>
    (self \<noteq> holder \<longrightarrow> sa_Rejoin (StartupDecision self False current target holder) \<and>
       sa_Follow (StartupDecision self False current target holder) = holder)"
  using assms by (auto simp: StartupDecision_def Let_def)

theorem only_the_lease_holder_starts_unchanged_witness:
  "sa_Reason (StartupDecision ''a'' False ''a'' TargetPrimaryPending ''b'') \<noteq> StartupUnchanged \<and>
   sa_Rejoin (StartupDecision ''a'' False ''a'' TargetPrimaryPending ''b'') \<and>
   sa_Follow (StartupDecision ''a'' False ''a'' TargetPrimaryPending ''b'') = ''b''"
  using only_the_lease_holder_starts_unchanged [of "''b''" TargetPrimaryPending "''a''" "''a''"]
  by (simp add: TargetPrimaryPending_def)

text \<open>
  Divergence detection is exact when the newest history file is the primary's own: a member on a
  known timeline is declared diverged if and only if its position does not lie on the primary's
  history, that is, neither on the primary's timeline nor on an ancestor before the fork.
\<close>

theorem divergence_is_leaving_the_history:
  assumes "0 < tp_Timeline local" and "0 < ph_Timeline primary"
    and "ph_HistoryTimeline primary = ph_Timeline primary"
    and "distinct (map tf_Parent (ph_Forks primary))"
    and "\<forall>fork \<in> set (ph_Forks primary). tf_Parent fork < ph_Timeline primary"
  shows "dv_Diverged (DetectDivergence local primary) \<longleftrightarrow>
    \<not> on_history local (ph_Timeline primary) (ph_Forks primary)"
proof -
  consider "tp_Timeline local = ph_Timeline primary" | "tp_Timeline local > ph_Timeline primary"
    | "tp_Timeline local < ph_Timeline primary" by linarith
  then show ?thesis
  proof cases
    case 1
    with assms show ?thesis by (auto simp: DetectDivergence_def on_history_def no_divergence_def)
  next
    case 2
    with assms show ?thesis by (fastforce simp: DetectDivergence_def on_history_def)
  next
    case 3
    with assms fork_loop_distinct [OF assms(4), of local primary] show ?thesis
      by (auto simp: DetectDivergence_def on_history_def)
  qed
qed

definition example_history :: primary_history where
  "example_history =
     \<lparr>ph_Timeline = 3, ph_HistoryTimeline = 3,
      ph_Forks = [\<lparr>tf_Parent = 1, tf_SwitchLSN = 100\<rparr>, \<lparr>tf_Parent = 2, tf_SwitchLSN = 250\<rparr>]\<rparr>"

theorem divergence_is_leaving_the_history_witness:
  "dv_Diverged (DetectDivergence \<lparr>tp_Timeline = 2, tp_LSN = 300\<rparr> example_history) \<longleftrightarrow>
   \<not> on_history \<lparr>tp_Timeline = 2, tp_LSN = 300\<rparr> (ph_Timeline example_history)
       (ph_Forks example_history)"
  by (rule divergence_is_leaving_the_history) (simp_all add: example_history_def)

text \<open>
  The maintenance annotation reads back as a set: the members are sorted, without repetition, and
  exactly the non-empty fields of the comma-separated list with surrounding space removed.
\<close>

theorem MaintenanceMembers_reads_the_fields:
  "sorted (MaintenanceMembers ann) \<and> distinct (MaintenanceMembers ann) \<and>
   set (MaintenanceMembers ann) =
     (case ann AnnotationMaintenance of
        None \<Rightarrow> {}
      | Some raw \<Rightarrow> TrimSpace ` set (Split (CHR '','') raw) - {[]})"
proof -
  have "TrimSpace [] = []" by (simp add: TrimSpace_def)
  then show ?thesis
    by (auto simp: MaintenanceMembers_def Let_def string_sort maintenance_loop_set
        maintenance_loop_distinct split: option.splits)
qed

end
