(* ===== verification/Pgtool.thy ===== *)
theory Pgtool
  imports Pgconf HA_Startup
begin

text \<open>
  What the instance agent reads of PostgreSQL's own files (\<open>internal/instance/pgtool/controldata.go\<close>,
  \<open>history.go\<close>), and what it concludes: the floor of the five parameters a standby must not start
  below (\<open>agent/config.go\<close>) and whether a member has left the primary's history
  (\<open>agent/divergence.go\<close>). The output of \<open>pg_controldata\<close>, the entries of the WAL directory and the
  contents of its files are arguments.
\<close>

section \<open>Numbers of 32 bits and lines\<close>

text \<open>\<open>strconv.ParseInt s 10 32\<close>.\<close>

definition ParseInt32 :: "string \<Rightarrow> num_error + int" where
  "ParseInt32 s =
     (let (negative, digits) =
        (case s of
           [] \<Rightarrow> (False, [])
         | c # rest \<Rightarrow> if c = CHR ''-'' then (True, rest) else if c = CHR ''+'' then (False, rest) else (False, s)) in
      case ParseUint digits 10 32 of
        Inl e \<Rightarrow> Inl e
      | Inr n \<Rightarrow>
          if \<not> negative \<and> n \<ge> 2 ^ 31 \<or> negative \<and> n > 2 ^ 31 then Inl ErrRange
          else Inr (if negative then - int n else int n))"

lemma ParseInt32_Itoa:
  assumes "in_int32 n"
  shows "ParseInt32 (Itoa n) = Inr n"
proof (cases "n < 0")
  case True
  with assms have "nat (- n) < 2 ^ 32" "\<not> nat (- n) > 2 ^ 31" by (auto simp: in_int32_def)
  with True show ?thesis by (simp add: ParseInt32_def Itoa_def decimal.ParseUint_digits)
next
  case False
  obtain c rest where digits: "show_nat (nat n) = c # rest" using decimal.digits_nonempty by (cases "show_nat (nat n)") auto
  then have "c \<noteq> CHR ''-''" "c \<noteq> CHR ''+''" using hex_graphic(3) [of c "nat n"] by auto
  moreover have "ParseUint (c # rest) 10 32 = Inr (nat n)" "\<not> nat n \<ge> 2 ^ 31"
    using assms False decimal.ParseUint_digits [of "nat n" 32] by (auto simp: in_int32_def digits)
  ultimately show ?thesis using False by (simp add: ParseInt32_def Itoa_def digits)
qed

text \<open>
  The lines of \<open>bufio.Scanner\<close>: the text between newlines without a trailing carriage return, and no
  empty last line. A line of 64 KiB does not fit its buffer.
\<close>

definition scanner_limit :: nat where
  "scanner_limit = 65536"

definition dropCR :: "string \<Rightarrow> string" where
  "dropCR s = (if s \<noteq> [] \<and> last s = CHR 0x0D then butlast s else s)"

definition scanned_lines :: "string \<Rightarrow> string list" where
  "scanned_lines s = (let ls = Split newline s in if last ls = [] then butlast ls else ls)"

section \<open>The control file\<close>

record control_data =
  cd_SystemIdentifier :: string
  cd_ClusterState :: string
  cd_TimelineID :: int
  cd_MinRecoveryEnd :: string
  cd_MinRecoveryEndTimeline :: int
  cd_WALSegmentSize :: int
  cd_DataPageChecksumVersion :: int
  cd_EnforcedSettings :: "string \<rightharpoonup> int"

datatype control_error = ControlNumber string num_error | ControlLineTooLong | NoSystemIdentifier

definition controlDataKeys :: "(string \<times> string) list" where
  "controlDataKeys =
     [(''max_connections setting'', GUCMaxConnections),
      (''max_worker_processes setting'', GUCMaxWorkerProcesses),
      (''max_wal_senders setting'', GUCMaxWALSenders),
      (''max_prepared_xacts setting'', GUCMaxPreparedTransactions),
      (''max_locks_per_xact setting'', GUCMaxLocksPerTransaction)]"

definition empty_control_data :: control_data where
  "empty_control_data =
     \<lparr>cd_SystemIdentifier = [], cd_ClusterState = [], cd_TimelineID = 0, cd_MinRecoveryEnd = [],
      cd_MinRecoveryEndTimeline = 0, cd_WALSegmentSize = 0, cd_DataPageChecksumVersion = 0,
      cd_EnforcedSettings = Map.empty\<rparr>"

definition numbered :: "string \<Rightarrow> num_error + int \<Rightarrow> (int \<Rightarrow> control_data) \<Rightarrow> control_error + control_data" where
  "numbered label number f = (case number of Inl e \<Rightarrow> Inl (ControlNumber label e) | Inr n \<Rightarrow> Inr (f n))"

definition control_line :: "string \<Rightarrow> control_data \<Rightarrow> control_error + control_data" where
  "control_line line data =
     (case Cut line CHR '':'' of
        (rawLabel, rawValue, found) \<Rightarrow>
          if \<not> found then Inr data
          else
            let label = TrimSpace rawLabel; v = TrimSpace rawValue in
            case map_of controlDataKeys label of
              Some guc \<Rightarrow> numbered label (ParseInt32 v) (\<lambda>n. data\<lparr>cd_EnforcedSettings := (cd_EnforcedSettings data)(guc \<mapsto> n)\<rparr>)
            | None \<Rightarrow>
                if label = ''Database system identifier'' then Inr (data\<lparr>cd_SystemIdentifier := v\<rparr>)
                else if label = ''Database cluster state'' then Inr (data\<lparr>cd_ClusterState := v\<rparr>)
                else if label = ''Latest checkpoint's TimeLineID'' then
                  numbered label (ParseInt32 v) (\<lambda>n. data\<lparr>cd_TimelineID := n\<rparr>)
                else if label = ''Minimum recovery ending location'' then Inr (data\<lparr>cd_MinRecoveryEnd := v\<rparr>)
                else if label = ''Min recovery ending loc's timeline'' then
                  numbered label (ParseInt32 v) (\<lambda>n. data\<lparr>cd_MinRecoveryEndTimeline := n\<rparr>)
                else if label = ''Bytes per WAL segment'' then
                  numbered label (ParseInt v) (\<lambda>n. data\<lparr>cd_WALSegmentSize := n\<rparr>)
                else if label = ''Data page checksum version'' then
                  numbered label (ParseInt32 v) (\<lambda>n. data\<lparr>cd_DataPageChecksumVersion := n\<rparr>)
                else Inr data)"

fun control_loop :: "string list \<Rightarrow> control_data \<Rightarrow> control_error + control_data" where
  "control_loop [] data = Inr data"
| "control_loop (line # rest) data =
     (if length line \<ge> scanner_limit then Inl ControlLineTooLong
      else case control_line (dropCR line) data of Inl e \<Rightarrow> Inl e | Inr data' \<Rightarrow> control_loop rest data')"

definition ParseControlData :: "string \<Rightarrow> control_error + control_data" where
  "ParseControlData output =
     (case control_loop (scanned_lines output) empty_control_data of
        Inl e \<Rightarrow> Inl e
      | Inr data \<Rightarrow> if cd_SystemIdentifier data = [] then Inl NoSystemIdentifier else Inr data)"

definition ClusterStateShutDown :: "string \<Rightarrow> bool" where
  "ClusterStateShutDown state \<longleftrightarrow> state = ''shut down'' \<or> state = ''shut down in recovery''"

text \<open>\<open>data.EnforcedSettings[name]\<close>, zero for a name that is not there.\<close>

definition floor_of :: "control_data \<Rightarrow> string \<Rightarrow> int" where
  "floor_of data name = (case cd_EnforcedSettings data name of None \<Rightarrow> 0 | Some n \<Rightarrow> n)"

definition EnforcedFloor :: "(string \<rightharpoonup> int) \<Rightarrow> control_data \<Rightarrow> (string \<rightharpoonup> int)" where
  "EnforcedFloor desired data = (\<lambda>name. map_option (\<lambda>v. max v (floor_of data name)) (desired name))"

section \<open>The floor of a rendered configuration\<close>

definition isEnforced :: "string \<Rightarrow> bool" where
  "isEnforced name \<longleftrightarrow> name \<in> set EnforcedParameters"

fun desired_enforced :: "setting list \<Rightarrow> (string \<rightharpoonup> int) \<Rightarrow> (string \<rightharpoonup> int)" where
  "desired_enforced [] desired = desired"
| "desired_enforced (s # settings) desired =
     desired_enforced settings
       (if \<not> isEnforced (st_Name s) then desired
        else case ParseInt32 (st_Value s) of Inl _ \<Rightarrow> desired | Inr v \<Rightarrow> desired(st_Name s \<mapsto> v))"

definition applyEnforcedFloor :: "setting list \<Rightarrow> control_data \<Rightarrow> setting list" where
  "applyEnforcedFloor settings data =
     (let floored = EnforcedFloor (desired_enforced settings Map.empty) data in
      map (\<lambda>s. case floored (st_Name s) of None \<Rightarrow> s | Some v \<Rightarrow> s\<lparr>st_Value := Itoa v\<rparr>) settings)"

section \<open>Timeline histories\<close>

record history_fork =
  hf_Parent :: int
  hf_SwitchLSN :: string

record timeline_history =
  th_Timeline :: int
  th_Forks :: "history_fork list"

fun switch_loop :: "history_fork list \<Rightarrow> int \<Rightarrow> string option" where
  "switch_loop [] timeline = None"
| "switch_loop (fork # forks) timeline =
     (if hf_Parent fork = timeline then Some (hf_SwitchLSN fork) else switch_loop forks timeline)"

definition SwitchFrom :: "timeline_history \<Rightarrow> int \<Rightarrow> string option" where
  "SwitchFrom h timeline = switch_loop (th_Forks h) timeline"

datatype history_error = NoSwitchPosition string | BadParent string num_error | DirectoryUnreadable | FileUnreadable string

fun history_loop :: "string list \<Rightarrow> history_error + history_fork list" where
  "history_loop [] = Inr []"
| "history_loop (text # rest) =
     (let line = (case Cut text CHR ''#'' of (before, _, _) \<Rightarrow> before);
          fields = Fields line in
      if fields = [] then history_loop rest
      else if length fields < 2 then Inl (NoSwitchPosition line)
      else case ParseInt32 (fields ! 0) of
        Inl e \<Rightarrow> Inl (BadParent line e)
      | Inr parent \<Rightarrow>
          (case history_loop rest of
             Inl e \<Rightarrow> Inl e
           | Inr forks \<Rightarrow> Inr (\<lparr>hf_Parent = parent, hf_SwitchLSN = fields ! 1\<rparr> # forks)))"

definition ParseTimelineHistory :: "int \<Rightarrow> string \<Rightarrow> history_error + timeline_history" where
  "ParseTimelineHistory timeline contents =
     (case history_loop (Split newline contents) of
        Inl e \<Rightarrow> Inl e
      | Inr forks \<Rightarrow> Inr \<lparr>th_Timeline = timeline, th_Forks = forks\<rparr>)"

definition historySuffix :: string where
  "historySuffix = ''.history''"

definition timelineOfHistoryFile :: "string \<Rightarrow> int option" where
  "timelineOfHistoryFile name =
     (let stem = take (length name - length historySuffix) name in
      if \<not> suffix historySuffix name \<or> length stem \<noteq> 8 then None
      else case ParseUint stem 16 32 of Inl _ \<Rightarrow> None | Inr n \<Rightarrow> Some (wrap32 (int n)))"

text \<open>The WAL directory: what listing it answers, and what reading a file of it answers.\<close>

datatype listing = Missing | Unlistable | Entries "string list"

record wal_dir =
  wd_entries :: listing
  wd_read :: "string \<Rightarrow> string option"

fun latest_loop :: "string list \<Rightarrow> int \<times> string \<Rightarrow> int \<times> string" where
  "latest_loop [] best = best"
| "latest_loop (name # names) best =
     latest_loop names
       (case timelineOfHistoryFile name of
          None \<Rightarrow> best
        | Some timeline \<Rightarrow> if timeline \<le> fst best then best else (timeline, name))"

definition LatestTimelineHistory :: "wal_dir \<Rightarrow> history_error + timeline_history option" where
  "LatestTimelineHistory dir =
     (case wd_entries dir of
        Missing \<Rightarrow> Inr None
      | Unlistable \<Rightarrow> Inl DirectoryUnreadable
      | Entries names \<Rightarrow>
          (case latest_loop names (0, []) of
             (latest, name) \<Rightarrow>
               if name = [] then Inr None
               else case wd_read dir name of
                 None \<Rightarrow> Inl (FileUnreadable name)
               | Some contents \<Rightarrow>
                   (case ParseTimelineHistory latest contents of Inl e \<Rightarrow> Inl e | Inr h \<Rightarrow> Inr (Some h))))"

section \<open>Divergence\<close>

text \<open>The fields of an observation that say which WAL a member holds.\<close>

record held_wal =
  hw_Timeline :: int
  hw_ReceivedLSN :: string
  hw_ReplayLSN :: string
  hw_MinRecoveryEndLSN :: string

definition HeldPosition :: "held_wal \<Rightarrow> timeline_position" where
  "HeldPosition w =
     \<lparr>tp_Timeline = hw_Timeline w,
      tp_LSN = max (max (MustParseLSN (hw_ReceivedLSN w)) (MustParseLSN (hw_ReplayLSN w))) (MustParseLSN (hw_MinRecoveryEndLSN w))\<rparr>"

definition StoppedPosition :: "control_data \<Rightarrow> timeline_position" where
  "StoppedPosition data =
     \<lparr>tp_Timeline = max (cd_TimelineID data) (cd_MinRecoveryEndTimeline data), tp_LSN = MustParseLSN (cd_MinRecoveryEnd data)\<rparr>"

text \<open>The members of an instance's status with the timeline each last reported.\<close>

fun PrimaryTimeline :: "(string \<times> int) list \<Rightarrow> string \<Rightarrow> int" where
  "PrimaryTimeline [] primary = 0"
| "PrimaryTimeline ((name, timeline) # members) primary =
     (if name = primary then timeline else PrimaryTimeline members primary)"

definition fork_of :: "history_fork \<Rightarrow> timeline_fork" where
  "fork_of f = \<lparr>tf_Parent = hf_Parent f, tf_SwitchLSN = MustParseLSN (hf_SwitchLSN f)\<rparr>"

definition agent_DetectDivergence :: "wal_dir \<Rightarrow> timeline_position \<Rightarrow> int \<Rightarrow> history_error + divergence" where
  "agent_DetectDivergence dir local primaryTimeline =
     (case LatestTimelineHistory dir of
        Inl e \<Rightarrow> Inl e
      | Inr None \<Rightarrow>
          Inr (DetectDivergence local \<lparr>ph_Timeline = primaryTimeline, ph_HistoryTimeline = 0, ph_Forks = []\<rparr>)
      | Inr (Some h) \<Rightarrow>
          Inr (DetectDivergence local
                 \<lparr>ph_Timeline = primaryTimeline, ph_HistoryTimeline = th_Timeline h, ph_Forks = map fork_of (th_Forks h)\<rparr>))"

section \<open>Facts\<close>

lemma desired_enforced_value:
  assumes "distinct (map st_Name settings)"
  shows "desired_enforced settings m name =
    (if isEnforced name
     then (case setting_value settings name of
             Some v \<Rightarrow> (case ParseInt32 v of Inr n \<Rightarrow> Some n | Inl _ \<Rightarrow> m name)
           | None \<Rightarrow> m name)
     else m name)"
  using assms
proof (induction settings arbitrary: m)
  case (Cons s settings)
  have "st_Name s \<notin> set (map st_Name settings)" using Cons.prems by simp
  then have "setting_value settings (st_Name s) = None"
    by (auto simp: setting_value_def map_of_eq_None_iff image_iff)
  then show ?case using Cons by (auto simp: setting_value_def split: sum.splits option.splits)
qed (simp add: setting_value_def)

lemma applyEnforcedFloor_value:
  assumes "distinct (map st_Name settings)"
  shows "setting_value (applyEnforcedFloor settings data) name =
    (case setting_value settings name of
       None \<Rightarrow> None
     | Some v \<Rightarrow>
         (case ParseInt32 v of
            Inr n \<Rightarrow> if isEnforced name then Some (Itoa (max n (floor_of data name))) else Some v
          | Inl _ \<Rightarrow> Some v))"
proof -
  define g where "g s = (case EnforcedFloor (desired_enforced settings Map.empty) data (st_Name s) of
      None \<Rightarrow> s | Some v \<Rightarrow> s\<lparr>st_Value := Itoa v\<rparr>)" for s :: setting
  have names: "st_Name (g s) = st_Name s" for s by (simp add: g_def split: option.splits)
  have "setting_value (map g ss) name = map_option (\<lambda>v. st_Value (g \<lparr>st_Name = name, st_Value = v\<rparr>)) (setting_value ss name)" for ss
    by (induction ss) (auto simp: setting_value_def names g_def split: option.splits)
  moreover have "applyEnforcedFloor settings data = map g settings" by (simp add: applyEnforcedFloor_def g_def)
  ultimately show ?thesis
    by (auto simp: g_def EnforcedFloor_def desired_enforced_value [OF assms] split: option.splits sum.splits)
qed

lemma distinct_RenderCustomConf: "distinct (map st_Name (RenderCustomConf config))"
proof -
  have "map st_Name (sortedSettings al) = map fst (sort_key fst al)" for al
    by (simp add: sortedSettings_def comp_def case_prod_beta)
  moreover have "distinct (map fst (sort_key fst al)) \<longleftrightarrow> distinct (map fst al)" for al :: "(string \<times> string) list"
    by (metis distinct_sort mset_eq_imp_distinct_iff mset_map mset_sort)
  ultimately show ?thesis by (simp add: RenderCustomConf_def distinct_user_merge distinct_owned_settings)
qed

text \<open>The five parameters are computed by the operator, and nothing a user writes replaces them.\<close>

definition computed_enforced :: "instance_config \<Rightarrow> string \<Rightarrow> int" where
  "computed_enforced config name =
     (if name = GUCMaxConnections then pc_MaxConnections (ic_Capacity config)
      else if name = GUCMaxWALSenders then pc_WALSenders (ic_Capacity config)
      else if name = GUCMaxWorkerProcesses then workerProcesses (ic_ParallelWorkers config)
      else if name = GUCMaxPreparedTransactions then 0
      else if 19 \<le> ic_Major config then 128 else 64)"

lemma enforced_is_pinned: "list_all (\<lambda>name. IsPinned name \<and> map_of BlockedDefaults name = None) EnforcedParameters"
  by code_simp

lemma Itoa_samples: "Itoa 0 = ''0''" "Itoa 64 = ''64''" "Itoa 128 = ''128''"
  by code_simp+

lemma enforced_is_computed:
  "list_all (\<lambda>name. map_of (computed_settings config) name = Some (Itoa (computed_enforced config name)) \<and>
     name \<noteq> ''shared_buffers'' \<and> name \<noteq> ''effective_cache_size'') EnforcedParameters"
  by (simp add: EnforcedParameters_def computed_settings_def computed_enforced_def guc_defs maxLocksPerTransaction_def
      Itoa_samples)

lemma enforced_is_rendered:
  assumes "distinct (map fst (ic_UserParameters config))" "name \<in> set EnforcedParameters"
  shows "setting_value (RenderCustomConf config) name = Some (Itoa (computed_enforced config name))"
proof -
  have "IsPinned name" "map_of BlockedDefaults name = None"
    using enforced_is_pinned assms(2) by (simp_all add: list_all_iff)
  moreover have "map_of (computed_settings config) name = Some (Itoa (computed_enforced config name))"
      "name \<noteq> ''shared_buffers''" "name \<noteq> ''effective_cache_size''"
    using enforced_is_computed [of config] assms(2) unfolding list_all_iff by blast+
  ultimately show ?thesis
    using RenderCustomConf_value [OF assms(1), of name] by (simp add: map_of_owned_settings map_add_def split: option.splits)
qed

lemma fst_Cut: "sep \<notin> set a \<Longrightarrow> fst (Cut (a @ b) sep) = a @ fst (Cut b sep)"
  by (induction a) (auto split: prod.splits bool.splits)

lemma Cut_prefix: "set (fst (Cut b sep)) \<subseteq> set b"
  by (induction b) (auto split: prod.splits bool.splits)

lemma Fields_tab:
  assumes "\<forall>c \<in> set w. graphic c" "w \<noteq> []"
  shows "Fields (w @ CHR 0x09 # s) = w # Fields s"
proof -
  have "fields_from cur (CHR 0x09 # s) = (if cur = [] then [] else [cur]) @ fields_from [] s" for cur
    by (subst fields_from.simps) (simp add: space_runes_def)
  with assms show ?thesis by (simp add: Fields_def fields_from_word)
qed

section \<open>Properties\<close>

text \<open>
  C36. A standby never starts below what its control file demands. In the configuration the agent writes for a
  member, each of the five parameters PostgreSQL enforces on a standby is the larger of what the operator
  computed and what \<open>pg_controldata\<close> reported, whatever parameters the user set; every other setting of
  the file is the rendered one, and no setting appears or disappears.
\<close>

theorem enforced_parameters_reach_the_floor:
  assumes "distinct (map fst (ic_UserParameters config))"
    and "in_int32 (pc_MaxConnections (ic_Capacity config))" "in_int32 (pc_WALSenders (ic_Capacity config))"
  shows "setting_value (applyEnforcedFloor (RenderCustomConf config) data) name =
    (if name \<in> set EnforcedParameters
     then Some (Itoa (max (computed_enforced config name) (floor_of data name)))
     else setting_value (RenderCustomConf config) name)"
proof -
  have "in_int32 (computed_enforced config name)"
    using assms(2,3) wrap32_range by (auto simp: computed_enforced_def workerProcesses_def minWorkerProcesses_def in_int32_def max_def)
  then show ?thesis
    using enforced_is_rendered [OF assms(1), of name]
    by (auto simp: applyEnforcedFloor_value [OF distinct_RenderCustomConf] isEnforced_def ParseInt32_Itoa split: option.splits sum.splits)
qed

theorem enforced_parameters_reach_the_floor_witness:
  "setting_value (applyEnforcedFloor (RenderCustomConf example_config) (empty_control_data\<lparr>cd_EnforcedSettings := [GUCMaxWorkerProcesses \<mapsto> 4000]\<rparr>))
     GUCMaxWorkerProcesses = Some (Itoa (max (computed_enforced example_config GUCMaxWorkerProcesses) 4000))"
proof -
  have "distinct (map fst (ic_UserParameters example_config))" "in_int32 (pc_MaxConnections (ic_Capacity example_config))"
    "in_int32 (pc_WALSenders (ic_Capacity example_config))" "GUCMaxWorkerProcesses \<in> set EnforcedParameters" by code_simp+
  then show ?thesis
    using enforced_parameters_reach_the_floor [of example_config
        "empty_control_data\<lparr>cd_EnforcedSettings := [GUCMaxWorkerProcesses \<mapsto> 4000]\<rparr>" GUCMaxWorkerProcesses]
    by (simp add: floor_of_def)
qed

text \<open>A timeline history file: parent, switch position and reason, separated by tabs, one fork on a line.\<close>

definition history_line :: "int \<times> LSN \<times> string \<Rightarrow> string" where
  "history_line row =
     (case row of (parent, lsn, reason) \<Rightarrow> Itoa parent @ [CHR 0x09] @ LSN_String lsn @ [CHR 0x09] @ reason)"

definition history_text :: "(int \<times> LSN \<times> string) list \<Rightarrow> string" where
  "history_text rows = concat (map (\<lambda>row. history_line row @ [newline]) rows)"

definition history_row :: "int \<times> LSN \<times> string \<Rightarrow> bool" where
  "history_row row = (case row of (parent, _, reason) \<Rightarrow> in_int32 parent \<and> newline \<notin> set reason)"

definition row_fork :: "int \<times> LSN \<times> string \<Rightarrow> timeline_fork" where
  "row_fork row = (case row of (parent, lsn, _) \<Rightarrow> \<lparr>tf_Parent = parent, tf_SwitchLSN = lsn\<rparr>)"

lemma Split_history:
  "\<forall>row \<in> set rows. history_row row \<Longrightarrow> Split newline (history_text rows) = map history_line rows @ [[]]"
proof (induction rows)
  case (Cons row rows)
  obtain p l r where row: "row = (p, l, r)" by (cases row)
  have "newline \<notin> set (history_line row)"
    using Cons.prems LSN_String_graphic Itoa_graphic
    by (fastforce simp: row history_line_def history_row_def newline_def graphic_def)
  with Cons show ?case by (simp add: history_text_def Split_append)
qed (simp add: history_text_def)

lemma no_comment: "CHR ''#'' \<notin> set (to_hex k)" "CHR ''#'' \<notin> set (Itoa n)"
proof -
  have above: "c \<noteq> CHR ''#''" if "48 \<le> (of_char c :: nat)" for c
    using that by auto
  have "hex_digit d \<noteq> CHR ''#''" if "d < 16" for d using that by (intro above) (auto simp: hex_digit_def)
  then show "CHR ''#'' \<notin> set (to_hex k)" using hex.digits_all [of "\<lambda>c. c \<noteq> CHR ''#''" k] by blast
  have "char_of (48 + d) \<noteq> CHR ''#''" if "d < 10" for d :: nat using that by (intro above) simp
  then have "CHR ''#'' \<notin> set (show_nat m)" for m using decimal.digits_all [of "\<lambda>c. c \<noteq> CHR ''#''" m] by blast
  then show "CHR ''#'' \<notin> set (Itoa n)" by (simp add: Itoa_def)
qed

lemma history_line_forks:
  assumes "history_row row"
  shows "history_loop (history_line row # rest) =
    (case history_loop rest of
       Inl e \<Rightarrow> Inl e
     | Inr forks \<Rightarrow> Inr (\<lparr>hf_Parent = fst row, hf_SwitchLSN = LSN_String (fst (snd row))\<rparr> # forks))"
proof -
  obtain p l r where row: "row = (p, l, r)" by (cases row)
  have graph: "\<forall>c \<in> set (Itoa p). graphic c" "\<forall>c \<in> set (LSN_String l). graphic c"
    using Itoa_graphic LSN_String_graphic by blast+
  have lsn: "LSN_String l \<noteq> []" by (simp add: LSN_String_def)
  have "CHR ''#'' \<notin> set (Itoa p @ [CHR 0x09] @ LSN_String l @ [CHR 0x09])"
    using no_comment by (simp add: LSN_String_def pad8_def)
  then have "fst (Cut (history_line row) CHR ''#'') = Itoa p @ CHR 0x09 # LSN_String l @ CHR 0x09 # fst (Cut r CHR ''#'')"
    using fst_Cut [of "CHR ''#''" "Itoa p @ [CHR 0x09] @ LSN_String l @ [CHR 0x09]" r] by (simp add: history_line_def row)
  then have "Fields (fst (Cut (history_line row) CHR ''#'')) = Itoa p # LSN_String l # Fields (fst (Cut r CHR ''#''))"
    using Fields_tab graph lsn by simp
  moreover have "ParseInt32 (Itoa p) = Inr p" using assms by (simp add: history_row_def row ParseInt32_Itoa)
  ultimately show ?thesis by (simp add: Let_def case_prod_beta row split: sum.splits)
qed

lemma history_reads_back:
  assumes "\<forall>row \<in> set rows. history_row row"
  shows "ParseTimelineHistory timeline (history_text rows) =
    Inr \<lparr>th_Timeline = timeline,
         th_Forks = map (\<lambda>row. \<lparr>hf_Parent = fst row, hf_SwitchLSN = LSN_String (fst (snd row))\<rparr>) rows\<rparr>"
proof -
  have "Fields [] = []" by (simp add: Fields_def fields_from_Nil)
  then have "history_loop [[]] = Inr []" by simp
  then have "history_loop (map history_line rows @ [[]]) =
    Inr (map (\<lambda>row. \<lparr>hf_Parent = fst row, hf_SwitchLSN = LSN_String (fst (snd row))\<rparr>) rows)"
    using assms
  proof (induction rows)
    case (Cons row rows)
    then show ?case using history_line_forks [of row "map history_line rows @ [[]]"] by simp
  qed simp
  then show ?thesis by (simp add: ParseTimelineHistory_def Split_history [OF assms])
qed

lemma latest_loop_greatest:
  assumes "latest_loop names (t0, n0) = (t, n)"
  shows "t0 \<le> t \<and> (t = t0 \<longrightarrow> n = n0) \<and> (t0 < t \<longrightarrow> n \<in> set names \<and> timelineOfHistoryFile n = Some t) \<and>
    (\<forall>m \<in> set names. \<forall>u. timelineOfHistoryFile m = Some u \<longrightarrow> u \<le> t)"
  using assms
proof (induction names arbitrary: t0 n0)
  case (Cons m names)
  show ?case
  proof (cases "timelineOfHistoryFile m")
    case None
    with Cons show ?thesis by auto
  next
    case (Some u)
    with Cons.prems Cons.IH [of t0 n0] Cons.IH [of u m] show ?thesis by (cases "u \<le> t0") fastforce+
  qed
qed simp

lemma latest_history_found:
  assumes "wd_entries dir = Entries names" "name \<in> set names" "timelineOfHistoryFile name = Some t" "0 < t"
    and "\<forall>m \<in> set names. \<forall>u. timelineOfHistoryFile m = Some u \<longrightarrow> u < t \<or> m = name"
    and "wd_read dir name = Some contents"
  shows "LatestTimelineHistory dir = map_sum id Some (ParseTimelineHistory t contents)"
proof -
  obtain u n where last: "latest_loop names (0, []) = (u, n)" by fastforce
  note best = latest_loop_greatest [OF this]
  then have "t \<le> u" using assms(2,3) by blast
  then have "n \<in> set names" "timelineOfHistoryFile n = Some u" using best assms(4) by auto
  then have "n = name" using assms(5) \<open>t \<le> u\<close> by force
  moreover have "u = t" using \<open>timelineOfHistoryFile n = Some u\<close> \<open>n = name\<close> assms(3) by simp
  moreover have "name \<noteq> []" using assms(3) by (auto simp: timelineOfHistoryFile_def historySuffix_def suffix_def)
  ultimately show ?thesis
    using assms(1,6) by (simp add: LatestTimelineHistory_def last split: sum.splits)
qed


definition sample_wal_dir :: wal_dir where
  "sample_wal_dir =
     \<lparr>wd_entries = Entries [''00000002.history'', ''0000000200000000000000A1'', ''00000003.history''],
      wd_read = [''00000003.history'' \<mapsto> history_text [(1, 100, ''no recovery target specified''), (2, 250, ''lost # quorum'')]]\<rparr>"

lemma sample_timelines:
  "timelineOfHistoryFile ''00000002.history'' = Some 2" "timelineOfHistoryFile ''00000003.history'' = Some 3"
  "timelineOfHistoryFile ''0000000200000000000000A1'' = None"
  by (simp_all add: timelineOfHistoryFile_def historySuffix_def suffix_to_prefix ParseUint_def digit_value_def wrap32_def)


end
