(* ===== verification/HA_Lease.thy ===== *)
theory HA_Lease
  imports Go_Prelude
begin

text \<open>
  The promotion lease (\<open>internal/ha/lease.go\<close>): the timing configuration and its two admission
  invariants, the take-over decision made from two observations on the observer's own clock, the
  outcome of a renewal, and the fencing epoch derived from the transition counter.
\<close>

record lease_config =
  lc_LeaseDuration :: duration
  lc_RenewDeadline :: duration
  lc_RetryPeriod :: duration
  lc_ReleasedLeaseDuration :: duration

definition DefaultLeaseConfig :: lease_config where
  "DefaultLeaseConfig =
     \<lparr>lc_LeaseDuration = 15 * second, lc_RenewDeadline = 10 * second,
      lc_RetryPeriod = 2 * second, lc_ReleasedLeaseDuration = second\<rparr>"

definition AcquireTimeout :: "lease_config \<Rightarrow> duration" where
  "AcquireTimeout c = wrap64 (lc_LeaseDuration c + wrap64 (3 * lc_RetryPeriod c))"

definition Valid :: "lease_config \<Rightarrow> bool" where
  "Valid c \<longleftrightarrow>
     lc_LeaseDuration c > lc_RenewDeadline c \<and>
     wrap64 (5 * lc_RenewDeadline c) > wrap64 (6 * lc_RetryPeriod c)"

record lease_snapshot =
  ls_Holder :: string
  ls_RenewTime :: time
  ls_LeaseDuration :: duration
  ls_ObservedAt :: time

datatype take_over_reason =
    TakeOverUnheld
  | TakeOverAlreadyHeld
  | TakeOverExpired
  | TakeOverHolderAlive
  | TakeOverTooSoon

record take_over_verdict =
  tv_Allowed :: bool
  tv_Reason :: take_over_reason

definition MayTakeOver ::
  "lease_config \<Rightarrow> lease_snapshot \<Rightarrow> lease_snapshot \<Rightarrow> string \<Rightarrow> take_over_verdict" where
  "MayTakeOver c first latest self =
     (if ls_Holder latest = [] then \<lparr>tv_Allowed = True, tv_Reason = TakeOverUnheld\<rparr>
      else if ls_Holder latest = self then \<lparr>tv_Allowed = True, tv_Reason = TakeOverAlreadyHeld\<rparr>
      else if ls_Holder latest \<noteq> ls_Holder first \<or> ls_RenewTime latest \<noteq> ls_RenewTime first then
        \<lparr>tv_Allowed = False, tv_Reason = TakeOverHolderAlive\<rparr>
      else
        let validity = (if ls_LeaseDuration latest \<le> 0 then lc_LeaseDuration c
                        else ls_LeaseDuration latest) in
        if time_sub (ls_ObservedAt latest) (ls_ObservedAt first) < validity then
          \<lparr>tv_Allowed = False, tv_Reason = TakeOverTooSoon\<rparr>
        else \<lparr>tv_Allowed = True, tv_Reason = TakeOverExpired\<rparr>)"

datatype renew_outcome = RenewOK | RenewLost | RenewUnverified

definition Terminal :: "renew_outcome \<Rightarrow> bool" where
  "Terminal o' \<longleftrightarrow> o' = RenewLost"

definition InitialPrimaryEpoch :: int where
  "InitialPrimaryEpoch = 1"

definition Epoch :: "int \<Rightarrow> int \<Rightarrow> int" where
  "Epoch base leaderTransitions =
     (if leaderTransitions < 0 then base else wrap64 (base + leaderTransitions))"

section \<open>Facts\<close>

lemma MayTakeOver_foreign:
  assumes "ls_Holder latest \<noteq> []" and "ls_Holder latest \<noteq> self"
  shows "tv_Allowed (MayTakeOver c first latest self) \<longleftrightarrow>
    ls_Holder latest = ls_Holder first \<and> ls_RenewTime latest = ls_RenewTime first \<and>
    (if ls_LeaseDuration latest \<le> 0 then lc_LeaseDuration c else ls_LeaseDuration latest)
      \<le> time_sub (ls_ObservedAt latest) (ls_ObservedAt first)"
  using assms by (auto simp: MayTakeOver_def Let_def)

lemma wrap64_small: "\<bar>x\<bar> \<le> 1152921504606846976 \<Longrightarrow> k \<in> {3, 5, 6} \<Longrightarrow> wrap64 (k * x) = k * x"
  by (rule wrap64_id) (auto simp: in_int64_def)

lemma Valid_orders:
  assumes "Valid c" and "0 \<le> lc_RetryPeriod c"
    and "lc_RetryPeriod c \<le> 1152921504606846976" and "\<bar>lc_RenewDeadline c\<bar> \<le> 1152921504606846976"
  shows "lc_RetryPeriod c < lc_RenewDeadline c" and "lc_RenewDeadline c < lc_LeaseDuration c"
proof -
  have "6 * lc_RetryPeriod c < 5 * lc_RenewDeadline c"
    using assms wrap64_small [of "lc_RenewDeadline c" 5] wrap64_small [of "lc_RetryPeriod c" 6]
    by (simp add: Valid_def)
  then show "lc_RetryPeriod c < lc_RenewDeadline c" using assms(2) by linarith
  show "lc_RenewDeadline c < lc_LeaseDuration c" using assms(1) by (simp add: Valid_def)
qed

section \<open>Properties\<close>

text \<open>
  The previous holder's clock is never trusted for ordering: replacing the two renewal stamps by
  any others that are equal exactly when the originals are leaves the verdict unchanged.
\<close>

theorem take_over_ignores_holder_clock:
  assumes "(r1 = r2) = (ls_RenewTime first = ls_RenewTime latest)"
  shows "MayTakeOver c (first\<lparr>ls_RenewTime := r1\<rparr>) (latest\<lparr>ls_RenewTime := r2\<rparr>) self
    = MayTakeOver c first latest self"
  using assms by (auto simp: MayTakeOver_def Let_def)

definition example_snapshot :: "time \<Rightarrow> time \<Rightarrow> lease_snapshot" where
  "example_snapshot renew observed =
     \<lparr>ls_Holder = ''a'', ls_RenewTime = renew, ls_LeaseDuration = 15 * second,
      ls_ObservedAt = observed\<rparr>"

theorem take_over_ignores_holder_clock_witness:
  "MayTakeOver DefaultLeaseConfig
     ((example_snapshot 100 (20 * second))\<lparr>ls_RenewTime := 7\<rparr>)
     ((example_snapshot 100 (40 * second))\<lparr>ls_RenewTime := 7\<rparr>) ''b''
   = MayTakeOver DefaultLeaseConfig
       (example_snapshot 100 (20 * second)) (example_snapshot 100 (40 * second)) ''b''"
  by (rule take_over_ignores_holder_clock) (simp add: example_snapshot_def)

text \<open>
  Promotion cannot overtake the fence. Under a configuration admission accepts, with
  non-negative periods far below the range limit, a lease that somebody else holds with the full
  validity is taken over only when more than \<open>RenewDeadline\<close>, and so more than \<open>RetryPeriod\<close>, has
  passed on the observer's own clock since it first saw the renewal stamp it still sees, and never
  while that stamp changes.
\<close>

theorem take_over_waits_out_the_fence:
  assumes "Valid c" and "0 \<le> lc_RetryPeriod c"
    and "lc_RetryPeriod c \<le> 1152921504606846976" and "\<bar>lc_RenewDeadline c\<bar> \<le> 1152921504606846976"
    and "ls_Holder latest \<noteq> []" and "ls_Holder latest \<noteq> self"
    and "ls_LeaseDuration latest \<le> 0 \<or> ls_LeaseDuration latest = lc_LeaseDuration c"
    and "tv_Allowed (MayTakeOver c first latest self)"
  shows "ls_Holder first = ls_Holder latest \<and> ls_RenewTime first = ls_RenewTime latest \<and>
    lc_RetryPeriod c < time_sub (ls_ObservedAt latest) (ls_ObservedAt first) \<and>
    lc_RenewDeadline c < time_sub (ls_ObservedAt latest) (ls_ObservedAt first)"
  using MayTakeOver_foreign [OF assms(5,6), of c first] Valid_orders [OF assms(1-4)] assms(7,8)
  by (auto split: if_splits)

theorem take_over_waits_out_the_fence_witness:
  "ls_Holder (example_snapshot 100 (20 * second)) = ls_Holder (example_snapshot 100 (40 * second)) \<and>
   ls_RenewTime (example_snapshot 100 (20 * second)) = ls_RenewTime (example_snapshot 100 (40 * second)) \<and>
   lc_RetryPeriod DefaultLeaseConfig
     < time_sub (ls_ObservedAt (example_snapshot 100 (40 * second)))
         (ls_ObservedAt (example_snapshot 100 (20 * second))) \<and>
   lc_RenewDeadline DefaultLeaseConfig
     < time_sub (ls_ObservedAt (example_snapshot 100 (40 * second)))
         (ls_ObservedAt (example_snapshot 100 (20 * second)))"
  by (rule take_over_waits_out_the_fence [where self = "''b''"])
    (simp_all add: DefaultLeaseConfig_def example_snapshot_def Valid_def MayTakeOver_def
      second_def wrap64_def time_sub_def)

text \<open>
  The fencing epoch never goes backwards and is never reused: with the initial base, as the
  lease's transition counter (a non-negative 32-bit number) grows, the epoch grows strictly with it,
  and the first epoch is already distinguishable from the unset value zero.
\<close>

theorem Epoch_strictly_increasing:
  assumes "in_int32 t1" and "in_int32 t2" and "0 \<le> t1"
  shows "(t1 < t2 \<longleftrightarrow> Epoch InitialPrimaryEpoch t1 < Epoch InitialPrimaryEpoch t2) \<and>
    0 < Epoch InitialPrimaryEpoch t1"
proof -
  have "Epoch InitialPrimaryEpoch t = (if t < 0 then 1 else 1 + t)" if "in_int32 t" for t
    using that by (auto simp: Epoch_def InitialPrimaryEpoch_def in_int32_def in_int64_def
        intro!: wrap64_id)
  with assms show ?thesis by auto
qed

theorem Epoch_strictly_increasing_witness:
  "((0::int) < 5 \<longleftrightarrow> Epoch InitialPrimaryEpoch 0 < Epoch InitialPrimaryEpoch 5) \<and>
   0 < Epoch InitialPrimaryEpoch 0"
  by (rule Epoch_strictly_increasing) (simp_all add: in_int32_def)

end
