(* ===== verification/HA_Controller.thy ===== *)
theory HA_Controller
  imports HA_Startup
begin

text \<open>
  The operator's side of a failover (\<open>internal/controller/pginstance_failover.go\<close>, with the spec
  readers of \<open>internal/instance/provision/objects.go\<close>): how the members are observed, how an
  observation is assembled from the stored instance, what is written back, and which conditions are
  published. The member prober is code of the cluster: it is the argument \<open>probe\<close>, which returns a
  report or fails. Metering, metrics and logging, which the decision never reads, are left out.

  The reconciles of one instance, interleaved with the agents' own writes, are the step relation
  \<open>failover_step\<close>.
\<close>

section \<open>State\<close>

record ha_spec =
  hs_FailoverDelay :: "duration option"
  hs_FailoverQuorum :: "bool option"

record stored_condition =
  sc_Type :: string
  sc_Status :: bool
  sc_Reason :: string
  sc_LastTransitionTime :: time

record instance_object =
  io_Name :: string
  io_Annotations :: "string \<rightharpoonup> string"
  io_Generation :: int
  io_HighAvailability :: "ha_spec option"
  io_CurrentPrimary :: string
  io_TargetPrimary :: string
  io_QuorumEvidence :: "quorum_record option"
  io_CurrentPrimaryFailingSince :: "time option"
  io_Conditions :: "stored_condition list"

record pod =
  pod_Name :: string
  pod_Conditions :: "(string \<times> string) list"
  pod_IP :: string
  pod_Deleting :: bool

record member_report =
  mr_InRecovery :: bool
  mr_Healthy :: bool
  mr_Timeline :: int
  mr_ReceivedLSN :: string
  mr_ReplayLSN :: string
  mr_WALReceiverActive :: bool
  mr_WALVolumeFull :: bool

section \<open>Reading the spec\<close>

definition FailoverDelay :: "ha_spec option \<Rightarrow> duration" where
  "FailoverDelay spec =
     (case spec of
        None \<Rightarrow> 10 * second
      | Some ha \<Rightarrow> (case hs_FailoverDelay ha of None \<Rightarrow> 10 * second | Some d \<Rightarrow> d))"

definition FailoverQuorumEnabled :: "ha_spec option \<Rightarrow> bool" where
  "FailoverQuorumEnabled spec =
     (case spec of
        None \<Rightarrow> True
      | Some ha \<Rightarrow> (case hs_FailoverQuorum ha of None \<Rightarrow> True | Some b \<Rightarrow> b))"

definition MemberName :: "string \<Rightarrow> int \<Rightarrow> string" where
  "MemberName name serial = name @ ''-'' @ Itoa serial"

fun pod_ready_loop :: "(string \<times> string) list \<Rightarrow> bool" where
  "pod_ready_loop [] = False"
| "pod_ready_loop ((type, status) # conditions) =
     (if type = ''Ready'' then status = ''True'' else pod_ready_loop conditions)"

definition podReady :: "pod \<Rightarrow> bool" where
  "podReady p = pod_ready_loop (pod_Conditions p)"

section \<open>Observing the members\<close>

definition StatusPort :: int where
  "StatusPort = 8008"

definition JoinHostPort :: "string \<Rightarrow> string \<Rightarrow> string" where
  "JoinHostPort host port =
     (if CHR '':'' \<in> set host then ''['' @ host @ '']:'' @ port else host @ '':'' @ port)"

type_synonym prober = "string \<Rightarrow> string \<Rightarrow> member_report option"

definition poll_one :: "prober \<Rightarrow> pod \<Rightarrow> member \<times> member_report list" where
  "poll_one probe p =
     (let member = zero_member\<lparr>m_Name := pod_Name p, m_PodReady := podReady p\<rparr> in
      if pod_IP p \<noteq> [] \<and> \<not> pod_Deleting p then
        (case probe (pod_Name p) (JoinHostPort (pod_IP p) (Itoa StatusPort)) of
           None \<Rightarrow> (member, [])
         | Some report \<Rightarrow>
             if mr_Healthy report then
               (member\<lparr>m_StatusReachable := True, m_Timeline := mr_Timeline report,
                       m_ReceivedLSN := MustParseLSN (mr_ReceivedLSN report),
                       m_ReplayLSN := MustParseLSN (mr_ReplayLSN report),
                       m_InRecovery := mr_InRecovery report,
                       m_WALReceiverActive := mr_WALReceiverActive report,
                       m_WALVolumeFull := mr_WALVolumeFull report\<rparr>, [report])
             else (member, []))
      else (member, []))"

definition pollMembers :: "prober \<Rightarrow> pod list \<Rightarrow> member list \<times> member_report list" where
  "pollMembers probe pods =
     (map (fst \<circ> poll_one probe) pods, concat (map (snd \<circ> poll_one probe) pods))"

record observation_round =
  or_members :: "member list"
  or_reports :: "member_report list"
  or_observed :: time

type_synonym observation_cache = "string \<rightharpoonup> observation_round"

definition sameMembers :: "member list \<Rightarrow> pod list \<Rightarrow> bool" where
  "sameMembers members pods =
     (if length members \<noteq> length pods then False
      else list_all2 (\<lambda>m p. m_Name m = pod_Name p) members pods)"

text \<open>
  \<open>started\<close> is the clock when the cache is read and \<open>now\<close> the clock after the poll; both readings
  are the source's. The mutex makes the whole body one step.
\<close>

definition observeMembers ::
  "duration \<Rightarrow> prober \<Rightarrow> time \<Rightarrow> time \<Rightarrow> string \<Rightarrow> pod list \<Rightarrow> observation_cache \<Rightarrow>
   (member list \<times> member_report list) \<times> observation_cache" where
  "observeMembers ttl probe started now key pods cache =
     (let poll =
        (let (members, reports) = pollMembers probe pods;
             kept = (\<lambda>k. case cache k of
                            None \<Rightarrow> None
                          | Some stale \<Rightarrow>
                              if time_sub now (or_observed stale) \<ge> ttl then None else Some stale)
         in ((members, reports),
             kept(key \<mapsto> \<lparr>or_members = members, or_reports = reports, or_observed = now\<rparr>))) in
      case cache key of
        None \<Rightarrow> poll
      | Some round \<Rightarrow>
          if ttl > 0 \<and> time_sub started (or_observed round) < ttl \<and> sameMembers (or_members round) pods
          then ((or_members round, or_reports round), cache)
          else poll)"

section \<open>The decision and what is written back\<close>

definition observation_of :: "instance_object \<Rightarrow> member list \<Rightarrow> time \<Rightarrow> observation" where
  "observation_of inst members now =
     \<lparr>o_Members = members,
      o_CurrentPrimary = io_CurrentPrimary inst,
      o_TargetPrimary = io_TargetPrimary inst,
      o_Evidence = EvidenceFrom (io_QuorumEvidence inst),
      o_FailingSince = (case io_CurrentPrimaryFailingSince inst of None \<Rightarrow> 0 | Some t \<Rightarrow> t),
      o_FailoverDelay = FailoverDelay (io_HighAvailability inst),
      o_QuorumGateEnabled = FailoverQuorumEnabled (io_HighAvailability inst),
      o_Maintenance = MaintenanceMembers (io_Annotations inst),
      o_Now = now\<rparr>"

definition decideFailover :: "instance_object \<Rightarrow> member list \<Rightarrow> time \<Rightarrow> decision" where
  "decideFailover inst members now = Decide (observation_of inst members now)"

definition reconcileFailover ::
  "duration \<Rightarrow> prober \<Rightarrow> time \<Rightarrow> time \<Rightarrow> time \<Rightarrow> string \<Rightarrow> instance_object \<Rightarrow> pod list \<Rightarrow>
   observation_cache \<Rightarrow> decision \<times> observation_cache" where
  "reconcileFailover ttl probe started polled now key inst pods cache =
     (let ((members, reports), cache') = observeMembers ttl probe started polled key pods cache
      in (decideFailover inst members now, cache'))"

definition targetPrimaryOf :: "instance_object \<Rightarrow> string" where
  "targetPrimaryOf inst =
     (if io_TargetPrimary inst \<noteq> [] then io_TargetPrimary inst
      else if io_CurrentPrimary inst \<noteq> [] then io_CurrentPrimary inst
      else MemberName (io_Name inst) 1)"

definition targetPrimaryAfter :: "instance_object \<Rightarrow> decision \<Rightarrow> string" where
  "targetPrimaryAfter inst d =
     (if d_TargetPrimary d \<noteq> [] then d_TargetPrimary d else targetPrimaryOf inst)"

definition failingSinceAfter :: "instance_object \<Rightarrow> decision \<Rightarrow> time option" where
  "failingSinceAfter inst d =
     (if d_ClearFailingSince d then None
      else case d_SetFailingSince d of
             Some t \<Rightarrow> Some t
           | None \<Rightarrow> (case io_CurrentPrimaryFailingSince inst of Some t \<Rightarrow> Some t | None \<Rightarrow> None))"

text \<open>The instant is stored in RFC 3339 form, which keeps whole seconds.\<close>

definition rfc3339 :: "time \<Rightarrow> time" where
  "rfc3339 t = t - t mod second"

definition failoverStatus :: "instance_object \<Rightarrow> decision \<Rightarrow> instance_object" where
  "failoverStatus inst d =
     inst\<lparr>io_TargetPrimary := targetPrimaryAfter inst d,
          io_CurrentPrimaryFailingSince := map_option rfc3339 (failingSinceAfter inst d)\<rparr>"

definition requeueInterval :: duration where
  "requeueInterval = 5 * second"

definition failoverRequeue :: "decision \<Rightarrow> duration" where
  "failoverRequeue d =
     (if d_RequeueAfter d > 0 \<and> d_RequeueAfter d < requeueInterval then d_RequeueAfter d
      else requeueInterval)"

section \<open>Conditions\<close>

text \<open>The string values of the vetoes, which are API surface.\<close>

fun veto_string :: "veto \<Rightarrow> string" where
  "veto_string VetoNone = []"
| "veto_string VetoOperatorIsolated = ''OperatorIsolated''"
| "veto_string VetoPrimaryUnobservable = ''PrimaryUnobservable''"
| "veto_string VetoCandidateNotReady = ''CandidateNotReady''"
| "veto_string VetoCandidateWALVolumeFull = ''CandidateWALVolumeFull''"

fun vetoConditionType :: "veto \<Rightarrow> string" where
  "vetoConditionType VetoOperatorIsolated = ''OperatorIsolated''"
| "vetoConditionType VetoPrimaryUnobservable = ''PrimaryUnobservable''"
| "vetoConditionType VetoCandidateNotReady = ''CandidateNotReady''"
| "vetoConditionType VetoCandidateWALVolumeFull = ''CandidateWALVolumeFull''"
| "vetoConditionType VetoNone = ''FailingOver''"

definition vetoedReason :: "decision \<Rightarrow> string" where
  "vetoedReason d =
     (case d_Reason d of
        ReasonOfQuorum QuorumEvidenceMissing \<Rightarrow> ''QuorumLost''
      | ReasonOfQuorum QuorumEvidenceStale \<Rightarrow> ''QuorumEvidenceStale''
      | ReasonOfQuorum QuorumNotProven \<Rightarrow> ''QuorumNotProven''
      | ReasonNoEligibleCandidate \<Rightarrow> ''NoEligibleCandidate''
      | _ \<Rightarrow> veto_string (d_Veto d))"

definition failoverReason :: "decision \<Rightarrow> string" where
  "failoverReason d =
     (case d_Phase d of
        PhaseSteady \<Rightarrow> ''PrimaryHealthy''
      | PhaseDebouncing \<Rightarrow> ''Debouncing''
      | PhaseSentinel \<Rightarrow> ''SentinelWritten''
      | PhaseWaitingWALReceivers \<Rightarrow> ''WaitingForWALReceivers''
      | PhaseCandidateChosen \<Rightarrow> ''CandidateSelected''
      | PhasePromoting \<Rightarrow> ''AwaitingPromotion''
      | PhaseSplitBrain \<Rightarrow> ''TwoPrimariesObserved''
      | PhaseVetoed \<Rightarrow> vetoedReason d
      | _ \<Rightarrow> ''Pending'')"

definition splitBrainReason :: "bool \<Rightarrow> string" where
  "splitBrainReason observed = (if observed then ''TwoPrimariesObserved'' else ''Stable'')"

definition writeStalledReason :: "instance_object \<Rightarrow> string" where
  "writeStalledReason inst =
     (if WriteStalled (EvidenceFrom (io_QuorumEvidence inst)) then ''WriteStalled'' else ''WritesFlowing'')"

definition vetoReason :: "veto \<Rightarrow> bool \<Rightarrow> string" where
  "vetoReason v active = (if active then veto_string v else ''NoVeto'')"

text \<open>A published condition's message is the decision's own or a fixed text.\<close>

type_synonym condition_message = "decision_message + string"

definition splitBrainMessage :: "decision \<Rightarrow> condition_message" where
  "splitBrainMessage d =
     (if d_SplitBrain d then Inl (d_Message d)
      else Inr ''exactly one member reports pg_is_in_recovery() = false'')"

definition writeStalledMessage :: "instance_object \<Rightarrow> condition_message" where
  "writeStalledMessage inst =
     (let evidence = EvidenceFrom (io_QuorumEvidence inst) in
      if \<not> WriteStalled evidence then Inr ''the synchronous quorum is satisfied''
      else Inr (''commits are stalling: '' @ Itoa (int (length (ev_StreamingMembers evidence))) @
                '' of the '' @ Itoa (ev_NumSync evidence) @ '' standbys the loaded clause '' @
                ev_SynchronousStandbyNames evidence @ '' waits for are streaming''))"

definition vetoMessage :: "veto \<Rightarrow> decision \<Rightarrow> condition_message" where
  "vetoMessage v d =
     (if d_Veto d = v then Inl (d_Message d) else Inr ''this veto is not holding a failover back'')"

record published_condition =
  pc_Type :: string
  pc_Status :: bool
  pc_Reason :: string
  pc_Message :: condition_message
  pc_ObservedGeneration :: int
  pc_LastTransitionTime :: time

definition FindStatusCondition :: "stored_condition list \<Rightarrow> string \<Rightarrow> stored_condition option" where
  "FindStatusCondition conditions type = find (\<lambda>c. sc_Type c = type) conditions"

definition condition ::
  "time \<Rightarrow> stored_condition list \<Rightarrow> string \<Rightarrow> bool \<Rightarrow> int \<Rightarrow> string \<Rightarrow> condition_message \<Rightarrow>
   published_condition" where
  "condition now existing conditionType ok generation reason message =
     (let transitioned =
        (case FindStatusCondition existing conditionType of
           None \<Rightarrow> now
         | Some previous \<Rightarrow>
             if sc_Status previous = ok \<and> \<not> IsZero (sc_LastTransitionTime previous)
             then sc_LastTransitionTime previous else now) in
      \<lparr>pc_Type = conditionType, pc_Status = ok, pc_Reason = reason, pc_Message = message,
       pc_ObservedGeneration = generation, pc_LastTransitionTime = rfc3339 transitioned\<rparr>)"

definition failoverConditions :: "time \<Rightarrow> instance_object \<Rightarrow> decision \<Rightarrow> published_condition list" where
  "failoverConditions now inst d =
     (let generation = io_Generation inst;
          existing = io_Conditions inst in
      [condition now existing ''FailingOver''
         (FailoverInProgress (io_CurrentPrimary inst) (targetPrimaryAfter inst d))
         generation (failoverReason d) (Inl (d_Message d)),
       condition now existing ''SplitBrain'' (d_SplitBrain d) generation
         (splitBrainReason (d_SplitBrain d)) (splitBrainMessage d),
       condition now existing ''WriteStalled''
         (WriteStalled (EvidenceFrom (io_QuorumEvidence inst))) generation
         (writeStalledReason inst) (writeStalledMessage inst)] @
      map (\<lambda>v. condition now existing (vetoConditionType v) (d_Veto d = v) generation
                 (vetoReason v (d_Veto d = v)) (vetoMessage v d)) Vetoes)"

section \<open>Reconciles as steps\<close>

definition reconcile :: "instance_object \<Rightarrow> member list \<Rightarrow> time \<Rightarrow> instance_object" where
  "reconcile inst members now = failoverStatus inst (decideFailover inst members now)"

text \<open>
  One instance over time. A reconcile may see any members at any clock reading. An agent reads the
  instance before it promotes its member, and goes on only if \<open>targetPrimary\<close> names the member
  (\<open>reReadInstance\<close> in promotion.go); it claims the role at the end of the promotion, when the object may
  have changed (\<open>PublishPrimaryState\<close> is a patch without a condition). A member that runs as a primary claims
  the role of an instance it has read without a primary (\<open>publishPrimaryState\<close> in supervisor.go). The set
  holds the members that have read so and may still claim. Everything else on the object may be
  rewritten by others. The log records the observations acted on.
\<close>

type_synonym failover_state = "instance_object \<times> observation list \<times> string set"

inductive failover_step :: "failover_state \<Rightarrow> failover_state \<Rightarrow> bool" where
  operator: "failover_step (inst, log, chosen)
      (reconcile inst members now, observation_of inst members now # log, chosen)"
| agent_reads: "io_TargetPrimary inst = member \<Longrightarrow> member \<noteq> TargetPrimaryPending \<Longrightarrow> member \<noteq> [] \<Longrightarrow>
    failover_step (inst, log, chosen) (inst, log, insert member chosen)"
| bootstrap_reads: "io_CurrentPrimary inst = [] \<Longrightarrow> member \<noteq> [] \<Longrightarrow>
    failover_step (inst, log, chosen) (inst, log, insert member chosen)"
| agent_claims: "member \<in> chosen \<Longrightarrow>
    failover_step (inst, log, chosen) (inst\<lparr>io_CurrentPrimary := member, io_QuorumEvidence := ev\<rparr>, log, chosen)"
| others: "failover_step (inst, log, chosen)
    (inst\<lparr>io_QuorumEvidence := ev, io_Annotations := ann, io_Conditions := cs,
          io_HighAvailability := ha\<rparr>, log, chosen)"

inductive_cases failover_stepE: "failover_step s t"

inductive failover_reachable :: "instance_object \<Rightarrow> failover_state \<Rightarrow> bool" for start where
  init: "failover_reachable start (start, [], {})"
| step: "failover_reachable start s \<Longrightarrow> failover_step s t \<Longrightarrow> failover_reachable start t"

definition justified_by :: "observation list \<Rightarrow> string \<Rightarrow> bool" where
  "justified_by log t \<longleftrightarrow>
     (\<exists>obs \<in> set log. splitBrain obs = None \<and> operatorIsolated obs = None \<and> promotable obs t \<and>
        (failover_justified obs t \<or> switchover_justified obs t))"

section \<open>Facts\<close>

lemma observation_of_simps [simp]:
  "o_Members (observation_of inst ms now) = ms"
  "o_CurrentPrimary (observation_of inst ms now) = io_CurrentPrimary inst"
  "o_TargetPrimary (observation_of inst ms now) = io_TargetPrimary inst"
  "o_Now (observation_of inst ms now) = now"
  by (simp_all add: observation_of_def)

lemma reconcile_frame [simp]:
  "io_CurrentPrimary (reconcile inst ms now) = io_CurrentPrimary inst"
  "io_Name (reconcile inst ms now) = io_Name inst"
  by (simp_all add: reconcile_def failoverStatus_def)

lemma reconcile_target:
  "io_TargetPrimary (reconcile inst ms now) =
     (let t = d_TargetPrimary (Decide (observation_of inst ms now)) in
      if t \<noteq> [] then t else targetPrimaryOf inst)"
  by (simp add: reconcile_def failoverStatus_def targetPrimaryAfter_def decideFailover_def Let_def)

lemma justified_by_Cons: "justified_by log t \<Longrightarrow> justified_by (obs # log) t"
  by (auto simp: justified_by_def)

definition primary_origin :: "instance_object \<Rightarrow> observation list \<Rightarrow> string \<Rightarrow> bool" where
  "primary_origin start log t \<longleftrightarrow>
     t \<in> {io_CurrentPrimary start, io_TargetPrimary start, MemberName (io_Name start) 1} \<or>
     justified_by log t"

lemma primary_origin_Cons: "primary_origin start log t \<Longrightarrow> primary_origin start (obs # log) t"
  by (auto simp: primary_origin_def justified_by_Cons)

lemma primary_origin_decided:
  assumes "d_TargetPrimary (Decide obs) \<notin> {[], TargetPrimaryPending, o_CurrentPrimary obs}"
  shows "primary_origin start (obs # log) (d_TargetPrimary (Decide obs))"
  using decide_names_new_member [of obs, OF refl] assms
  by (auto simp: primary_origin_def justified_by_def)

lemma reconcile_origin:
  assumes "io_Name inst = io_Name start" "primary_origin start log (io_CurrentPrimary inst)"
    "io_TargetPrimary inst = TargetPrimaryPending \<or> io_TargetPrimary inst = [] \<or>
     primary_origin start log (io_TargetPrimary inst)"
  shows "io_TargetPrimary (reconcile inst ms now) \<in> {TargetPrimaryPending, []} \<or>
    primary_origin start (observation_of inst ms now # log) (io_TargetPrimary (reconcile inst ms now))"
proof -
  let ?obs = "observation_of inst ms now"
  let ?t = "d_TargetPrimary (Decide ?obs)"
  consider "?t = []" | "?t \<noteq> []" "?t \<in> {TargetPrimaryPending, io_CurrentPrimary inst}"
    | "?t \<notin> {[], TargetPrimaryPending, o_CurrentPrimary ?obs}" by auto
  then show ?thesis
  proof cases
    case 1
    then have "io_TargetPrimary (reconcile inst ms now) = targetPrimaryOf inst"
      by (simp add: reconcile_target)
    then show ?thesis
      using assms by (auto simp: targetPrimaryOf_def primary_origin_def justified_by_Cons)
  next
    case 2
    then have "io_TargetPrimary (reconcile inst ms now) = ?t"
      by (simp add: reconcile_target)
    with 2 assms(2) show ?thesis using primary_origin_Cons by auto
  next
    case 3
    then have "io_TargetPrimary (reconcile inst ms now) = ?t"
      by (simp add: reconcile_target)
    with primary_origin_decided [OF 3] show ?thesis by simp
  qed
qed

lemma failover_invariant:
  assumes "failover_reachable start (inst, log, chosen)" "io_CurrentPrimary start \<noteq> []"
  shows "io_Name inst = io_Name start \<and> io_CurrentPrimary inst \<noteq> [] \<and>
    (\<forall>m \<in> chosen. m \<noteq> [] \<and> primary_origin start log m) \<and>
    primary_origin start log (io_CurrentPrimary inst) \<and>
    (io_TargetPrimary inst = TargetPrimaryPending \<or> io_TargetPrimary inst = [] \<or>
     primary_origin start log (io_TargetPrimary inst))"
  using assms
proof (induction "(inst, log, chosen)" arbitrary: inst log chosen rule: failover_reachable.induct)
  case init
  then show ?case by (simp add: primary_origin_def)
next
  case (step s)
  obtain inst' log' chosen' where s: "s = (inst', log', chosen')" by (cases s)
  note IH = step.hyps(2) [OF s step.prems]
  from step.hyps(3) show ?case
  proof cases
    case (operator i l members now)
    then show ?thesis
      using IH s reconcile_origin [of inst' start log' members now]
      by (auto dest: primary_origin_Cons)
  qed (use IH s in auto)
qed

lemma vetoed_reason_shape:
  assumes "d_Phase (decide obs) = PhaseVetoed"
  shows "(\<exists>q \<in> {QuorumEvidenceMissing, QuorumEvidenceStale, QuorumNotProven}.
            d_Reason (decide obs) = ReasonOfQuorum q) \<or>
    d_Reason (decide obs) = ReasonNoEligibleCandidate \<or>
    d_Reason (decide obs) = ReasonSwitchoverNoCandidate \<and> d_Veto (decide obs) = VetoNone \<or>
    (\<exists>v. v \<noteq> VetoNone \<and> d_Reason (decide obs) = ReasonOfVeto v \<and> d_Veto (decide obs) = v)"
proof (cases obs rule: decide_cases)
  case (SplitBrain d)
  with assms splitBrain_shape show ?thesis by auto
next
  case (Isolated d)
  with operatorIsolated_shape [OF Isolated(3)] show ?thesis by auto
next
  case (Healthy m)
  then have "decide obs = (plannedSwitchover obs)\<lparr>d_ClearFailingSince :=
      d_ClearFailingSince (plannedSwitchover obs) \<or> \<not> IsZero (o_FailingSince obs)\<rparr>"
    using assms by (auto simp: healthyPrimary_def Decision_def Let_def split: if_splits)
  with assms show ?thesis
    using EvaluateQuorum_denies_with_reason
    by (auto simp: plannedSwitchover_def vetoed_def Decision_def Let_def split: if_splits)
next
  case Failing
  show ?thesis
  proof (cases obs rule: failing_cases)
    case Choose
    with assms Failing show ?thesis
      using EvaluateQuorum_denies_with_reason
      by (auto simp: chooseCandidate_def vetoed_def Decision_def Let_def split: if_splits)
  qed (use assms Failing in auto)
qed (use assms in \<open>auto simp: Decision_def vetoed_def\<close>)

lemma veto_string_empty [simp]: "veto_string v = [] \<longleftrightarrow> v = VetoNone"
  by (cases v) auto

section \<open>The cached round\<close>

lemma sameMembers_iff: "sameMembers members pods \<longleftrightarrow> map m_Name members = map pod_Name pods"
  by (auto simp: sameMembers_def list_all2_conv_all_nth list_eq_iff_nth_eq)

lemma poll_one_name [simp]: "m_Name (fst (poll_one probe p)) = pod_Name p"
  by (simp add: poll_one_def Let_def split: option.split)

lemma pollMembers_names [simp]: "map m_Name (fst (pollMembers probe pods)) = map pod_Name pods"
  by (simp add: pollMembers_def comp_def)

lemma observeMembers_hit:
  assumes "cache key = Some round" "ttl > 0" "time_sub started (or_observed round) < ttl"
    "sameMembers (or_members round) pods"
  shows "observeMembers ttl probe started now key pods cache =
    ((or_members round, or_reports round), cache)"
  using assms by (simp add: observeMembers_def)

lemma observeMembers_miss:
  assumes "\<not> (\<exists>round. cache key = Some round \<and> ttl > 0 \<and> time_sub started (or_observed round) < ttl \<and>
    sameMembers (or_members round) pods)"
  shows "fst (observeMembers ttl probe started now key pods cache) = pollMembers probe pods"
  using assms by (cases "cache key") (auto simp: observeMembers_def Let_def split: prod.split)

section \<open>A failover runs to its end\<close>

lemma quiet_decides_failing:
  assumes "filter (\<lambda>m. m_StatusReachable m \<and> \<not> m_InRecovery m) (o_Members obs) = []"
    and "\<exists>m \<in> set (o_Members obs). m_PodReady m \<and> m_StatusReachable m"
    and "o_CurrentPrimary obs \<noteq> []"
    and "\<And>m. m \<in> set (o_Members obs) \<Longrightarrow> m_Name m = o_CurrentPrimary obs \<Longrightarrow> \<not> m_PodReady m"
    and "o_TargetPrimary obs \<in> {o_CurrentPrimary obs, TargetPrimaryPending}"
  shows "decide obs = failing obs"
proof -
  have none: "splitBrain obs = None" "operatorIsolated obs = None"
    using assms(1,2) by (auto simp: splitBrain_def operatorIsolated_def Let_def filter_empty_conv)
  obtain m known where named: "memberNamed (o_Members obs) (o_CurrentPrimary obs) = (m, known)"
    by fastforce
  have "\<not> (known \<and> m_StatusReachable m \<and> \<not> m_InRecovery m)" "\<not> (known \<and> m_PodReady m)"
    using named assms(1,4) memberNamed_Some [of "o_Members obs" "o_CurrentPrimary obs" m]
    by (auto simp: filter_empty_conv)
  then show ?thesis
    using none named assms(3,5) by (auto simp: decide_def FailoverInProgress_def)
qed

lemma rfc3339_idem [simp]: "rfc3339 (rfc3339 t) = rfc3339 t"
  by (simp add: rfc3339_def second_def minus_mod_eq_mult_div)

lemma rfc3339_zero: "second \<le> t \<Longrightarrow> rfc3339 t \<noteq> 0"
  by (auto simp: rfc3339_def second_def)

lemma failing_round:
  assumes "decide (observation_of inst ms t0) = failing (observation_of inst ms t0)"
    and "io_CurrentPrimaryFailingSince inst = None"
    and "io_TargetPrimary inst = io_CurrentPrimary inst" "io_CurrentPrimary inst \<noteq> []"
  shows "reconcile inst ms t0 = inst\<lparr>io_CurrentPrimaryFailingSince := Some (rfc3339 t0)\<rparr>"
  using assms
  by (simp add: reconcile_def decideFailover_def failoverStatus_def targetPrimaryAfter_def
      targetPrimaryOf_def failingSinceAfter_def failing_def Decision_def observation_of_def IsZero_def)

lemma sentinel_round:
  assumes "decide (observation_of inst ms t1) = failing (observation_of inst ms t1)"
    and "io_CurrentPrimaryFailingSince inst = Some (rfc3339 t0)" "rfc3339 t0 \<noteq> 0"
    and "io_TargetPrimary inst \<noteq> TargetPrimaryPending"
    and "FailoverDelay (io_HighAvailability inst) \<le> time_sub t1 (rfc3339 t0)"
  shows "reconcile inst ms t1 = inst\<lparr>io_TargetPrimary := TargetPrimaryPending\<rparr>"
  using assms
  by (simp add: reconcile_def decideFailover_def failoverStatus_def targetPrimaryAfter_def
      failingSinceAfter_def failing_def Decision_def observation_of_def IsZero_def
      TargetPrimaryPending_def)

lemma choosing_round:
  assumes "decide (observation_of inst ms t2) = failing (observation_of inst ms t2)"
    and "io_CurrentPrimaryFailingSince inst = Some (rfc3339 t0)" "rfc3339 t0 \<noteq> 0"
    and "io_TargetPrimary inst = TargetPrimaryPending"
    and "FailoverDelay (io_HighAvailability inst) \<le> time_sub t2 (rfc3339 t0)"
    and "receiversStillUp (observation_of inst ms t2) = []"
    and "quorum_at (observation_of inst ms t2) (rfc3339 t0)"
    and "cr_Candidate (SelectCandidate (failover_input (observation_of inst ms t2))) = c" "c \<noteq> []"
    and "promotable (observation_of inst ms t2) c"
  shows "io_TargetPrimary (reconcile inst ms t2) = c"
proof -
  let ?obs = "observation_of inst ms t2"
  have since: "o_FailingSince ?obs = rfc3339 t0" "o_FailoverDelay ?obs = FailoverDelay (io_HighAvailability inst)"
    using assms(2) by (simp_all add: observation_of_def)
  then have "decide ?obs = chooseCandidate ?obs"
    using assms(1,3-5) by (simp add: failing_def IsZero_def)
  moreover have "d_TargetPrimary (chooseCandidate ?obs) = c"
    using assms(3,6-10) since
    by (simp add: chooseCandidate_def Let_def quorum_at_def quorumReference_def IsZero_def
        failover_input_def Decision_def promotable_def split: prod.splits)
  ultimately show ?thesis
    using assms(9) by (simp add: reconcile_target)
qed

lemma observation_of_frame:
  "receiversStillUp (observation_of (inst\<lparr>io_TargetPrimary := t, io_CurrentPrimaryFailingSince := f\<rparr>) ms now)
     = receiversStillUp (observation_of inst ms now)"
  "quorum_at (observation_of (inst\<lparr>io_TargetPrimary := t, io_CurrentPrimaryFailingSince := f\<rparr>) ms now)
     = quorum_at (observation_of inst ms now)"
  "failover_input (observation_of (inst\<lparr>io_TargetPrimary := t, io_CurrentPrimaryFailingSince := f\<rparr>) ms now)
     = failover_input (observation_of inst ms now)"
  "promotable (observation_of (inst\<lparr>io_TargetPrimary := t, io_CurrentPrimaryFailingSince := f\<rparr>) ms now)
     = promotable (observation_of inst ms now)"
  by (simp_all add: receiversStillUp_def quorum_at_def [abs_def] failover_input_def
      promotable_def [abs_def] observation_of_def)

section \<open>Properties\<close>

text \<open>
  C9. Over any interleaving of reconciles, agents that read the instance and claim the role later, and
  other writers, the recorded primary of an instance that has one is the one the instance started with, the member bootstrap names, or a member that some
  observation the operator acted on justified: no split brain, the operator not isolated, the member
  promotable, and the failover or the planned switchover justified there.
\<close>

theorem every_primary_was_justified:
  assumes "failover_reachable start (inst, log, chosen)" "io_CurrentPrimary start \<noteq> []"
  shows "io_CurrentPrimary inst \<in> {io_CurrentPrimary start, io_TargetPrimary start, MemberName (io_Name start) 1} \<or>
    (\<exists>obs \<in> set log. splitBrain obs = None \<and> operatorIsolated obs = None \<and>
       promotable obs (io_CurrentPrimary inst) \<and>
       (failover_justified obs (io_CurrentPrimary inst) \<or> switchover_justified obs (io_CurrentPrimary inst)))"
  using failover_invariant [OF assms] by (simp add: primary_origin_def justified_by_def)


definition example_record :: quorum_record where
  "example_record =
     \<lparr>qr_SynchronousStandbyNames = ''ANY 1 (b, c)'', qr_NumSync = 1,
      qr_VotingMembers = [''b'', ''c''], qr_StreamingMembers = [''b'', ''c''],
      qr_ReportedBy = ''a'', qr_ObservedAt = Some (1000 * second)\<rparr>"

definition example_instance :: instance_object where
  "example_instance =
     \<lparr>io_Name = ''db'', io_Annotations = Map.empty, io_Generation = 1,
      io_HighAvailability = Some \<lparr>hs_FailoverDelay = Some (30 * second), hs_FailoverQuorum = None\<rparr>,
      io_CurrentPrimary = ''a'', io_TargetPrimary = ''a'',
      io_QuorumEvidence = Some example_record, io_CurrentPrimaryFailingSince = None,
      io_Conditions = []\<rparr>"

definition example_members :: "member list" where
  "example_members = [down_member ''a'', example_member ''b'' 10, example_member ''c'' 20]"

lemma example_round_quiet:
  "receiversStillUp (observation_of example_instance example_members (1200 * second)) = []"
  by code_simp

lemma example_round_quorum:
  "quorum_at (observation_of example_instance example_members (1200 * second)) (rfc3339 (1100 * second))"
  by code_simp

lemma example_round_candidate:
  "cr_Candidate (SelectCandidate (failover_input
     (observation_of example_instance example_members (1200 * second)))) = ''c''"
  by code_simp

lemma example_round_promotable:
  "promotable (observation_of example_instance example_members (1200 * second)) ''c''"
  by code_simp


definition example_pending :: instance_object where
  "example_pending = example_instance\<lparr>io_TargetPrimary := TargetPrimaryPending,
     io_CurrentPrimaryFailingSince := Some (1100 * second)\<rparr>"

definition example_promoted :: instance_object where
  "example_promoted = (reconcile example_pending example_members (1200 * second))
     \<lparr>io_CurrentPrimary := ''c'', io_QuorumEvidence := None\<rparr>"

lemma example_pending_target:
  "io_TargetPrimary (reconcile example_pending example_members (1200 * second)) = ''c''"
  by code_simp

lemma example_promoted_reachable:
  "failover_reachable example_pending
     (example_promoted, [observation_of example_pending example_members (1200 * second)], {''c''})"
proof -
  let ?one = "reconcile example_pending example_members (1200 * second)"
  let ?log = "[observation_of example_pending example_members (1200 * second)]"
  have "failover_reachable example_pending (?one, ?log, {})"
    by (rule failover_reachable.step [OF failover_reachable.init failover_step.operator])
  moreover have "failover_step (?one, ?log, {}) (?one, ?log, {''c''})"
    using agent_reads [of ?one "''c''"] by (simp add: example_pending_target TargetPrimaryPending_def)
  moreover have "failover_step (?one, ?log, {''c''}) (example_promoted, ?log, {''c''})"
    unfolding example_promoted_def by (rule agent_claims) simp
  ultimately show ?thesis by (meson failover_reachable.step)
qed

theorem every_primary_was_justified_witness:
  "\<exists>obs \<in> {observation_of example_pending example_members (1200 * second)}.
     splitBrain obs = None \<and> operatorIsolated obs = None \<and> promotable obs ''c'' \<and>
     (failover_justified obs ''c'' \<or> switchover_justified obs ''c'')"
  using every_primary_was_justified [OF example_promoted_reachable]
  by (simp add: example_promoted_def example_pending_def example_instance_def
      TargetPrimaryPending_def MemberName_def)

text \<open>
  A round of observations always describes exactly the Pods of the reconcile that uses it, in
  their order, whatever the cache holds, and it is either a poll made in this call or a round stored
  for the same instance less than the time to live ago.
\<close>

theorem observed_members_are_the_pods:
  "map m_Name (fst (fst (observeMembers ttl probe started now key pods cache))) = map pod_Name pods \<and>
   (fst (observeMembers ttl probe started now key pods cache) = pollMembers probe pods \<or>
    (\<exists>round. cache key = Some round \<and> time_sub started (or_observed round) < ttl \<and>
       fst (observeMembers ttl probe started now key pods cache) = (or_members round, or_reports round)))"
proof (cases "\<exists>round. cache key = Some round \<and> ttl > 0 \<and> time_sub started (or_observed round) < ttl \<and>
    sameMembers (or_members round) pods")
  case True
  then show ?thesis by (auto simp: observeMembers_hit sameMembers_iff)
next
  case False
  then show ?thesis by (simp add: observeMembers_miss)
qed

text \<open>
  The reason of the published \<open>FailingOver\<close> condition is empty exactly when a planned switchover
  found nobody to take the role, and such observations exist; the API requires a reason of at least
  one character, so that status write is the one that cannot succeed.
\<close>

theorem failover_reason_empty_iff:
  "(failoverReason (Decide obs) = [] \<longleftrightarrow>
      d_Phase (Decide obs) = PhaseVetoed \<and> d_Reason (Decide obs) = ReasonSwitchoverNoCandidate) \<and>
   failoverReason (Decide ((example_refusal ''a'')\<lparr>o_QuorumGateEnabled := False\<rparr>)) = []"
proof
  show "failoverReason (Decide obs) = [] \<longleftrightarrow>
      d_Phase (Decide obs) = PhaseVetoed \<and> d_Reason (Decide obs) = ReasonSwitchoverNoCandidate"
    using vetoed_reason_shape [of obs]
    by (cases "d_Phase (decide obs)") (auto simp: failoverReason_def vetoedReason_def)
  show "failoverReason (Decide ((example_refusal ''a'')\<lparr>o_QuorumGateEnabled := False\<rparr>)) = []"
    by code_simp
qed

end
