(* ===== verification/Agent_Config.thy ===== *)
theory Agent_Config
  imports Pgtool HA_Lease HA_Controller
begin

text \<open>
  The configuration a member of an instance runs with (\<open>internal/instance/agent/config.go\<close>,
  \<open>postgres.go\<close>, parts of \<open>supervisor.go\<close> and \<open>promotion.go\<close>): the clause that names the synchronous
  standbys, how it is read back out of the postmaster, how it follows the standbys that stream, and the
  four files that are written wholesale. The clause is where the quorum gate takes its voters from, so
  that reading it back gives what was written is part of the gate.
\<close>

section \<open>Names\<close>

text \<open>\<open>strings.ToLower\<close> on ASCII, for member names are DNS labels.\<close>

definition slot_char :: "char \<Rightarrow> char" where
  "slot_char c =
     (let l = ascii_lower c in
      if in_range CHR ''a'' CHR ''z'' l \<or> in_range CHR ''0'' CHR ''9'' l then l else CHR ''_'')"

definition ReplicationSlotName :: "string \<Rightarrow> string" where
  "ReplicationSlotName member = ''pgelastic_'' @ map slot_char member"

definition member_names :: "string \<Rightarrow> int \<Rightarrow> string list" where
  "member_names inst replicas = map (\<lambda>i. MemberName inst (int i)) [1..<nat (replicas + 1)]"

section \<open>The clause\<close>

definition quoteIdentifier :: "string \<Rightarrow> string" where
  "quoteIdentifier v = [CHR 0x22] @ ReplaceAll v (CHR 0x22) [CHR 0x22, CHR 0x22] @ [CHR 0x22]"

fun join_with :: "char \<Rightarrow> string list \<Rightarrow> string" where
  "join_with c [] = []"
| "join_with c [s] = s"
| "join_with c (s # ss) = s @ c # join_with c ss"

definition SynchronousStandbyNames :: "string \<Rightarrow> string list \<Rightarrow> string" where
  "SynchronousStandbyNames quorum streaming =
     (if streaming = [] then []
      else quorum @ '' ('' @ join_with CHR '','' (map quoteIdentifier (sort streaming)) @ '')'')"

text \<open>The part of a string before the last occurrence of a character.\<close>

definition before_last :: "char \<Rightarrow> string \<Rightarrow> string" where
  "before_last c s = rev (tl (dropWhile (\<lambda>d. d \<noteq> c) (rev s)))"

definition trim_quotes :: "string \<Rightarrow> string" where
  "trim_quotes s =
     (let p = (if s \<noteq> [] \<and> hd s = CHR 0x22 then tl s else s) in
      if p \<noteq> [] \<and> last p = CHR 0x22 then butlast p else p)"

definition clause_members :: "string \<Rightarrow> string list" where
  "clause_members body =
     map (undouble (CHR 0x22)) (filter (\<lambda>m. m \<noteq> []) (map (\<lambda>m. trim_quotes (TrimSpace m)) (Split CHR '','' body)))"

definition ParseSyncStandbyNames :: "string \<Rightarrow> int \<times> string list" where
  "ParseSyncStandbyNames v =
     (case Cut (TrimSpace v) CHR ''('' of
        (before, after, opened) \<Rightarrow>
          if \<not> opened \<or> CHR '')'' \<notin> set after then (0, [])
          else
            let prefix = Fields (TrimSpace before); members = clause_members (before_last CHR '')'' after) in
            if prefix = [] then (1, members)
            else case ParseInt32 (last prefix) of Inl _ \<Rightarrow> (0, []) | Inr n \<Rightarrow> (n, members))"

text \<open>
  The set the next clause names. The maps of the source are used as sets, and the result is sorted.
\<close>

definition ConvergeSyncMembers :: "string list \<Rightarrow> string list \<Rightarrow> string list \<Rightarrow> bool \<Rightarrow> string list" where
  "ConvergeSyncMembers loaded streaming members required =
     sorted_list_of_set
       ({m \<in> set streaming. m \<in> set members} \<union> (if required then {m \<in> set loaded. m \<in> set members} else {}))"

section \<open>The files\<close>

record agent_config =
  ag_Postgres :: instance_config
  ag_HBA :: hba_config
  ag_Quorum :: string
  ag_Replicas :: int
  ag_DataDurability :: string
  ag_BackupConfigured :: "bool option"
  ag_Lease :: lease_config

definition CustomConfFile :: string where "CustomConfFile = ''custom.conf''"
definition OverrideConfFile :: string where "OverrideConfFile = ''override.conf''"
definition HBAFile :: string where "HBAFile = ''pg_hba.conf''"
definition IdentFile :: string where "IdentFile = ''pg_ident.conf''"

definition restoreCommand :: "agent_config \<Rightarrow> string" where
  "restoreCommand config =
     (if ag_BackupConfigured config = Some True then ''/agent/pgelastic-instance wal-restore --name %f --target %p'' else [])"

definition override_settings :: "agent_config \<Rightarrow> replication_config \<Rightarrow> setting list" where
  "override_settings config replication = RenderOverrideConf (replication\<lparr>rc_RestoreCommand := restoreCommand config\<rparr>)"

definition custom_settings :: "agent_config \<Rightarrow> string \<Rightarrow> control_data option \<Rightarrow> setting list" where
  "custom_settings config member controlData =
     (let settings = RenderCustomConf ((ag_Postgres config)\<lparr>ic_MemberName := member\<rparr>) in
      case controlData of None \<Rightarrow> settings | Some data \<Rightarrow> applyEnforcedFloor settings data)"

text \<open>The four files of \<open>WriteConfig\<close> and the hash of their bodies, which is a parameter.\<close>

definition config_files ::
  "(string list \<Rightarrow> string) \<Rightarrow> agent_config \<Rightarrow> string \<Rightarrow> replication_config \<Rightarrow> control_data option \<Rightarrow> (string \<times> string) list" where
  "config_files hash config member replication controlData =
     (let custom = FormatSettings ''pgelastic operator parameters'' (custom_settings config member controlData);
          override = FormatSettings ''pgelastic replication and recovery'' (override_settings config replication);
          hba = RenderHBA (ag_HBA config);
          ident = RenderIdent in
      [(CustomConfFile, custom @ HashLine (hash [custom, override, hba, ident])), (OverrideConfFile, override),
       (HBAFile, hba), (IdentFile, ident)])"

definition empty_replication :: replication_config where
  "empty_replication =
     \<lparr>rc_Standby = False, rc_PrimaryConnInfo = [], rc_PrimarySlotName = [], rc_SynchronousStandbyNames = [],
      rc_SynchronizedStandbySlots = [], rc_RestoreCommand = []\<rparr>"

definition or_empty :: "string option \<Rightarrow> string" where
  "or_empty v = (case v of None \<Rightarrow> [] | Some s \<Rightarrow> s)"

text \<open>The override file of the data directory, absent when it cannot be read.\<close>

definition CurrentReplicationConfig :: "string option \<Rightarrow> replication_config" where
  "CurrentReplicationConfig override =
     (case override of
        None \<Rightarrow> empty_replication
      | Some contents \<Rightarrow>
          (let vals = ParseSettings contents in
           \<lparr>rc_Standby = False, rc_PrimaryConnInfo = or_empty (vals ''primary_conninfo''),
            rc_PrimarySlotName = or_empty (vals ''primary_slot_name''),
            rc_SynchronousStandbyNames = or_empty (vals ''synchronous_standby_names''),
            rc_SynchronizedStandbySlots = or_empty (vals ''synchronized_standby_slots''),
            rc_RestoreCommand = or_empty (vals ''restore_command'')\<rparr>))"

section \<open>Following the standbys that stream\<close>

definition durabilityRequired :: "agent_config \<Rightarrow> bool" where
  "durabilityRequired config \<longleftrightarrow> ag_DataDurability config \<noteq> ''Preferred''"

text \<open>
  What \<open>convergeSynchronousStandbys\<close> writes before it reloads, or nothing when the loaded clause is
  already the desired one: the override file changes in the clause and in the slots, and nothing else.
\<close>

definition desired_clause :: "agent_config \<Rightarrow> string \<Rightarrow> string \<Rightarrow> string list \<Rightarrow> string" where
  "desired_clause config inst loaded streaming =
     SynchronousStandbyNames (ag_Quorum config)
       (ConvergeSyncMembers (snd (ParseSyncStandbyNames loaded)) streaming (member_names inst (ag_Replicas config))
          (durabilityRequired config))"

definition convergeSynchronousStandbys ::
  "agent_config \<Rightarrow> string \<Rightarrow> string option \<Rightarrow> string \<Rightarrow> string list \<Rightarrow> replication_config option" where
  "convergeSynchronousStandbys config inst override loaded streaming =
     (let desired = desired_clause config inst loaded streaming in
      if desired = loaded then None
      else Some ((CurrentReplicationConfig override)
                   \<lparr>rc_SynchronousStandbyNames := desired,
                    rc_SynchronizedStandbySlots := join_with CHR '','' (map ReplicationSlotName streaming)\<rparr>))"

section \<open>Facts\<close>

lemma join_with_Split:
  "ms \<noteq> [] \<Longrightarrow> \<forall>m \<in> set ms. c \<notin> set m \<Longrightarrow> Split c (join_with c ms) = ms"
  by (induction c ms rule: join_with.induct) (simp_all add: Split_plain Split_append)

lemma before_last_snoc [simp]: "before_last c (s @ [c]) = s"
  by (simp add: before_last_def)

lemma trim_quotes_quoted [simp]: "trim_quotes (quoteIdentifier m) = ReplaceAll m (CHR 0x22) [CHR 0x22, CHR 0x22]"
  by (simp add: trim_quotes_def quoteIdentifier_def)

lemma TrimSpace_quoted [simp]: "TrimSpace (quoteIdentifier m) = quoteIdentifier m"
  by (rule TrimSpace_id) (auto simp: quoteIdentifier_def space_first_def space_last_def space_runes_def)

lemma ReplaceAll_Nil_iff: "ReplaceAll m c [c, c] = [] \<longleftrightarrow> m = []"
  by (cases m) (simp_all add: ReplaceAll_def)

lemma set_quoteIdentifier: "set (quoteIdentifier m) = insert (CHR 0x22) (set m)"
  by (auto simp: quoteIdentifier_def ReplaceAll_def)

lemma clause_members_quoted:
  assumes "ms \<noteq> []" "\<forall>m \<in> set ms. m \<noteq> [] \<and> CHR '','' \<notin> set m"
  shows "clause_members (join_with CHR '','' (map quoteIdentifier ms)) = ms"
proof -
  have "Split CHR '','' (join_with CHR '','' (map quoteIdentifier ms)) = map quoteIdentifier ms"
    using assms by (intro join_with_Split) (auto simp: set_quoteIdentifier)
  then show ?thesis
    using assms(2) by (simp add: clause_members_def comp_def filter_map ReplaceAll_Nil_iff map_idI filter_True)
qed

text \<open>The quorum as the API documents it: the keyword and the number of standbys that must answer.\<close>

definition any_of :: "int \<Rightarrow> string" where
  "any_of n = ''ANY '' @ Itoa n"

lemma Itoa_chars: "c \<in> set (Itoa n) \<Longrightarrow> graphic c \<and> c \<noteq> CHR ''(''"
proof -
  have above: "c \<noteq> CHR ''(''" if "48 \<le> (of_char c :: nat)" for c using that by auto
  have "char_of (48 + d) \<noteq> CHR ''(''" if "d < 10" for d :: nat using that by (intro above) simp
  then have "CHR ''('' \<notin> set (show_nat m)" for m using decimal.digits_all [of "\<lambda>c. c \<noteq> CHR ''(''" m] by blast
  then show "c \<in> set (Itoa n) \<Longrightarrow> graphic c \<and> c \<noteq> CHR ''(''"
    using Itoa_graphic by (auto simp: Itoa_def split: if_splits)
qed

lemma graphic_not_space: "graphic c \<Longrightarrow> c \<notin> space_first \<and> c \<notin> space_last"
  using space_rune_ends by (auto simp: space_first_def space_last_def)

lemma any_of_reads:
  assumes "in_int32 n"
  shows "hd (any_of n) \<notin> space_first" "CHR ''('' \<notin> set (any_of n)" "TrimSpace (any_of n @ [CHR 0x20]) = any_of n"
    and "Fields (any_of n) = [''ANY'', Itoa n]" "ParseInt32 (Itoa n) = Inr n"
proof -
  show first: "hd (any_of n) \<notin> space_first" by (simp add: any_of_def space_first_def space_runes_def)
  show "CHR ''('' \<notin> set (any_of n)" using Itoa_chars by (auto simp: any_of_def)
  have "last (any_of n) \<in> set (Itoa n)" by (simp add: any_of_def)
  then have "last (any_of n) \<notin> space_last" using Itoa_chars graphic_not_space by blast
  then show "TrimSpace (any_of n @ [CHR 0x20]) = any_of n"
    using first by (intro TrimSpace_trailing) (simp_all add: any_of_def)
  have "Fields (Itoa n) = [Itoa n]" using Itoa_graphic by (intro Fields_word(2)) auto
  then show "Fields (any_of n) = [''ANY'', Itoa n]"
    using Fields_word(1) [of "''ANY''" "Itoa n"] by (simp add: any_of_def graphic_def)
  show "ParseInt32 (Itoa n) = Inr n" by (rule ParseInt32_Itoa [OF assms])
qed

lemma clause_reads_back:
  assumes "in_int32 n" "ms \<noteq> []" "\<forall>m \<in> set ms. m \<noteq> [] \<and> CHR '','' \<notin> set m"
  shows "ParseSyncStandbyNames (SynchronousStandbyNames (any_of n) ms) = (n, sort ms)"
proof -
  let ?J = "join_with CHR '','' (map quoteIdentifier (sort ms))"
  let ?v = "(any_of n @ [CHR 0x20]) @ CHR ''('' # ?J @ [CHR '')'']"
  have "SynchronousStandbyNames (any_of n) ms = ?v" using assms(2) by (simp add: SynchronousStandbyNames_def)
  moreover have "TrimSpace ?v = ?v"
    using any_of_reads(1) [OF assms(1)] by (intro TrimSpace_id) (auto simp: any_of_def space_last_def space_runes_def)
  moreover have "Cut ?v CHR ''('' = (any_of n @ [CHR 0x20], ?J @ [CHR '')''], True)"
    using any_of_reads(2) [OF assms(1)] by (intro Cut_append) simp
  moreover have "sort ms \<noteq> []" using assms(2) by (metis set_empty set_sort)
  then have "clause_members ?J = sort ms" using assms(3) by (intro clause_members_quoted) simp_all
  ultimately show ?thesis
    using any_of_reads(3-5) [OF assms(1)] by (simp add: ParseSyncStandbyNames_def)
qed

lemma set_ConvergeSyncMembers:
  "set (ConvergeSyncMembers loaded streaming members required) =
     set members \<inter> (set streaming \<union> (if required then set loaded else {}))"
  "sorted (ConvergeSyncMembers loaded streaming members required)"
  "distinct (ConvergeSyncMembers loaded streaming members required)"
  by (auto simp: ConvergeSyncMembers_def)

lemma empty_clause: "ParseSyncStandbyNames (SynchronousStandbyNames quorum []) = (0, [])"
  by (simp add: ParseSyncStandbyNames_def SynchronousStandbyNames_def TrimSpace_def)

lemma member_names_plain:
  assumes "CHR '','' \<notin> set inst" "m \<in> set (member_names inst replicas)"
  shows "m \<noteq> [] \<and> CHR '','' \<notin> set m"
proof -
  have "CHR '','' \<notin> set (Itoa k)" for k
  proof -
    have above: "c \<noteq> CHR '',''" if "48 \<le> (of_char c :: nat)" for c using that by auto
    have "char_of (48 + d) \<noteq> CHR '',''" if "d < 10" for d :: nat using that by (intro above) simp
    then have "CHR '','' \<notin> set (show_nat j)" for j using decimal.digits_all [of "\<lambda>c. c \<noteq> CHR '',''" j] by blast
    then show ?thesis by (simp add: Itoa_def)
  qed
  with assms show ?thesis by (auto simp: member_names_def MemberName_def)
qed

text \<open>The voters and the number of answers a loaded clause asks for, after one reload.\<close>

lemma desired_clause_reads:
  fixes loaded :: string and streaming :: "string list"
  assumes "ag_Quorum config = any_of n" "in_int32 n" "CHR '','' \<notin> set inst"
  defines "ms \<equiv> ConvergeSyncMembers (snd (ParseSyncStandbyNames loaded)) streaming
      (member_names inst (ag_Replicas config)) (durabilityRequired config)"
  shows "ParseSyncStandbyNames (desired_clause config inst loaded streaming) = (if ms = [] then 0 else n, ms)"
proof (cases "ms = []")
  case True
  then show ?thesis using empty_clause by (simp add: desired_clause_def ms_def)
next
  case False
  have "\<forall>m \<in> set ms. m \<noteq> [] \<and> CHR '','' \<notin> set m"
    using member_names_plain [OF assms(3)] by (auto simp: ms_def set_ConvergeSyncMembers)
  moreover have "sort ms = ms" by (simp add: ms_def set_ConvergeSyncMembers(2) sort_key_id_if_sorted)
  ultimately show ?thesis
    using clause_reads_back [OF assms(2) False] False by (simp add: desired_clause_def ms_def assms(1))
qed

section \<open>Properties\<close>

text \<open>
  One pass over the standbys of a primary: it leaves the loaded clause alone, because the clause is
  already the desired one or because writing or reloading failed, or the postmaster loads what it wrote.
\<close>

inductive clause_step :: "agent_config \<Rightarrow> string \<Rightarrow> string \<Rightarrow> string \<Rightarrow> bool" for config inst where
  unchanged: "clause_step config inst loaded loaded"
| reloaded: "convergeSynchronousStandbys config inst override loaded streaming = Some replication \<Longrightarrow>
    clause_step config inst loaded (rc_SynchronousStandbyNames replication)"

lemma clause_stepD:
  assumes "clause_step config inst loaded loaded'"
  shows "loaded' = loaded \<or> (\<exists>streaming. loaded' = desired_clause config inst loaded streaming)"
  using assms by cases (auto simp: convergeSynchronousStandbys_def Let_def split: if_splits)


definition sample_agent :: agent_config where
  "sample_agent =
     \<lparr>ag_Postgres = example_config, ag_HBA = \<lparr>hb_ProxySources = [], hb_PeerSources = [], hb_ReplicationRole = ''r'',
        hb_OpsRole = ''o'', hb_RewindRole = ''w''\<rparr>,
      ag_Quorum = ''ANY 1'', ag_Replicas = 3, ag_DataDurability = ''Required'', ag_BackupConfigured = None,
      ag_Lease = DefaultLeaseConfig\<rparr>"

definition sample_clause :: string where
  "sample_clause = SynchronousStandbyNames ''ANY 1'' [''db-2'', ''db-3'']"

lemma sample_clause_reads:
  "convergeSynchronousStandbys sample_agent ''db'' None [] [''db-3'', ''db-2''] =
     Some (empty_replication\<lparr>rc_SynchronousStandbyNames := sample_clause,
       rc_SynchronizedStandbySlots := ''pgelastic_db_3,pgelastic_db_2''\<rparr>)"
  by code_simp

lemma sample_clause_voters: "snd (ParseSyncStandbyNames sample_clause) = [''db-2'', ''db-3'']"
proof -
  have "any_of 1 = ''ANY 1''" "sort [''db-2'', ''db-3''] = [''db-2'', ''db-3'']" by code_simp+
  then show ?thesis
    using clause_reads_back [of 1 "[''db-2'', ''db-3'']"] by (simp add: sample_clause_def in_int32_def)
qed


lemma override_names:
  "list_all validGUCName (map st_Name (RenderOverrideConf r))" "distinct (map st_Name (RenderOverrideConf r))"
proof -
  have "map st_Name (RenderOverrideConf r) = map st_Name (RenderOverrideConf empty_replication)"
    by (simp add: RenderOverrideConf_def sortedSettings_def comp_def case_prod_beta empty_replication_def guc_defs)
  moreover have "list_all validGUCName (map st_Name (RenderOverrideConf empty_replication))"
    "distinct (map st_Name (RenderOverrideConf empty_replication))" by code_simp+
  ultimately show "list_all validGUCName (map st_Name (RenderOverrideConf r))" "distinct (map st_Name (RenderOverrideConf r))"
    by simp_all
qed

text \<open>
  Rewriting a member's configuration for one reason keeps the rest of it. Whatever values the replication
  settings have, quotes, spaces and comment characters included, as long as none spans two lines, reading
  the override file of the four files back gives all of them, with the restore command of the
  operator's document; the only thing the file does not carry is that the member is a standby.
\<close>

theorem replication_settings_survive:
  assumes "newline \<notin> set (rc_PrimaryConnInfo r)" "newline \<notin> set (rc_PrimarySlotName r)"
    and "newline \<notin> set (rc_SynchronousStandbyNames r)" "newline \<notin> set (rc_SynchronizedStandbySlots r)"
  shows "CurrentReplicationConfig (map_of (config_files hash config member r controlData) OverrideConfFile) =
    r\<lparr>rc_Standby := False, rc_RestoreCommand := restoreCommand config\<rparr>"
proof -
  let ?r = "r\<lparr>rc_RestoreCommand := restoreCommand config\<rparr>"
  let ?al = "[(''primary_conninfo'', rc_PrimaryConnInfo ?r), (''primary_slot_name'', rc_PrimarySlotName ?r),
        (GUCSynchronousStandbyNames, rc_SynchronousStandbyNames ?r),
        (''synchronized_standby_slots'', rc_SynchronizedStandbySlots ?r), (''restore_command'', rc_RestoreCommand ?r)]"
  have settings: "RenderOverrideConf ?r = sortedSettings ?al" by (simp add: RenderOverrideConf_def)
  have "st_Value s \<in> snd ` set al" if "s \<in> set (sortedSettings al)" for s al
    using that by (force simp: sortedSettings_def)
  then have "st_Value s \<in> snd ` set ?al" if "s \<in> set (sortedSettings ?al)" for s
    using that by blast
  moreover have "newline \<notin> set (restoreCommand config)" by (simp add: restoreCommand_def newline_def)
  ultimately have vals: "\<forall>s \<in> set (RenderOverrideConf ?r). validGUCName (st_Name s) \<and> newline \<notin> set (st_Value s)"
    using assms override_names(1) [of ?r] by (fastforce simp: settings list_all_iff)
  have "newline \<notin> set ''pgelastic replication and recovery''" by (simp add: newline_def)
  from settings_round_trip [OF this vals override_names(2)]
  have "ParseSettings (FormatSettings ''pgelastic replication and recovery'' (RenderOverrideConf ?r)) = map_of ?al"
    by (simp add: settings setting_value_sortedSettings guc_defs)
  then show ?thesis
    by (simp add: CurrentReplicationConfig_def config_files_def override_settings_def Let_def CustomConfFile_def
        OverrideConfFile_def or_empty_def guc_defs)
qed

theorem replication_settings_survive_witness:
  "CurrentReplicationConfig (map_of (config_files concat sample_agent ''db-1''
     (empty_replication\<lparr>rc_Standby := True, rc_PrimaryConnInfo := ''host=a password=#'' @ [CHR 0x27]\<rparr>) None) OverrideConfFile) =
   empty_replication\<lparr>rc_PrimaryConnInfo := ''host=a password=#'' @ [CHR 0x27]\<rparr>"
  using replication_settings_survive [of "empty_replication\<lparr>rc_Standby := True, rc_PrimaryConnInfo := ''host=a password=#'' @ [CHR 0x27]\<rparr>"
      concat sample_agent "''db-1''" None]
  by (simp add: empty_replication_def newline_def restoreCommand_def sample_agent_def)

end
