(* ===== verification/Agent_Lease.thy ===== *)
theory Agent_Lease
  imports HA_Lease
begin

text \<open>
  The promotion Lease as one member holds it (\<open>internal/instance/agent/lease.go\<close>). The Lease is an
  object of the API server, which accepts an update only at the version it was read at; between any
  two calls of a member the other members may have written it, a call may be refused, and its answer
  may be lost after it took effect. A history records every version of the object with the member that
  wrote it. What a member may write is the relation \<open>lease_move\<close>: the operations of the source make no
  other moves (the guarantee), and from the moves alone it follows that no two members hold the same
  fence token (the rely is that the others run the same code).
\<close>

section \<open>The object and the API server\<close>

record lease =
  le_version :: nat
  le_HolderIdentity :: "string option"
  le_LeaseDurationSeconds :: "int option"
  le_AcquireTime :: "time option"
  le_RenewTime :: "time option"
  le_LeaseTransitions :: "int option"

record lease_server =
  sv_lease :: "lease option"
  sv_revision :: nat

text \<open>A \<open>MicroTime\<close> keeps microseconds when it is written out.\<close>

definition micro :: "time \<Rightarrow> time" where
  "micro t = t - t mod 1000"

definition stored :: "nat \<Rightarrow> lease \<Rightarrow> lease" where
  "stored revision l =
     l\<lparr>le_version := revision, le_AcquireTime := map_option micro (le_AcquireTime l),
       le_RenewTime := map_option micro (le_RenewTime l)\<rparr>"

definition put :: "lease \<Rightarrow> lease_server \<Rightarrow> lease_server" where
  "put l s = \<lparr>sv_lease = Some (stored (Suc (sv_revision s)) l), sv_revision = Suc (sv_revision s)\<rparr>"

datatype api_error = NotFound | AlreadyExists | Conflict | Unavailable

text \<open>What becomes of a call: answered, refused without effect, or done with the answer lost.\<close>

datatype fate = Served | Refused | ReplyLost

text \<open>
  What happens around one call: the writes of the other members just before it, each with its writer
  and the server it leaves, the time that passes, and the fate of the call. The world also keeps what
  the member read and when, by its own clock.
\<close>

type_synonym move_log = "(string \<times> lease_server) list"

record disturbance =
  di_others :: "lease_server \<Rightarrow> move_log"
  di_elapsed :: duration
  di_fate :: fate

record lease_world =
  lw_server :: lease_server
  lw_history :: move_log
  lw_now :: time
  lw_script :: "disturbance list"
  lw_reads :: "(time \<times> lease option) list"

definition last_server :: "lease_server \<Rightarrow> move_log \<Rightarrow> lease_server" where
  "last_server s h = (if h = [] then s else snd (last h))"

definition disturb :: "lease_world \<Rightarrow> fate \<times> lease_world" where
  "disturb w =
     (case lw_script w of
        [] \<Rightarrow> (Served, w)
      | d # ds \<Rightarrow>
          (let others = di_others d (lw_server w) in
           (di_fate d,
            w\<lparr>lw_server := last_server (lw_server w) others, lw_history := lw_history w @ others,
              lw_now := lw_now w + di_elapsed d, lw_script := ds\<rparr>)))"

definition commit :: "string \<Rightarrow> lease \<Rightarrow> lease_world \<Rightarrow> lease \<times> lease_world" where
  "commit member l w =
     (let s = put l (lw_server w) in
      (the (sv_lease s), w\<lparr>lw_server := s, lw_history := lw_history w @ [(member, s)]\<rparr>))"

definition answer :: "fate \<Rightarrow> lease \<times> lease_world \<Rightarrow> (api_error + lease) \<times> lease_world" where
  "answer fate lw = (if fate = Served then Inr (fst lw) else Inl Unavailable, snd lw)"

definition lease_Get :: "lease_world \<Rightarrow> (api_error + lease) \<times> lease_world" where
  "lease_Get w =
     (case disturb w of
        (fate, w') \<Rightarrow>
          if fate \<noteq> Served then (Inl Unavailable, w')
          else (case sv_lease (lw_server w') of None \<Rightarrow> Inl NotFound | Some l \<Rightarrow> Inr l,
                w'\<lparr>lw_reads := lw_reads w' @ [(lw_now w', sv_lease (lw_server w'))]\<rparr>))"

definition lease_Create :: "string \<Rightarrow> lease \<Rightarrow> lease_world \<Rightarrow> (api_error + lease) \<times> lease_world" where
  "lease_Create member l w =
     (case disturb w of
        (fate, w') \<Rightarrow>
          if fate = Refused then (Inl Unavailable, w')
          else case sv_lease (lw_server w') of
            Some _ \<Rightarrow> (Inl (if fate = Served then AlreadyExists else Unavailable), w')
          | None \<Rightarrow> answer fate (commit member l w'))"

definition lease_Update :: "string \<Rightarrow> lease \<Rightarrow> lease_world \<Rightarrow> (api_error + lease) \<times> lease_world" where
  "lease_Update member l w =
     (case disturb w of
        (fate, w') \<Rightarrow>
          if fate = Refused then (Inl Unavailable, w')
          else case sv_lease (lw_server w') of
            None \<Rightarrow> (Inl (if fate = Served then NotFound else Unavailable), w')
          | Some current \<Rightarrow>
              if le_version current \<noteq> le_version l then (Inl (if fate = Served then Conflict else Unavailable), w')
              else answer fate (commit member l w'))"

section \<open>The operations\<close>

text \<open>The Lease a manager addresses is the one of the world, so its namespace and name are left out.\<close>

record lease_manager =
  lm_Holder :: string
  lm_Config :: lease_config

datatype lease_error = ErrLeaseHeld take_over_reason | LeaseApiError api_error

text \<open>\<open>int32(d.Seconds())\<close>, for durations below \<open>2 ^ 22\<close> seconds, where the quotient is not rounded up.\<close>

definition whole_seconds :: "duration \<Rightarrow> int" where
  "whole_seconds d = wrap32 (d sdiv second)"

definition snapshotOf :: "time \<Rightarrow> lease \<Rightarrow> lease_snapshot" where
  "snapshotOf now l =
     \<lparr>ls_Holder = (case le_HolderIdentity l of None \<Rightarrow> [] | Some h \<Rightarrow> h),
      ls_RenewTime = (case le_RenewTime l of None \<Rightarrow> 0 | Some t \<Rightarrow> t),
      ls_LeaseDuration = (case le_LeaseDurationSeconds l of None \<Rightarrow> 0 | Some s \<Rightarrow> s * second),
      ls_ObservedAt = now\<rparr>"

definition Snapshot :: "lease_world \<Rightarrow> (api_error + lease_snapshot) \<times> lease_world" where
  "Snapshot w =
     (case lease_Get w of
        (Inl e, w') \<Rightarrow>
          (if e = NotFound
           then Inr \<lparr>ls_Holder = [], ls_RenewTime = 0, ls_LeaseDuration = 0, ls_ObservedAt = lw_now w'\<rparr>
           else Inl e, w')
      | (Inr l, w') \<Rightarrow> (Inr (snapshotOf (lw_now w') l), w'))"

definition LeaderTransitions :: "lease \<Rightarrow> int" where
  "LeaderTransitions l = (case le_LeaseTransitions l of None \<Rightarrow> 0 | Some t \<Rightarrow> t)"

definition lease_create :: "lease_manager \<Rightarrow> lease_world \<Rightarrow> (api_error + lease) \<times> lease_world" where
  "lease_create m w =
     lease_Create (lm_Holder m)
       \<lparr>le_version = 0, le_HolderIdentity = Some (lm_Holder m),
        le_LeaseDurationSeconds = Some (whole_seconds (lc_LeaseDuration (lm_Config m))),
        le_AcquireTime = Some (lw_now w), le_RenewTime = Some (lw_now w), le_LeaseTransitions = Some 0\<rparr> w"

text \<open>The Lease an attempt writes when it may take it.\<close>

definition claimed :: "lease_manager \<Rightarrow> time \<Rightarrow> lease \<Rightarrow> lease" where
  "claimed m now l =
     (let previous = (case le_HolderIdentity l of None \<Rightarrow> [] | Some h \<Rightarrow> h);
          foreign = (previous \<noteq> lm_Holder m);
          transitions = LeaderTransitions l in
      l\<lparr>le_AcquireTime := (if foreign then Some now else le_AcquireTime l),
        le_HolderIdentity := Some (lm_Holder m),
        le_LeaseTransitions := Some (if foreign then wrap32 (transitions + 1) else transitions),
        le_LeaseDurationSeconds := Some (whole_seconds (lc_LeaseDuration (lm_Config m))),
        le_RenewTime := Some now\<rparr>)"

definition attempt ::
  "lease_manager \<Rightarrow> lease_snapshot \<Rightarrow> lease_world \<Rightarrow> (lease_error + lease option \<times> take_over_verdict) \<times> lease_world" where
  "attempt m first w =
     (case lease_Get w of
        (Inl e, w1) \<Rightarrow>
          if e = NotFound then
            (case lease_create m w1 of
               (Inr created, w2) \<Rightarrow> (Inr (Some created, \<lparr>tv_Allowed = True, tv_Reason = TakeOverUnheld\<rparr>), w2)
             | (Inl e2, w2) \<Rightarrow>
                 (if e2 \<noteq> AlreadyExists then Inl (LeaseApiError e2)
                  else Inr (None, \<lparr>tv_Allowed = False, tv_Reason = TakeOverHolderAlive\<rparr>), w2))
          else (Inl (LeaseApiError e), w1)
      | (Inr l, w1) \<Rightarrow>
          (let verdict = MayTakeOver (lm_Config m) first (snapshotOf (lw_now w1) l) (lm_Holder m) in
           if \<not> tv_Allowed verdict then (Inr (None, verdict), w1)
           else case lease_Update (lm_Holder m) (claimed m (lw_now w1) l) w1 of
             (Inr updated, w2) \<Rightarrow> (Inr (Some updated, verdict), w2)
           | (Inl e2, w2) \<Rightarrow>
               (if e2 = Conflict then Inr (None, \<lparr>tv_Allowed = False, tv_Reason = TakeOverHolderAlive\<rparr>)
                else Inl (LeaseApiError e2), w2)))"

text \<open>
  The loop of \<open>Acquire\<close>. Its waits are the times between the ticks that come before the deadline of the
  context; after the last of them the context is done.
\<close>

fun acquire_loop ::
  "lease_manager \<Rightarrow> duration list \<Rightarrow> lease_snapshot \<Rightarrow> lease_world \<Rightarrow> (lease_error + lease) \<times> lease_world" where
  "acquire_loop m waits first w =
     (case attempt m first w of
        (Inl e, w1) \<Rightarrow> (Inl e, w1)
      | (Inr (Some l, _), w1) \<Rightarrow> (Inr l, w1)
      | (Inr (None, verdict), w1) \<Rightarrow>
          (case (if tv_Reason verdict = TakeOverHolderAlive then Snapshot w1 else (Inr first, w1)) of
             (Inl e, w2) \<Rightarrow> (Inl (LeaseApiError e), w2)
           | (Inr first', w2) \<Rightarrow>
               (case waits of
                  [] \<Rightarrow> (Inl (ErrLeaseHeld (tv_Reason verdict)), w2)
                | d # ds \<Rightarrow> acquire_loop m ds first' (w2\<lparr>lw_now := lw_now w2 + d\<rparr>))))"

declare acquire_loop.simps [simp del]

definition Acquire :: "lease_manager \<Rightarrow> duration list \<Rightarrow> lease_world \<Rightarrow> (lease_error + lease) \<times> lease_world" where
  "Acquire m waits w =
     (case Snapshot w of
        (Inl e, w1) \<Rightarrow> (Inl (LeaseApiError e), w1)
      | (Inr first, w1) \<Rightarrow> acquire_loop m waits first w1)"

definition Renew :: "lease_manager \<Rightarrow> lease_world \<Rightarrow> renew_outcome \<times> lease_world" where
  "Renew m w =
     (case lease_Get w of
        (Inl e, w1) \<Rightarrow>
          if e = NotFound then
            (case lease_create m w1 of (Inr _, w2) \<Rightarrow> (RenewOK, w2) | (Inl _, w2) \<Rightarrow> (RenewUnverified, w2))
          else (RenewUnverified, w1)
      | (Inr l, w1) \<Rightarrow>
          if le_HolderIdentity l \<noteq> Some (lm_Holder m) then (RenewLost, w1)
          else
            (case lease_Update (lm_Holder m)
                    (l\<lparr>le_RenewTime := Some (lw_now w1),
                       le_LeaseDurationSeconds := Some (whole_seconds (lc_LeaseDuration (lm_Config m)))\<rparr>) w1 of
               (Inl _, w2) \<Rightarrow> (RenewUnverified, w2)
             | (Inr _, w2) \<Rightarrow> (RenewOK, w2)))"

definition Release :: "lease_manager \<Rightarrow> lease_world \<Rightarrow> (api_error + unit) \<times> lease_world" where
  "Release m w =
     (case lease_Get w of
        (Inl e, w1) \<Rightarrow> (if e = NotFound then Inr () else Inl e, w1)
      | (Inr l, w1) \<Rightarrow>
          if le_HolderIdentity l \<noteq> Some (lm_Holder m) then (Inr (), w1)
          else
            (case lease_Update (lm_Holder m)
                    (l\<lparr>le_HolderIdentity := Some [],
                       le_LeaseDurationSeconds := Some (whole_seconds (lc_ReleasedLeaseDuration (lm_Config m))),
                       le_RenewTime := Some (lw_now w1)\<rparr>) w1 of
               (Inl e, w2) \<Rightarrow> (Inl e, w2)
             | (Inr _, w2) \<Rightarrow> (Inr (), w2)))"

section \<open>What a member may write\<close>

definition holder_of :: "lease \<Rightarrow> string" where
  "holder_of l = (case le_HolderIdentity l of None \<Rightarrow> [] | Some h \<Rightarrow> h)"

text \<open>
  A holder may keep the Lease or give it up, and the counter stays; another member may take it, and the
  counter goes up by one.
\<close>

definition may_rewrite :: "string \<Rightarrow> lease \<Rightarrow> lease \<Rightarrow> bool" where
  "may_rewrite m c l \<longleftrightarrow>
     (if holder_of c = m then holder_of l \<in> {m, []} \<and> LeaderTransitions l = LeaderTransitions c
      else holder_of l = m \<and> LeaderTransitions l = wrap32 (LeaderTransitions c + 1))"

inductive lease_move :: "string \<Rightarrow> lease_server \<Rightarrow> lease_server \<Rightarrow> bool" where
  created: "sv_lease s = None \<Longrightarrow> holder_of l = m \<Longrightarrow> LeaderTransitions l = 0 \<Longrightarrow> lease_move m s (put l s)"
| rewritten: "sv_lease s = Some c \<Longrightarrow> may_rewrite m c l \<Longrightarrow> lease_move m s (put l s)"

inductive_cases lease_moveE: "lease_move m s s'"

fun moves :: "lease_server \<Rightarrow> move_log \<Rightarrow> bool" where
  "moves s [] = True"
| "moves s ((m, s') # h) = (lease_move m s s' \<and> moves s' h)"

text \<open>The others of a script run the same code, and the version of the object is one the server gave.\<close>

definition orderly :: "lease_world \<Rightarrow> bool" where
  "orderly w \<longleftrightarrow>
     (\<forall>l. sv_lease (lw_server w) = Some l \<longrightarrow> le_version l \<le> sv_revision (lw_server w)) \<and>
     (\<forall>d \<in> set (lw_script w). \<forall>s. moves s (di_others d s))"

text \<open>Running from one world to another extended the history by moves only.\<close>

definition advances :: "lease_world \<Rightarrow> lease_world \<Rightarrow> bool" where
  "advances w w' \<longleftrightarrow> orderly w' \<and>
     (\<exists>h. lw_history w' = lw_history w @ h \<and> moves (lw_server w) h \<and> lw_server w' = last_server (lw_server w) h)"

lemma stored_fields [simp]:
  "holder_of (stored r l) = holder_of l" "LeaderTransitions (stored r l) = LeaderTransitions l"
  "le_version (stored r l) = r" "le_HolderIdentity (stored r l) = le_HolderIdentity l"
  by (simp_all add: stored_def holder_of_def LeaderTransitions_def)

lemma put_fields [simp]:
  "sv_lease (put l s) = Some (stored (Suc (sv_revision s)) l)" "sv_revision (put l s) = Suc (sv_revision s)"
  by (simp_all add: put_def)

lemma last_server_simps [simp]:
  "last_server s [] = s" "last_server s ((m, s') # h) = last_server s' h"
  "last_server s (h @ [(m, s')]) = s'"
  by (simp_all add: last_server_def)

lemma last_server_append: "last_server s (h @ h') = last_server (last_server s h) h'"
  by (simp add: last_server_def)

lemma moves_append [simp]: "moves s (h @ h') \<longleftrightarrow> moves s h \<and> moves (last_server s h) h'"
  by (induction s h rule: moves.induct) simp_all

lemma lease_move_fields:
  assumes "lease_move m s s'"
  shows "\<exists>l. sv_lease s' = Some l \<and> le_version l = sv_revision s'" "sv_revision s' = Suc (sv_revision s)"
  using assms by (auto elim!: lease_moveE)

text \<open>A version is never given twice: an object found at an old version has not been written since.\<close>

lemma moves_version:
  "moves s h \<Longrightarrow> h \<noteq> [] \<Longrightarrow>
   (\<exists>l. sv_lease (last_server s h) = Some l \<and> le_version l = sv_revision (last_server s h)) \<and>
   sv_revision s < sv_revision (last_server s h)"
proof (induction s h rule: moves.induct)
  case (2 s m s' h)
  then show ?case using lease_move_fields [of m s s'] by (cases "h = []") auto
qed simp

lemma unchanged_version:
  assumes "moves s h" "sv_lease s = Some c" "le_version c \<le> sv_revision s"
    and "sv_lease (last_server s h) = Some c'" "le_version c' = le_version c"
  shows "h = []"
  using moves_version [OF assms(1)] assms(2-) by fastforce

lemma advances_refl: "orderly w \<Longrightarrow> advances w w"
  by (auto simp: advances_def intro: exI [of _ "[]"])

lemma advances_trans [trans]: "advances w w' \<Longrightarrow> advances w' w'' \<Longrightarrow> advances w w''"
  by (auto simp: advances_def last_server_append)

lemma advances_orderly: "advances w w' \<Longrightarrow> orderly w'"
  by (simp add: advances_def)

lemma advances_wait: "advances w w' \<Longrightarrow> advances w (w'\<lparr>lw_now := t\<rparr>)"
  by (simp add: advances_def orderly_def)

lemma advances_read: "advances w w' \<Longrightarrow> advances w (w'\<lparr>lw_reads := rs\<rparr>)"
  by (simp add: advances_def orderly_def)

lemma disturb_advances:
  assumes "orderly w" "disturb w = (fate, w')"
  shows "advances w w'"
proof (cases "lw_script w")
  case (Cons d ds)
  have "moves (lw_server w) (di_others d (lw_server w))" using assms(1) Cons by (simp add: orderly_def)
  then have "advances w (snd (disturb w))"
    using assms(1) moves_version [of "lw_server w" "di_others d (lw_server w)"]
    by (cases "di_others d (lw_server w) = []")
      (auto simp: advances_def disturb_def Cons orderly_def Let_def)
  then show ?thesis by (simp add: assms(2))
qed (use assms advances_refl in \<open>auto simp: disturb_def\<close>)

lemma commit_advances:
  assumes "orderly w" "lease_move m (lw_server w) (put l (lw_server w))"
  shows "advances w (snd (commit m l w))"
  using assms by (auto simp: advances_def commit_def orderly_def Let_def)

lemma answer_simps [simp]: "snd (answer fate lw) = snd lw" "fst (answer fate lw) = Inr l \<longleftrightarrow> fate = Served \<and> l = fst lw"
  by (auto simp: answer_def)

lemma commit_result [simp]:
  "lw_server (snd (commit m l w)) = put l (lw_server w)"
  "lw_history (snd (commit m l w)) = lw_history w @ [(m, put l (lw_server w))]"
  "fst (commit m l w) = stored (Suc (sv_revision (lw_server w))) l"
  by (simp_all add: commit_def Let_def)

lemma lease_Get_advances:
  assumes "orderly w" "lease_Get w = (r, w')"
  shows "advances w w'" "r = Inr l \<Longrightarrow> sv_lease (lw_server w') = Some l" "r = Inl NotFound \<Longrightarrow> sv_lease (lw_server w') = None"
  using assms disturb_advances [OF assms(1)] advances_read
  by (auto simp: lease_Get_def split: prod.splits if_splits option.splits)

text \<open>A write that succeeded left the object it wrote as the last entry of the history.\<close>

definition wrote :: "string \<Rightarrow> lease \<Rightarrow> lease \<Rightarrow> lease_world \<Rightarrow> bool" where
  "wrote m l u w \<longleftrightarrow> (\<exists>r h. u = stored r l \<and> sv_lease (lw_server w) = Some u \<and> lw_history w = h @ [(m, lw_server w)])"

lemma lease_Create_advances:
  assumes "orderly w" "lease_Create m l w = (r, w')" "holder_of l = m" "LeaderTransitions l = 0"
  shows "advances w w'" "r = Inr u \<Longrightarrow> wrote m l u w'"
proof -
  obtain fate w1 where d: "disturb w = (fate, w1)" by fastforce
  note adv = disturb_advances [OF assms(1) d]
  have move: "lease_move m (lw_server w1) (put l (lw_server w1))" if "sv_lease (lw_server w1) = None"
    using that assms(3,4) by (rule created)
  show "advances w w'"
    using assms(2) adv advances_trans [OF adv commit_advances [OF advances_orderly [OF adv] move]]
    by (auto simp: lease_Create_def d answer_def split: if_splits option.splits)
  show "wrote m l u w'" if "r = Inr u"
    using assms(2) that
    by (auto simp: lease_Create_def d answer_def wrote_def split: if_splits option.splits)
qed

lemma lease_Update_advances:
  assumes "orderly w" "lease_Update m l w = (r, w')" "sv_lease (lw_server w) = Some c"
    and "le_version l = le_version c" "may_rewrite m c l"
  shows "advances w w'" "r = Inr u \<Longrightarrow> wrote m l u w'"
proof -
  obtain fate w1 where d: "disturb w = (fate, w1)" by fastforce
  note adv = disturb_advances [OF assms(1) d]
  have move: "lease_move m (lw_server w1) (put l (lw_server w1))"
    if "sv_lease (lw_server w1) = Some c'" "le_version c' = le_version l" for c'
  proof -
    from adv obtain h where h: "moves (lw_server w) h" "lw_server w1 = last_server (lw_server w) h"
      by (auto simp: advances_def)
    then have "h = []" using assms(1,3,4) that by (intro unchanged_version [of "lw_server w" h c c']) (auto simp: orderly_def)
    then show ?thesis using h(2) assms(3,5) by (simp add: rewritten)
  qed
  show "advances w w'"
    using assms(2) adv advances_trans [OF adv commit_advances [OF advances_orderly [OF adv] move]]
    by (auto simp: lease_Update_def d answer_def split: if_splits option.splits)
  show "wrote m l u w'" if "r = Inr u"
    using assms(2) that
    by (auto simp: lease_Update_def d answer_def wrote_def split: if_splits option.splits)
qed

section \<open>The operations make only moves\<close>

text \<open>The Lease a member was granted: it is stored, in its name, by its own write.\<close>

definition granted :: "lease_manager \<Rightarrow> lease \<Rightarrow> lease_world \<Rightarrow> bool" where
  "granted m l w \<longleftrightarrow> holder_of l = lm_Holder m \<and> sv_lease (lw_server w) = Some l \<and>
     (\<exists>h. lw_history w = h @ [(lm_Holder m, lw_server w)])"

lemma wrote_granted: "wrote (lm_Holder m) l u w \<Longrightarrow> holder_of l = lm_Holder m \<Longrightarrow> granted m u w"
  by (auto simp: wrote_def granted_def)

lemma claimed_rewrites:
  "may_rewrite (lm_Holder m) l (claimed m now l)" "le_version (claimed m now l) = le_version l"
  "holder_of (claimed m now l) = lm_Holder m"
  by (auto simp: may_rewrite_def claimed_def holder_of_def LeaderTransitions_def Let_def split: option.splits)

lemma lease_create_advances:
  assumes "orderly w" "lease_create m w = (r, w')"
  shows "advances w w'" "r = Inr u \<Longrightarrow> granted m u w'"
  using lease_Create_advances [OF assms(1) assms(2) [unfolded lease_create_def]]
  by (auto intro: wrote_granted simp: holder_of_def LeaderTransitions_def)

lemma Snapshot_advances:
  assumes "orderly w" "Snapshot w = (r, w')"
  shows "advances w w'"
  using assms lease_Get_advances(1) [OF assms(1)]
  by (auto simp: Snapshot_def split: prod.splits sum.splits)

lemma attempt_advances:
  assumes "orderly w" "attempt m first w = (r, w')"
  shows "advances w w'" "r = Inr (Some l, v) \<Longrightarrow> granted m l w'"
proof -
  obtain g w1 where get: "lease_Get w = (g, w1)" by fastforce
  note adv = lease_Get_advances [OF assms(1) get]
  then have w1: "orderly w1" by (blast intro: advances_orderly)
  have "advances w1 w' \<and> (r = Inr (Some l, v) \<longrightarrow> granted m l w')"
  proof (cases g)
    case (Inl e)
    then show ?thesis using assms(2) lease_create_advances [OF w1] advances_refl [OF w1]
      by (auto simp: attempt_def get split: prod.splits sum.splits if_splits)
  next
    case (Inr c)
    show ?thesis
    proof (cases "tv_Allowed (MayTakeOver (lm_Config m) first (snapshotOf (lw_now w1) c) (lm_Holder m))")
      case True
      obtain u w2 where upd: "lease_Update (lm_Holder m) (claimed m (lw_now w1) c) w1 = (u, w2)" by fastforce
      note lease_Update_advances [OF w1 upd adv(2) [OF Inr] claimed_rewrites(2,1)]
      then show ?thesis using assms(2) True wrote_granted [OF _ claimed_rewrites(3)]
        by (auto simp: attempt_def get Inr upd split: sum.splits if_splits)
    qed (use assms(2) advances_refl [OF w1] in \<open>auto simp: attempt_def get Inr\<close>)
  qed
  then show "advances w w'" "r = Inr (Some l, v) \<Longrightarrow> granted m l w'" using adv(1) advances_trans by blast+
qed

lemma acquire_loop_advances:
  assumes "orderly w" "acquire_loop m waits first w = (r, w')"
  shows "advances w w' \<and> (\<forall>l. r = Inr l \<longrightarrow> granted m l w')"
  using assms
proof (induction m waits first w rule: acquire_loop.induct)
  case (1 m waits first w)
  note run = "1.prems"(2) [unfolded acquire_loop.simps [of m waits first w]]
  obtain a w1 where att: "attempt m first w = (a, w1)" by fastforce
  note adv = attempt_advances [OF "1.prems"(1) att]
  show ?case
  proof (cases "\<exists>v. a = Inr (None, v)")
    case True
    then obtain v where a: "a = Inr (None, v)" by blast
    obtain b w2 where snap: "(if tv_Reason v = TakeOverHolderAlive then Snapshot w1 else (Inr first, w1)) = (b, w2)" by fastforce
    then have adv2: "advances w w2"
      using Snapshot_advances [of w1] adv(1) advances_orderly advances_trans by (auto split: if_splits)
    show ?thesis
    proof (cases b)
      case (Inl e)
      then show ?thesis using run adv2 by (auto simp: att a snap)
    next
      case b: (Inr first')
      show ?thesis
      proof (cases waits)
        case Nil
        then show ?thesis using run adv2 by (auto simp: att a snap b)
      next
        case (Cons d ds)
        have adv3: "advances w (w2\<lparr>lw_now := lw_now w2 + d\<rparr>)" by (rule advances_wait [OF adv2])
        have rest: "acquire_loop m ds first' (w2\<lparr>lw_now := lw_now w2 + d\<rparr>) = (r, w')"
          using run by (simp add: att a snap b Cons)
        show ?thesis
          using "1.IH" [OF att [symmetric] a refl refl snap [symmetric] b Cons advances_orderly [OF adv3] rest]
            advances_trans [OF adv3] by blast
      qed
    qed
  qed (use run adv in \<open>auto simp: att split: sum.splits option.splits prod.splits\<close>)
qed

lemma Acquire_advances:
  assumes "orderly w" "Acquire m waits w = (r, w')"
  shows "advances w w' \<and> (\<forall>l. r = Inr l \<longrightarrow> granted m l w')"
proof -
  obtain a w1 where snap: "Snapshot w = (a, w1)" by fastforce
  note adv = Snapshot_advances [OF assms(1) snap]
  then show ?thesis
    using assms(2) acquire_loop_advances [OF advances_orderly [OF adv], of m waits] advances_trans [OF adv]
    by (cases a) (auto simp: Acquire_def snap)
qed

lemma Renew_advances:
  assumes "orderly w" "Renew m w = (r, w')"
  shows "advances w w'" "r = RenewOK \<Longrightarrow> \<exists>l. granted m l w'"
proof -
  obtain g w1 where get: "lease_Get w = (g, w1)" by fastforce
  note adv = lease_Get_advances [OF assms(1) get]
  then have w1: "orderly w1" by (blast intro: advances_orderly)
  have "advances w1 w' \<and> (r = RenewOK \<longrightarrow> (\<exists>l. granted m l w'))"
  proof (cases g)
    case (Inl e)
    obtain u w2 where "lease_create m w1 = (u, w2)" by fastforce
    with Inl show ?thesis using assms(2) lease_create_advances [OF w1, of m u w2] advances_refl [OF w1]
      by (auto simp: Renew_def get split: sum.splits if_splits)
  next
    case (Inr c)
    let ?l = "c\<lparr>le_RenewTime := Some (lw_now w1),
                le_LeaseDurationSeconds := Some (whole_seconds (lc_LeaseDuration (lm_Config m)))\<rparr>"
    show ?thesis
    proof (cases "le_HolderIdentity c = Some (lm_Holder m)")
      case True
      obtain u w2 where upd: "lease_Update (lm_Holder m) ?l w1 = (u, w2)" by fastforce
      have "may_rewrite (lm_Holder m) c ?l" "holder_of ?l = lm_Holder m"
        using True by (simp_all add: may_rewrite_def holder_of_def LeaderTransitions_def)
      with lease_Update_advances [OF w1 upd adv(2) [OF Inr]] wrote_granted [of m ?l _ w2] show ?thesis
        using assms(2) True by (auto simp: Renew_def get Inr upd split: sum.splits)
    qed (use assms(2) advances_refl [OF w1] in \<open>auto simp: Renew_def get Inr\<close>)
  qed
  then show "advances w w'" "r = RenewOK \<Longrightarrow> \<exists>l. granted m l w'" using adv(1) advances_trans by blast+
qed

lemma Release_advances:
  assumes "orderly w" "Release m w = (r, w')"
  shows "advances w w'"
proof -
  obtain g w1 where get: "lease_Get w = (g, w1)" by fastforce
  note adv = lease_Get_advances [OF assms(1) get]
  then have w1: "orderly w1" by (blast intro: advances_orderly)
  have "advances w1 w'"
  proof (cases g)
    case (Inr c)
    let ?l = "c\<lparr>le_HolderIdentity := Some [],
                le_LeaseDurationSeconds := Some (whole_seconds (lc_ReleasedLeaseDuration (lm_Config m))),
                le_RenewTime := Some (lw_now w1)\<rparr>"
    obtain u w2 where upd: "lease_Update (lm_Holder m) ?l w1 = (u, w2)" by fastforce
    have "may_rewrite (lm_Holder m) c ?l" if "le_HolderIdentity c = Some (lm_Holder m)"
      using that by (simp add: may_rewrite_def holder_of_def LeaderTransitions_def)
    with lease_Update_advances(1) [OF w1 upd adv(2) [OF Inr]] show ?thesis
      using assms(2) advances_refl [OF w1] by (auto simp: Release_def get Inr upd split: sum.splits if_splits)
  qed (use assms(2) advances_refl [OF w1] in \<open>auto simp: Release_def get\<close>)
  then show ?thesis using adv(1) advances_trans by blast
qed

section \<open>The counter along a history\<close>

definition transitions_at :: "lease_server \<Rightarrow> int" where
  "transitions_at s = (case sv_lease s of None \<Rightarrow> 0 | Some l \<Rightarrow> LeaderTransitions l)"

definition holder_at :: "lease_server \<Rightarrow> string" where
  "holder_at s = (case sv_lease s of None \<Rightarrow> [] | Some l \<Rightarrow> holder_of l)"

text \<open>
  The counter never falls, and while it stands still the Lease belongs to the same member or to nobody.
\<close>

lemma lease_move_counts:
  assumes "lease_move m s s'" "0 \<le> transitions_at s" "transitions_at s < 2147483647"
  shows "transitions_at s \<le> transitions_at s'" "transitions_at s' \<le> transitions_at s + 1"
    and "transitions_at s' = transitions_at s \<Longrightarrow> sv_lease s \<noteq> None \<Longrightarrow> holder_at s' = holder_at s \<or> holder_at s' = []"
  using assms
  by (auto elim!: lease_moveE simp: transitions_at_def holder_at_def may_rewrite_def wrap32_id in_int32_def split: if_splits)

lemma moves_count:
  assumes "moves s h" "0 \<le> transitions_at s" "transitions_at s + int (length h) \<le> 2147483647"
  shows "transitions_at s \<le> transitions_at (last_server s h) \<and>
    transitions_at (last_server s h) \<le> transitions_at s + int (length h) \<and>
    (transitions_at (last_server s h) = transitions_at s \<longrightarrow> sv_lease s \<noteq> None \<longrightarrow>
       holder_at (last_server s h) = holder_at s \<or> holder_at (last_server s h) = [])"
  using assms
proof (induction s h rule: moves.induct)
  case (2 s m s' h)
  have move: "lease_move m s s'" using 2(2) by simp
  have room: "0 \<le> transitions_at s" "transitions_at s < 2147483647" using 2(3,4) by simp_all
  note step = lease_move_counts [OF move room]
  have IH: "transitions_at s' \<le> transitions_at (last_server s' h) \<and>
    transitions_at (last_server s' h) \<le> transitions_at s' + int (length h) \<and>
    (transitions_at (last_server s' h) = transitions_at s' \<longrightarrow> sv_lease s' \<noteq> None \<longrightarrow>
       holder_at (last_server s' h) = holder_at s' \<or> holder_at (last_server s' h) = [])"
    using 2 step by (intro 2(1)) auto
  moreover obtain l where "sv_lease s' = Some l" using lease_move_fields(1) [OF move] by blast
  ultimately show ?case using step by auto
qed simp

text \<open>The fence token of the Lease the server stores, as \<open>Promote\<close> derives it.\<close>

definition token_at :: "lease_server \<Rightarrow> int" where
  "token_at s = Epoch InitialPrimaryEpoch (transitions_at s)"

lemma moves_order_tokens:
  assumes "moves s h" "0 \<le> transitions_at s" "transitions_at s + int (length h) \<le> 2147483647" "sv_lease s \<noteq> None"
    and "holder_at (last_server s h) \<noteq> holder_at s" "holder_at (last_server s h) \<noteq> []"
  shows "token_at s < token_at (last_server s h)"
proof -
  have "transitions_at s < transitions_at (last_server s h)" "transitions_at (last_server s h) \<le> 2147483647"
    using moves_count [OF assms(1-3)] assms(3-) by auto
  then show ?thesis
    using Epoch_strictly_increasing [of "transitions_at s" "transitions_at (last_server s h)"] assms(2)
    by (simp add: token_at_def in_int32_def)
qed

lemma moves_middle:
  assumes "moves start (h1 @ (a, s) # h2)" "0 \<le> transitions_at start"
    and "transitions_at start + int (length (h1 @ (a, s) # h2)) \<le> 2147483647"
  shows "moves s h2" "0 \<le> transitions_at s" "transitions_at s + int (length h2) \<le> 2147483647" "sv_lease s \<noteq> None"
proof -
  have "moves start (h1 @ [(a, s)])" "moves s h2" using assms(1) by simp_all
  moreover from this have "transitions_at start \<le> transitions_at s \<and> transitions_at s \<le> transitions_at start + int (Suc (length h1))"
    using moves_count [of start "h1 @ [(a, s)]"] assms(2,3) by simp
  moreover have "lease_move a (last_server start h1) s" using assms(1) by simp
  ultimately show "moves s h2" "0 \<le> transitions_at s" "transitions_at s + int (length h2) \<le> 2147483647" "sv_lease s \<noteq> None"
    using assms(2,3) lease_move_fields(1) [of a "last_server start h1" s] by auto
qed

section \<open>Properties\<close>

text \<open>
  C4. The fence token of a promotion belongs to one member. Let the members of an instance run this code,
  interleaved in any way, with any of their calls refused and any of their answers lost, from a Lease
  whose counter has room. When \<open>Acquire\<close> returns, the member's own write stored the Lease in its name;
  every state of the Lease that named another member before carries a smaller token, and every state that
  names another member afterwards carries a larger one. The whole history consists of moves that the
  code of some member makes.
\<close>

theorem fence_tokens_are_exclusive:
  assumes "Acquire m waits w = (Inr l, w')" "orderly w" "lm_Holder m \<noteq> []"
    and "moves start (lw_history w)" "last_server start (lw_history w) = lw_server w"
    and "moves (lw_server w') later" "0 \<le> transitions_at start"
    and "transitions_at start + int (length (lw_history w' @ later)) \<le> 2147483647"
  shows "le_HolderIdentity l = Some (lm_Holder m) \<and> sv_lease (lw_server w') = Some l \<and>
    moves start (lw_history w' @ later) \<and>
    (\<forall>(a, s) \<in> set (lw_history w'). holder_at s \<notin> {[], lm_Holder m} \<longrightarrow>
       token_at s < Epoch InitialPrimaryEpoch (LeaderTransitions l)) \<and>
    (\<forall>(a, s) \<in> set later. holder_at s \<notin> {[], lm_Holder m} \<longrightarrow>
       Epoch InitialPrimaryEpoch (LeaderTransitions l) < token_at s)"
proof -
  from Acquire_advances [OF assms(2,1)] have adv: "advances w w'" and grant: "granted m l w'" by auto
  then obtain h where h: "lw_history w' = lw_history w @ h" "moves (lw_server w) h" "lw_server w' = last_server (lw_server w) h"
    by (auto simp: advances_def)
  have all: "moves start (lw_history w')" "last_server start (lw_history w') = lw_server w'"
    using h assms(4,5) by (simp_all add: last_server_append)
  have l: "sv_lease (lw_server w') = Some l" "holder_at (lw_server w') = lm_Holder m"
    "token_at (lw_server w') = Epoch InitialPrimaryEpoch (LeaderTransitions l)"
    using grant by (simp_all add: granted_def holder_at_def token_at_def transitions_at_def)
  have "token_at s < token_at (lw_server w')"
    if s: "(a, s) \<in> set (lw_history w')" "holder_at s \<notin> {[], lm_Holder m}" for a s
  proof -
    obtain h1 h2 where split: "lw_history w' = h1 @ (a, s) # h2" using split_list [OF s(1)] by blast
    then have "last_server s h2 = lw_server w'" using all(2) by (simp add: last_server_append)
    moreover note middle = moves_middle [of start h1 a s h2]
    ultimately show ?thesis
      using moves_order_tokens [of s h2] s(2) l(2) all(1) assms(3,7,8) by (auto simp: split)
  qed
  moreover have "token_at (lw_server w') < token_at s"
    if s: "(a, s) \<in> set later" "holder_at s \<notin> {[], lm_Holder m}" for a s
  proof -
    obtain k1 k2 where split: "later = k1 @ (a, s) # k2" using split_list [OF s(1)] by blast
    obtain h1 where "lw_history w' = h1 @ [(lm_Holder m, lw_server w')]" using grant by (auto simp: granted_def)
    then have "moves start (h1 @ (lm_Holder m, lw_server w') # k1 @ [(a, s)])"
      "transitions_at start + int (length (h1 @ (lm_Holder m, lw_server w') # k1 @ [(a, s)])) \<le> 2147483647"
      using all assms(6,8) by (simp_all add: split)
    from moves_middle [OF this(1) assms(7) this(2)] show ?thesis
      using moves_order_tokens [of "lw_server w'" "k1 @ [(a, s)]"] s(2) l(2) by auto
  qed
  moreover have "le_HolderIdentity l = Some (lm_Holder m)"
    using grant assms(3) by (auto simp: granted_def holder_of_def split: option.splits)
  ultimately show ?thesis using all assms(6) l by auto
qed

definition sample_manager :: "string \<Rightarrow> lease_manager" where
  "sample_manager member = \<lparr>lm_Holder = member, lm_Config = DefaultLeaseConfig\<rparr>"

definition sample_lease :: "string \<Rightarrow> int \<Rightarrow> time \<Rightarrow> lease" where
  "sample_lease member transitions renewed =
     \<lparr>le_version = 1, le_HolderIdentity = Some member, le_LeaseDurationSeconds = Some 15,
      le_AcquireTime = Some 0, le_RenewTime = Some renewed, le_LeaseTransitions = Some transitions\<rparr>"

definition empty_server :: lease_server where
  "empty_server = \<lparr>sv_lease = None, sv_revision = 0\<rparr>"

definition sample_lease_world :: "lease_server \<Rightarrow> lease_world" where
  "sample_lease_world s = \<lparr>lw_server = s, lw_history = [(''a'', s)], lw_now = 0, lw_script = [], lw_reads = []\<rparr>"

definition sample_acquire :: "(lease_error + lease) \<times> lease_world" where
  "sample_acquire =
     Acquire (sample_manager ''b'') (replicate 10 (2 * second)) (sample_lease_world (put (sample_lease ''a'' 0 0) empty_server))"

lemma sample_acquire_evaluates:
  "case sample_acquire of (Inr l, w') \<Rightarrow> LeaderTransitions l = 1 \<and> length (lw_history w') = 2 | _ \<Rightarrow> False"
  by code_simp

theorem fence_tokens_are_exclusive_witness:
  "token_at (put (sample_lease ''a'' 0 0) empty_server) < Epoch InitialPrimaryEpoch 1"
proof -
  let ?s = "put (sample_lease ''a'' 0 0) empty_server"
  obtain l w' where run: "sample_acquire = (Inr l, w')" "LeaderTransitions l = 1" "length (lw_history w') = 2"
    using sample_acquire_evaluates by (auto split: prod.splits sum.splits)
  have start: "moves empty_server [(''a'', ?s)]"
    by (simp, rule created) (simp_all add: empty_server_def sample_lease_def holder_of_def LeaderTransitions_def)
  have "(''a'', ?s) \<in> set (lw_history w')"
    using Acquire_advances [OF _ run(1) [unfolded sample_acquire_def]]
    by (auto simp: orderly_def sample_lease_world_def advances_def)
  moreover have "orderly (sample_lease_world ?s)" by (simp add: orderly_def sample_lease_world_def)
  ultimately show ?thesis
    using fence_tokens_are_exclusive [OF run(1) [unfolded sample_acquire_def], of empty_server "[]"] start run(2,3)
    by (auto simp: sample_lease_world_def sample_manager_def transitions_at_def empty_server_def holder_at_def
        holder_of_def sample_lease_def)
qed

text \<open>A run nobody disturbs.\<close>

definition having_read :: "lease_world \<Rightarrow> lease_world" where
  "having_read w = w\<lparr>lw_reads := lw_reads w @ [(lw_now w, sv_lease (lw_server w))]\<rparr>"

lemma having_read_fields [simp]:
  "lw_script (having_read w) = lw_script w" "lw_server (having_read w) = lw_server w" "lw_now (having_read w) = lw_now w"
  by (simp_all add: having_read_def)

lemma undisturbed_get:
  "lw_script w = [] \<Longrightarrow> sv_lease (lw_server w) = Some c \<Longrightarrow> lease_Get w = (Inr c, having_read w)"
  by (simp add: lease_Get_def disturb_def having_read_def)

lemma undisturbed_update:
  "lw_script w = [] \<Longrightarrow> sv_lease (lw_server w) = Some c \<Longrightarrow> le_version l = le_version c \<Longrightarrow>
   lease_Update m l w = (Inr (stored (Suc (sv_revision (lw_server w))) l), snd (commit m l w))"
  by (simp add: lease_Update_def disturb_def answer_def)

definition validity_of :: "lease_manager \<Rightarrow> lease \<Rightarrow> duration" where
  "validity_of m c =
     (case le_LeaseDurationSeconds c of
        None \<Rightarrow> lc_LeaseDuration (lm_Config m)
      | Some n \<Rightarrow> if n \<le> 0 then lc_LeaseDuration (lm_Config m) else n * second)"

lemma undisturbed_attempt:
  assumes "lw_script w = []" "sv_lease (lw_server w) = Some c" "holder_of c \<notin> {[], lm_Holder m}"
    and "ls_Holder first = holder_of c" "ls_RenewTime first = ls_RenewTime (snapshotOf t c)"
  shows "attempt m first w =
    (if time_sub (lw_now w) (ls_ObservedAt first) < validity_of m c
     then (Inr (None, \<lparr>tv_Allowed = False, tv_Reason = TakeOverTooSoon\<rparr>), having_read w)
     else (Inr (Some (stored (Suc (sv_revision (lw_server w))) (claimed m (lw_now w) c)), \<lparr>tv_Allowed = True, tv_Reason = TakeOverExpired\<rparr>),
           snd (commit (lm_Holder m) (claimed m (lw_now w) c) (having_read w))))"
proof -
  have fields: "ls_Holder (snapshotOf (lw_now w) c) = holder_of c" "ls_ObservedAt (snapshotOf (lw_now w) c) = lw_now w"
    "ls_RenewTime (snapshotOf (lw_now w) c) = ls_RenewTime first"
    "(if ls_LeaseDuration (snapshotOf (lw_now w) c) \<le> 0 then lc_LeaseDuration (lm_Config m)
      else ls_LeaseDuration (snapshotOf (lw_now w) c)) = validity_of m c"
    using assms(5) by (auto simp: snapshotOf_def holder_of_def validity_of_def second_def split: option.splits)
  have "MayTakeOver (lm_Config m) first (snapshotOf (lw_now w) c) (lm_Holder m) =
    (if time_sub (lw_now w) (ls_ObservedAt first) < validity_of m c then \<lparr>tv_Allowed = False, tv_Reason = TakeOverTooSoon\<rparr>
     else \<lparr>tv_Allowed = True, tv_Reason = TakeOverExpired\<rparr>)"
    using assms(3,4) by (simp add: MayTakeOver_def fields Let_def)
  then show ?thesis
    using undisturbed_update [of "having_read w" c "claimed m (lw_now w) c"] assms(1,2) claimed_rewrites(2)
    by (simp add: attempt_def undisturbed_get [OF assms(1,2)] Let_def)
qed

lemma undisturbed_loop:
  assumes "lw_script w = []" "sv_lease (lw_server w) = Some c" "holder_of c \<notin> {[], lm_Holder m}"
    and "ls_Holder first = holder_of c" "ls_RenewTime first = ls_RenewTime (snapshotOf t c)"
    and "validity_of m c \<le> lw_now w - ls_ObservedAt first + sum_list waits" "validity_of m c \<le> 9223372036854775807"
  shows "\<exists>l w'. acquire_loop m waits first w = (Inr l, w') \<and> holder_of l = lm_Holder m \<and>
    LeaderTransitions l = wrap32 (LeaderTransitions c + 1)"
  using assms
proof (induction waits arbitrary: w)
  case waits: (Cons d ds)
  show ?case
  proof (cases "time_sub (lw_now w) (ls_ObservedAt first) < validity_of m c")
    case True
    have "acquire_loop m (d # ds) first w = acquire_loop m ds first ((having_read w)\<lparr>lw_now := lw_now w + d\<rparr>)"
      using undisturbed_attempt [OF waits.prems(1-5)] True
      by (simp add: acquire_loop.simps [of m "d # ds" first w])
    then show ?thesis using waits.IH [of "(having_read w)\<lparr>lw_now := lw_now w + d\<rparr>"] waits.prems by simp
  next
    case False
    then show ?thesis
      using undisturbed_attempt [OF waits.prems(1-5)] waits.prems(3)
      by (simp add: acquire_loop.simps [of m "d # ds" first w] claimed_rewrites)
        (auto simp: claimed_def holder_of_def LeaderTransitions_def Let_def split: option.splits)
  qed
next
  case Nil
  then have "\<not> time_sub (lw_now w) (ls_ObservedAt first) < validity_of m c" by (auto simp: time_sub_def)
  then show ?case
    using undisturbed_attempt [OF Nil(1-5)] Nil(3)
    by (simp add: acquire_loop.simps [of m "[]" first w] claimed_rewrites)
      (auto simp: claimed_def holder_of_def LeaderTransitions_def Let_def split: option.splits)
qed

text \<open>
  C28. The time \<open>Promote\<close> allows an acquisition is enough. If the Lease names a member that no longer renews it,
  with a validity no longer than the configured one, and nobody else interferes, then \<open>Acquire\<close> returns the
  Lease, in the caller's name and with the counter raised by one, when its context is done only once the
  \<open>AcquireTimeout\<close> of the configuration has passed: the ticks that fit before it are enough.
\<close>

theorem lapsed_lease_is_taken_in_time:
  assumes "lw_script w = []" "sv_lease (lw_server w) = Some c" "holder_of c \<notin> {[], lm_Holder m}"
    and "validity_of m c \<le> lc_LeaseDuration (lm_Config m)"
    and "0 < lc_RetryPeriod (lm_Config m)" "lc_RetryPeriod (lm_Config m) \<le> 1152921504606846976"
    and "0 \<le> lc_LeaseDuration (lm_Config m)" "lc_LeaseDuration (lm_Config m) \<le> 1152921504606846976"
    and "AcquireTimeout (lm_Config m) < int (Suc n) * lc_RetryPeriod (lm_Config m)"
  shows "\<exists>l w'. Acquire m (replicate n (lc_RetryPeriod (lm_Config m))) w = (Inr l, w') \<and>
    holder_of l = lm_Holder m \<and> LeaderTransitions l = wrap32 (LeaderTransitions c + 1)"
proof -
  let ?rp = "lc_RetryPeriod (lm_Config m)"
  have "AcquireTimeout (lm_Config m) = lc_LeaseDuration (lm_Config m) + 3 * ?rp"
    using assms(5-8) by (simp add: AcquireTimeout_def wrap64_id in_int64_def)
  then have "validity_of m c \<le> sum_list (replicate n ?rp)"
    using assms(4,5,9) by (simp add: sum_list_replicate algebra_simps)
  moreover have "Snapshot w = (Inr (snapshotOf (lw_now w) c), having_read w)"
    using undisturbed_get [OF assms(1,2)] by (simp add: Snapshot_def)
  moreover have "ls_Holder (snapshotOf (lw_now w) c) = holder_of c" "ls_ObservedAt (snapshotOf (lw_now w) c) = lw_now w"
    by (simp_all add: snapshotOf_def holder_of_def)
  ultimately show ?thesis
    using undisturbed_loop [of "having_read w" c m "snapshotOf (lw_now w) c" "lw_now w" "replicate n ?rp"] assms(1-4,8)
    by (simp add: Acquire_def)
qed

theorem lapsed_lease_is_taken_in_time_witness:
  "\<exists>l w'. Acquire (sample_manager ''b'') (replicate 10 (2 * second)) (sample_lease_world (put (sample_lease ''a'' 6 0) empty_server)) =
     (Inr l, w') \<and> holder_of l = ''b'' \<and> LeaderTransitions l = 7"
proof -
  let ?s = "put (sample_lease ''a'' 6 0) empty_server"
  obtain c where c: "sv_lease ?s = Some c" "holder_of c = ''a''" "LeaderTransitions c = 6"
    "validity_of (sample_manager ''b'') c = 15 * second"
    by (simp add: sample_lease_def holder_of_def LeaderTransitions_def validity_of_def stored_def)
  from lapsed_lease_is_taken_in_time [of "sample_lease_world ?s" c "sample_manager ''b''" 10] c
  show ?thesis
    by (simp add: sample_lease_world_def sample_manager_def DefaultLeaseConfig_def AcquireTimeout_def second_def
        wrap64_def wrap32_def)
qed

text \<open>
  C40. A Lease that is gone starts the tokens over. When the Lease object does not exist, the caller of
  \<open>Acquire\<close> creates it with a counter of zero, and so promotes under the first token there is, whatever
  tokens the members have published before.
\<close>

theorem recreated_lease_starts_over:
  assumes "lw_script w = []" "sv_lease (lw_server w) = None"
  shows "\<exists>l w'. Acquire m waits w = (Inr l, w') \<and> Epoch InitialPrimaryEpoch (LeaderTransitions l) = 1 \<and>
    (\<forall>t. Epoch InitialPrimaryEpoch (LeaderTransitions l) \<le> Epoch InitialPrimaryEpoch (wrap32 t))"
proof -
  have "lease_Get v = (Inl NotFound, having_read v)" if "lw_script v = []" "sv_lease (lw_server v) = None" for v
    using that by (simp add: lease_Get_def disturb_def having_read_def)
  then have "\<exists>l w'. Acquire m waits w = (Inr l, w') \<and> LeaderTransitions l = 0"
    using assms
    by (simp add: Acquire_def Snapshot_def acquire_loop.simps [of m waits] attempt_def lease_create_def lease_Create_def
        disturb_def answer_def LeaderTransitions_def stored_def)
  moreover have "1 \<le> Epoch InitialPrimaryEpoch (wrap32 t)" for t
    using wrap32_range [of t] by (auto simp: Epoch_def InitialPrimaryEpoch_def in_int32_def in_int64_def wrap64_id)
  moreover have "Epoch InitialPrimaryEpoch 0 = 1" by (simp add: Epoch_def InitialPrimaryEpoch_def wrap64_def)
  ultimately show ?thesis by auto
qed

theorem recreated_lease_starts_over_witness:
  "\<exists>l w'. Acquire (sample_manager ''b'') [] (sample_lease_world empty_server) = (Inr l, w') \<and>
     Epoch InitialPrimaryEpoch (LeaderTransitions l) = 1"
  using recreated_lease_starts_over [of "sample_lease_world empty_server" "sample_manager ''b''" "[]"]
  by (auto simp: sample_lease_world_def empty_server_def)

section \<open>Silence\<close>

text \<open>The stamp of a renewal, of which only equality is used.\<close>

definition renewal_of :: "lease \<Rightarrow> time" where
  "renewal_of c = (case le_RenewTime c of None \<Rightarrow> 0 | Some t \<Rightarrow> t)"

text \<open>
  The member read the Lease twice, a whole validity apart by its own clock, under the same holder and
  with the same stamp; the second time it was exactly this one.
\<close>

definition silent :: "lease_manager \<Rightarrow> lease_world \<Rightarrow> lease \<Rightarrow> bool" where
  "silent m w c \<longleftrightarrow>
     (\<exists>t0 t1 c0. (t0, Some c0) \<in> set (lw_reads w) \<and> (t1, Some c) \<in> set (lw_reads w) \<and>
        holder_of c0 = holder_of c \<and> renewal_of c0 = renewal_of c \<and> validity_of m c \<le> time_sub t1 t0)"

text \<open>The last write is the member's own, and a Lease it took from another member had been silent.\<close>

definition taken_fairly :: "lease_manager \<Rightarrow> lease_world \<Rightarrow> lease_world \<Rightarrow> bool" where
  "taken_fairly m w w' \<longleftrightarrow>
     (\<exists>h. lw_history w' = lw_history w @ h @ [(lm_Holder m, lw_server w')] \<and>
        (\<forall>c. sv_lease (last_server (lw_server w) h) = Some c \<longrightarrow> holder_of c \<notin> {[], lm_Holder m} \<longrightarrow> silent m w' c))"

text \<open>What the loop remembers of its first look is something it read, or nobody's Lease.\<close>

definition seen :: "lease_snapshot \<Rightarrow> lease_world \<Rightarrow> bool" where
  "seen first w \<longleftrightarrow> ls_Holder first = [] \<or>
     (\<exists>c. (ls_ObservedAt first, Some c) \<in> set (lw_reads w) \<and> holder_of c = ls_Holder first \<and> renewal_of c = ls_RenewTime first)"

lemma disturb_reads: "disturb w = (fate, w') \<Longrightarrow> lw_reads w' = lw_reads w"
  by (auto simp: disturb_def Let_def split: list.splits)

lemma commit_reads [simp]: "lw_reads (snd (commit m l w)) = lw_reads w"
  by (simp add: commit_def Let_def)

lemma Create_reads: "lease_Create m l w = (r, w') \<Longrightarrow> lw_reads w' = lw_reads w"
  by (auto simp: lease_Create_def answer_def dest: disturb_reads split: prod.splits if_splits option.splits)

lemma Update_reads: "lease_Update m l w = (r, w') \<Longrightarrow> lw_reads w' = lw_reads w"
  by (auto simp: lease_Update_def answer_def dest: disturb_reads split: prod.splits if_splits option.splits)

lemma Get_reads:
  assumes "lease_Get w = (r, w')"
  shows "set (lw_reads w) \<subseteq> set (lw_reads w')" "r = Inr c \<Longrightarrow> (lw_now w', Some c) \<in> set (lw_reads w')"
  using assms by (auto simp: lease_Get_def dest: disturb_reads split: prod.splits if_splits option.splits)

lemma Snapshot_seen:
  assumes "Snapshot w = (r, w')"
  shows "set (lw_reads w) \<subseteq> set (lw_reads w')" "r = Inr first \<Longrightarrow> seen first w'"
  using assms Get_reads
  by (fastforce simp: Snapshot_def seen_def snapshotOf_def holder_of_def renewal_of_def split: prod.splits sum.splits if_splits)+

lemma attempt_reads: "attempt m first w = (r, w') \<Longrightarrow> set (lw_reads w) \<subseteq> set (lw_reads w')"
  by (auto simp: attempt_def lease_create_def Let_def split: prod.splits sum.splits if_splits
      dest!: Get_reads(1) Create_reads Update_reads)

lemma seen_mono: "seen first w \<Longrightarrow> set (lw_reads w) \<subseteq> set (lw_reads w') \<Longrightarrow> seen first w'"
  by (auto simp: seen_def)

lemma taken_fairly_after:
  assumes "advances w w1" "taken_fairly m w1 w'"
  shows "taken_fairly m w w'"
proof -
  obtain h h' where "lw_history w1 = lw_history w @ h" "lw_server w1 = last_server (lw_server w) h"
    "lw_history w' = lw_history w1 @ h' @ [(lm_Holder m, lw_server w')]"
    "\<forall>c. sv_lease (last_server (lw_server w1) h') = Some c \<longrightarrow> holder_of c \<notin> {[], lm_Holder m} \<longrightarrow> silent m w' c"
    using assms unfolding advances_def taken_fairly_def by blast
  then show ?thesis unfolding taken_fairly_def by (intro exI [of _ "h @ h'"]) (simp add: last_server_append)
qed

text \<open>A write that was answered found the Lease as it had been read.\<close>

lemma lease_Update_found:
  assumes "orderly w" "lease_Update m l w = (Inr u, w')" "sv_lease (lw_server w) = Some c" "le_version l = le_version c"
  shows "lw_history w' = lw_history w @ [(m, lw_server w')]"
proof -
  obtain fate w1 where d: "disturb w = (fate, w1)" by fastforce
  from disturb_advances [OF assms(1) d] obtain h where h: "moves (lw_server w) h" "lw_server w1 = last_server (lw_server w) h"
    "lw_history w1 = lw_history w @ h" by (auto simp: advances_def)
  obtain c' where c': "sv_lease (lw_server w1) = Some c'" "le_version c' = le_version l" "w' = snd (commit m l w1)"
    using assms(2) by (auto simp: lease_Update_def d answer_def split: if_splits option.splits)
  have "h = []" using assms(1,3,4) c' h by (intro unchanged_version [of "lw_server w" h c c']) (auto simp: orderly_def)
  then show ?thesis using c' h by simp
qed

lemma lease_create_found:
  assumes "orderly w" "lease_create m w = (Inr u, w')"
  shows "taken_fairly m w w'"
proof -
  obtain fate w1 where d: "disturb w = (fate, w1)" by fastforce
  then have "advances w w1" by (rule disturb_advances [OF assms(1)])
  moreover have "taken_fairly m w1 w'"
    using assms(2) unfolding taken_fairly_def
    by (intro exI [of _ "[]"]) (auto simp: lease_create_def lease_Create_def d answer_def split: if_splits option.splits)
  ultimately show ?thesis by (rule taken_fairly_after)
qed

lemma attempt_takes_fairly:
  assumes "orderly w" "attempt m first w = (Inr (Some l, v), w')" "seen first w"
  shows "taken_fairly m w w'"
proof -
  obtain g w1 where get: "lease_Get w = (g, w1)" by fastforce
  note adv = lease_Get_advances [OF assms(1) get] and reads = Get_reads [OF get]
  then have w1: "orderly w1" by (blast intro: advances_orderly)
  have "taken_fairly m w1 w'"
  proof (cases g)
    case (Inl e)
    then show ?thesis using assms(2) lease_create_found [OF w1]
      by (auto simp: attempt_def get split: prod.splits sum.splits if_splits)
  next
    case (Inr c)
    let ?v = "MayTakeOver (lm_Config m) first (snapshotOf (lw_now w1) c) (lm_Holder m)"
    have allowed: "tv_Allowed ?v" and upd: "lease_Update (lm_Holder m) (claimed m (lw_now w1) c) w1 = (Inr l, w')"
      using assms(2) by (auto simp: attempt_def get Inr Let_def split: prod.splits sum.splits if_splits)
    have snap: "ls_Holder (snapshotOf (lw_now w1) c) = holder_of c" "ls_RenewTime (snapshotOf (lw_now w1) c) = renewal_of c"
      "ls_ObservedAt (snapshotOf (lw_now w1) c) = lw_now w1"
      "(if ls_LeaseDuration (snapshotOf (lw_now w1) c) \<le> 0 then lc_LeaseDuration (lm_Config m)
        else ls_LeaseDuration (snapshotOf (lw_now w1) c)) = validity_of m c"
      by (auto simp: snapshotOf_def holder_of_def renewal_of_def validity_of_def second_def split: option.splits)
    have "silent m w' c'" if "sv_lease (lw_server w1) = Some c'" "holder_of c' \<notin> {[], lm_Holder m}" for c'
    proof -
      have c': "c' = c" using that(1) adv(2) [OF Inr] by simp
      then have "ls_Holder first = holder_of c \<and> ls_RenewTime first = renewal_of c \<and>
          validity_of m c \<le> time_sub (lw_now w1) (ls_ObservedAt first)"
        using MayTakeOver_foreign [of "snapshotOf (lw_now w1) c" "lm_Holder m" "lm_Config m" first] that(2) allowed snap
        by auto
      then show ?thesis
        using assms(3) reads(1) reads(2) [OF Inr] that(2) c' unfolding silent_def Update_reads [OF upd] seen_def by auto
    qed
    then show ?thesis
      using lease_Update_found [OF w1 upd adv(2) [OF Inr] claimed_rewrites(2)]
      unfolding taken_fairly_def by (intro exI [of _ "[]"]) simp
  qed
  with adv(1) show ?thesis by (rule taken_fairly_after)
qed

lemma acquire_loop_takes_fairly:
  assumes "orderly w" "acquire_loop m waits first w = (Inr l, w')" "seen first w"
  shows "taken_fairly m w w'"
  using assms
proof (induction m waits first w rule: acquire_loop.induct)
  case (1 m waits first w)
  note run = "1.prems"(2) [unfolded acquire_loop.simps [of m waits first w]]
  obtain a w1 where att: "attempt m first w = (a, w1)" by fastforce
  note adv = attempt_advances(1) [OF "1.prems"(1) att] and reads = attempt_reads [OF att]
  show ?case
  proof (cases "\<exists>v. a = Inr (None, v)")
    case True
    then obtain v where a: "a = Inr (None, v)" by blast
    obtain b w2 where snap: "(if tv_Reason v = TakeOverHolderAlive then Snapshot w1 else (Inr first, w1)) = (b, w2)" by fastforce
    with run obtain first' d ds where b: "b = Inr first'" "waits = d # ds"
      and rest: "acquire_loop m ds first' (w2\<lparr>lw_now := lw_now w2 + d\<rparr>) = (Inr l, w')"
      by (auto simp: att a split: sum.splits list.splits)
    have "advances w w2" "seen first' w2"
      using snap b(1) adv Snapshot_advances [of w1] Snapshot_seen [of w1] seen_mono [OF "1.prems"(3) reads]
        advances_orderly advances_trans by (auto split: if_splits)
    then have "advances w (w2\<lparr>lw_now := lw_now w2 + d\<rparr>)" "seen first' (w2\<lparr>lw_now := lw_now w2 + d\<rparr>)"
      by (auto intro: advances_wait simp: seen_def)
    then show ?thesis
      using "1.IH" [OF att [symmetric] a refl refl snap [symmetric] b _ rest] advances_orderly taken_fairly_after by blast
  next
    case False
    with run obtain v where "a = Inr (Some l, v)" "w' = w1"
      by (auto simp: att split: sum.splits option.splits prod.splits)
    then show ?thesis using attempt_takes_fairly [OF "1.prems"(1) _ "1.prems"(3)] att by blast
  qed
qed

text \<open>
  C34. The Lease changes hands only after a silence. If \<open>Acquire\<close> returns while the members interleave in any
  way, and the Lease it overwrote named another member, then the caller had read that Lease twice, at
  least its whole validity apart by its own clock, with the same holder and the same renewal stamp both
  times, and the Lease it overwrote is the one of the second reading.
\<close>

theorem lease_changes_hands_after_silence:
  assumes "Acquire m waits w = (Inr l, w')" "orderly w"
  shows "\<exists>h. lw_history w' = lw_history w @ h @ [(lm_Holder m, lw_server w')] \<and> sv_lease (lw_server w') = Some l \<and>
    (\<forall>c. sv_lease (last_server (lw_server w) h) = Some c \<longrightarrow> holder_of c \<notin> {[], lm_Holder m} \<longrightarrow>
       (\<exists>t0 t1 c0. (t0, Some c0) \<in> set (lw_reads w') \<and> (t1, Some c) \<in> set (lw_reads w') \<and>
          holder_of c0 = holder_of c \<and> renewal_of c0 = renewal_of c \<and> validity_of m c \<le> time_sub t1 t0))"
proof -
  obtain first w1 where snap: "Snapshot w = (Inr first, w1)" and loop: "acquire_loop m waits first w1 = (Inr l, w')"
    using assms(1) by (auto simp: Acquire_def split: prod.splits sum.splits)
  note adv = Snapshot_advances [OF assms(2) snap]
  have "taken_fairly m w w'"
    using taken_fairly_after [OF adv acquire_loop_takes_fairly [OF advances_orderly [OF adv] loop]] Snapshot_seen(2) [OF snap]
    by blast
  moreover have "granted m l w'" using Acquire_advances [OF assms(2,1)] by blast
  ultimately show ?thesis unfolding taken_fairly_def silent_def granted_def by blast
qed

theorem lease_changes_hands_after_silence_witness:
  "\<exists>t0 t1 c0. (t0, Some c0) \<in> set (lw_reads (snd sample_acquire)) \<and> holder_of c0 = ''a'' \<and>
     (t1, sv_lease (put (sample_lease ''a'' 0 0) empty_server)) \<in> set (lw_reads (snd sample_acquire)) \<and> 15 * second \<le> time_sub t1 t0"
proof -
  let ?s = "put (sample_lease ''a'' 0 0) empty_server"
  obtain c where c: "sv_lease ?s = Some c" "holder_of c = ''a''" "validity_of (sample_manager ''b'') c = 15 * second"
    by (simp add: sample_lease_def holder_of_def validity_of_def stored_def)
  obtain l w' where run: "sample_acquire = (Inr l, w')" "length (lw_history w') = 2"
    using sample_acquire_evaluates by (auto split: prod.splits sum.splits)
  have "orderly (sample_lease_world ?s)" by (simp add: orderly_def sample_lease_world_def)
  from lease_changes_hands_after_silence [OF run(1) [unfolded sample_acquire_def] this] run(2) c show ?thesis
    by (auto simp: sample_lease_world_def run(1)) (auto simp: sample_manager_def)
qed

end
