(* ===== verification/Agent_Promotion.thy ===== *)
theory Agent_Promotion
  imports Agent_Config Agent_Lease
begin

text \<open>
  The promotion of a member (\<open>internal/instance/agent/promotion.go\<close>, with \<open>PublishPrimaryState\<close> of
  \<open>report.go\<close>). The sequence is a list of effects in the order of the source; each call to the
  postmaster, the tools, the peers and the API server is answered by the environment, and the first failure
  ends the sequence. A call that must have succeeded before the next is recorded when it did; \<open>pg_ctl
  promote\<close> and the claim of the role are recorded when they are sent, for they may take effect and fail. The Lease is the one of \<open>Agent_Lease\<close>, with the other
  members interleaved.
\<close>

section \<open>What the sequence acts on\<close>

datatype promotion_error =
    LeaseRefused lease_error
  | Withdrawn string
  | ErrQuorumDenied quorum_reason
  | CallFailed string

text \<open>
  The observation the new primary publishes, as far as the patch carries it.
\<close>

record observed_primary =
  ob_Timeline :: int
  ob_LSN :: string
  ob_SyncStandbyNames :: string
  ob_SyncStandbys :: "string list"

record options =
  op_Config :: agent_config
  op_Member :: string
  op_Instance :: string

text \<open>
  The answers of everything outside. A unit call answers with its error, if any. The write of the
  configuration files answers whether the override file had been replaced when the call ended, and its
  error. \<open>pe_gone\<close> and \<open>pe_out\<close> are the polls that follow \<open>pg_ctl promote\<close>, up to the deadline.
\<close>

record promotion_env =
  pe_waits :: "duration list"
  pe_instance :: "string + instance_object"
  pe_now :: time
  pe_report :: "string \<Rightarrow> (string + bool)"
  pe_connect :: "string option"
  pe_inRecovery :: "string + bool"
  pe_promote :: "string option"
  pe_gone :: "bool list"
  pe_out :: "(string + bool) list"
  pe_checkpoint :: "string option"
  pe_slot :: "string \<Rightarrow> string option"
  pe_write :: "nat \<Rightarrow> bool \<times> string option"
  pe_reload :: "nat \<Rightarrow> string option"
  pe_terminate :: "string + nat"
  pe_observe :: "string + observed_primary"
  pe_publish :: "string option"
  pe_hash :: "string list \<Rightarrow> string"

datatype promotion_event =
    EpochAnnounced int
  | InstanceRead instance_object
  | QuorumPassed evidence "string list" time
  | PromotionAsked
  | Checkpointed
  | SlotEnsured string
  | Wrote agent_config replication_config
  | Reloaded
  | Terminated
  | RoleClaimed string int observed_primary

record promotion_world =
  pw_lease :: lease_world
  pw_override :: "string option"
  pw_log :: "promotion_event list"

type_synonym 'a promotion = "promotion_world \<Rightarrow> (promotion_error + 'a) \<times> promotion_world"

definition pm_return :: "'a \<Rightarrow> 'a promotion" where
  "pm_return x = (\<lambda>w. (Inr x, w))"

definition pm_bind :: "'a promotion \<Rightarrow> ('a \<Rightarrow> 'b promotion) \<Rightarrow> 'b promotion" where
  "pm_bind m f = (\<lambda>w. case m w of (Inl e, w') \<Rightarrow> (Inl e, w') | (Inr x, w') \<Rightarrow> f x w')"

definition pm_then :: "unit promotion \<Rightarrow> 'b promotion \<Rightarrow> 'b promotion" where
  "pm_then m n = pm_bind m (\<lambda>_. n)"

definition event :: "promotion_event \<Rightarrow> unit promotion" where
  "event ev = (\<lambda>w. (Inr (), w\<lparr>pw_log := pw_log w @ [ev]\<rparr>))"

text \<open>A call that leaves an event when it succeeds.\<close>

definition call :: "string option \<Rightarrow> promotion_event \<Rightarrow> unit promotion" where
  "call err ev = (case err of Some e \<Rightarrow> (\<lambda>w. (Inl (CallFailed e), w)) | None \<Rightarrow> event ev)"

definition ask :: "string + 'a \<Rightarrow> 'a promotion" where
  "ask r = (\<lambda>w. (case r of Inl e \<Rightarrow> Inl (CallFailed e) | Inr x \<Rightarrow> Inr x, w))"

section \<open>The steps\<close>

definition LeaseConfigOf :: "agent_config \<Rightarrow> lease_config" where
  "LeaseConfigOf config =
     (let pick = (\<lambda>f. if f (ag_Lease config) > 0 then f (ag_Lease config) else f DefaultLeaseConfig) in
      \<lparr>lc_LeaseDuration = pick lc_LeaseDuration, lc_RenewDeadline = pick lc_RenewDeadline,
       lc_RetryPeriod = pick lc_RetryPeriod, lc_ReleasedLeaseDuration = pick lc_ReleasedLeaseDuration\<rparr>)"

definition LeaseManagerFor :: "options \<Rightarrow> lease_manager" where
  "LeaseManagerFor options = \<lparr>lm_Holder = op_Member options, lm_Config = LeaseConfigOf (op_Config options)\<rparr>"

definition acquire_lease :: "promotion_env \<Rightarrow> options \<Rightarrow> lease promotion" where
  "acquire_lease env options w =
     (case Acquire (LeaseManagerFor options) (pe_waits env) (pw_lease w) of
        (r, lease) \<Rightarrow> (case r of Inl e \<Rightarrow> Inl (LeaseRefused e) | Inr l \<Rightarrow> Inr l, w\<lparr>pw_lease := lease\<rparr>))"

definition reReadInstance :: "promotion_env \<Rightarrow> options \<Rightarrow> instance_object promotion" where
  "reReadInstance env options =
     pm_bind (ask (pe_instance env)) (\<lambda>inst.
       if io_TargetPrimary inst \<noteq> op_Member options
       then (\<lambda>w. (Inl (Withdrawn (io_TargetPrimary inst)), w))
       else pm_then (event (InstanceRead inst)) (pm_return inst))"

fun surveyReachable :: "promotion_env \<Rightarrow> options \<Rightarrow> string list \<Rightarrow> string list" where
  "surveyReachable env options [] = []"
| "surveyReachable env options (voter # voters) =
     (if voter = op_Member options \<or> pe_report env voter = Inr True
      then voter # surveyReachable env options voters
      else surveyReachable env options voters)"

definition verifyQuorum :: "promotion_env \<Rightarrow> options \<Rightarrow> instance_object \<Rightarrow> unit promotion" where
  "verifyQuorum env options inst =
     (if \<not> FailoverQuorumEnabled (io_HighAvailability inst) then pm_return ()
      else
        let evidence = EvidenceFrom (io_QuorumEvidence inst);
            reference = (case io_CurrentPrimaryFailingSince inst of None \<Rightarrow> pe_now env | Some t \<Rightarrow> t);
            survey = surveyReachable env options (ev_VotingMembers evidence);
            verdict = EvaluateQuorum evidence survey reference in
        if \<not> qv_Satisfied verdict then (\<lambda>w. (Inl (ErrQuorumDenied (qv_Reason verdict)), w))
        else event (QuorumPassed evidence survey reference))"

fun await_gone :: "bool list \<Rightarrow> unit promotion" where
  "await_gone [] w = (Inl (CallFailed ''standby.signal still exists''), w)"
| "await_gone (gone # polls) w = (if gone then (Inr (), w) else await_gone polls w)"

definition promoteLocal :: "promotion_env \<Rightarrow> unit promotion" where
  "promoteLocal env =
     pm_then (event PromotionAsked) (
     pm_then (ask (case pe_promote env of None \<Rightarrow> Inr () | Some e \<Rightarrow> Inl e)) (await_gone (pe_gone env)))"

fun awaitOutOfRecovery :: "(string + bool) list \<Rightarrow> unit promotion" where
  "awaitOutOfRecovery [] w = (Inl (CallFailed ''pg_is_in_recovery() was still true''), w)"
| "awaitOutOfRecovery (reply # polls) w = (if reply = Inr False then (Inr (), w) else awaitOutOfRecovery polls w)"

definition leave_recovery :: "promotion_env \<Rightarrow> unit promotion" where
  "leave_recovery env =
     pm_bind (ask (pe_inRecovery env)) (\<lambda>inRecovery.
       if inRecovery then pm_then (promoteLocal env) (awaitOutOfRecovery (pe_out env)) else pm_return ())"

definition promotionStandbys :: "options \<Rightarrow> instance_object \<Rightarrow> string list" where
  "promotionStandbys options inst =
     (let replicas = (if ag_Replicas (op_Config options) \<le> 0 then 3 else ag_Replicas (op_Config options)) in
      sort (filter (\<lambda>m. m \<noteq> op_Member options) (member_names (io_Name inst) replicas)))"

fun ensureReplicationSlots :: "promotion_env \<Rightarrow> string list \<Rightarrow> unit promotion" where
  "ensureReplicationSlots env [] = pm_return ()"
| "ensureReplicationSlots env (standby # standbys) =
     pm_then (call (pe_slot env (ReplicationSlotName standby)) (SlotEnsured (ReplicationSlotName standby)))
       (ensureReplicationSlots env standbys)"

text \<open>\<open>WriteConfig\<close>: the files are replaced one by one, so a failure may leave the new override file.\<close>

definition write_config :: "promotion_env \<Rightarrow> nat \<Rightarrow> options \<Rightarrow> agent_config \<Rightarrow> replication_config \<Rightarrow> unit promotion" where
  "write_config env i options config replication w =
     (let file = map_of (config_files (pe_hash env) config (op_Member options) replication None) OverrideConfFile in
      case pe_write env i of
        (landed, None) \<Rightarrow> (Inr (), w\<lparr>pw_override := file, pw_log := pw_log w @ [Wrote config replication]\<rparr>)
      | (landed, Some e) \<Rightarrow> (Inl (CallFailed e), if landed then w\<lparr>pw_override := file\<rparr> else w))"

definition writeSyncStandbyNames :: "promotion_env \<Rightarrow> options \<Rightarrow> string \<Rightarrow> unit promotion" where
  "writeSyncStandbyNames env options clause w =
     (let replication = (CurrentReplicationConfig (pw_override w))
            \<lparr>rc_Standby := False, rc_PrimaryConnInfo := [], rc_PrimarySlotName := [],
             rc_SynchronizedStandbySlots := [], rc_SynchronousStandbyNames := clause\<rparr> in
      pm_then (write_config env 0 options (op_Config options) replication) (call (pe_reload env 0) Reloaded) w)"

definition with_epoch :: "agent_config \<Rightarrow> int \<Rightarrow> agent_config" where
  "with_epoch config epoch = config\<lparr>ag_Postgres := (ag_Postgres config)\<lparr>ic_PrimaryEpoch := epoch\<rparr>\<rparr>"

definition publishEpoch :: "promotion_env \<Rightarrow> options \<Rightarrow> int \<Rightarrow> unit promotion" where
  "publishEpoch env options epoch w =
     pm_then (write_config env 1 options (with_epoch (op_Config options) epoch) (CurrentReplicationConfig (pw_override w)))
       (call (pe_reload env 1) Reloaded) w"

record promotion_result =
  pr_Epoch :: int
  pr_SynchronousStandbyNames :: string
  pr_Timeline :: int
  pr_PromoteLSN :: string

definition claim_role :: "promotion_env \<Rightarrow> options \<Rightarrow> int \<Rightarrow> string \<Rightarrow> promotion_result promotion" where
  "claim_role env options epoch clause =
     pm_bind (ask (pe_terminate env)) (\<lambda>_.
     pm_then (event Terminated) (
     pm_bind (ask (pe_observe env)) (\<lambda>observation.
     pm_then (event (RoleClaimed (op_Member options) epoch observation)) (
     pm_then (ask (case pe_publish env of None \<Rightarrow> Inr () | Some e \<Rightarrow> Inl e)) (
     pm_return \<lparr>pr_Epoch = epoch, pr_SynchronousStandbyNames = clause, pr_Timeline = ob_Timeline observation,
       pr_PromoteLSN = ob_LSN observation\<rparr>)))))"

definition after_recovery :: "promotion_env \<Rightarrow> options \<Rightarrow> instance_object \<Rightarrow> int \<Rightarrow> promotion_result promotion" where
  "after_recovery env options inst epoch =
     pm_then (call (pe_checkpoint env) Checkpointed) (
       let standbys = promotionStandbys options inst;
           clause = SynchronousStandbyNames (ag_Quorum (op_Config options)) standbys in
       pm_then (ensureReplicationSlots env standbys) (
       pm_then (writeSyncStandbyNames env options clause) (
       pm_then (publishEpoch env options epoch) (
       claim_role env options epoch clause))))"

definition Promote :: "promotion_env \<Rightarrow> options \<Rightarrow> promotion_result promotion" where
  "Promote env options =
     pm_bind (acquire_lease env options) (\<lambda>held.
       let epoch = Epoch InitialPrimaryEpoch (LeaderTransitions held) in
       pm_then (event (EpochAnnounced epoch)) (
       pm_bind (reReadInstance env options) (\<lambda>inst.
       pm_then (verifyQuorum env options inst) (
       pm_then (ask (case pe_connect env of None \<Rightarrow> Inr () | Some e \<Rightarrow> Inl e)) (
       pm_then (leave_recovery env) (
       after_recovery env options inst epoch))))))"

section \<open>Runs\<close>

lemma pm_bindE:
  assumes "pm_bind m f w = (r, w')"
  obtains (failed) e where "m w = (Inl e, w')" "r = Inl e" | (went_on) x w1 where "m w = (Inr x, w1)" "f x w1 = (r, w')"
  using assms by (auto simp: pm_bind_def split: prod.splits sum.splits)

lemma pm_thenE:
  assumes "pm_then m n w = (r, w')"
  obtains (failed) e where "m w = (Inl e, w')" "r = Inl e" | (went_on) w1 where "m w = (Inr (), w1)" "n w1 = (r, w')"
  using assms unfolding pm_then_def by (elim pm_bindE) auto

definition logged :: "promotion_event list \<Rightarrow> promotion_world \<Rightarrow> promotion_world" where
  "logged evs w = w\<lparr>pw_log := pw_log w @ evs\<rparr>"

lemma logged_simps [simp]:
  "logged [] w = w" "logged b (logged a w) = logged (a @ b) w" "pw_log (logged evs w) = pw_log w @ evs"
  "pw_lease (logged evs w) = pw_lease w" "pw_override (logged evs w) = pw_override w"
  by (simp_all add: logged_def)

lemma event_run [simp]: "event ev w = (r, w') \<longleftrightarrow> r = Inr () \<and> w' = logged [ev] w"
  by (auto simp: event_def logged_def)

lemma event_eq: "event ev w = (Inr (), logged [ev] w)"
  by simp

lemma call_run: "call err ev w = (r, w') \<longleftrightarrow>
  (case err of Some e \<Rightarrow> r = Inl (CallFailed e) \<and> w' = w | None \<Rightarrow> r = Inr () \<and> w' = logged [ev] w)"
  by (auto simp: call_def split: option.splits)

lemma ask_run: "ask a w = (r, w') \<longleftrightarrow> (case a of Inl e \<Rightarrow> r = Inl (CallFailed e) | Inr x \<Rightarrow> r = Inr x) \<and> w' = w"
  by (auto simp: ask_def split: sum.splits)

lemma pm_return_run [simp]: "pm_return x w = (r, w') \<longleftrightarrow> r = Inr x \<and> w' = w"
  by (auto simp: pm_return_def)

lemma ensure_slots_run:
  assumes "ensureReplicationSlots env ss w = (r, w')"
  shows "\<exists>k. w' = logged (map (SlotEnsured \<circ> ReplicationSlotName) (take k ss)) w \<and> (r = Inr () \<longrightarrow> take k ss = ss)"
  using assms
proof (induction ss arbitrary: w)
  case (Cons s ss)
  from Cons.prems show ?case
    unfolding ensureReplicationSlots.simps
  proof (cases rule: pm_thenE)
    case (failed e)
    then show ?thesis by (intro exI [of _ 0]) (auto simp: call_run split: option.splits)
  next
    case (went_on w1)
    then have w1: "w1 = logged [SlotEnsured (ReplicationSlotName s)] w" by (auto simp: call_run split: option.splits)
    obtain k where "w' = logged (map (SlotEnsured \<circ> ReplicationSlotName) (take k ss)) w1" "r = Inr () \<longrightarrow> take k ss = ss"
      using Cons.IH [OF went_on(2)] by blast
    then show ?thesis by (intro exI [of _ "Suc k"]) (simp add: w1)
  qed
qed simp

lemma await_gone_run: "await_gone polls w = (r, w') \<Longrightarrow> w' = w"
  by (induction polls) (auto split: if_splits)

lemma await_recovery_run: "awaitOutOfRecovery polls w = (r, w') \<Longrightarrow> w' = w"
  by (induction polls) (auto split: if_splits)

lemma leave_recovery_run:
  assumes "leave_recovery env w = (r, w')"
  shows "w' = w \<and> (r = Inr () \<longrightarrow> pe_inRecovery env = Inr False) \<or> w' = logged [PromotionAsked] w \<and> pe_inRecovery env = Inr True"
  using assms unfolding leave_recovery_def promoteLocal_def
  by (auto elim!: pm_bindE pm_thenE simp: ask_run split: sum.splits option.splits if_splits
      dest!: await_gone_run await_recovery_run)

text \<open>Writing the configuration changes the override file and leaves one event, or fails without one.\<close>

definition overridden :: "string option \<Rightarrow> promotion_world \<Rightarrow> promotion_world" where
  "overridden file w = w\<lparr>pw_override := file\<rparr>"

lemma overridden_simps [simp]:
  "pw_log (overridden file w) = pw_log w" "pw_lease (overridden file w) = pw_lease w" "pw_override (overridden file w) = file"
  "overridden f' (overridden f w) = overridden f' w" "overridden file (logged evs w) = logged evs (overridden file w)"
  by (simp_all add: overridden_def logged_def)

definition override_of :: "promotion_env \<Rightarrow> options \<Rightarrow> agent_config \<Rightarrow> replication_config \<Rightarrow> string option" where
  "override_of env options config r = map_of (config_files (pe_hash env) config (op_Member options) r None) OverrideConfFile"

lemma overridden_same: "w = overridden (pw_override w) w"
  by (simp add: overridden_def)

lemma write_config_run:
  assumes "write_config env i options config r w = (a, w')"
  shows "a = Inr () \<and> w' = logged [Wrote config r] (overridden (override_of env options config r) w) \<or>
    (\<exists>e f. a = Inl e \<and> w' = overridden f w)"
proof -
  obtain landed err where p: "pe_write env i = (landed, err)" by (cases "pe_write env i")
  show ?thesis
  proof (cases err)
    case None
    then show ?thesis using assms by (auto simp: write_config_def Let_def override_of_def overridden_def logged_def p)
  next
    case (Some e)
    then have "a = Inl (CallFailed e)" "w' = overridden (if landed then override_of env options config r else pw_override w) w"
      using assms by (auto simp: write_config_def Let_def override_of_def overridden_def p split: if_splits)
    then show ?thesis by blast
  qed
qed

text \<open>A write that is followed by a reload.\<close>

lemma write_reload_run:
  assumes "pm_then (write_config env i options config r) (call (pe_reload env j) Reloaded) w = (a, w')"
  shows "a = Inr () \<and> w' = logged [Wrote config r, Reloaded] (overridden (override_of env options config r) w) \<or>
    (\<exists>e evs f. a = Inl e \<and> set evs \<subseteq> {Wrote config r} \<and> w' = logged evs (overridden f w))"
  using assms
proof (cases rule: pm_thenE)
  case (failed e)
  then obtain f where "w' = logged [] (overridden f w)" using write_config_run [OF failed(1)] by auto
  with failed(2) have "a = Inl e \<and> set [] \<subseteq> {Wrote config r} \<and> w' = logged [] (overridden f w)" by simp
  then show ?thesis by blast
next
  case (went_on w1)
  then have w1: "w1 = logged [Wrote config r] (overridden (override_of env options config r) w)"
    using write_config_run [OF went_on(1)] by auto
  show ?thesis
  proof (cases "pe_reload env j")
    case None
    then show ?thesis using went_on(2) by (simp add: call_run w1)
  next
    case (Some e)
    then have "a = Inl (CallFailed e) \<and> set [Wrote config r] \<subseteq> {Wrote config r} \<and>
      w' = logged [Wrote config r] (overridden (override_of env options config r) w)"
      using went_on(2) by (simp add: call_run w1)
    then show ?thesis by blast
  qed
qed

definition new_replication :: "string option \<Rightarrow> string \<Rightarrow> replication_config" where
  "new_replication override clause = (CurrentReplicationConfig override)
     \<lparr>rc_Standby := False, rc_PrimaryConnInfo := [], rc_PrimarySlotName := [],
      rc_SynchronizedStandbySlots := [], rc_SynchronousStandbyNames := clause\<rparr>"

lemmas sync_names_run = write_reload_run [where i = 0 and j = 0]
lemmas epoch_run = write_reload_run [where i = 1 and j = 1]

text \<open>The end of the sequence: either nobody is told, or the claim is the last event.\<close>

lemma claim_role_run:
  assumes "claim_role env options epoch clause w = (r, w')"
  shows "(\<exists>e evs. r = Inl e \<and> set evs \<subseteq> {Terminated} \<and> w' = logged evs w) \<or>
    (\<exists>ob. w' = logged [Terminated, RoleClaimed (op_Member options) epoch ob] w \<and> pe_observe env = Inr ob)"
proof -
  have none: "\<exists>evs. set evs \<subseteq> {Terminated} \<and> w = logged evs w" by (intro exI [of _ "[]"]) simp
  have one: "\<exists>evs. set evs \<subseteq> {Terminated} \<and> logged [Terminated] w = logged evs w" by (intro exI [of _ "[Terminated]"]) simp
  show ?thesis
    using assms none one unfolding claim_role_def
    by (elim pm_bindE pm_thenE) (auto simp: ask_run split: sum.splits option.splits)
qed

text \<open>The events that matter to the guards: the request to leave recovery, and the claim of the role.\<close>

definition decisive :: "promotion_event \<Rightarrow> bool" where
  "decisive ev \<longleftrightarrow> ev = PromotionAsked \<or> (\<exists>m e ob. ev = RoleClaimed m e ob)"

text \<open>The clause of the new topology, the settings around it, and the files of the two writes.\<close>

definition new_clause :: "options \<Rightarrow> instance_object \<Rightarrow> string" where
  "new_clause options inst = SynchronousStandbyNames (ag_Quorum (op_Config options)) (promotionStandbys options inst)"

definition first_write :: "options \<Rightarrow> instance_object \<Rightarrow> string option \<Rightarrow> replication_config" where
  "first_write options inst override = new_replication override (new_clause options inst)"

definition second_write :: "promotion_env \<Rightarrow> options \<Rightarrow> instance_object \<Rightarrow> string option \<Rightarrow> replication_config" where
  "second_write env options inst override =
     CurrentReplicationConfig (override_of env options (op_Config options) (first_write options inst override))"

definition closing_events ::
  "promotion_env \<Rightarrow> options \<Rightarrow> instance_object \<Rightarrow> string option \<Rightarrow> int \<Rightarrow> observed_primary \<Rightarrow> promotion_event list" where
  "closing_events env options inst override epoch ob =
     [Checkpointed] @ map (SlotEnsured \<circ> ReplicationSlotName) (promotionStandbys options inst) @
     [Wrote (op_Config options) (first_write options inst override), Reloaded,
      Wrote (with_epoch (op_Config options) epoch) (second_write env options inst override), Reloaded,
      Terminated, RoleClaimed (op_Member options) epoch ob]"

definition silent_end :: "promotion_world \<Rightarrow> promotion_world \<Rightarrow> bool" where
  "silent_end w w' \<longleftrightarrow> (\<exists>evs f. w' = logged evs (overridden f w) \<and> (\<forall>ev \<in> set evs. \<not> decisive ev))"

lemma silent_endI: "\<forall>ev \<in> set evs. \<not> decisive ev \<Longrightarrow> silent_end w (logged evs (overridden f w))"
  by (auto simp: silent_end_def)

lemma silent_end_logged: "\<forall>ev \<in> set evs. \<not> decisive ev \<Longrightarrow> silent_end w (logged evs w)"
  using silent_endI [of evs w "pw_override w"] overridden_same [of w] by simp

lemma silent_end_after:
  assumes "silent_end (logged evs (overridden f w)) w'" "\<forall>ev \<in> set evs. \<not> decisive ev"
  shows "silent_end w w'"
proof -
  obtain evs' f' where "w' = logged evs' (overridden f' (logged evs (overridden f w)))" "\<forall>ev \<in> set evs'. \<not> decisive ev"
    using assms(1) by (auto simp: silent_end_def)
  then have "w' = logged (evs @ evs') (overridden f' w)" by simp
  then show ?thesis using silent_endI [of "evs @ evs'" w f'] assms(2) \<open>\<forall>ev \<in> set evs'. \<not> decisive ev\<close> by auto
qed

lemma not_decisive [simp]:
  "\<not> decisive Checkpointed" "\<not> decisive (SlotEnsured s)" "\<not> decisive (Wrote c r)" "\<not> decisive Reloaded" "\<not> decisive Terminated"
  "\<not> decisive (EpochAnnounced e)" "\<not> decisive (InstanceRead i)" "\<not> decisive (QuorumPassed ev survey t)"
  by (simp_all add: decisive_def)

lemma silent_end_wrote: "set evs \<subseteq> {Wrote c r} \<Longrightarrow> silent_end w (logged evs (overridden f w))"
  by (rule silent_endI) auto

lemma epoch_and_claim_run:
  assumes "pm_then (publishEpoch env options epoch) (claim_role env options epoch clause) w = (r, w')"
  defines "config \<equiv> with_epoch (op_Config options) epoch" and "rc \<equiv> CurrentReplicationConfig (pw_override w)"
  shows "(\<exists>e. r = Inl e) \<and> silent_end w w' \<or>
    (\<exists>ob. w' = logged [Wrote config rc, Reloaded, Terminated, RoleClaimed (op_Member options) epoch ob]
      (overridden (override_of env options config rc) w) \<and> pe_observe env = Inr ob)"
  using assms(1)
proof (cases rule: pm_thenE)
  case (failed e)
  then obtain evs f where "set evs \<subseteq> {Wrote config rc}" "w' = logged evs (overridden f w)"
    using epoch_run [OF failed(1) [unfolded publishEpoch_def]] by (auto simp: config_def rc_def)
  then show ?thesis using failed(2) silent_end_wrote by blast
next
  case (went_on w1)
  then have w1: "w1 = logged [Wrote config rc, Reloaded] (overridden (override_of env options config rc) w)"
    using epoch_run [OF went_on(1) [unfolded publishEpoch_def]] by (auto simp: config_def rc_def)
  from claim_role_run [OF went_on(2)] show ?thesis
  proof
    assume "\<exists>e evs. r = Inl e \<and> set evs \<subseteq> {Terminated} \<and> w' = logged evs w1"
    then obtain e evs where quiet: "r = Inl e" "set evs \<subseteq> {Terminated}" "w' = logged evs w1" by blast
    then have "\<forall>ev \<in> set ([Wrote config rc, Reloaded] @ evs). \<not> decisive ev" by auto
    from silent_endI [OF this] show ?thesis using quiet by (auto simp: w1)
  qed (auto simp: w1)
qed

lemma write_and_claim_run:
  assumes "pm_then (writeSyncStandbyNames env options clause) (pm_then (publishEpoch env options epoch) (claim_role env options epoch clause)) w = (r, w')"
  defines "r1 \<equiv> new_replication (pw_override w) clause"
  defines "r2 \<equiv> CurrentReplicationConfig (override_of env options (op_Config options) r1)" and "config \<equiv> with_epoch (op_Config options) epoch"
  shows "(\<exists>e. r = Inl e) \<and> silent_end w w' \<or>
    (\<exists>ob. w' = logged [Wrote (op_Config options) r1, Reloaded, Wrote config r2, Reloaded, Terminated,
        RoleClaimed (op_Member options) epoch ob] (overridden (override_of env options config r2) w) \<and> pe_observe env = Inr ob)"
  using assms(1)
proof (cases rule: pm_thenE)
  case (failed e)
  then obtain evs f where "set evs \<subseteq> {Wrote (op_Config options) r1}" "w' = logged evs (overridden f w)"
    using sync_names_run [OF failed(1) [unfolded writeSyncStandbyNames_def Let_def]] by (auto simp: r1_def new_replication_def)
  then show ?thesis using failed(2) silent_end_wrote by blast
next
  case (went_on w1)
  then have w1: "w1 = logged [Wrote (op_Config options) r1, Reloaded] (overridden (override_of env options (op_Config options) r1) w)"
    using sync_names_run [OF went_on(1) [unfolded writeSyncStandbyNames_def Let_def]] by (auto simp: r1_def new_replication_def)
  then have "silent_end w w'" if "silent_end w1 w'" using that silent_end_after by auto
  with epoch_and_claim_run [OF went_on(2)] show ?thesis by (auto simp: w1 r2_def config_def)
qed

lemma after_recovery_run:
  assumes "after_recovery env options inst epoch w = (r, w')"
  shows "(\<exists>e. r = Inl e) \<and> silent_end w w' \<or>
    (\<exists>ob. w' = logged (closing_events env options inst (pw_override w) epoch ob)
      (overridden (override_of env options (with_epoch (op_Config options) epoch) (second_write env options inst (pw_override w))) w) \<and>
      pe_observe env = Inr ob)"
  using assms unfolding after_recovery_def Let_def
proof (cases rule: pm_thenE)
  case (failed e)
  then have "w' = logged [] w" by (auto simp: call_run split: option.splits)
  then show ?thesis using failed(2) silent_end_logged [of "[]" w] by simp
next
  case (went_on w1)
  then have w1: "w1 = logged [Checkpointed] w" by (auto simp: call_run split: option.splits)
  from went_on(2) show ?thesis
  proof (cases rule: pm_thenE)
    case (failed e)
    obtain k where "w' = logged (Checkpointed # map (SlotEnsured \<circ> ReplicationSlotName) (take k (promotionStandbys options inst))) w"
      using ensure_slots_run [OF failed(1)] by (auto simp: w1)
    then show ?thesis using failed(2) silent_end_logged by auto
  next
    case slots: (went_on w2)
    have w2: "w2 = logged (Checkpointed # map (SlotEnsured \<circ> ReplicationSlotName) (promotionStandbys options inst)) w"
      using ensure_slots_run [OF slots(1)] by (auto simp: w1)
    then have "silent_end w w'" if "silent_end w2 w'"
      using that silent_end_after [of _ "pw_override w" w w'] overridden_same [of w] by auto
    with write_and_claim_run [OF slots(2)] show ?thesis
      by (auto simp: w2 closing_events_def first_write_def second_write_def new_clause_def)
  qed
qed

definition quorum_reference :: "promotion_env \<Rightarrow> instance_object \<Rightarrow> time" where
  "quorum_reference env inst = (case io_CurrentPrimaryFailingSince inst of None \<Rightarrow> pe_now env | Some t \<Rightarrow> t)"

definition quorum_survey :: "promotion_env \<Rightarrow> options \<Rightarrow> instance_object \<Rightarrow> string list" where
  "quorum_survey env options inst = surveyReachable env options (ev_VotingMembers (EvidenceFrom (io_QuorumEvidence inst)))"

definition gate_events :: "promotion_env \<Rightarrow> options \<Rightarrow> instance_object \<Rightarrow> promotion_event list" where
  "gate_events env options inst =
     (if FailoverQuorumEnabled (io_HighAvailability inst)
      then [QuorumPassed (EvidenceFrom (io_QuorumEvidence inst)) (quorum_survey env options inst) (quorum_reference env inst)]
      else [])"

text \<open>What has to hold before a member may leave recovery or claim the role.\<close>

definition cleared :: "promotion_env \<Rightarrow> options \<Rightarrow> instance_object \<Rightarrow> bool" where
  "cleared env options inst \<longleftrightarrow>
     pe_instance env = Inr inst \<and> io_TargetPrimary inst = op_Member options \<and>
     (FailoverQuorumEnabled (io_HighAvailability inst) \<longrightarrow>
        qv_Satisfied (EvaluateQuorum (EvidenceFrom (io_QuorumEvidence inst)) (quorum_survey env options inst) (quorum_reference env inst)))"

lemma verifyQuorum_run:
  assumes "verifyQuorum env options inst w = (r, w')"
  shows "(\<exists>e. r = Inl e) \<and> w' = w \<or>
    r = Inr () \<and> w' = logged (gate_events env options inst) w \<and>
    (FailoverQuorumEnabled (io_HighAvailability inst) \<longrightarrow>
       qv_Satisfied (EvaluateQuorum (EvidenceFrom (io_QuorumEvidence inst)) (quorum_survey env options inst) (quorum_reference env inst)))"
  using assms
  by (auto simp: verifyQuorum_def gate_events_def quorum_survey_def quorum_reference_def Let_def split: if_splits)

lemma reReadInstance_run:
  assumes "reReadInstance env options w = (r, w')"
  shows "(\<exists>e. r = Inl e) \<and> w' = w \<or>
    (\<exists>inst. r = Inr inst \<and> w' = logged [InstanceRead inst] w \<and> pe_instance env = Inr inst \<and> io_TargetPrimary inst = op_Member options)"
  using assms unfolding reReadInstance_def
  by (auto elim!: pm_bindE pm_thenE simp: ask_run split: sum.splits if_splits)

definition opening_events :: "promotion_env \<Rightarrow> options \<Rightarrow> instance_object \<Rightarrow> int \<Rightarrow> promotion_event list" where
  "opening_events env options inst epoch =
     [EpochAnnounced epoch, InstanceRead inst] @ gate_events env options inst @
     (if pe_inRecovery env = Inr True then [PromotionAsked] else [])"

text \<open>
  A run that got past the guards: it opened with them, and it either failed before it told anybody or went
  through the whole sequence.
\<close>

definition guarded_run ::
  "promotion_env \<Rightarrow> options \<Rightarrow> instance_object \<Rightarrow> int \<Rightarrow> promotion_world \<Rightarrow> promotion_error + promotion_result \<Rightarrow> promotion_world \<Rightarrow> bool" where
  "guarded_run env options inst epoch w r w' \<longleftrightarrow>
     cleared env options inst \<and> pw_lease w' = pw_lease w \<and>
     ((\<exists>evs. pw_log w' = pw_log w @ opening_events env options inst epoch @ evs \<and> (\<forall>ev \<in> set evs. \<not> decisive ev) \<and> (\<exists>e. r = Inl e)) \<or>
      (\<exists>ob. pw_log w' = pw_log w @ opening_events env options inst epoch @ closing_events env options inst (pw_override w) epoch ob \<and>
         pe_observe env = Inr ob \<and>
         pw_override w' = override_of env options (with_epoch (op_Config options) epoch) (second_write env options inst (pw_override w))))"

lemma recovered_run:
  assumes "pm_then (leave_recovery env) (after_recovery env options inst epoch) w = (r, w')"
    and "w = logged ([EpochAnnounced epoch, InstanceRead inst] @ gate_events env options inst) w0" "cleared env options inst"
  shows "silent_end w0 w' \<and> (\<exists>e. r = Inl e) \<or> guarded_run env options inst epoch w0 r w'"
proof -
  let ?pre = "[EpochAnnounced epoch, InstanceRead inst] @ gate_events env options inst"
  have quiet: "\<forall>ev \<in> set ?pre. \<not> decisive ev" by (auto simp: gate_events_def)
  from assms(1) show ?thesis
  proof (cases rule: pm_thenE)
    case (failed e)
    from leave_recovery_run [OF failed(1)] show ?thesis
      using failed(2) silent_end_logged [OF quiet, of w0] assms(3)
      by (auto simp: assms(2) guarded_run_def opening_events_def)
  next
    case (went_on w1)
    then have w1: "w1 = logged (opening_events env options inst epoch) w0"
      using leave_recovery_run [OF went_on(1)] by (auto simp: assms(2) opening_events_def)
    from after_recovery_run [OF went_on(2)] show ?thesis
      using assms(3) by (auto simp: w1 guarded_run_def silent_end_def)
  qed
qed

lemma promotion_body_run:
  assumes "pm_then (event (EpochAnnounced epoch)) (
       pm_bind (reReadInstance env options) (\<lambda>inst.
       pm_then (verifyQuorum env options inst) (
       pm_then (ask (case pe_connect env of None \<Rightarrow> Inr () | Some e \<Rightarrow> Inl e)) (
       pm_then (leave_recovery env) (
       after_recovery env options inst epoch))))) w = (r, w')"
  shows "silent_end w w' \<and> (\<exists>e. r = Inl e) \<or> (\<exists>inst. guarded_run env options inst epoch w r w')"
proof -
  let ?rest = "\<lambda>inst. pm_then (verifyQuorum env options inst) (
       pm_then (ask (case pe_connect env of None \<Rightarrow> Inr () | Some e \<Rightarrow> Inl e)) (
       pm_then (leave_recovery env) (after_recovery env options inst epoch)))"
  have "pm_bind (reReadInstance env options) ?rest (logged [EpochAnnounced epoch] w) = (r, w')"
    using assms by (elim pm_thenE) simp_all
  then show ?thesis
  proof (cases rule: pm_bindE)
    case (failed e)
    then have "w' = logged [EpochAnnounced epoch] w" using reReadInstance_run [OF failed(1)] by auto
    then show ?thesis using failed(2) silent_end_logged [of "[EpochAnnounced epoch]" w] by simp
  next
    case (went_on inst w1)
    then have w1: "w1 = logged [EpochAnnounced epoch, InstanceRead inst] w" and named: "pe_instance env = Inr inst" "io_TargetPrimary inst = op_Member options"
      using reReadInstance_run [OF went_on(1)] by auto
    from went_on(2) show ?thesis
    proof (cases rule: pm_thenE)
      case (failed e)
      then have "w' = w1" using verifyQuorum_run [OF failed(1)] by auto
      then show ?thesis using failed(2) silent_end_logged [of "[EpochAnnounced epoch, InstanceRead inst]" w] by (simp add: w1)
    next
      case gate: (went_on w2)
      have w2: "w2 = logged ([EpochAnnounced epoch, InstanceRead inst] @ gate_events env options inst) w" and clear: "cleared env options inst"
        using verifyQuorum_run [OF gate(1)] named by (auto simp: w1 cleared_def)
      have "silent_end w w2" unfolding w2 by (rule silent_end_logged) (auto simp: gate_events_def)
      from gate(2) show ?thesis
      proof (cases rule: pm_thenE)
        case (failed e)
        then show ?thesis using \<open>silent_end w w2\<close> by (auto simp: ask_run)
      next
        case (went_on w3)
        then have "w3 = w2" by (simp add: ask_run)
        then show ?thesis using recovered_run [OF went_on(2) _ clear, of w] w2 by blast
      qed
    qed
  qed
qed

lemma Promote_guarded:
  assumes "Promote env options w = (r, w')" "pw_log w = []" "decisive ev" "ev \<in> set (pw_log w')"
  obtains held inst where "Acquire (LeaseManagerFor options) (pe_waits env) (pw_lease w) = (Inr held, pw_lease w')"
    "guarded_run env options inst (Epoch InitialPrimaryEpoch (LeaderTransitions held)) (w\<lparr>pw_lease := pw_lease w'\<rparr>) r w'"
  using assms(1) unfolding Promote_def Let_def
proof (cases rule: pm_bindE)
  case (failed e)
  then have "pw_log w' = []" using assms(2) by (auto simp: acquire_lease_def split: prod.splits sum.splits)
  then show ?thesis using assms(4) by simp
next
  case (went_on held w1)
  obtain lease where lease: "Acquire (LeaseManagerFor options) (pe_waits env) (pw_lease w) = (Inr held, lease)" "w1 = w\<lparr>pw_lease := lease\<rparr>"
    using went_on(1) by (auto simp: acquire_lease_def split: prod.splits sum.splits)
  from promotion_body_run [OF went_on(2)] show ?thesis
  proof
    assume "silent_end w1 w' \<and> (\<exists>e. r = Inl e)"
    then show ?thesis using assms(2-4) lease(2) by (auto simp: silent_end_def)
  next
    assume "\<exists>inst. guarded_run env options inst (Epoch InitialPrimaryEpoch (LeaderTransitions held)) w1 r w'"
    then show ?thesis using lease that by (auto simp: guarded_run_def)
  qed
qed

lemma set_surveyReachable:
  "set (surveyReachable env options voters) = {v \<in> set voters. v = op_Member options \<or> pe_report env v = Inr True}"
  by (induction voters) auto

lemma decisive_claims:
  assumes "guarded_run env options inst epoch w r w'" "pw_log w = []" "RoleClaimed m e ob \<in> set (pw_log w')"
  shows "m = op_Member options \<and> e = epoch \<and> pe_observe env = Inr ob \<and>
    pw_log w' = opening_events env options inst epoch @ closing_events env options inst (pw_override w) epoch ob \<and>
    pw_override w' = override_of env options (with_epoch (op_Config options) epoch) (second_write env options inst (pw_override w))"
proof -
  have "RoleClaimed m e ob \<notin> set (opening_events env options inst epoch)"
    by (auto simp: opening_events_def gate_events_def)
  moreover have "decisive (RoleClaimed m e ob)" by (simp add: decisive_def)
  ultimately obtain ob' where run: "pw_log w' = opening_events env options inst epoch @ closing_events env options inst (pw_override w) epoch ob'"
    "pe_observe env = Inr ob'"
    "pw_override w' = override_of env options (with_epoch (op_Config options) epoch) (second_write env options inst (pw_override w))"
    using assms unfolding guarded_run_def by auto
  then have "RoleClaimed m e ob \<in> set (closing_events env options inst (pw_override w) epoch ob')"
    using assms(3) \<open>RoleClaimed m e ob \<notin> set (opening_events env options inst epoch)\<close> by simp
  then have "m = op_Member options" "e = epoch" "ob = ob'" by (auto simp: closing_events_def)
  with run show ?thesis by simp
qed

section \<open>Properties\<close>


definition sample_options :: options where
  "sample_options = \<lparr>op_Config = sample_agent, op_Member = ''db-2'', op_Instance = ''db''\<rparr>"

definition sample_target :: instance_object where
  "sample_target = example_instance\<lparr>io_TargetPrimary := ''db-2'', io_HighAvailability := None,
     io_CurrentPrimaryFailingSince := Some (1100 * second),
     io_QuorumEvidence := Some (example_record\<lparr>qr_VotingMembers := [''db-2'', ''db-3'']\<rparr>)\<rparr>"

definition sample_promotion_env :: promotion_env where
  "sample_promotion_env =
     \<lparr>pe_waits = replicate 10 (2 * second), pe_instance = Inr sample_target, pe_now = 0, pe_report = (\<lambda>_. Inr True), pe_connect = None,
      pe_inRecovery = Inr True, pe_promote = None, pe_gone = [False, True], pe_out = [Inl ''starting'', Inr False],
      pe_checkpoint = None, pe_slot = (\<lambda>_. None), pe_write = (\<lambda>_. (True, None)), pe_reload = (\<lambda>_. None),
      pe_terminate = Inr 3,
      pe_observe = Inr \<lparr>ob_Timeline = 4, ob_LSN = ''0/5000000'', ob_SyncStandbyNames = [], ob_SyncStandbys = []\<rparr>,
      pe_publish = None, pe_hash = concat\<rparr>"

definition sample_promotion_world :: promotion_world where
  "sample_promotion_world =
     \<lparr>pw_lease = sample_lease_world (put (sample_lease ''db-1'' 6 0) empty_server), pw_override = None, pw_log = []\<rparr>"

lemma sample_promotion_orderly: "orderly (pw_lease sample_promotion_world)"
  by (simp add: sample_promotion_world_def orderly_def sample_lease_world_def)

lemma sample_lease_taken:
  "case Acquire (LeaseManagerFor sample_options) (pe_waits sample_promotion_env) (pw_lease sample_promotion_world) of
     (Inr held, _) \<Rightarrow> LeaderTransitions held = 7 | _ \<Rightarrow> False"
  by code_simp

lemma sample_gate_open:
  "qv_Satisfied (EvaluateQuorum (EvidenceFrom (io_QuorumEvidence sample_target)) [''db-2'', ''db-3''] (1100 * second))"
  by code_simp

lemma sample_env_simps:
  "pe_instance sample_promotion_env = Inr sample_target" "pe_report sample_promotion_env v = Inr True" "pe_connect sample_promotion_env = None"
  "pe_inRecovery sample_promotion_env = Inr True" "pe_promote sample_promotion_env = None" "pe_gone sample_promotion_env = [False, True]"
  "pe_out sample_promotion_env = [Inl ''starting'', Inr False]" "pe_checkpoint sample_promotion_env = None" "pe_slot sample_promotion_env s = None"
  "pe_write sample_promotion_env i = (True, None)" "pe_reload sample_promotion_env i = None" "pe_terminate sample_promotion_env = Inr 3"
  "pe_publish sample_promotion_env = None" "\<exists>ob. pe_observe sample_promotion_env = Inr ob" "op_Member sample_options = ''db-2''"
  by (simp_all add: sample_promotion_env_def sample_options_def)

lemma sample_target_simps:
  "io_TargetPrimary sample_target = ''db-2''" "FailoverQuorumEnabled (io_HighAvailability sample_target)"
  "io_CurrentPrimaryFailingSince sample_target = Some (1100 * second)"
  "ev_VotingMembers (EvidenceFrom (io_QuorumEvidence sample_target)) = [''db-2'', ''db-3'']"
  by (simp_all add: sample_target_def FailoverQuorumEnabled_def EvidenceFrom_def example_record_def)

lemmas sample_steps = pm_then_def pm_bind_def pm_return_def call_def ask_def event_eq sample_env_simps sample_target_simps

lemma sample_opening:
  "reReadInstance sample_promotion_env sample_options w = (Inr sample_target, logged [InstanceRead sample_target] w)"
  "verifyQuorum sample_promotion_env sample_options sample_target w =
     (Inr (), logged (gate_events sample_promotion_env sample_options sample_target) w)"
  "leave_recovery sample_promotion_env w = (Inr (), logged [PromotionAsked] w)"
  subgoal by (simp add: reReadInstance_def sample_steps)
  subgoal using sample_gate_open
    by (simp add: verifyQuorum_def gate_events_def quorum_survey_def quorum_reference_def sample_steps)
  subgoal by (simp add: leave_recovery_def promoteLocal_def sample_steps)
  done

lemma sample_slots:
  "ensureReplicationSlots sample_promotion_env ss w = (Inr (), logged (map (SlotEnsured \<circ> ReplicationSlotName) ss) w)"
  by (induction ss arbitrary: w) (simp_all add: sample_steps)

lemma sample_writes:
  "write_config sample_promotion_env i sample_options config rc w =
     (Inr (), logged [Wrote config rc] (overridden (override_of sample_promotion_env sample_options config rc) w))"
  by (simp add: write_config_def Let_def override_of_def overridden_def logged_def sample_env_simps)

lemma sample_closing:
  "\<exists>r w' ob. after_recovery sample_promotion_env sample_options sample_target 8 w = (Inr r, w') \<and>
     RoleClaimed ''db-2'' 8 ob \<in> set (pw_log w')"
proof -
  obtain ob where "pe_observe sample_promotion_env = Inr ob" using sample_env_simps by blast
  then show ?thesis
    by (simp add: after_recovery_def Let_def sample_slots writeSyncStandbyNames_def publishEpoch_def sample_writes claim_role_def sample_steps)
      blast
qed

lemma sample_promotion_run:
  "\<exists>r w' ob. Promote sample_promotion_env sample_options sample_promotion_world = (Inr r, w') \<and>
     RoleClaimed ''db-2'' 8 ob \<in> set (pw_log w')"
proof -
  obtain held lease where lease: "Acquire (LeaseManagerFor sample_options) (pe_waits sample_promotion_env) (pw_lease sample_promotion_world) = (Inr held, lease)"
    "LeaderTransitions held = 7" using sample_lease_taken by (auto split: prod.splits sum.splits)
  have "Epoch InitialPrimaryEpoch 7 = 8" by (simp add: Epoch_def InitialPrimaryEpoch_def wrap64_def)
  with lease sample_opening obtain w where
    "Promote sample_promotion_env sample_options sample_promotion_world = after_recovery sample_promotion_env sample_options sample_target 8 w"
    by (simp add: Promote_def acquire_lease_def pm_then_def pm_bind_def event_eq ask_def sample_env_simps)
  then show ?thesis using sample_closing [of w] by simp
qed

lemma sample_log: "pw_log sample_promotion_world = []"
  by (simp add: sample_promotion_world_def)


text \<open>Names that are not split over two lines give a clause that is not.\<close>

lemma newline_clause:
  assumes "\<forall>m \<in> set ms. newline \<notin> set m"
  shows "newline \<notin> set (SynchronousStandbyNames (any_of n) ms)"
proof -
  have joined: "newline \<notin> set (join_with CHR '','' ss)" if "\<forall>s \<in> set ss. newline \<notin> set s" for ss
    using that by (induction "CHR '',''" ss rule: join_with.induct) (auto simp: newline_def)
  have "newline \<notin> set (Itoa n)" using Itoa_graphic [of n] newline_not_graphic by blast
  moreover have "newline \<notin> set (join_with CHR '','' (map quoteIdentifier (sort ms)))"
    using assms by (intro joined) (auto simp: set_quoteIdentifier newline_def)
  ultimately show ?thesis by (auto simp: SynchronousStandbyNames_def any_of_def newline_def)
qed

lemma promotionStandbys_names:
  assumes "m \<in> set (promotionStandbys options inst)" "CHR '','' \<notin> set (io_Name inst)" "newline \<notin> set (io_Name inst)"
  shows "m \<noteq> [] \<and> CHR '','' \<notin> set m \<and> newline \<notin> set m"
proof -
  obtain replicas where m: "m \<in> set (member_names (io_Name inst) replicas)"
    using assms(1) by (auto simp: promotionStandbys_def Let_def)
  have "newline \<notin> set (Itoa k)" for k using Itoa_graphic [of k] newline_not_graphic by blast
  then show ?thesis
    using member_names_plain [OF assms(2) m] m assms(3) by (auto simp: member_names_def MemberName_def newline_def)
qed

text \<open>What the override file says after each of the two writes.\<close>

lemma written_settings:
  fixes options override
  defines "config \<equiv> op_Config options"
  assumes "newline \<notin> set (new_clause options inst)"
  shows "second_write env options inst override = (first_write options inst override)\<lparr>rc_RestoreCommand := restoreCommand config\<rparr>"
    and "CurrentReplicationConfig (override_of env options (with_epoch config epoch) (second_write env options inst override)) =
      second_write env options inst override"
proof -
  have reread: "CurrentReplicationConfig (override_of env options c r) = r\<lparr>rc_RestoreCommand := restoreCommand c\<rparr>"
    if "r = (first_write options inst override)\<lparr>rc_RestoreCommand := cmd\<rparr>" for r c cmd
  proof -
    have "newline \<notin> set (rc_PrimaryConnInfo r)" "newline \<notin> set (rc_PrimarySlotName r)"
      "newline \<notin> set (rc_SynchronousStandbyNames r)" "newline \<notin> set (rc_SynchronizedStandbySlots r)"
      using assms(2) by (simp_all add: that first_write_def new_replication_def)
    from replication_settings_survive [OF this]
    have "CurrentReplicationConfig (override_of env options c r) = r\<lparr>rc_Standby := False, rc_RestoreCommand := restoreCommand c\<rparr>"
      by (simp only: override_of_def)
    moreover have "r\<lparr>rc_Standby := False\<rparr> = r" by (simp add: that first_write_def new_replication_def)
    ultimately show ?thesis by simp
  qed
  have "(first_write options inst override)\<lparr>rc_RestoreCommand := rc_RestoreCommand (first_write options inst override)\<rparr> =
      first_write options inst override" by simp
  from reread [OF this [symmetric]]
  show second: "second_write env options inst override = (first_write options inst override)\<lparr>rc_RestoreCommand := restoreCommand config\<rparr>"
    by (simp only: second_write_def config_def)
  have "restoreCommand (with_epoch config epoch) = restoreCommand config" by (simp add: restoreCommand_def with_epoch_def)
  then show "CurrentReplicationConfig (override_of env options (with_epoch config epoch) (second_write env options inst override)) =
      second_write env options inst override"
    using reread [OF second] by (simp add: second)
qed

text \<open>
  C5. The role is claimed last. When a promotion sends its claim, it has first flushed a checkpoint, ensured a
  slot for every other member of the instance, written and loaded a configuration with the synchronous
  clause of the new topology, written and loaded the new token, and terminated the sessions that began
  before; nothing follows the claim. Both configurations it wrote, and the file left on disk, follow
  nobody and name exactly the other members, asking for the configured number of answers.
\<close>

theorem role_is_claimed_last:
  assumes "Promote env options w = (r, w')" "pw_log w = []" "RoleClaimed m e ob \<in> set (pw_log w')"
    and "pe_instance env = Inr inst" "CHR '','' \<notin> set (io_Name inst)" "newline \<notin> set (io_Name inst)"
    and "ag_Quorum (op_Config options) = any_of n" "in_int32 n" "promotionStandbys options inst \<noteq> []"
  shows "\<exists>guards rc1 rc2.
    pw_log w' = guards @ [Checkpointed] @ map (SlotEnsured \<circ> ReplicationSlotName) (promotionStandbys options inst) @
      [Wrote (op_Config options) rc1, Reloaded, Wrote (with_epoch (op_Config options) e) rc2, Reloaded,
       Terminated, RoleClaimed m e ob] \<and>
    CurrentReplicationConfig (pw_override w') = rc2 \<and>
    (\<forall>rc \<in> {rc1, rc2}. \<not> rc_Standby rc \<and> rc_PrimaryConnInfo rc = [] \<and> rc_PrimarySlotName rc = [] \<and>
       ParseSyncStandbyNames (rc_SynchronousStandbyNames rc) = (n, promotionStandbys options inst))"
proof -
  have "decisive (RoleClaimed m e ob)" by (simp add: decisive_def)
  then obtain held inst' where
    run: "guarded_run env options inst' (Epoch InitialPrimaryEpoch (LeaderTransitions held)) (w\<lparr>pw_lease := pw_lease w'\<rparr>) r w'"
    using Promote_guarded [OF assms(1,2) _ assms(3)] by blast
  have "inst' = inst" using run assms(4) by (simp add: guarded_run_def cleared_def)
  note claims = decisive_claims [OF run _ assms(3), unfolded \<open>inst' = inst\<close>]
  let ?first = "first_write options inst (pw_override w)" and ?second = "second_write env options inst (pw_override w)"
  let ?ms = "promotionStandbys options inst"
  have names: "\<forall>m \<in> set ?ms. m \<noteq> [] \<and> CHR '','' \<notin> set m" "\<forall>m \<in> set ?ms. newline \<notin> set m"
    using promotionStandbys_names [OF _ assms(5,6)] by blast+
  have "sort ?ms = ?ms" by (simp add: promotionStandbys_def Let_def sort_key_id_if_sorted)
  then have reads: "ParseSyncStandbyNames (new_clause options inst) = (n, ?ms)"
    using clause_reads_back [OF assms(8,9) names(1)] by (simp add: new_clause_def assms(7))
  have "newline \<notin> set (new_clause options inst)" using newline_clause [OF names(2)] by (simp add: new_clause_def assms(7))
  note written = written_settings [OF this]
  have "CurrentReplicationConfig (pw_override w') = ?second" using claims assms(2) written(2) by simp
  moreover have "pw_log w' = opening_events env options inst e @ [Checkpointed] @ map (SlotEnsured \<circ> ReplicationSlotName) ?ms @
      [Wrote (op_Config options) ?first, Reloaded, Wrote (with_epoch (op_Config options) e) ?second, Reloaded,
       Terminated, RoleClaimed m e ob]"
    using claims assms(2) by (simp add: closing_events_def)
  moreover have "\<forall>rc \<in> {?first, ?second}. \<not> rc_Standby rc \<and> rc_PrimaryConnInfo rc = [] \<and> rc_PrimarySlotName rc = [] \<and>
       ParseSyncStandbyNames (rc_SynchronousStandbyNames rc) = (n, ?ms)"
    using reads by (simp add: written(1)) (simp add: first_write_def new_replication_def)
  ultimately show ?thesis by blast
qed

lemma sample_name: "CHR '','' \<notin> set (io_Name sample_target)" "newline \<notin> set (io_Name sample_target)"
  by (simp_all add: sample_target_def example_instance_def newline_def)

lemma sample_standbys:
  "map ReplicationSlotName (promotionStandbys sample_options sample_target) = [''pgelastic_db_1'', ''pgelastic_db_3'']"
  by code_simp

theorem role_is_claimed_last_witness:
  "\<exists>guards rc1 rc2 ob. pw_log (snd (Promote sample_promotion_env sample_options sample_promotion_world)) =
     guards @ [Checkpointed, SlotEnsured ''pgelastic_db_1'', SlotEnsured ''pgelastic_db_3'', Wrote sample_agent rc1, Reloaded,
       Wrote (with_epoch sample_agent 8) rc2, Reloaded, Terminated, RoleClaimed ''db-2'' 8 ob]"
proof -
  obtain r w' ob where run: "Promote sample_promotion_env sample_options sample_promotion_world = (Inr r, w')"
    "RoleClaimed ''db-2'' 8 ob \<in> set (pw_log w')" using sample_promotion_run by blast
  note inst = sample_name sample_standbys
  have slots: "map (SlotEnsured \<circ> ReplicationSlotName) (promotionStandbys sample_options sample_target) =
      [SlotEnsured ''pgelastic_db_1'', SlotEnsured ''pgelastic_db_3'']"
    using inst(3) by (simp add: map_eq_Cons_conv)
  have "promotionStandbys sample_options sample_target \<noteq> []" using inst(3) by auto
  moreover have "ag_Quorum (op_Config sample_options) = any_of 1" "op_Config sample_options = sample_agent" by (code_simp, simp add: sample_options_def)
  ultimately show ?thesis
    using role_is_claimed_last [OF run(1) _ run(2) sample_env_simps(1) inst(1,2), of 1] slots
    by (auto simp: run(1) in_int32_def sample_log)
qed

end
