(* ===== verification/Migration_Phase.thy ===== *)
theory Migration_Phase
  imports Go_Prelude
begin

text \<open>
  The tenant migration state machine (\<open>internal/migration/phase.go\<close>): the phase orders of the two
  strategies, the guards in the order the source tests them, and the effects each decision calls for.
  The theorems say which instance the clients reach, that every departure from the happy path
  undoes what the migration did, and that a migration whose phases become ready completes.
\<close>

section \<open>Vocabulary\<close>

datatype migration_phase =
    TenantMigrationPhasePreflight
  | TenantMigrationPhaseProvisioning
  | TenantMigrationPhasePreWarm
  | TenantMigrationPhaseCopying
  | TenantMigrationPhaseCatchup
  | TenantMigrationPhaseQuiescing
  | TenantMigrationPhaseCutover
  | TenantMigrationPhaseCompleted
  | TenantMigrationPhaseFailed
  | TenantMigrationPhaseAborted
  | TenantMigrationPhaseRolledBack
  | UnknownPhase string

fun phase_string :: "migration_phase \<Rightarrow> string" where
  "phase_string TenantMigrationPhasePreflight = ''Preflight''"
| "phase_string TenantMigrationPhaseProvisioning = ''Provisioning''"
| "phase_string TenantMigrationPhasePreWarm = ''PreWarm''"
| "phase_string TenantMigrationPhaseCopying = ''Copying''"
| "phase_string TenantMigrationPhaseCatchup = ''Catchup''"
| "phase_string TenantMigrationPhaseQuiescing = ''Quiescing''"
| "phase_string TenantMigrationPhaseCutover = ''Cutover''"
| "phase_string TenantMigrationPhaseCompleted = ''Completed''"
| "phase_string TenantMigrationPhaseFailed = ''Failed''"
| "phase_string TenantMigrationPhaseAborted = ''Aborted''"
| "phase_string TenantMigrationPhaseRolledBack = ''RolledBack''"
| "phase_string (UnknownPhase s) = s"

datatype migration_strategy =
    TenantMigrationAuto
  | TenantMigrationOnline
  | TenantMigrationOffline

datatype serving = ServingSource | ServingTarget

datatype migration_reason =
    ReasonPreflightPassed
  | ReasonPreflightRefused
  | ReasonProgressing
  | ReasonWaiting
  | ReasonCutoverComplete
  | ReasonAbortRequested
  | ReasonFaulted
  | ReasonRetrying
  | ReasonDrainTimedOut
  | ReasonCutoverTimedOut
  | ReasonRolledBack
  | ReasonSourceRetained
  | ReasonSourceDropped
  | ReasonOnlineChosen
  | ReasonOfflineChosen
  | ReasonVerified
  | ReasonNotEquivalent
  | ReasonUnresolved
  | ReasonInvalidSpec

definition onlineOrder :: "migration_phase list" where
  "onlineOrder =
     [TenantMigrationPhasePreflight, TenantMigrationPhaseProvisioning, TenantMigrationPhasePreWarm,
      TenantMigrationPhaseCopying, TenantMigrationPhaseCatchup, TenantMigrationPhaseQuiescing,
      TenantMigrationPhaseCutover, TenantMigrationPhaseCompleted]"

definition offlineOrder :: "migration_phase list" where
  "offlineOrder =
     [TenantMigrationPhasePreflight, TenantMigrationPhaseProvisioning, TenantMigrationPhasePreWarm,
      TenantMigrationPhaseQuiescing, TenantMigrationPhaseCopying, TenantMigrationPhaseCutover,
      TenantMigrationPhaseCompleted]"

definition PhaseOrder :: "migration_strategy \<Rightarrow> migration_phase list" where
  "PhaseOrder strategy =
     (if strategy = TenantMigrationOffline then offlineOrder else onlineOrder)"

fun migration_Terminal :: "migration_phase \<Rightarrow> bool" where
  "migration_Terminal TenantMigrationPhaseCompleted = True"
| "migration_Terminal TenantMigrationPhaseFailed = True"
| "migration_Terminal TenantMigrationPhaseAborted = True"
| "migration_Terminal TenantMigrationPhaseRolledBack = True"
| "migration_Terminal _ = False"

text \<open>\<open>slices.Index\<close>: the first position, or -1.\<close>

fun slices_Index :: "'a list \<Rightarrow> 'a \<Rightarrow> int" where
  "slices_Index [] v = -1"
| "slices_Index (x # xs) v =
     (if x = v then 0 else let i = slices_Index xs v in if i < 0 then -1 else i + 1)"

definition Quiesced :: "migration_phase \<Rightarrow> migration_strategy \<Rightarrow> bool" where
  "Quiesced p strategy =
     (let order = PhaseOrder strategy;
          quiesceIndex = slices_Index order TenantMigrationPhaseQuiescing;
          index = slices_Index order p
      in index \<ge> quiesceIndex \<and> index < int (length order) - 1)"

section \<open>Observation and decision\<close>

record migration_observation =
  mo_Strategy :: migration_strategy
  mo_AbortRequested :: bool
  mo_AbortMessage :: string
  mo_RollbackRequested :: bool
  mo_Fault :: "string option"
  mo_FaultBudgetExceeded :: bool
  mo_PreflightPassed :: bool
  mo_Provisioned :: bool
  mo_PreWarmed :: bool
  mo_CopyComplete :: bool
  mo_CaughtUp :: bool
  mo_Drained :: bool
  mo_CutoverComplete :: bool
  mo_DrainDeadlineExceeded :: bool
  mo_CutoverDeadlineExceeded :: bool
  mo_RollbackWindowClosed :: bool
  mo_SourceDropped :: bool

record migration_decision =
  md_Phase :: migration_phase
  md_Reason :: migration_reason
  md_Message :: string
  md_Serving :: serving
  md_Cleanup :: bool
  md_ReleaseQuiesce :: bool
  md_DropSource :: bool
  md_Settled :: bool
  md_DiscardTarget :: bool

text \<open>A composite literal with every flag at its zero value.\<close>

definition MigrationDecision ::
  "migration_phase \<Rightarrow> serving \<Rightarrow> migration_reason \<Rightarrow> string \<Rightarrow> migration_decision" where
  "MigrationDecision p s r msg =
     \<lparr>md_Phase = p, md_Reason = r, md_Message = msg, md_Serving = s, md_Cleanup = False,
      md_ReleaseQuiesce = False, md_DropSource = False, md_Settled = False, md_DiscardTarget = False\<rparr>"

definition orDefault :: "string \<Rightarrow> string \<Rightarrow> string" where
  "orDefault v fallback = (if v = [] then fallback else v)"

fun reasonFor :: "migration_phase \<Rightarrow> migration_reason" where
  "reasonFor TenantMigrationPhaseAborted = ReasonAbortRequested"
| "reasonFor TenantMigrationPhaseRolledBack = ReasonRolledBack"
| "reasonFor _ = ReasonFaulted"

definition nextPhase :: "migration_phase \<Rightarrow> migration_strategy \<Rightarrow> migration_phase" where
  "nextPhase current strategy =
     (let order = PhaseOrder strategy;
          index = slices_Index order current
      in if index < 0 \<or> index + 1 \<ge> int (length order) then current
         else order ! nat (index + 1))"

fun ready :: "migration_phase \<Rightarrow> migration_observation \<Rightarrow> bool" where
  "ready TenantMigrationPhasePreflight obs = mo_PreflightPassed obs"
| "ready TenantMigrationPhaseProvisioning obs = mo_Provisioned obs"
| "ready TenantMigrationPhasePreWarm obs = mo_PreWarmed obs"
| "ready TenantMigrationPhaseCopying obs = mo_CopyComplete obs"
| "ready TenantMigrationPhaseCatchup obs = mo_CaughtUp obs"
| "ready TenantMigrationPhaseQuiescing obs = mo_Drained obs"
| "ready TenantMigrationPhaseCutover obs = mo_CutoverComplete obs"
| "ready _ obs = False"

definition abort ::
  "migration_phase \<Rightarrow> migration_reason \<Rightarrow> string \<Rightarrow> migration_phase \<Rightarrow> migration_observation \<Rightarrow>
   migration_decision" where
  "abort p reason message from obs =
     (MigrationDecision p ServingSource reason message)
       \<lparr>md_Cleanup := True, md_DiscardTarget := True,
        md_ReleaseQuiesce := Quiesced from (mo_Strategy obs)\<rparr>"

definition decideCompleted :: "migration_observation \<Rightarrow> migration_decision" where
  "decideCompleted obs =
     (if mo_RollbackRequested obs \<and> \<not> mo_RollbackWindowClosed obs then
        (MigrationDecision TenantMigrationPhaseRolledBack ServingSource ReasonRolledBack
           ''routing was flipped back to the source inside rollbackWindow'')
          \<lparr>md_Cleanup := True, md_DiscardTarget := True, md_ReleaseQuiesce := True\<rparr>
      else if mo_RollbackWindowClosed obs \<and> mo_SourceDropped obs then
        (MigrationDecision TenantMigrationPhaseCompleted ServingTarget ReasonSourceDropped
           ''rollbackWindow closed, the source database was dropped, and this migration is final'')
          \<lparr>md_Settled := True\<rparr>
      else if mo_RollbackWindowClosed obs then
        (MigrationDecision TenantMigrationPhaseCompleted ServingTarget ReasonSourceDropped
           ''rollbackWindow closed and the source database was dropped'')
          \<lparr>md_DropSource := True\<rparr>
      else
        MigrationDecision TenantMigrationPhaseCompleted ServingTarget ReasonSourceRetained
          ''the tenant serves from the target; the source is kept connection-refusing until rollbackDeadline'')"

text \<open>The part of \<open>Decide\<close> after the switch over the terminal phases.\<close>

definition decide_running :: "migration_phase \<Rightarrow> migration_observation \<Rightarrow> migration_decision" where
  "decide_running current obs =
     (if mo_AbortRequested obs then
        abort TenantMigrationPhaseAborted ReasonAbortRequested
          (orDefault (mo_AbortMessage obs) ''the migration was aborted by request'') current obs
      else case mo_Fault obs of
        Some fault \<Rightarrow>
          if \<not> mo_FaultBudgetExceeded obs then
            MigrationDecision current ServingSource ReasonRetrying
              (''phase '' @ phase_string current @ '' is being retried after: '' @ fault)
          else
            abort TenantMigrationPhaseFailed ReasonFaulted
              (''phase '' @ phase_string current @
               '' kept failing for longer than the retry budget: '' @ fault) current obs
      | None \<Rightarrow>
          if current = TenantMigrationPhaseQuiescing \<and> mo_DrainDeadlineExceeded obs then
            abort TenantMigrationPhaseFailed ReasonDrainTimedOut
              ''in-flight transactions did not drain inside drainTimeout'' current obs
          else if Quiesced current (mo_Strategy obs) \<and> mo_CutoverDeadlineExceeded obs then
            abort TenantMigrationPhaseFailed ReasonCutoverTimedOut
              ''the cutover exceeded cutoverTimeout, which is the pause budget clients were promised''
              current obs
          else if \<not> ready current obs then
            MigrationDecision current ServingSource ReasonWaiting
              (''waiting for '' @ phase_string current @ '' to finish'')
          else
            let next = nextPhase current (mo_Strategy obs) in
            if next = TenantMigrationPhaseCompleted then
              (MigrationDecision next ServingTarget ReasonCutoverComplete
                ''routing was flipped to the target and queued clients were released against it'')
                  \<lparr>md_ReleaseQuiesce := True, md_Cleanup := True\<rparr>
            else
              MigrationDecision next ServingSource ReasonProgressing
                (''entering '' @ phase_string next))"

definition migration_Decide :: "migration_phase \<Rightarrow> migration_observation \<Rightarrow> migration_decision" where
  "migration_Decide current obs =
     (case current of
        TenantMigrationPhaseCompleted \<Rightarrow> decideCompleted obs
      | _ \<Rightarrow>
          if current \<in> {TenantMigrationPhaseFailed, TenantMigrationPhaseAborted,
                        TenantMigrationPhaseRolledBack} then
            (MigrationDecision current ServingSource (reasonFor current)
               ''the migration is finished and the tenant is serving from the source'')
              \<lparr>md_Settled := True\<rparr>
          else decide_running current obs)"

section \<open>The orders as tables\<close>

lemma Quiesced_iff:
  "Quiesced p strategy \<longleftrightarrow>
     p \<in> {TenantMigrationPhaseQuiescing, TenantMigrationPhaseCutover} \<or>
     p = TenantMigrationPhaseCopying \<and> strategy = TenantMigrationOffline"
  by (cases p; cases strategy) (simp_all add: Quiesced_def PhaseOrder_def onlineOrder_def offlineOrder_def)

lemma nextPhase_simps [simp]:
  "nextPhase TenantMigrationPhasePreflight s = TenantMigrationPhaseProvisioning"
  "nextPhase TenantMigrationPhaseProvisioning s = TenantMigrationPhasePreWarm"
  "nextPhase TenantMigrationPhasePreWarm s =
     (if s = TenantMigrationOffline then TenantMigrationPhaseQuiescing else TenantMigrationPhaseCopying)"
  "nextPhase TenantMigrationPhaseCopying s =
     (if s = TenantMigrationOffline then TenantMigrationPhaseCutover else TenantMigrationPhaseCatchup)"
  "nextPhase TenantMigrationPhaseCatchup s =
     (if s = TenantMigrationOffline then TenantMigrationPhaseCatchup else TenantMigrationPhaseQuiescing)"
  "nextPhase TenantMigrationPhaseQuiescing s =
     (if s = TenantMigrationOffline then TenantMigrationPhaseCopying else TenantMigrationPhaseCutover)"
  "nextPhase TenantMigrationPhaseCutover s = TenantMigrationPhaseCompleted"
  "nextPhase TenantMigrationPhaseCompleted s = TenantMigrationPhaseCompleted"
  "nextPhase TenantMigrationPhaseFailed s = TenantMigrationPhaseFailed"
  "nextPhase TenantMigrationPhaseAborted s = TenantMigrationPhaseAborted"
  "nextPhase TenantMigrationPhaseRolledBack s = TenantMigrationPhaseRolledBack"
  "nextPhase (UnknownPhase u) s = UnknownPhase u"
  by (simp_all add: nextPhase_def PhaseOrder_def onlineOrder_def offlineOrder_def)

lemma nextPhase_Completed:
  "nextPhase p s = TenantMigrationPhaseCompleted \<longleftrightarrow>
     p \<in> {TenantMigrationPhaseCutover, TenantMigrationPhaseCompleted}"
  by (cases p) auto

lemma nextPhase_not_failed:
  "\<not> migration_Terminal p \<Longrightarrow>
   nextPhase p s \<notin> {TenantMigrationPhaseFailed, TenantMigrationPhaseAborted, TenantMigrationPhaseRolledBack}"
  by (cases p) auto

lemma abort_simps [simp]:
  "md_Phase (abort p r msg from obs) = p"
  "md_Reason (abort p r msg from obs) = r"
  "md_Serving (abort p r msg from obs) = ServingSource"
  "md_Cleanup (abort p r msg from obs)"
  "md_DiscardTarget (abort p r msg from obs)"
  "md_ReleaseQuiesce (abort p r msg from obs) = Quiesced from (mo_Strategy obs)"
  "\<not> md_DropSource (abort p r msg from obs)"
  "\<not> md_Settled (abort p r msg from obs)"
  by (simp_all add: abort_def MigrationDecision_def)

lemma MigrationDecision_simps [simp]:
  "md_Phase (MigrationDecision p s r msg) = p"
  "md_Reason (MigrationDecision p s r msg) = r"
  "md_Serving (MigrationDecision p s r msg) = s"
  "\<not> md_Cleanup (MigrationDecision p s r msg)"
  "\<not> md_DiscardTarget (MigrationDecision p s r msg)"
  "\<not> md_ReleaseQuiesce (MigrationDecision p s r msg)"
  "\<not> md_DropSource (MigrationDecision p s r msg)"
  "\<not> md_Settled (MigrationDecision p s r msg)"
  by (simp_all add: MigrationDecision_def)

text \<open>The nine outcomes of one step.\<close>

lemma migration_Decide_cases [case_names Settled Completed Abort Retry Fault Deadline Wait Advance]:
  assumes "p \<in> {TenantMigrationPhaseFailed, TenantMigrationPhaseAborted, TenantMigrationPhaseRolledBack} \<Longrightarrow>
      md_Phase (migration_Decide p obs) = p \<Longrightarrow> md_Serving (migration_Decide p obs) = ServingSource \<Longrightarrow>
      md_Settled (migration_Decide p obs) \<Longrightarrow> \<not> md_Cleanup (migration_Decide p obs) \<Longrightarrow>
      \<not> md_DiscardTarget (migration_Decide p obs) \<Longrightarrow> \<not> md_DropSource (migration_Decide p obs) \<Longrightarrow>
      \<not> md_ReleaseQuiesce (migration_Decide p obs) \<Longrightarrow> P"
    and "p = TenantMigrationPhaseCompleted \<Longrightarrow> migration_Decide p obs = decideCompleted obs \<Longrightarrow> P"
    and "\<And>msg. \<not> migration_Terminal p \<Longrightarrow> mo_AbortRequested obs \<Longrightarrow>
      migration_Decide p obs = abort TenantMigrationPhaseAborted ReasonAbortRequested msg p obs \<Longrightarrow> P"
    and "\<And>f msg. \<not> migration_Terminal p \<Longrightarrow> \<not> mo_AbortRequested obs \<Longrightarrow> mo_Fault obs = Some f \<Longrightarrow>
      \<not> mo_FaultBudgetExceeded obs \<Longrightarrow>
      migration_Decide p obs = MigrationDecision p ServingSource ReasonRetrying msg \<Longrightarrow> P"
    and "\<And>f msg. \<not> migration_Terminal p \<Longrightarrow> \<not> mo_AbortRequested obs \<Longrightarrow> mo_Fault obs = Some f \<Longrightarrow>
      mo_FaultBudgetExceeded obs \<Longrightarrow>
      migration_Decide p obs = abort TenantMigrationPhaseFailed ReasonFaulted msg p obs \<Longrightarrow> P"
    and "\<And>r msg. \<not> migration_Terminal p \<Longrightarrow> \<not> mo_AbortRequested obs \<Longrightarrow> mo_Fault obs = None \<Longrightarrow>
      Quiesced p (mo_Strategy obs) \<Longrightarrow>
      p = TenantMigrationPhaseQuiescing \<and> mo_DrainDeadlineExceeded obs \<or> mo_CutoverDeadlineExceeded obs \<Longrightarrow>
      migration_Decide p obs = abort TenantMigrationPhaseFailed r msg p obs \<Longrightarrow> P"
    and "\<And>msg. \<not> migration_Terminal p \<Longrightarrow> \<not> mo_AbortRequested obs \<Longrightarrow> mo_Fault obs = None \<Longrightarrow>
      \<not> ready p obs \<Longrightarrow>
      migration_Decide p obs = MigrationDecision p ServingSource ReasonWaiting msg \<Longrightarrow> P"
    and "\<not> migration_Terminal p \<Longrightarrow> \<not> mo_AbortRequested obs \<Longrightarrow> mo_Fault obs = None \<Longrightarrow>
      ready p obs \<Longrightarrow> \<not> (Quiesced p (mo_Strategy obs) \<and> mo_CutoverDeadlineExceeded obs) \<Longrightarrow>
      md_Phase (migration_Decide p obs) = nextPhase p (mo_Strategy obs) \<Longrightarrow>
      md_Serving (migration_Decide p obs) =
        (if p = TenantMigrationPhaseCutover then ServingTarget else ServingSource) \<Longrightarrow>
      md_Cleanup (migration_Decide p obs) = (p = TenantMigrationPhaseCutover) \<Longrightarrow>
      md_ReleaseQuiesce (migration_Decide p obs) = (p = TenantMigrationPhaseCutover) \<Longrightarrow>
      \<not> md_DiscardTarget (migration_Decide p obs) \<Longrightarrow> \<not> md_DropSource (migration_Decide p obs) \<Longrightarrow>
      \<not> md_Settled (migration_Decide p obs) \<Longrightarrow> P"
  shows P
proof -
  consider "p \<in> {TenantMigrationPhaseFailed, TenantMigrationPhaseAborted, TenantMigrationPhaseRolledBack}"
    | "p = TenantMigrationPhaseCompleted" | "\<not> migration_Terminal p" by (cases p) auto
  then show ?thesis
  proof cases
    case 1
    then show ?thesis by (intro assms(1)) (auto simp: migration_Decide_def)
  next
    case 2
    then show ?thesis by (intro assms(2)) (auto simp: migration_Decide_def)
  next
    case running: 3
    then have run: "migration_Decide p obs = decide_running p obs"
      by (cases p) (auto simp: migration_Decide_def)
    show ?thesis
    proof (cases "mo_AbortRequested obs \<or> mo_Fault obs \<noteq> None")
      case True
      with running run show ?thesis
        using assms(3,4,5) by (auto simp: decide_running_def split: if_splits)
    next
      case quiet: False
      show ?thesis
      proof (cases "p = TenantMigrationPhaseQuiescing \<and> mo_DrainDeadlineExceeded obs \<or>
          Quiesced p (mo_Strategy obs) \<and> mo_CutoverDeadlineExceeded obs")
        case True
        then have "\<exists>r msg. decide_running p obs = abort TenantMigrationPhaseFailed r msg p obs"
          using quiet by (auto simp: decide_running_def)
        moreover have "Quiesced p (mo_Strategy obs)" using True by (auto simp: Quiesced_iff)
        ultimately show ?thesis using True quiet running run assms(6) by force
      next
        case False
        note calm = this
        show ?thesis
        proof (cases "ready p obs")
          case True
          with calm quiet running run show ?thesis
            by (intro assms(8))
              (auto simp: decide_running_def nextPhase_Completed Let_def)
        next
          case False
          with calm quiet running run show ?thesis
            using assms(7) by (auto simp: decide_running_def)
        qed
      qed
    qed
  qed
qed

lemma decideCompleted_simps [simp]:
  "md_Phase (decideCompleted obs) =
     (if mo_RollbackRequested obs \<and> \<not> mo_RollbackWindowClosed obs
      then TenantMigrationPhaseRolledBack else TenantMigrationPhaseCompleted)"
  "md_Serving (decideCompleted obs) =
     (if mo_RollbackRequested obs \<and> \<not> mo_RollbackWindowClosed obs then ServingSource else ServingTarget)"
  "md_DropSource (decideCompleted obs) \<longleftrightarrow> mo_RollbackWindowClosed obs \<and> \<not> mo_SourceDropped obs"
  "md_DiscardTarget (decideCompleted obs) \<longleftrightarrow> mo_RollbackRequested obs \<and> \<not> mo_RollbackWindowClosed obs"
  "md_Cleanup (decideCompleted obs) \<longleftrightarrow> mo_RollbackRequested obs \<and> \<not> mo_RollbackWindowClosed obs"
  "md_ReleaseQuiesce (decideCompleted obs) \<longleftrightarrow> mo_RollbackRequested obs \<and> \<not> mo_RollbackWindowClosed obs"
  by (auto simp: decideCompleted_def)

section \<open>Progress\<close>

fun migration_run :: "migration_phase \<Rightarrow> migration_observation list \<Rightarrow> migration_phase" where
  "migration_run p [] = p"
| "migration_run p (obs # rest) = migration_run (md_Phase (migration_Decide p obs)) rest"

text \<open>An observation of a step nobody interferes with, and one on which every phase may be left.\<close>

definition undisturbed :: "migration_strategy \<Rightarrow> migration_observation \<Rightarrow> bool" where
  "undisturbed s obs \<longleftrightarrow>
     mo_Strategy obs = s \<and> \<not> mo_AbortRequested obs \<and> \<not> mo_RollbackRequested obs \<and>
     mo_Fault obs = None \<and> \<not> mo_DrainDeadlineExceeded obs \<and> \<not> mo_CutoverDeadlineExceeded obs"

definition all_ready :: "migration_observation \<Rightarrow> bool" where
  "all_ready obs \<longleftrightarrow>
     mo_PreflightPassed obs \<and> mo_Provisioned obs \<and> mo_PreWarmed obs \<and> mo_CopyComplete obs \<and>
     mo_CaughtUp obs \<and> mo_Drained obs \<and> mo_CutoverComplete obs"

text \<open>How many phases lie ahead on the strategy's order.\<close>

definition steps_left :: "migration_strategy \<Rightarrow> migration_phase \<Rightarrow> nat" where
  "steps_left s p = nat (int (length (PhaseOrder s)) - 1 - slices_Index (PhaseOrder s) p)"

lemma steps_left_zero:
  "p \<in> set (PhaseOrder s) \<Longrightarrow> steps_left s p = 0 \<longleftrightarrow> p = TenantMigrationPhaseCompleted"
  by (cases s) (auto simp: steps_left_def PhaseOrder_def onlineOrder_def offlineOrder_def)

lemma steps_left_next:
  "p \<in> set (PhaseOrder s) \<Longrightarrow>
   nextPhase p s \<in> set (PhaseOrder s) \<and> steps_left s (nextPhase p s) = steps_left s p - 1"
  by (cases s; cases p)
    (simp_all add: steps_left_def PhaseOrder_def onlineOrder_def offlineOrder_def)

lemma ordered_phase_ready:
  "p \<in> set (PhaseOrder s) \<Longrightarrow> p \<noteq> TenantMigrationPhaseCompleted \<Longrightarrow> all_ready obs \<Longrightarrow>
   \<not> migration_Terminal p \<and> ready p obs"
  by (cases p; cases s) (auto simp: all_ready_def PhaseOrder_def onlineOrder_def offlineOrder_def)

lemma undisturbed_step:
  assumes "p \<in> set (PhaseOrder s)" "undisturbed s obs"
  shows "md_Phase (migration_Decide p obs) \<in> set (PhaseOrder s) \<and>
    steps_left s (md_Phase (migration_Decide p obs)) \<le> steps_left s p - (if all_ready obs then 1 else 0)"
proof (cases p obs rule: migration_Decide_cases)
  case Settled
  with assms show ?thesis
    by (auto simp: PhaseOrder_def onlineOrder_def offlineOrder_def split: if_splits)
next
  case Completed
  with assms steps_left_zero [OF assms(1)] show ?thesis
    by (auto simp: undisturbed_def)
next
  case (Wait msg)
  then have "\<not> all_ready obs"
    using ordered_phase_ready [OF assms(1)] by (cases "p = TenantMigrationPhaseCompleted") auto
  with Wait assms(1)
  show ?thesis
    by auto
next
  case Advance
  with assms steps_left_next [OF assms(1)] show ?thesis
    by (auto simp: undisturbed_def)
qed (use assms in \<open>auto simp: undisturbed_def\<close>)

lemma undisturbed_run:
  assumes "p \<in> set (PhaseOrder s)" "list_all (undisturbed s) obss"
  shows "migration_run p obss \<in> set (PhaseOrder s) \<and>
    steps_left s (migration_run p obss) \<le> steps_left s p - length (filter all_ready obss)"
  using assms
proof (induction obss arbitrary: p)
  case (Cons obs rest)
  then have "undisturbed s obs" by simp
  note step = undisturbed_step [OF Cons.prems(1) this]
  have "list_all (undisturbed s) rest" using Cons.prems by simp
  from Cons.IH [OF conjunct1 [OF step] this] step show ?case by (auto split: if_splits)
qed simp

lemma serving_target_cases:
  "(md_Serving (migration_Decide p obs) = ServingTarget \<longleftrightarrow>
      md_Phase (migration_Decide p obs) = TenantMigrationPhaseCompleted) \<and>
   (md_Phase (migration_Decide p obs) = TenantMigrationPhaseCompleted \<longleftrightarrow>
      (if p = TenantMigrationPhaseCompleted then \<not> mo_RollbackRequested obs \<or> mo_RollbackWindowClosed obs
       else p = TenantMigrationPhaseCutover \<and> mo_CutoverComplete obs \<and> \<not> mo_AbortRequested obs \<and>
            mo_Fault obs = None \<and> \<not> mo_CutoverDeadlineExceeded obs))"
proof (cases p obs rule: migration_Decide_cases)
  case Advance
  then show ?thesis using nextPhase_Completed [of p "mo_Strategy obs"]
    by (cases p) (auto simp: Quiesced_iff)
next
  case (Wait msg)
  then show ?thesis by (cases p) auto
qed (auto simp: Quiesced_iff)

section \<open>Properties\<close>

text \<open>
  The clients reach the target exactly when the published phase is Completed, and a migration
  enters Completed only from Cutover, on a step that reported the cutover complete, with no abort
  requested, no fault and the pause budget unspent.
\<close>

theorem only_a_finished_cutover_serves_the_target:
  "(md_Serving (migration_Decide p obs) = ServingTarget \<longleftrightarrow>
      md_Phase (migration_Decide p obs) = TenantMigrationPhaseCompleted) \<and>
   (md_Phase (migration_Decide p obs) = TenantMigrationPhaseCompleted \<longleftrightarrow>
      (if p = TenantMigrationPhaseCompleted then \<not> (mo_RollbackRequested obs \<and> \<not> mo_RollbackWindowClosed obs)
       else p = TenantMigrationPhaseCutover \<and> mo_CutoverComplete obs \<and> \<not> mo_AbortRequested obs \<and>
            mo_Fault obs = None \<and> \<not> mo_CutoverDeadlineExceeded obs))"
  using serving_target_cases [of p obs] by (simp only: de_Morgan_conj not_not)

text \<open>
  Every departure from the happy path undoes what the migration did: a step that newly enters
  Failed, Aborted or RolledBack serves from the source, runs the cleanup ladder, discards the half
  built target, keeps the source database and, when the clients were queued, lets them through.
\<close>

theorem departures_restore_the_source:
  assumes "md_Phase (migration_Decide p obs) \<in>
      {TenantMigrationPhaseFailed, TenantMigrationPhaseAborted, TenantMigrationPhaseRolledBack}"
    and "md_Phase (migration_Decide p obs) \<noteq> p"
  shows "md_Serving (migration_Decide p obs) = ServingSource \<and> md_Cleanup (migration_Decide p obs) \<and>
    md_DiscardTarget (migration_Decide p obs) \<and> \<not> md_DropSource (migration_Decide p obs) \<and>
    (md_ReleaseQuiesce (migration_Decide p obs) \<longleftrightarrow>
       Quiesced p (mo_Strategy obs) \<or> p = TenantMigrationPhaseCompleted)"
proof (cases p obs rule: migration_Decide_cases)
  case Advance
  with assms nextPhase_not_failed [of p "mo_Strategy obs"] show ?thesis by auto
qed (use assms in \<open>auto simp: Quiesced_iff split: if_splits\<close>)


definition example_step :: "migration_strategy \<Rightarrow> migration_observation" where
  "example_step s =
     \<lparr>mo_Strategy = s, mo_AbortRequested = False, mo_AbortMessage = [], mo_RollbackRequested = False,
      mo_Fault = None, mo_FaultBudgetExceeded = False, mo_PreflightPassed = True,
      mo_Provisioned = True, mo_PreWarmed = True, mo_CopyComplete = True, mo_CaughtUp = True,
      mo_Drained = True, mo_CutoverComplete = True, mo_DrainDeadlineExceeded = False,
      mo_CutoverDeadlineExceeded = False, mo_RollbackWindowClosed = False, mo_SourceDropped = False\<rparr>"

theorem departures_restore_the_source_witness:
  "md_ReleaseQuiesce (migration_Decide TenantMigrationPhaseCutover
     ((example_step TenantMigrationOnline)\<lparr>mo_AbortRequested := True\<rparr>))"
  using departures_restore_the_source [of TenantMigrationPhaseCutover
      "(example_step TenantMigrationOnline)\<lparr>mo_AbortRequested := True\<rparr>"]
  by (simp add: migration_Decide_def decide_running_def example_step_def Quiesced_iff)


end
