(* ===== verification/Go_Effects.thy ===== *)
theory Go_Effects
  imports Go_Prelude
begin

text \<open>
  Code that acts on the outside world and may fail. An effect takes a world and returns the error or
  the result with the world it leaves; the world after a failure is the world at the point of failure,
  as in the source. \<open>keeps\<close> says that an effect leaves a part of the world alone, and its rules in the
  collection \<open>keep\<close> carry that through every combinator.
\<close>

type_synonym error = string
type_synonym ('w, 'a) eff = "'w \<Rightarrow> (error + 'a) \<times> 'w"

named_theorems keep

definition eff_return :: "'a \<Rightarrow> ('w, 'a) eff" where
  "eff_return x = (\<lambda>w. (Inr x, w))"

definition eff_fail :: "error \<Rightarrow> ('w, 'a) eff" where
  "eff_fail e = (\<lambda>w. (Inl e, w))"

definition eff_bind :: "('w, 'a) eff \<Rightarrow> ('a \<Rightarrow> ('w, 'b) eff) \<Rightarrow> ('w, 'b) eff" where
  "eff_bind m f = (\<lambda>w. case m w of (Inl e, w') \<Rightarrow> (Inl e, w') | (Inr x, w') \<Rightarrow> f x w')"

text \<open>\<open>if err != nil { return err }\<close> between two statements.\<close>

definition eff_then :: "('w, unit) eff \<Rightarrow> ('w, 'b) eff \<Rightarrow> ('w, 'b) eff" where
  "eff_then m n = eff_bind m (\<lambda>_. n)"

text \<open>\<open>fmt.Errorf("...: %w", err)\<close>.\<close>

definition eff_wrap :: "string \<Rightarrow> ('w, 'a) eff \<Rightarrow> ('w, 'a) eff" where
  "eff_wrap pre m = (\<lambda>w. case m w of (Inl e, w') \<Rightarrow> (Inl (pre @ e), w') | (Inr x, w') \<Rightarrow> (Inr x, w'))"

text \<open>The value of an effect or its error, for code that looks at both.\<close>

definition eff_try :: "('w, 'a) eff \<Rightarrow> (error + 'a \<Rightarrow> ('w, 'b) eff) \<Rightarrow> ('w, 'b) eff" where
  "eff_try m f = (\<lambda>w. case m w of (r, w') \<Rightarrow> f r w')"

text \<open>A loop that returns at the first error, and one that gathers every error and never stops.\<close>

fun eff_each :: "('a \<Rightarrow> ('w, unit) eff) \<Rightarrow> 'a list \<Rightarrow> ('w, unit) eff" where
  "eff_each f [] = eff_return ()"
| "eff_each f (x # xs) = eff_then (f x) (eff_each f xs)"

fun eff_collect :: "('a \<Rightarrow> ('w, unit) eff) \<Rightarrow> 'a list \<Rightarrow> 'w \<Rightarrow> error list \<times> 'w" where
  "eff_collect f [] w = ([], w)"
| "eff_collect f (x # xs) w =
     (case f x w of
        (Inl e, w') \<Rightarrow> (case eff_collect f xs w' of (es, w'') \<Rightarrow> (e # es, w''))
      | (Inr _, w') \<Rightarrow> eff_collect f xs w')"

text \<open>\<open>errors.Join\<close>: nil for no errors, otherwise their texts on one line each.\<close>

fun join_lines :: "string list \<Rightarrow> string" where
  "join_lines [] = []"
| "join_lines [e] = e"
| "join_lines (e # es) = e @ [CHR 0x0A] @ join_lines es"

definition errors_Join :: "error list \<Rightarrow> error + unit" where
  "errors_Join es = (if es = [] then Inr () else Inl (join_lines es))"

section \<open>What an effect leaves alone\<close>

definition keeps :: "('w \<Rightarrow> 'b) \<Rightarrow> ('w, 'a) eff \<Rightarrow> bool" where
  "keeps part m \<longleftrightarrow> (\<forall>w. part (snd (m w)) = part w)"

lemma keepsD: "keeps part m \<Longrightarrow> m w = (r, w') \<Longrightarrow> part w' = part w"
  by (metis keeps_def snd_conv)

lemma keeps_return [keep]: "keeps part (eff_return x)"
  by (simp add: keeps_def eff_return_def)

lemma keeps_fail [keep]: "keeps part (eff_fail e)"
  by (simp add: keeps_def eff_fail_def)

lemma keeps_bind [keep]:
  "keeps part m \<Longrightarrow> (\<And>x. keeps part (f x)) \<Longrightarrow> keeps part (eff_bind m f)"
  by (auto simp: keeps_def eff_bind_def split: prod.split sum.split) (metis snd_conv)+

lemma keeps_then [keep]: "keeps part m \<Longrightarrow> keeps part n \<Longrightarrow> keeps part (eff_then m n)"
  by (simp add: eff_then_def keeps_bind)

lemma keeps_wrap [keep]: "keeps part m \<Longrightarrow> keeps part (eff_wrap pre m)"
  by (auto simp: keeps_def eff_wrap_def split: prod.split sum.split) (metis snd_conv)+

lemma keeps_try [keep]:
  "keeps part m \<Longrightarrow> (\<And>r. keeps part (f r)) \<Longrightarrow> keeps part (eff_try m f)"
  by (auto simp: keeps_def eff_try_def split: prod.split) (metis snd_conv)

lemma keeps_each [keep]: "(\<And>x. keeps part (f x)) \<Longrightarrow> keeps part (eff_each f xs)"
  by (induction xs) (auto intro: keep)

lemma keeps_collect [keep]: "(\<And>x. keeps part (f x)) \<Longrightarrow> part (snd (eff_collect f xs w)) = part w"
proof (induction xs arbitrary: w)
  case (Cons x xs)
  obtain r w' where step: "f x w = (r, w')" by fastforce
  then have "part w' = part w" using keepsD [OF Cons.prems] by simp
  with step Cons.IH [OF Cons.prems, of w'] show ?case
    by (cases r) (auto split: prod.split)
qed simp

lemma keeps_if [keep]: "keeps part m \<Longrightarrow> keeps part n \<Longrightarrow> keeps part (if b then m else n)"
  by simp

lemma keeps_split [keep]: "(\<And>x y. keeps part (f x y)) \<Longrightarrow> keeps part (case p of (x, y) \<Rightarrow> f x y)"
  by (cases p) simp

lemma keeps_sum [keep]:
  "(\<And>e. keeps part (f e)) \<Longrightarrow> (\<And>x. keeps part (g x)) \<Longrightarrow>
   keeps part (case r of Inl e \<Rightarrow> f e | Inr x \<Rightarrow> g x)"
  by (cases r) simp_all

lemma keeps_option [keep]:
  "keeps part m \<Longrightarrow> (\<And>x. keeps part (f x)) \<Longrightarrow> keeps part (case r of None \<Rightarrow> m | Some x \<Rightarrow> f x)"
  by (cases r) simp_all

section \<open>Success of a sequence\<close>

lemma eff_bind_Inr:
  "eff_bind m f w = (Inr y, w'') \<longleftrightarrow> (\<exists>x w'. m w = (Inr x, w') \<and> f x w' = (Inr y, w''))"
  by (auto simp: eff_bind_def split: prod.split sum.split)

lemma eff_then_Inr:
  "eff_then m n w = (Inr y, w'') \<longleftrightarrow> (\<exists>w'. m w = (Inr (), w') \<and> n w' = (Inr y, w''))"
  by (auto simp: eff_then_def eff_bind_Inr)

lemma eff_wrap_Inr: "eff_wrap pre m w = (Inr y, w') \<longleftrightarrow> m w = (Inr y, w')"
  by (auto simp: eff_wrap_def split: prod.split sum.split)

lemma eff_return_Inr [simp]: "eff_return x w = (Inr y, w') \<longleftrightarrow> y = x \<and> w' = w"
  by (auto simp: eff_return_def)

lemma eff_fail_Inr [simp]: "eff_fail e w = (Inr y, w') \<longleftrightarrow> False"
  by (simp add: eff_fail_def)

lemmas eff_success = eff_bind_Inr eff_then_Inr eff_wrap_Inr

lemma errors_Join_Inr [simp]: "errors_Join es = Inr () \<longleftrightarrow> es = []"
  by (simp add: errors_Join_def)

end
