(* ===== verification/Migration_SQL.thy ===== *)
theory Migration_SQL
  imports Go_Effects
begin

text \<open>
  The ports a migration acts through (\<open>internal/migration/sql.go\<close>, \<open>router.go\<close>, \<open>podexec.go\<close>):
  endpoints, the statements the package sends, the readers of their answers, the quoting of names
  and values, and the parsing of psql's output.

  PostgreSQL itself is outside the repository. A statement is a constructor of \<open>sql_statement\<close>
  applied to the values the source interpolates, and what it does is an argument, the port. The
  statement's text, which the source repeats inside some error messages, is not part of them here.
\<close>

section \<open>Endpoints and ports\<close>

record endpoint =
  ep_Namespace :: string
  ep_Instance :: string
  ep_Member :: string
  ep_Database :: string

definition WithDatabase :: "endpoint \<Rightarrow> string \<Rightarrow> endpoint" where
  "WithDatabase e database = e\<lparr>ep_Database := database\<rparr>"

definition WithMember :: "endpoint \<Rightarrow> string \<Rightarrow> endpoint" where
  "WithMember e member = e\<lparr>ep_Member := member\<rparr>"

record role_spec =
  rs_Name :: string
  rs_CanLogin :: bool
  rs_Inherit :: bool
  rs_ConnLimit :: int
  rs_ValidUntil :: string

datatype sql_statement =
    CountDatabase string
  | CreateDatabase string string
  | DropDatabase string
  | AllowConnections string bool
  | TerminateBackends string
  | DatabaseAllowsConnections string
  | CountOwnedDatabase string string
  | SchemaStampPresent string string
  | ClearDatabaseComment string
  | CountUserObjects
  | CountRole string
  | CreateOwnerRole string
  | CreateTenantRole role_spec
  | EnumerateRoles "string list"
  | ReadMemberships "string list"
  | GrantMembership string string string string string
  | RevokeDatabaseFromPublic string
  | GrantDatabaseAccess string string
  | GrantDatabaseConnect string string
  | RevokeReplicationGrants string
  | UserSchemas
  | GrantSchemaUsage string string
  | GrantTableReads string string
  | GrantSequenceReads string string
  | RevokeTableReads string string
  | RevokeSequenceReads string string
  | RevokeSchemaUsage string string
  | CountPublication string
  | CreatePublication string
  | DropPublication string
  | CountSlot string
  | CreateFailoverSlot string
  | DropReplicationSlot string
  | CountSubscription string
  | CountSubscriptionHere string
  | SubscriptionsHere
  | CreateSubscription string string string string
  | DisableSubscription string
  | DetachSlot string
  | DropSubscription string
  | CopyProgressOf string
  | LagBytesOf string
  | CurrentWALPosition
  | ConfirmedFlush string string
  | InFlightTransactions
  | ReadSequencePositions
  | SetSequence string string int
  | SlotsLike string
  | SubscriptionsLike string
  | ConnectableDatabases
  | PublicationsLike string
  | SchemaFingerprintPart nat
  | ListRelations
  | CountRows string string
  | ChecksumRelation string string

type_synonym row = "string list"

record 'w sql_port =
  Exec :: "endpoint \<Rightarrow> sql_statement \<Rightarrow> ('w, unit) eff"
  Query :: "endpoint \<Rightarrow> sql_statement \<Rightarrow> ('w, row list) eff"

section \<open>Reading answers\<close>

definition ErrNoRows :: error where
  "ErrNoRows = ''query returned no rows''"

definition scalar :: "'w sql_port \<Rightarrow> endpoint \<Rightarrow> sql_statement \<Rightarrow> ('w, string) eff" where
  "scalar sql at statement =
     eff_bind (Query sql at statement) (\<lambda>rows.
       case rows of
         [] \<Rightarrow> eff_fail ErrNoRows
       | r # _ \<Rightarrow> (case r of [] \<Rightarrow> eff_fail ErrNoRows | v # _ \<Rightarrow> eff_return v))"

definition scalarInt64 :: "'w sql_port \<Rightarrow> endpoint \<Rightarrow> sql_statement \<Rightarrow> ('w, int) eff" where
  "scalarInt64 sql at statement =
     eff_bind (scalar sql at statement) (\<lambda>v.
       case ParseInt (TrimSpace v) of
         Inl _ \<Rightarrow> eff_fail ''expected an integer''
       | Inr n \<Rightarrow> eff_return n)"

definition firstColumn :: "'w sql_port \<Rightarrow> endpoint \<Rightarrow> sql_statement \<Rightarrow> ('w, string list) eff" where
  "firstColumn sql at statement =
     eff_bind (Query sql at statement) (\<lambda>rows. eff_return (map hd (filter (\<lambda>r. r \<noteq> []) rows)))"

definition execIfAbsent ::
  "'w sql_port \<Rightarrow> endpoint \<Rightarrow> sql_statement \<Rightarrow> sql_statement \<Rightarrow> ('w, unit) eff" where
  "execIfAbsent sql at countQuery statement =
     eff_bind (scalarInt64 sql at countQuery) (\<lambda>count.
       if count > 0 then eff_return () else Exec sql at statement)"

section \<open>Quoting\<close>

definition QuoteIdentifier :: "string \<Rightarrow> string" where
  "QuoteIdentifier name = [CHR 0x22] @ ReplaceAll name (CHR 0x22) [CHR 0x22, CHR 0x22] @ [CHR 0x22]"

definition QuoteQualified :: "string \<Rightarrow> string \<Rightarrow> string" where
  "QuoteQualified schema name = QuoteIdentifier schema @ ''.'' @ QuoteIdentifier name"

definition QuoteLiteral :: "string \<Rightarrow> string" where
  "QuoteLiteral v = [CHR 0x27] @ ReplaceAll v (CHR 0x27) [CHR 0x27, CHR 0x27] @ [CHR 0x27]"

definition shellQuote :: "string \<Rightarrow> string" where
  "shellQuote v =
     [CHR 0x27] @ ReplaceAll v (CHR 0x27) [CHR 0x27, CHR 0x5C, CHR 0x27, CHR 0x27] @ [CHR 0x27]"

text \<open>
  How PostgreSQL reads a quoted token with \<open>standard_conforming_strings\<close> on: up to the first quote
  that is not doubled, a doubled quote standing for one.
\<close>

fun read_quoted_body :: "char \<Rightarrow> string \<Rightarrow> (string \<times> string) option" where
  "read_quoted_body q [] = None"
| "read_quoted_body q (c # s) =
     (if c \<noteq> q then map_option (\<lambda>(v, rest). (c # v, rest)) (read_quoted_body q s)
      else case s of
             [] \<Rightarrow> Some ([], [])
           | d # s' \<Rightarrow>
               if d = q then map_option (\<lambda>(v, rest). (q # v, rest)) (read_quoted_body q s')
               else Some ([], s))"

definition read_quoted :: "char \<Rightarrow> string \<Rightarrow> (string \<times> string) option" where
  "read_quoted q s = (case s of [] \<Rightarrow> None | c # rest \<Rightarrow> if c = q then read_quoted_body q rest else None)"

text \<open>
  How a POSIX shell reads one word made of single-quoted parts and backslash-escaped characters, up
  to the first unquoted character that is neither.
\<close>

fun read_shell_word :: "bool \<Rightarrow> string \<Rightarrow> string \<times> string" where
  "read_shell_word quoted [] = ([], [])"
| "read_shell_word True (c # s) =
     (if c = CHR 0x27 then read_shell_word False s
      else let (v, rest) = read_shell_word True s in (c # v, rest))"
| "read_shell_word False (c # s) =
     (if c = CHR 0x27 then read_shell_word True s
      else if c = CHR 0x5C then
        (case s of [] \<Rightarrow> ([], []) | d # s' \<Rightarrow> let (v, rest) = read_shell_word False s' in (d # v, rest))
      else ([], c # s))"

section \<open>psql's output\<close>

definition fieldSeparator :: char where
  "fieldSeparator = CHR 0x1F"

definition TrimSuffix :: "string \<Rightarrow> char \<Rightarrow> string" where
  "TrimSuffix s c = (if s \<noteq> [] \<and> last s = c then butlast s else s)"

definition parseRows :: "string \<Rightarrow> row list" where
  "parseRows output =
     (let txt = TrimSuffix output newline in
      if output = [] then []
      else map (Split fieldSeparator) (Split newline txt))"

text \<open>What psql prints in unaligned, tuples-only mode: one line per row, the columns separated.\<close>

fun join_with :: "char \<Rightarrow> string list \<Rightarrow> string" where
  "join_with sep [] = []"
| "join_with sep [v] = v"
| "join_with sep (v # vs) = v @ sep # join_with sep vs"

definition print_rows :: "row list \<Rightarrow> string" where
  "print_rows rows = concat (map (\<lambda>r. join_with fieldSeparator r @ [newline]) rows)"

section \<open>Facts\<close>

lemma keeps_scalar [keep]: "keeps part (Query sql at st) \<Longrightarrow> keeps part (scalar sql at st)"
  unfolding scalar_def by (auto intro!: keep split: list.split)

lemma keeps_scalarInt64 [keep]: "keeps part (Query sql at st) \<Longrightarrow> keeps part (scalarInt64 sql at st)"
  unfolding scalarInt64_def by (auto intro!: keep)

lemma keeps_firstColumn [keep]: "keeps part (Query sql at st) \<Longrightarrow> keeps part (firstColumn sql at st)"
  unfolding firstColumn_def by (auto intro!: keep)

lemma keeps_execIfAbsent [keep]:
  "keeps part (Query sql at q) \<Longrightarrow> keeps part (Exec sql at st) \<Longrightarrow> keeps part (execIfAbsent sql at q st)"
  unfolding execIfAbsent_def by (auto intro!: keep)

lemma read_quoted_body_ReplaceAll:
  assumes "rest = [] \<or> hd rest \<noteq> q"
  shows "read_quoted_body q (ReplaceAll v q [q, q] @ q # rest) = Some (v, rest)"
  using assms by (induction v) (auto simp: ReplaceAll_def split: list.split)

lemma read_shell_word_shellQuote:
  assumes "rest = [] \<or> hd rest \<notin> {CHR 0x27, CHR 0x5C}"
  shows "read_shell_word True (ReplaceAll v (CHR 0x27) [CHR 0x27, CHR 0x5C, CHR 0x27, CHR 0x27] @
    CHR 0x27 # rest) = (v, rest)"
proof (induction v)
  case Nil
  have "read_shell_word False rest = ([], rest)" using assms by (cases rest) auto
  then show ?case by (simp add: ReplaceAll_def)
qed (auto simp: ReplaceAll_def)

lemma Split_join_with:
  "vs \<noteq> [] \<Longrightarrow> (\<forall>v \<in> set vs. sep \<notin> set v) \<Longrightarrow> Split sep (join_with sep vs) = vs"
  by (induction sep vs rule: join_with.induct) (auto simp: Split_append Split_plain)

lemma join_with_no:
  "(\<forall>v \<in> set vs. c \<notin> set v) \<Longrightarrow> c \<noteq> sep \<Longrightarrow> c \<notin> set (join_with sep vs)"
  by (induction sep vs rule: join_with.induct) auto

lemma print_rows_join:
  "rows \<noteq> [] \<Longrightarrow> print_rows rows = join_with newline (map (join_with fieldSeparator) rows) @ [newline]"
  by (induction rows rule: list_nonempty_induct)
    (auto simp: print_rows_def neq_Nil_conv)

section \<open>Properties\<close>

text \<open>
  Quoting cannot be escaped: whatever bytes a value holds, PostgreSQL reads the quoted literal back
  as exactly that value and continues after it, PostgreSQL reads the quoted identifier back as
  exactly that name, and the shell reads the quoted word back as exactly that word, provided what
  follows does not itself continue the token.
\<close>

theorem quoting_round_trips:
  assumes "rest = [] \<or> hd rest \<notin> {CHR 0x22, CHR 0x27, CHR 0x5C}"
  shows "read_quoted (CHR 0x27) (QuoteLiteral v @ rest) = Some (v, rest) \<and>
    read_quoted (CHR 0x22) (QuoteIdentifier v @ rest) = Some (v, rest) \<and>
    read_shell_word False (shellQuote v @ rest) = (v, rest)"
  using assms read_quoted_body_ReplaceAll [of rest] read_shell_word_shellQuote [of rest v]
  by (auto simp: read_quoted_def QuoteLiteral_def QuoteIdentifier_def shellQuote_def)

theorem quoting_round_trips_witness:
  "read_quoted (CHR 0x27) (QuoteLiteral [CHR 0x27, CHR '';''] @ '' AND 1'')
     = Some ([CHR 0x27, CHR '';''], '' AND 1'')"
  using quoting_round_trips [of "'' AND 1''" "[CHR 0x27, CHR '';'']"] by simp

text \<open>
  Reading psql's output gives back the rows it printed, for every number of rows and every value
  without a newline or the separator, the empty string included: an empty answer and no answer stay
  different.
\<close>

theorem parseRows_print_rows:
  assumes "\<forall>r \<in> set rows. r \<noteq> [] \<and> (\<forall>v \<in> set r. newline \<notin> set v \<and> fieldSeparator \<notin> set v)"
  shows "parseRows (print_rows rows) = rows"
proof (cases "rows = []")
  case True
  then show ?thesis by (simp add: parseRows_def print_rows_def)
next
  case False
  let ?lines = "map (join_with fieldSeparator) rows"
  have "newline \<notin> set l" if "l \<in> set ?lines" for l
    using that assms join_with_no [of _ newline fieldSeparator]
    by (auto simp: newline_def fieldSeparator_def)
  then have "Split newline (join_with newline ?lines) = ?lines"
    using False by (intro Split_join_with) auto
  moreover have "map (Split fieldSeparator) ?lines = rows"
    using assms by (auto intro!: map_idI Split_join_with simp: comp_def)
  ultimately show ?thesis
    by (simp add: parseRows_def print_rows_join [OF False] TrimSuffix_def Let_def del: map_map)
qed

theorem parseRows_print_rows_witness:
  "parseRows (print_rows [[''a'', []], [[]]]) = [[''a'', []], [[]]]"
  by (rule parseRows_print_rows) (simp add: newline_def fieldSeparator_def)

end
