(* ===== verification/Migration_Steps.thy ===== *)
theory Migration_Steps
  imports Migration_SQL
begin

text \<open>
  The steps a migration is made of (\<open>internal/migration/online.go\<close>, \<open>offline.go\<close>, \<open>sequences.go\<close>,
  \<open>roles.go\<close>, \<open>cleanup.go\<close>): provisioning the target, replication, the offline copy, sequences,
  fencing, the guarded drops and the cleanup ladder, each as an effect over the ports, statement by
  statement and with the source's error handling.
\<close>

section \<open>The plan\<close>

record plan =
  pl_Source :: endpoint
  pl_Target :: endpoint
  pl_Publication :: string
  pl_Slot :: string
  pl_Subscription :: string
  pl_SchemaStamp :: string
  pl_SourceConnInfo :: string
  pl_Concurrency :: int
  pl_DumpDir :: string

record copy_progress =
  cp_Copied :: int
  cp_Total :: int

definition CopyProgress_Done :: "copy_progress \<Rightarrow> bool" where
  "CopyProgress_Done p \<longleftrightarrow> cp_Total p > 0 \<and> cp_Copied p \<ge> cp_Total p"

text \<open>The commands run inside a member's container, over the values the source interpolates.\<close>

datatype shell_command =
    SchemaCopyCommand plan string "role_spec list"
  | OfflineDumpCommand plan int
  | OfflineRestoreCommand plan int
  | RemoveAll string

text \<open>A command returns its output and, when it failed, the error.\<close>

record 'w shell_port =
  Run :: "endpoint \<Rightarrow> shell_command \<Rightarrow> 'w \<Rightarrow> (string \<times> error option) \<times> 'w"

definition shell_run :: "'w shell_port \<Rightarrow> string \<Rightarrow> endpoint \<Rightarrow> shell_command \<Rightarrow> ('w, unit) eff" where
  "shell_run shell pre at command =
     (\<lambda>w. case Run shell at command w of
            ((output, None), w') \<Rightarrow> (Inr (), w')
          | ((output, Some e), w') \<Rightarrow> (Inl (pre @ e @ '': '' @ TrimSpace output), w'))"

section \<open>Roles\<close>

definition OpsRole :: string where "OpsRole = ''pgelastic_ops''"
definition ReplicationRole :: string where "ReplicationRole = ''pgelastic_repl''"
definition RewindRole :: string where "RewindRole = ''pgelastic_rewind''"

definition controlPlaneRoles :: "string list" where
  "controlPlaneRoles = [''postgres'', OpsRole, ReplicationRole, RewindRole]"

text \<open>\<open>fmt.Sscanf v "%d"\<close>: an optional sign and the longest run of digits, within 64 bits.\<close>

definition is_digit :: "char \<Rightarrow> bool" where
  "is_digit c \<longleftrightarrow> CHR ''0'' \<le> c \<and> c \<le> CHR ''9''"

definition parseInt64 :: "string \<Rightarrow> int \<Rightarrow> int" where
  "parseInt64 v fallback =
     (let (sign, rest) = (case v of [] \<Rightarrow> ([], []) | c # cs \<Rightarrow>
            if c = CHR ''-'' \<or> c = CHR ''+'' then ([c], cs) else ([], v)) in
      case ParseInt (sign @ takeWhile is_digit rest) of Inl _ \<Rightarrow> fallback | Inr n \<Rightarrow> n)"

definition role_of_row :: "row \<Rightarrow> role_spec" where
  "role_of_row r =
     \<lparr>rs_Name = TrimSpace (r ! 0), rs_CanLogin = (TrimSpace (r ! 1) = ''t''),
      rs_Inherit = (TrimSpace (r ! 2) = ''t''), rs_ConnLimit = parseInt64 (TrimSpace (r ! 3)) (-1),
      rs_ValidUntil = TrimSpace (r ! 4)\<rparr>"

definition EnumerateTenantRoles :: "'w sql_port \<Rightarrow> endpoint \<Rightarrow> ('w, role_spec list) eff" where
  "EnumerateTenantRoles sql source =
     eff_bind
       (eff_wrap ''enumerating the roles the tenant's database depends on: ''
          (Query sql source (EnumerateRoles controlPlaneRoles)))
       (\<lambda>rows. eff_return (map role_of_row (filter (\<lambda>r. length r \<ge> 5) rows)))"

definition EnsureTenantRoles :: "'w sql_port \<Rightarrow> endpoint \<Rightarrow> role_spec list \<Rightarrow> ('w, unit) eff" where
  "EnsureTenantRoles sql postgres =
     eff_each (\<lambda>role.
       eff_wrap (''creating role '' @ rs_Name role @ '' on the target: '')
         (execIfAbsent sql postgres (CountRole (rs_Name role)) (CreateTenantRole role)))"

definition optionWord :: "string \<Rightarrow> string" where
  "optionWord v = (if TrimSpace v = ''t'' then ''TRUE'' else ''FALSE'')"

definition CarryMemberships ::
  "'w sql_port \<Rightarrow> endpoint \<Rightarrow> endpoint \<Rightarrow> role_spec list \<Rightarrow> ('w, unit) eff" where
  "CarryMemberships sql source postgres roles =
     (if roles = [] then eff_return ()
      else eff_bind
        (eff_wrap ''reading the tenant's role memberships: ''
           (Query sql source (ReadMemberships (map rs_Name roles))))
        (\<lambda>rows. eff_each (\<lambda>r.
           eff_wrap (''carrying membership of '' @ r ! 1 @ '' in '' @ r ! 0 @ '': '')
             (Exec sql postgres (GrantMembership (TrimSpace (r ! 0)) (TrimSpace (r ! 1))
                (optionWord (r ! 2)) (optionWord (r ! 3)) (optionWord (r ! 4)))))
           (filter (\<lambda>r. length r \<ge> 5) rows)))"

fun grants_loop :: "string \<Rightarrow> string list \<Rightarrow> string list \<Rightarrow> sql_statement list" where
  "grants_loop database granted [] = []"
| "grants_loop database granted (name # names) =
     (if name = [] \<or> name \<in> set granted then grants_loop database granted names
      else GrantDatabaseAccess database name # grants_loop database (name # granted) names)"

definition databaseGrantsFor :: "string \<Rightarrow> string \<Rightarrow> role_spec list \<Rightarrow> sql_statement list" where
  "databaseGrantsFor database owner roles =
     [RevokeDatabaseFromPublic database] @
     grants_loop database [] (owner # map rs_Name roles) @
     [GrantDatabaseConnect database OpsRole]"

definition RevokeReplicationReads :: "'w sql_port \<Rightarrow> endpoint \<Rightarrow> ('w, unit) eff" where
  "RevokeReplicationReads sql target =
     eff_wrap ''revoking the replication role's reads on the target: ''
       (Exec sql target (RevokeReplicationGrants ReplicationRole))"

definition SettleTargetGrants :: "'w sql_port \<Rightarrow> plan \<Rightarrow> string \<Rightarrow> ('w, unit) eff" where
  "SettleTargetGrants sql plan owner =
     eff_bind (EnumerateTenantRoles sql (pl_Source plan)) (\<lambda>roles.
       let postgres = WithDatabase (pl_Target plan) ''postgres'' in
       eff_then
         (eff_each (\<lambda>st. eff_wrap ''applying the target database's ACL: '' (Exec sql postgres st))
            (databaseGrantsFor (ep_Database (pl_Target plan)) owner roles))
         (RevokeReplicationReads sql (pl_Target plan)))"

section \<open>Drops\<close>

definition dropDatabase :: "'w sql_port \<Rightarrow> endpoint \<Rightarrow> ('w, unit) eff" where
  "dropDatabase sql at = Exec sql (WithDatabase at ''postgres'') (DropDatabase (ep_Database at))"

definition ownedBy :: "'w sql_port \<Rightarrow> endpoint \<Rightarrow> string \<Rightarrow> ('w, bool) eff" where
  "ownedBy sql at owner =
     (if owner = [] then eff_return False
      else eff_bind (scalarInt64 sql (WithDatabase at ''postgres'') (CountOwnedDatabase (ep_Database at) owner))
             (\<lambda>count. eff_return (count > 0)))"

definition dropOwnedDatabase :: "'w sql_port \<Rightarrow> endpoint \<Rightarrow> string \<Rightarrow> ('w, unit) eff" where
  "dropOwnedDatabase sql at owner =
     eff_bind (ownedBy sql at owner) (\<lambda>ours.
       if \<not> ours then
         eff_bind (scalarInt64 sql (WithDatabase at ''postgres'') (CountDatabase (ep_Database at))) (\<lambda>exists.
           if exists = 0 then eff_return ()
           else eff_fail (''refusing to drop database '' @ ep_Database at @ '' on '' @ ep_Instance at @
                  '': it is not owned by '' @ owner @ '', so this migration did not create it''))
       else dropDatabase sql at)"

definition dropSubscriptionsIn :: "'w sql_port \<Rightarrow> endpoint \<Rightarrow> ('w, unit) eff" where
  "dropSubscriptionsIn sql at =
     eff_try (firstColumn sql at SubscriptionsHere) (\<lambda>r.
       case r of
         Inl _ \<Rightarrow> eff_return ()
       | Inr names \<Rightarrow> eff_each (\<lambda>name. eff_each (\<lambda>st.
             eff_wrap (''removing subscription '' @ name @ '' before dropping '' @ ep_Database at @ '': '')
               (Exec sql at st))
             [DisableSubscription name, DetachSlot name, DropSubscription name]) names)"

definition DropSourceDatabase :: "'w sql_port \<Rightarrow> endpoint \<Rightarrow> string \<Rightarrow> ('w, unit) eff" where
  "DropSourceDatabase sql source owner = dropOwnedDatabase sql source owner"

definition DropTargetDatabase :: "'w sql_port \<Rightarrow> endpoint \<Rightarrow> string \<Rightarrow> ('w, unit) eff" where
  "DropTargetDatabase sql target owner =
     eff_then (dropSubscriptionsIn sql target) (dropOwnedDatabase sql target owner)"

section \<open>Provisioning\<close>

definition SchemaStampPrefix :: string where
  "SchemaStampPrefix = ''pgelastic:schema-copied-by:''"

definition SchemaCopied :: "'w sql_port \<Rightarrow> plan \<Rightarrow> ('w, bool) eff" where
  "SchemaCopied sql plan =
     eff_bind (scalarInt64 sql (WithDatabase (pl_Target plan) ''postgres'')
                 (SchemaStampPresent SchemaStampPrefix (ep_Database (pl_Target plan))))
       (\<lambda>stamped. eff_return (stamped = 1))"

definition ensureOwnerRole :: "'w sql_port \<Rightarrow> endpoint \<Rightarrow> string \<Rightarrow> ('w, unit) eff" where
  "ensureOwnerRole sql postgres owner =
     (if owner = [] then eff_return ()
      else execIfAbsent sql postgres (CountRole owner) (CreateOwnerRole owner))"

definition resetUnstampedTarget :: "'w sql_port \<Rightarrow> plan \<Rightarrow> string \<Rightarrow> ('w, bool) eff" where
  "resetUnstampedTarget sql plan owner =
     eff_bind (SchemaCopied sql plan) (\<lambda>stamped.
       if stamped then eff_return False
       else eff_bind (if owner \<noteq> [] then ownedBy sql (pl_Target plan) owner else eff_return True) (\<lambda>ours.
         if \<not> ours then eff_return False
         else eff_bind (scalarInt64 sql (pl_Target plan) CountUserObjects) (\<lambda>objects.
           if objects = 0 then eff_return False
           else eff_then
             (eff_wrap (''discarding an unstamped target carrying '' @ Itoa objects @
                        '' object(s) from an earlier attempt: '')
                (DropTargetDatabase sql (pl_Target plan) owner))
             (eff_return True))))"

definition ProvisionTarget ::
  "'w sql_port \<Rightarrow> 'w shell_port \<Rightarrow> plan \<Rightarrow> string \<Rightarrow> bool \<Rightarrow> bool \<Rightarrow> ('w, unit) eff" where
  "ProvisionTarget sql shell plan owner copySchema mayReset =
     (let postgres = WithDatabase (pl_Target plan) ''postgres'';
          database = ep_Database (pl_Target plan) in
      eff_then (ensureOwnerRole sql postgres owner)
      (eff_bind (EnumerateTenantRoles sql (pl_Source plan)) (\<lambda>roles.
      eff_then (EnsureTenantRoles sql postgres roles)
      (eff_then (CarryMemberships sql (pl_Source plan) postgres roles)
      (eff_bind (scalarInt64 sql postgres (CountDatabase database)) (\<lambda>exists.
      eff_bind (if exists \<noteq> 0 \<and> copySchema \<and> mayReset then resetUnstampedTarget sql plan owner
                else eff_return False) (\<lambda>discarded.
      eff_then (if exists = 0 \<or> discarded then
                  eff_wrap ''creating the target database: '' (Exec sql postgres (CreateDatabase database owner))
                else eff_return ())
      (if \<not> copySchema then eff_return ()
       else eff_bind (SchemaCopied sql plan) (\<lambda>copied.
         if copied then eff_return ()
         else shell_run shell ''copying the schema onto the target: '' (pl_Target plan)
                (SchemaCopyCommand plan owner roles))))))))))"

definition GrantSourceReads :: "'w sql_port \<Rightarrow> endpoint \<Rightarrow> string \<Rightarrow> ('w, unit) eff" where
  "GrantSourceReads sql source role =
     eff_bind (firstColumn sql source UserSchemas) (\<lambda>schemas.
       eff_each (\<lambda>st. eff_wrap ''granting source reads: '' (Exec sql source st))
         (GrantDatabaseConnect (ep_Database source) role #
          concat (map (\<lambda>schema. [GrantSchemaUsage schema role, GrantTableReads schema role,
                                 GrantSequenceReads schema role]) schemas)))"

definition StartReplication :: "'w sql_port \<Rightarrow> plan \<Rightarrow> ('w, unit) eff" where
  "StartReplication sql plan =
     eff_then (eff_wrap ''creating the publication: ''
       (execIfAbsent sql (pl_Source plan) (CountPublication (pl_Publication plan))
          (CreatePublication (pl_Publication plan))))
     (eff_then (eff_wrap ''creating the failover-enabled logical slot: ''
       (execIfAbsent sql (pl_Source plan) (CountSlot (pl_Slot plan)) (CreateFailoverSlot (pl_Slot plan))))
     (execIfAbsent sql (pl_Target plan) (CountSubscription (pl_Subscription plan))
        (CreateSubscription (pl_Subscription plan) (pl_SourceConnInfo plan) (pl_Publication plan)
           (pl_Slot plan))))"

section \<open>Copying\<close>

definition DefaultDumpJobs :: int where "DefaultDumpJobs = 4"

definition CopyOffline :: "'w shell_port \<Rightarrow> plan \<Rightarrow> ('w, unit) eff" where
  "CopyOffline shell plan =
     (if TrimSpace (pl_SourceConnInfo plan) = [] then
        eff_fail (''the offline copy of '' @ ep_Database (pl_Target plan) @
          '' has no source connection string, so pg_dump would read the target's own local database rather than the source'')
      else
        let jobs = (if pl_Concurrency plan < 1 then DefaultDumpJobs else pl_Concurrency plan) in
        eff_each (shell_run shell ''offline copy failed: '' (pl_Target plan))
          [OfflineDumpCommand plan jobs, OfflineRestoreCommand plan jobs])"

definition DiscardDump :: "'w shell_port \<Rightarrow> plan \<Rightarrow> ('w, unit) eff" where
  "DiscardDump shell plan =
     (\<lambda>w. case Run shell (pl_Target plan) (RemoveAll (pl_DumpDir plan)) w of
            ((_, None), w') \<Rightarrow> (Inr (), w') | ((_, Some e), w') \<Rightarrow> (Inl e, w'))"

text \<open>\<open>fmt.Sscanf v "%d %d"\<close> on the trimmed answer, each number within 32 bits.\<close>

definition scan_int32 :: "string \<Rightarrow> (int \<times> string) option" where
  "scan_int32 v =
     (let (sign, rest) = (case v of [] \<Rightarrow> ([], []) | c # cs \<Rightarrow>
            if c = CHR ''-'' \<or> c = CHR ''+'' then ([c], cs) else ([], v)) in
      case ParseInt (sign @ takeWhile is_digit rest) of
        Inl _ \<Rightarrow> None
      | Inr n \<Rightarrow> if in_int32 n then Some (n, dropWhile is_digit rest) else None)"

definition ReadCopyProgress :: "'w sql_port \<Rightarrow> plan \<Rightarrow> ('w, copy_progress) eff" where
  "ReadCopyProgress sql plan =
     eff_bind (scalar sql (pl_Target plan) (CopyProgressOf (pl_Subscription plan))) (\<lambda>v.
       let unreadable = eff_fail (''unreadable copy progress '' @ v) in
       case scan_int32 (TrimSpace v) of
         None \<Rightarrow> unreadable
       | Some (copied, rest) \<Rightarrow>
           (case rest of
              [] \<Rightarrow> unreadable
            | c # cs \<Rightarrow>
                if c \<noteq> CHR '' '' then unreadable
                else (case scan_int32 (dropWhile (\<lambda>b. b = CHR '' '') cs) of
                        None \<Rightarrow> unreadable
                      | Some (tables, _) \<Rightarrow> eff_return \<lparr>cp_Copied = copied, cp_Total = tables\<rparr>)))"

definition ReadLagBytes :: "'w sql_port \<Rightarrow> plan \<Rightarrow> ('w, int) eff" where
  "ReadLagBytes sql plan =
     scalarInt64 sql (WithDatabase (pl_Source plan) ''postgres'') (LagBytesOf (pl_Slot plan))"

definition CurrentWALLSN :: "'w sql_port \<Rightarrow> plan \<Rightarrow> ('w, string) eff" where
  "CurrentWALLSN sql plan = scalar sql (WithDatabase (pl_Source plan) ''postgres'') CurrentWALPosition"

definition ConfirmedThrough :: "'w sql_port \<Rightarrow> plan \<Rightarrow> string \<Rightarrow> ('w, bool) eff" where
  "ConfirmedThrough sql plan lsn =
     eff_bind (scalarInt64 sql (WithDatabase (pl_Source plan) ''postgres'') (ConfirmedFlush lsn (pl_Slot plan)))
       (\<lambda>v. eff_return (v = 1))"

section \<open>Sequences\<close>

record sequence =
  sq_Schema :: string
  sq_Name :: string
  sq_Next :: int

datatype sequence_mode = SequenceHandlingSetvalWithGap | SequenceHandlingSkip

record sequence_plan =
  sp_Mode :: sequence_mode
  sp_SafetyGap :: int

definition DefaultSafetyGap :: int where "DefaultSafetyGap = 1000"

fun read_sequences_loop :: "row list \<Rightarrow> error + sequence list" where
  "read_sequences_loop [] = Inr []"
| "read_sequences_loop (r # rows) =
     (case r of
        [schema, name, position] \<Rightarrow>
          (case ParseInt (TrimSpace position) of
             Inl _ \<Rightarrow> Inl (''unreadable sequence position in '' @ position)
           | Inr n \<Rightarrow>
               (case read_sequences_loop rows of
                  Inl e \<Rightarrow> Inl e
                | Inr rest \<Rightarrow> Inr (\<lparr>sq_Schema = schema, sq_Name = name, sq_Next = n\<rparr> # rest)))
      | _ \<Rightarrow> Inl (''unreadable sequence record '' @ join_with (CHR ''|'') r))"

definition ReadSequences :: "'w sql_port \<Rightarrow> endpoint \<Rightarrow> ('w, sequence list) eff" where
  "ReadSequences sql at =
     eff_bind (Query sql at ReadSequencePositions) (\<lambda>rows.
       case read_sequences_loop rows of Inl e \<Rightarrow> eff_fail e | Inr s \<Rightarrow> eff_return s)"

definition ApplySequences ::
  "'w sql_port \<Rightarrow> endpoint \<Rightarrow> int \<Rightarrow> sequence list \<Rightarrow> ('w, unit) eff" where
  "ApplySequences sql at gap =
     eff_each (\<lambda>s.
       eff_wrap (''advancing sequence '' @ QuoteQualified (sq_Schema s) (sq_Name s) @ '': '')
         (Exec sql at (SetSequence (sq_Schema s) (sq_Name s) (wrap64 (sq_Next s + gap)))))"

definition SequencePlan_Reconcile ::
  "'w sql_port \<Rightarrow> sequence_plan \<Rightarrow> endpoint \<Rightarrow> endpoint \<Rightarrow> ('w, int) eff" where
  "SequencePlan_Reconcile sql p source target =
     eff_bind (ReadSequences sql source) (\<lambda>sequences.
       if sp_Mode p = SequenceHandlingSkip then
         (if sequences \<noteq> [] then
            eff_fail (''sequenceHandling.mode is Skip but the tenant has '' @
              Itoa (int (length sequences)) @ '' sequence(s); logical replication '' @
              ''carries no sequence state through PostgreSQL 18, so skipping would produce duplicate '' @
              ''key violations hours after this migration was declared successful'')
          else eff_return 0)
       else
         let gap = (if sp_SafetyGap p < 0 then DefaultSafetyGap else sp_SafetyGap p) in
         eff_then (ApplySequences sql target gap sequences) (eff_return (int (length sequences))))"

section \<open>Fencing\<close>

definition FenceSource :: "'w sql_port \<Rightarrow> endpoint \<Rightarrow> ('w, unit) eff" where
  "FenceSource sql source =
     (let postgres = WithDatabase source ''postgres'' in
      eff_then (Exec sql postgres (AllowConnections (ep_Database source) False))
        (Exec sql postgres (TerminateBackends (ep_Database source))))"

definition UnfenceSource :: "'w sql_port \<Rightarrow> endpoint \<Rightarrow> ('w, unit) eff" where
  "UnfenceSource sql source =
     Exec sql (WithDatabase source ''postgres'') (AllowConnections (ep_Database source) True)"

section \<open>The cleanup ladder\<close>

datatype ladder_step =
    StepDisableSubscription
  | StepDetachSlot
  | StepDropSubscription
  | StepDropSlot
  | StepDropPublication
  | StepRevokeGrants
  | StepClearSchemaStamp

fun ladder_step_string :: "ladder_step \<Rightarrow> string" where
  "ladder_step_string StepDisableSubscription = ''DisableSubscription''"
| "ladder_step_string StepDetachSlot = ''DetachSlot''"
| "ladder_step_string StepDropSubscription = ''DropSubscription''"
| "ladder_step_string StepDropSlot = ''DropSlot''"
| "ladder_step_string StepDropPublication = ''DropPublication''"
| "ladder_step_string StepRevokeGrants = ''RevokeGrants''"
| "ladder_step_string StepClearSchemaStamp = ''ClearSchemaStamp''"

definition LadderOrder :: "ladder_step list" where
  "LadderOrder =
     [StepDisableSubscription, StepDetachSlot, StepDropSubscription, StepDropSlot,
      StepDropPublication, StepRevokeGrants, StepClearSchemaStamp]"

definition stepNeedsSourceDatabase :: "ladder_step \<Rightarrow> bool" where
  "stepNeedsSourceDatabase step \<longleftrightarrow> step = StepDropPublication \<or> step = StepRevokeGrants"

definition ifSubscriptionExists :: "'w sql_port \<Rightarrow> plan \<Rightarrow> sql_statement \<Rightarrow> ('w, unit) eff" where
  "ifSubscriptionExists sql plan statement =
     eff_bind (scalarInt64 sql (pl_Target plan) (CountSubscriptionHere (pl_Subscription plan))) (\<lambda>count.
       if count = 0 then eff_return () else Exec sql (pl_Target plan) statement)"

definition DropSlot :: "'w sql_port \<Rightarrow> endpoint \<Rightarrow> string \<Rightarrow> ('w, unit) eff" where
  "DropSlot sql at slot = Exec sql at (DropReplicationSlot slot)"

definition clearSchemaStamp :: "'w sql_port \<Rightarrow> plan \<Rightarrow> ('w, unit) eff" where
  "clearSchemaStamp sql plan =
     eff_bind (SchemaCopied sql plan) (\<lambda>stamped.
       if \<not> stamped then eff_return ()
       else Exec sql (pl_Target plan) (ClearDatabaseComment (ep_Database (pl_Target plan))))"

definition eff_all :: "('a \<Rightarrow> ('w, unit) eff) \<Rightarrow> 'a list \<Rightarrow> ('w, unit) eff" where
  "eff_all f xs = (\<lambda>w. case eff_collect f xs w of (es, w') \<Rightarrow> (errors_Join es, w'))"

definition revokeSourceReads :: "'w sql_port \<Rightarrow> endpoint \<Rightarrow> string \<Rightarrow> ('w, unit) eff" where
  "revokeSourceReads sql source role =
     (if role = [] then eff_return ()
      else eff_bind (firstColumn sql source UserSchemas) (\<lambda>schemas.
        eff_all (Exec sql source)
          (concat (map (\<lambda>schema. [RevokeTableReads schema role, RevokeSequenceReads schema role,
                                  RevokeSchemaUsage schema role]) schemas))))"

fun runStep :: "'w sql_port \<Rightarrow> plan \<Rightarrow> string \<Rightarrow> ladder_step \<Rightarrow> ('w, unit) eff" where
  "runStep sql plan role StepDisableSubscription =
     ifSubscriptionExists sql plan (DisableSubscription (pl_Subscription plan))"
| "runStep sql plan role StepDetachSlot =
     ifSubscriptionExists sql plan (DetachSlot (pl_Subscription plan))"
| "runStep sql plan role StepDropSubscription =
     ifSubscriptionExists sql plan (DropSubscription (pl_Subscription plan))"
| "runStep sql plan role StepDropSlot =
     DropSlot sql (WithDatabase (pl_Source plan) ''postgres'') (pl_Slot plan)"
| "runStep sql plan role StepDropPublication =
     Exec sql (pl_Source plan) (DropPublication (pl_Publication plan))"
| "runStep sql plan role StepRevokeGrants = revokeSourceReads sql (pl_Source plan) role"
| "runStep sql plan role StepClearSchemaStamp = clearSchemaStamp sql plan"

definition sourceAdmitsConnections :: "'w sql_port \<Rightarrow> endpoint \<Rightarrow> ('w, bool) eff" where
  "sourceAdmitsConnections sql source =
     eff_try (scalar sql (WithDatabase source ''postgres'') (DatabaseAllowsConnections (ep_Database source)))
       (\<lambda>r. case r of Inl _ \<Rightarrow> eff_return True | Inr allowed \<Rightarrow> eff_return (allowed = ''true''))"

definition ladder_rungs :: "bool \<Rightarrow> bool \<Rightarrow> ladder_step list" where
  "ladder_rungs sourceOpen discarding =
     filter (\<lambda>step. \<not> (\<not> sourceOpen \<and> stepNeedsSourceDatabase step) \<and>
                    \<not> (step = StepClearSchemaStamp \<and> discarding)) LadderOrder"

definition Cleanup :: "'w sql_port \<Rightarrow> plan \<Rightarrow> string \<Rightarrow> bool \<Rightarrow> ('w, unit) eff" where
  "Cleanup sql plan role discarding =
     eff_bind (sourceAdmitsConnections sql (pl_Source plan)) (\<lambda>sourceOpen.
       eff_all (\<lambda>step. eff_wrap (''cleanup step '' @ ladder_step_string step @ '': '')
                         (runStep sql plan role step))
         (ladder_rungs sourceOpen discarding))"

section \<open>Orphans\<close>

datatype orphan_kind = OrphanSlot | OrphanPublication | OrphanSubscription

fun orphan_kind_string :: "orphan_kind \<Rightarrow> string" where
  "orphan_kind_string OrphanSlot = ''ReplicationSlot''"
| "orphan_kind_string OrphanPublication = ''Publication''"
| "orphan_kind_string OrphanSubscription = ''Subscription''"

record orphan =
  or_Kind :: orphan_kind
  or_Name :: string
  or_At :: endpoint

definition SlotPrefix :: string where "SlotPrefix = ''pgelastic_mig_''"
definition PublicationPrefix :: string where "PublicationPrefix = ''pgelastic_pub_''"
definition SubscriptionPrefix :: string where "SubscriptionPrefix = ''pgelastic_sub_''"

text \<open>Results and errors of a step that reports both.\<close>

fun eff_gather ::
  "('a \<Rightarrow> ('w, 'b list) eff) \<Rightarrow> 'a list \<Rightarrow> 'w \<Rightarrow> ('b list \<times> error list) \<times> 'w" where
  "eff_gather f [] w = (([], []), w)"
| "eff_gather f (x # xs) w =
     (case f x w of
        (Inl e, w') \<Rightarrow> (case eff_gather f xs w' of ((bs, es), w'') \<Rightarrow> ((bs, e # es), w''))
      | (Inr b, w') \<Rightarrow> (case eff_gather f xs w' of ((bs, es), w'') \<Rightarrow> ((b @ bs, es), w'')))"

definition orphans_among :: "(string \<Rightarrow> bool) \<Rightarrow> orphan_kind \<Rightarrow> endpoint \<Rightarrow> string list \<Rightarrow> orphan list" where
  "orphans_among live kind at names =
     map (\<lambda>name. \<lparr>or_Kind = kind, or_Name = name, or_At = at\<rparr>) (filter (\<lambda>name. \<not> live name) names)"

definition FindOrphans ::
  "'w sql_port \<Rightarrow> endpoint \<Rightarrow> (string \<Rightarrow> bool) \<Rightarrow> 'w \<Rightarrow> (orphan list \<times> (error + unit)) \<times> 'w" where
  "FindOrphans sql at live w0 =
     (let postgres = WithDatabase at ''postgres'';
          ((slots, es1), w1) = eff_gather (\<lambda>_. eff_bind
              (firstColumn sql postgres (SlotsLike (SlotPrefix @ ''%'')))
              (\<lambda>names. eff_return (orphans_among live OrphanSlot postgres names))) [()] w0;
          ((subs, es2), w2) = eff_gather (\<lambda>_. eff_bind
              (Query sql postgres (SubscriptionsLike (SubscriptionPrefix @ ''%'')))
              (\<lambda>rows. eff_return (concat (map (\<lambda>r.
                 if length r = 2 \<and> \<not> live (r ! 0)
                 then [\<lparr>or_Kind = OrphanSubscription, or_Name = r ! 0, or_At = WithDatabase at (r ! 1)\<rparr>]
                 else []) rows)))) [()] w1;
          ((databases, es3), w3) = eff_gather (\<lambda>_. firstColumn sql postgres ConnectableDatabases) [()] w2;
          ((pubs, es4), w4) = eff_gather (\<lambda>database. eff_bind
              (firstColumn sql (WithDatabase at database) (PublicationsLike (PublicationPrefix @ ''%'')))
              (\<lambda>names. eff_return (orphans_among live OrphanPublication (WithDatabase at database) names)))
              databases w3
      in ((slots @ subs @ pubs, errors_Join (es1 @ es2 @ es3 @ es4)), w4))"

fun sweepOne :: "'w sql_port \<Rightarrow> orphan \<Rightarrow> ('w, unit) eff" where
  "sweepOne sql orphan =
     (case or_Kind orphan of
        OrphanSubscription \<Rightarrow>
          eff_each (Exec sql (or_At orphan))
            [DisableSubscription (or_Name orphan), DetachSlot (or_Name orphan),
             DropSubscription (or_Name orphan)]
      | OrphanSlot \<Rightarrow> DropSlot sql (or_At orphan) (or_Name orphan)
      | OrphanPublication \<Rightarrow> Exec sql (or_At orphan) (DropPublication (or_Name orphan)))"

definition SweepOrphans :: "'w sql_port \<Rightarrow> orphan list \<Rightarrow> ('w, unit) eff" where
  "SweepOrphans sql orphans =
     eff_all (\<lambda>orphan.
         eff_wrap (''sweeping '' @ orphan_kind_string (or_Kind orphan) @ '' '' @ or_Name orphan @ '': '')
           (sweepOne sql orphan))
       (concat (map (\<lambda>kind. filter (\<lambda>orphan. or_Kind orphan = kind) orphans)
          [OrphanSubscription, OrphanSlot, OrphanPublication]))"

section \<open>Verification\<close>

datatype verification_level = VerifySchema | VerifyRowCounts | VerifyChecksums

fun level_string :: "verification_level \<Rightarrow> string" where
  "level_string VerifySchema = ''Schema''"
| "level_string VerifyRowCounts = ''RowCounts''"
| "level_string VerifyChecksums = ''Checksums''"

record difference =
  df_Relation :: string
  df_Source :: string
  df_Target :: string
  df_What :: string

definition Difference_String :: "difference \<Rightarrow> string" where
  "Difference_String d =
     (if df_Relation d = [] then
        df_What d @ '' differs: source '' @ df_Source d @ '', target '' @ df_Target d
      else df_What d @ '' of '' @ df_Relation d @ '' differs: source '' @ df_Source d @
           '', target '' @ df_Target d)"

record verification_result =
  vr_Level :: verification_level
  vr_SchemaFingerprintMatch :: "bool option"
  vr_RowCountsMatch :: "bool option"
  vr_ChecksumsMatch :: "bool option"
  vr_Relations :: int
  vr_Differences :: "difference list"

definition Equivalent :: "verification_result \<Rightarrow> bool" where
  "Equivalent r \<longleftrightarrow> vr_Differences r = []"

definition VerifierLimits :: "string list" where
  "VerifierLimits =
     [''ctid, xmin, xmax and cmin/cmax differ after any logical copy and are not compared'',
      ''TOAST storage layout and compression method are not observable through the value'',
      ''index physical structure, page layout and leaf ordering are rebuilt on the target'',
      ''bloat and free-space distribution are not compared'',
      ''planner statistics are not copied and are not compared'',
      ''nothing written after the checksum LSN is covered by the verdict'',
      ''a source that was already corrupt yields an equivalently corrupt target that passes'',
      ''role passwords are never compared, and are never carried between instances'',
      ''privileges held by the control plane's own roles are excluded from the comparison'',
      ''privileges on objects outside the tenant's user schemas are not compared'']"

text \<open>\<open>strings.Join\<close>.\<close>

fun Join :: "string list \<Rightarrow> string \<Rightarrow> string" where
  "Join [] sep = []"
| "Join [v] sep = v"
| "Join (v # vs) sep = v @ sep @ Join vs sep"

definition LimitsMessage :: string where
  "LimitsMessage = ''equivalence is not correctness: '' @ Join VerifierLimits ''; ''"

definition Verification_Message :: "verification_result \<Rightarrow> string" where
  "Verification_Message r =
     (if Equivalent r then
        ''the target is equivalent to the source at '' @ level_string (vr_Level r) @ '' level over '' @
        Itoa (vr_Relations r) @ '' relation(s). ''
      else ''the target is NOT equivalent to the source: '' @
           Join (map Difference_String (vr_Differences r)) ''; '' @ ''. '') @ LimitsMessage"

text \<open>The fingerprint is built from seven catalog projections, here by their position.\<close>

definition schemaFingerprintParts :: "nat list" where
  "schemaFingerprintParts = [0, 1, 2, 3, 4, 5, 6]"

fun eff_map :: "('a \<Rightarrow> ('w, 'b) eff) \<Rightarrow> 'a list \<Rightarrow> ('w, 'b list) eff" where
  "eff_map f [] = eff_return []"
| "eff_map f (x # xs) = eff_bind (f x) (\<lambda>y. eff_bind (eff_map f xs) (\<lambda>ys. eff_return (y # ys)))"

definition schemaFingerprint :: "'w sql_port \<Rightarrow> endpoint \<Rightarrow> ('w, string) eff" where
  "schemaFingerprint sql at =
     eff_bind (eff_map (\<lambda>part. scalar sql at (SchemaFingerprintPart part)) schemaFingerprintParts)
       (\<lambda>digests. eff_return (join_with (CHR '':'') (sort_func go_compare digests)))"

fun read_relations :: "row list \<Rightarrow> error + (string \<times> string) list" where
  "read_relations [] = Inr []"
| "read_relations (r # rows) =
     (case r of
        [schema, name] \<Rightarrow>
          (case read_relations rows of Inl e \<Rightarrow> Inl e | Inr rest \<Rightarrow> Inr ((schema, name) # rest))
      | _ \<Rightarrow> Inl (''unreadable relation record '' @ join_with (CHR ''|'') r))"

definition relations :: "'w sql_port \<Rightarrow> endpoint \<Rightarrow> ('w, (string \<times> string) list) eff" where
  "relations sql at =
     eff_bind (Query sql at ListRelations) (\<lambda>rows.
       case read_relations rows of Inl e \<Rightarrow> eff_fail e | Inr rs \<Rightarrow> eff_return rs)"

definition Relation_String :: "string \<times> string \<Rightarrow> string" where
  "Relation_String r = fst r @ ''.'' @ snd r"

definition rowCounts ::
  "'w sql_port \<Rightarrow> endpoint \<Rightarrow> endpoint \<Rightarrow> string \<times> string \<Rightarrow> ('w, int \<times> int) eff" where
  "rowCounts sql source target r =
     eff_bind (eff_wrap (''counting '' @ Relation_String r @ '' on the source: '')
        (scalarInt64 sql source (CountRows (fst r) (snd r)))) (\<lambda>sourceCount.
     eff_bind (eff_wrap (''counting '' @ Relation_String r @ '' on the target: '')
        (scalarInt64 sql target (CountRows (fst r) (snd r)))) (\<lambda>targetCount.
     eff_return (sourceCount, targetCount)))"

definition checksum :: "'w sql_port \<Rightarrow> endpoint \<Rightarrow> string \<times> string \<Rightarrow> ('w, string) eff" where
  "checksum sql at r =
     eff_wrap (''checksumming '' @ Relation_String r @ '': '') (scalar sql at (ChecksumRelation (fst r) (snd r)))"

definition count_differences ::
  "'w sql_port \<Rightarrow> endpoint \<Rightarrow> endpoint \<Rightarrow> (string \<times> string) list \<Rightarrow> ('w, difference list) eff" where
  "count_differences sql source target rs =
     eff_bind (eff_map (\<lambda>r. eff_bind (rowCounts sql source target r) (\<lambda>(a, b).
         eff_return (if a \<noteq> b then [\<lparr>df_Relation = Relation_String r, df_Source = Itoa a,
                                     df_Target = Itoa b, df_What = ''row count''\<rparr>] else []))) rs)
       (\<lambda>ds. eff_return (concat ds))"

definition checksum_differences ::
  "'w sql_port \<Rightarrow> endpoint \<Rightarrow> endpoint \<Rightarrow> (string \<times> string) list \<Rightarrow> ('w, difference list) eff" where
  "checksum_differences sql source target rs =
     eff_bind (eff_map (\<lambda>r. eff_bind (checksum sql source r) (\<lambda>a. eff_bind (checksum sql target r) (\<lambda>b.
         eff_return (if a \<noteq> b then [\<lparr>df_Relation = Relation_String r, df_Source = a, df_Target = b,
                                     df_What = ''content checksum''\<rparr>] else [])))) rs)
       (\<lambda>ds. eff_return (concat ds))"

definition Verify ::
  "'w sql_port \<Rightarrow> verification_level \<Rightarrow> endpoint \<Rightarrow> endpoint \<Rightarrow> ('w, verification_result) eff" where
  "Verify sql level source target =
     eff_bind (eff_wrap ''fingerprinting the source schema: '' (schemaFingerprint sql source)) (\<lambda>sf.
     eff_bind (eff_wrap ''fingerprinting the target schema: '' (schemaFingerprint sql target)) (\<lambda>tf.
     eff_bind (eff_wrap ''listing the source's relations: '' (relations sql source)) (\<lambda>rs.
       let schema = (if sf \<noteq> tf then [\<lparr>df_Relation = [], df_Source = sf, df_Target = tf,
                                       df_What = ''schema fingerprint''\<rparr>] else []);
           result = \<lparr>vr_Level = level, vr_SchemaFingerprintMatch = Some (sf = tf),
                     vr_RowCountsMatch = None, vr_ChecksumsMatch = None,
                     vr_Relations = int (length rs), vr_Differences = schema\<rparr> in
       if level = VerifySchema then eff_return result
       else eff_bind (count_differences sql source target rs) (\<lambda>counts.
         let result = result\<lparr>vr_RowCountsMatch := Some (counts = []),
                             vr_Differences := schema @ counts\<rparr> in
         if level \<noteq> VerifyChecksums then eff_return result
         else eff_bind (checksum_differences sql source target rs) (\<lambda>sums.
           eff_return (result\<lparr>vr_ChecksumsMatch := Some (sums = []),
                              vr_Differences := schema @ counts @ sums\<rparr>))))))"

section \<open>What the steps leave alone\<close>

lemma keeps_eff_all [keep]: "(\<And>x. keeps part (f x)) \<Longrightarrow> keeps part (eff_all f xs)"
  unfolding eff_all_def
  by (auto simp: keeps_def split: prod.split) (metis keeps_collect keeps_def snd_conv)

lemma keeps_eff_all_list [keep]:
  "(\<And>x. x \<in> set xs \<Longrightarrow> keeps part (f x)) \<Longrightarrow> keeps part (eff_all f xs)"
proof -
  assume each: "\<And>x. x \<in> set xs \<Longrightarrow> keeps part (f x)"
  have "part (snd (eff_collect f xs w)) = part w" for w
    using each
  proof (induction xs arbitrary: w)
    case (Cons x xs)
    obtain r w' where step: "f x w = (r, w')" by fastforce
    then have "part w' = part w" using keepsD Cons.prems by (metis list.set_intros(1))
    with step Cons.IH [of w'] Cons.prems show ?case by (cases r) (auto split: prod.split)
  qed simp
  then show ?thesis by (auto simp: eff_all_def keeps_def split: prod.split) (metis snd_conv)
qed

lemma keeps_eff_map [keep]: "(\<And>x. keeps part (f x)) \<Longrightarrow> keeps part (eff_map f xs)"
  by (induction xs) (auto intro!: keep)

lemma keeps_shell_run [keep]:
  "(\<And>w. part (snd (Run shell at c w)) = part w) \<Longrightarrow> keeps part (shell_run shell pre at c)"
  by (auto simp: keeps_def shell_run_def split: prod.split option.split) (metis snd_conv)+

lemma keeps_DiscardDump [keep]:
  "(\<And>at c w. part (snd (Run shell at c w)) = part w) \<Longrightarrow> keeps part (DiscardDump shell plan)"
  by (auto simp: keeps_def DiscardDump_def split: prod.split option.split) (metis snd_conv)+

locale quiet_ports =
  fixes sql :: "'w sql_port" and shell :: "'w shell_port" and part :: "'w \<Rightarrow> 'b"
  assumes Exec_keeps [keep]: "keeps part (Exec sql at st)"
    and Query_keeps [keep]: "keeps part (Query sql at st)"
    and Run_keeps [keep]: "part (snd (Run shell at c w)) = part w"
begin

lemma keeps_drops:
  "keeps part (dropOwnedDatabase sql at owner)"
  "keeps part (dropSubscriptionsIn sql at)"
  unfolding dropOwnedDatabase_def dropSubscriptionsIn_def dropDatabase_def ownedBy_def
  by (auto intro!: keep split: sum.split)

lemma keeps_database_drops [keep]:
  "keeps part (DropSourceDatabase sql at owner)"
  "keeps part (DropTargetDatabase sql at owner)"
  unfolding DropSourceDatabase_def DropTargetDatabase_def by (auto intro!: keep keeps_drops)

lemma keeps_roles [keep]:
  "keeps part (EnumerateTenantRoles sql at)"
  "keeps part (EnsureTenantRoles sql at roles)"
  "keeps part (CarryMemberships sql at at' roles)"
  "keeps part (SettleTargetGrants sql plan owner)"
  unfolding EnumerateTenantRoles_def EnsureTenantRoles_def CarryMemberships_def SettleTargetGrants_def
    RevokeReplicationReads_def Let_def
  by (auto intro!: keep)

lemma keeps_SchemaCopied [keep]: "keeps part (SchemaCopied sql plan)"
  unfolding SchemaCopied_def by (auto intro!: keep)

lemma keeps_provision [keep]:
  "keeps part (GrantSourceReads sql at role)"
  "keeps part (StartReplication sql plan)"
  "keeps part (ProvisionTarget sql shell plan owner copySchema mayReset)"
  unfolding GrantSourceReads_def StartReplication_def ProvisionTarget_def ensureOwnerRole_def
    resetUnstampedTarget_def ownedBy_def Let_def
  by (auto intro!: keep)

lemma keeps_copy [keep]:
  "keeps part (CopyOffline shell plan)"
  "keeps part (ReadCopyProgress sql plan)"
  "keeps part (ReadLagBytes sql plan)"
  "keeps part (CurrentWALLSN sql plan)"
  "keeps part (ConfirmedThrough sql plan lsn)"
  unfolding CopyOffline_def ReadCopyProgress_def ReadLagBytes_def CurrentWALLSN_def
    ConfirmedThrough_def Let_def
  by (auto intro!: keep split: option.split list.split)

lemma keeps_sequences [keep]: "keeps part (SequencePlan_Reconcile sql p source target)"
  unfolding SequencePlan_Reconcile_def ReadSequences_def ApplySequences_def Let_def
  by (auto intro!: keep split: sum.split)

lemma keeps_fence [keep]:
  "keeps part (FenceSource sql at)" "keeps part (UnfenceSource sql at)"
  unfolding FenceSource_def UnfenceSource_def Let_def by (auto intro!: keep)

lemma keeps_runStep [keep]: "keeps part (runStep sql plan role step)"
  by (cases step) (auto intro!: keep simp: ifSubscriptionExists_def DropSlot_def revokeSourceReads_def
      clearSchemaStamp_def)

lemma keeps_Cleanup [keep]: "keeps part (Cleanup sql plan role discarding)"
  unfolding Cleanup_def sourceAdmitsConnections_def by (auto intro!: keep split: sum.split)

lemma keeps_Verify [keep]: "keeps part (Verify sql level source target)"
  unfolding Verify_def schemaFingerprint_def relations_def count_differences_def rowCounts_def
    checksum_differences_def checksum_def Let_def
  by (auto intro!: keep split: sum.split)

end

section \<open>Guarded drops\<close>

lemma dropOwnedDatabase_unowned:
  assumes "\<And>at st. keeps part (Query sql at st)"
    and "\<And>at d w n w'. scalarInt64 sql at (CountOwnedDatabase d owner) w = (Inr n, w') \<Longrightarrow> n \<le> 0"
  shows "keeps part (dropOwnedDatabase sql at owner)"
proof -
  let ?refuse = "eff_bind (scalarInt64 sql (WithDatabase at ''postgres'') (CountDatabase (ep_Database at)))
    (\<lambda>exists. if exists = 0 then eff_return ()
      else eff_fail (''refusing to drop database '' @ ep_Database at @ '' on '' @ ep_Instance at @
                  '': it is not owned by '' @ owner @ '', so this migration did not create it''))"
  have refuse: "keeps part ?refuse" using assms(1) by (auto intro!: keep)
  have owned: "keeps part (ownedBy sql at owner)"
    using assms(1) by (auto simp: ownedBy_def intro!: keep)
  have never: "ownedBy sql at owner w \<noteq> (Inr True, w')" for w w'
    using assms(2) by (auto simp: ownedBy_def eff_bind_Inr) fastforce
  have "part (snd (dropOwnedDatabase sql at owner w)) = part w" for w
  proof -
    obtain r w1 where r: "ownedBy sql at owner w = (r, w1)" by fastforce
    have w1: "part w1 = part w" using keepsD [OF owned r] .
    have "dropOwnedDatabase sql at owner w = ?refuse w1" if "r = Inr False"
      using r that by (simp add: dropOwnedDatabase_def eff_bind_def)
    moreover have "r \<noteq> Inr True" using never [of w w1] r by auto
    moreover have "dropOwnedDatabase sql at owner w = (Inl e, w1)" if "r = Inl e" for e
      using r that by (simp add: dropOwnedDatabase_def eff_bind_def)
    ultimately show ?thesis
      using refuse w1 by (cases r) (auto simp: keeps_def)
  qed
  then show ?thesis by (simp add: keeps_def)
qed

lemma DropTargetDatabase_unowned:
  assumes "\<And>at st. keeps part (Query sql at st)"
    and "\<And>at st. \<forall>d. st \<noteq> DropDatabase d \<Longrightarrow> keeps part (Exec sql at st)"
    and "\<And>at d w n w'. scalarInt64 sql at (CountOwnedDatabase d owner) w = (Inr n, w') \<Longrightarrow> n \<le> 0"
  shows "keeps part (DropTargetDatabase sql at owner)"
  unfolding DropTargetDatabase_def dropSubscriptionsIn_def eff_each.simps
  using assms by (auto intro!: keep dropOwnedDatabase_unowned split: sum.split)

section \<open>The ladder\<close>

lemma eff_collect_append:
  "eff_collect f (xs @ ys) w =
     (case eff_collect f xs w of (es, w1) \<Rightarrow> case eff_collect f ys w1 of (es', w2) \<Rightarrow> (es @ es', w2))"
  by (induction xs arbitrary: w) (auto split: prod.splits sum.splits)

lemma ladder_rungs_slot:
  obtains before after where "ladder_rungs sourceOpen discarding = before @ StepDropSlot # after"
    "StepDropSlot \<notin> set before" "StepDropSlot \<notin> set after"
  by (rule that [of "[StepDisableSubscription, StepDetachSlot, StepDropSubscription]"
        "drop 4 (ladder_rungs sourceOpen discarding)"])
    (cases sourceOpen; cases discarding; simp add: ladder_rungs_def LadderOrder_def stepNeedsSourceDatabase_def)+

lemma collect_keeps_list:
  "(\<And>x. x \<in> set xs \<Longrightarrow> keeps part (f x)) \<Longrightarrow> part (snd (eff_collect f xs w)) = part w"
proof (induction xs arbitrary: w)
  case (Cons x xs)
  obtain r w' where step: "f x w = (r, w')" by fastforce
  then have "part w' = part w" using keepsD Cons.prems by (metis list.set_intros(1))
  with step Cons.IH [of w'] Cons.prems show ?case by (cases r) (auto split: prod.split)
qed simp

section \<open>Properties\<close>


text \<open>
  The cleanup ladder always reaches the rung that matters most. If nothing but the drop of the
  migration's slot changes whether that drop was attempted, and issuing it on the source attempts it,
  then after the ladder it has been attempted, whatever any other rung or query returns.
\<close>

theorem cleanup_always_tries_to_drop_the_slot:
  assumes "\<And>at st. st \<noteq> DropReplicationSlot (pl_Slot plan) \<Longrightarrow> keeps attempted (Exec sql at st)"
    and "\<And>at st. keeps attempted (Query sql at st)"
    and "\<And>w. attempted (snd (Exec sql (WithDatabase (pl_Source plan) ''postgres'')
      (DropReplicationSlot (pl_Slot plan)) w))"
  shows "attempted (snd (Cleanup sql plan role discarding w))"
proof -
  let ?rung = "\<lambda>step. eff_wrap (''cleanup step '' @ ladder_step_string step @ '': '') (runStep sql plan role step)"
  have others: "keeps attempted (?rung step)" if "step \<noteq> StepDropSlot" for step
    using that assms(1,2)
    by (cases step) (auto intro!: keep simp: ifSubscriptionExists_def revokeSourceReads_def
        clearSchemaStamp_def SchemaCopied_def)
  have slot: "attempted (snd (?rung StepDropSlot v))" for v
    using assms(3) [of v] by (auto simp: eff_wrap_def DropSlot_def split: prod.split sum.split)
  have ladder: "attempted (snd (eff_all ?rung (ladder_rungs sourceOpen discarding) v))" for sourceOpen v
  proof -
    obtain before after where rungs: "ladder_rungs sourceOpen discarding = before @ StepDropSlot # after"
      "StepDropSlot \<notin> set before" "StepDropSlot \<notin> set after" by (rule ladder_rungs_slot)
    obtain es w1 where first: "eff_collect ?rung before v = (es, w1)" by fastforce
    obtain r w2 where mid: "?rung StepDropSlot w1 = (r, w2)" by fastforce
    have "attempted w2" using slot [of w1] mid by simp
    moreover have "attempted (snd (eff_collect ?rung after w2)) = attempted w2"
      using others rungs(3) by (intro collect_keeps_list) metis
    ultimately show ?thesis
      using first mid by (cases r) (auto simp: eff_all_def rungs(1) eff_collect_append split: prod.splits)
  qed
  show ?thesis
    unfolding Cleanup_def
    using ladder by (auto simp: eff_bind_def sourceAdmitsConnections_def eff_try_def eff_return_def
        split: prod.splits sum.splits)
qed

text \<open>A port on which every statement fails, with the statements that were sent as its world.\<close>

definition failing_port :: "sql_statement list sql_port" where
  "failing_port =
     \<lparr>Exec = (\<lambda>at st w. (Inl ''down'', w @ [st])), Query = (\<lambda>at st w. (Inl ''down'', w))\<rparr>"

definition example_plan :: plan where
  "example_plan =
     \<lparr>pl_Source = \<lparr>ep_Namespace = ''ns'', ep_Instance = ''A'', ep_Member = [], ep_Database = ''shop''\<rparr>,
      pl_Target = \<lparr>ep_Namespace = ''ns'', ep_Instance = ''B'', ep_Member = [], ep_Database = ''shop''\<rparr>,
      pl_Publication = ''pub'', pl_Slot = ''slot'', pl_Subscription = ''sub'', pl_SchemaStamp = [],
      pl_SourceConnInfo = ''host=A'', pl_Concurrency = 1, pl_DumpDir = ''/dump''\<rparr>"


theorem cleanup_always_tries_to_drop_the_slot_witness:
  "DropReplicationSlot ''slot'' \<in> set (snd (Cleanup failing_port example_plan ''repl'' False []))"
  by (rule cleanup_always_tries_to_drop_the_slot [where plan = example_plan and
        attempted = "\<lambda>log. DropReplicationSlot ''slot'' \<in> set log"])
    (auto simp: failing_port_def keeps_def example_plan_def)

section \<open>The verdict\<close>

text \<open>A port that only reads: every query has its answer and changes nothing.\<close>

definition reader :: "(endpoint \<Rightarrow> sql_statement \<Rightarrow> row list) \<Rightarrow> 'w sql_port \<Rightarrow> bool" where
  "reader answer sql \<longleftrightarrow> (\<forall>at st w. Query sql at st w = (Inr (answer at st), w))"

lemma reader_scalar: "reader answer sql \<Longrightarrow> scalar sql at st w = (fst (scalar sql at st w), w)"
  by (auto simp: reader_def scalar_def eff_bind_def eff_fail_def eff_return_def split: list.split)

lemma reader_scalarInt64: "reader answer sql \<Longrightarrow> scalarInt64 sql at st w = (fst (scalarInt64 sql at st w), w)"
  using reader_scalar [of answer sql at st w]
  by (auto simp: scalarInt64_def eff_bind_def eff_fail_def eff_return_def split: prod.splits sum.splits)

lemma reader_scalarInt64_Inr:
  assumes "reader answer sql" "scalarInt64 sql at st w = (Inr n, w')"
  shows "w' = w"
  using reader_scalarInt64 [OF assms(1), of at st w] assms(2) by simp

lemma reader_scalar_Inr:
  assumes "reader answer sql" "scalar sql at st w = (Inr n, w')"
  shows "w' = w"
  using reader_scalar [OF assms(1), of at st w] assms(2) by simp

lemma eff_map_reader:
  assumes "\<And>x y w w'. f x w = (Inr y, w') \<Longrightarrow> w' = w" and "eff_map f xs w = (Inr ys, w')"
  shows "w' = w \<and> list_all2 (\<lambda>x y. f x w = (Inr y, w)) xs ys"
  using assms(2)
proof (induction xs arbitrary: ys)
  case (Cons x xs)
  then obtain y w1 ys' where head: "f x w = (Inr y, w1)" and rest: "eff_map f xs w1 = (Inr ys', w')"
    and ys: "ys = y # ys'"
    by (auto simp: eff_bind_Inr)
  from head have "w1 = w" by (rule assms(1))
  with Cons.IH rest head ys show ?case by auto
qed simp

lemma count_differences_reader:
  assumes "reader answer sql" "count_differences sql source target rs w = (Inr ds, w')"
  shows "w' = w \<and> (ds = [] \<longleftrightarrow> (\<forall>r \<in> set rs. fst (scalarInt64 sql source (CountRows (fst r) (snd r)) w) =
    fst (scalarInt64 sql target (CountRows (fst r) (snd r)) w)))"
proof -
  let ?one = "\<lambda>r. eff_bind (rowCounts sql source target r) (\<lambda>(a, b).
         eff_return (if a \<noteq> b then [\<lparr>df_Relation = Relation_String r, df_Source = Itoa a,
                                     df_Target = Itoa b, df_What = ''row count''\<rparr>] else []))"
  obtain dss where dss: "eff_map ?one rs w = (Inr dss, w')" "ds = concat dss"
    using assms(2) by (auto simp: count_differences_def eff_bind_Inr)
  have one: "w2 = w1 \<and> (d = [] \<longleftrightarrow> fst (scalarInt64 sql source (CountRows (fst r) (snd r)) w1) =
      fst (scalarInt64 sql target (CountRows (fst r) (snd r)) w1))"
    if step: "?one r w1 = (Inr d, w2)" for r d w1 w2
  proof -
    obtain a b wa where "scalarInt64 sql source (CountRows (fst r) (snd r)) w1 = (Inr a, wa)"
      "scalarInt64 sql target (CountRows (fst r) (snd r)) wa = (Inr b, w2)" "d = [] \<longleftrightarrow> a = b"
      using step by (auto simp: rowCounts_def eff_success split: if_splits)
    moreover from this have "wa = w1" "w2 = wa" using reader_scalarInt64_Inr [OF assms(1)] by blast+
    ultimately show ?thesis by simp
  qed
  from eff_map_reader [OF _ dss(1)] one have all: "w' = w" "list_all2 (\<lambda>r d. ?one r w = (Inr d, w)) rs dss"
    by (metis (no_types, lifting))+
  from all(2) have "(concat dss = []) = (\<forall>r \<in> set rs. fst (scalarInt64 sql source (CountRows (fst r) (snd r)) w) =
      fst (scalarInt64 sql target (CountRows (fst r) (snd r)) w))"
    by (induction rs dss rule: list_all2_induct) (auto dest!: one)
  with dss(2) all(1) show ?thesis by simp
qed

lemma checksum_differences_reader:
  assumes "reader answer sql" "checksum_differences sql source target rs w = (Inr ds, w')"
  shows "w' = w \<and> (ds = [] \<longleftrightarrow> (\<forall>r \<in> set rs. fst (scalar sql source (ChecksumRelation (fst r) (snd r)) w) =
    fst (scalar sql target (ChecksumRelation (fst r) (snd r)) w)))"
proof -
  let ?one = "\<lambda>r. eff_bind (checksum sql source r) (\<lambda>a. eff_bind (checksum sql target r) (\<lambda>b.
         eff_return (if a \<noteq> b then [\<lparr>df_Relation = Relation_String r, df_Source = a, df_Target = b,
                                     df_What = ''content checksum''\<rparr>] else [])))"
  obtain dss where dss: "eff_map ?one rs w = (Inr dss, w')" "ds = concat dss"
    using assms(2) by (auto simp: checksum_differences_def eff_bind_Inr)
  have one: "w2 = w1 \<and> (d = [] \<longleftrightarrow> fst (scalar sql source (ChecksumRelation (fst r) (snd r)) w1) =
      fst (scalar sql target (ChecksumRelation (fst r) (snd r)) w1))"
    if step: "?one r w1 = (Inr d, w2)" for r d w1 w2
  proof -
    obtain a b wa where "scalar sql source (ChecksumRelation (fst r) (snd r)) w1 = (Inr a, wa)"
      "scalar sql target (ChecksumRelation (fst r) (snd r)) wa = (Inr b, w2)" "d = [] \<longleftrightarrow> a = b"
      using step by (auto simp: checksum_def eff_success split: if_splits)
    moreover from this have "wa = w1" "w2 = wa" using reader_scalar_Inr [OF assms(1)] by blast+
    ultimately show ?thesis by simp
  qed
  from eff_map_reader [OF _ dss(1)] one have all: "w' = w" "list_all2 (\<lambda>r d. ?one r w = (Inr d, w)) rs dss"
    by (metis (no_types, lifting))+
  from all(2) have "(concat dss = []) = (\<forall>r \<in> set rs. fst (scalar sql source (ChecksumRelation (fst r) (snd r)) w) =
      fst (scalar sql target (ChecksumRelation (fst r) (snd r)) w))"
    by (induction rs dss rule: list_all2_induct) (auto dest!: one)
  with dss(2) all(1) show ?thesis by simp
qed

lemma schemaFingerprint_reader:
  assumes "reader answer sql" "schemaFingerprint sql at w = (Inr f, w')"
  shows "w' = w"
proof -
  obtain ds where "eff_map (\<lambda>part. scalar sql at (SchemaFingerprintPart part)) schemaFingerprintParts w = (Inr ds, w')"
    using assms(2) by (auto simp: schemaFingerprint_def eff_bind_Inr)
  from eff_map_reader [OF _ this] show ?thesis using reader_scalar_Inr [OF assms(1)] by blast
qed

lemma relations_reader:
  assumes "reader answer sql" "relations sql at w = (Inr rs, w')"
  shows "w' = w"
  using assms by (auto simp: relations_def eff_bind_Inr reader_def split: sum.splits)

text \<open>
  C19. The verdict is exact. On ports that only read, a verification that returns is favourable if and
  only if the two schema fingerprints agree, at every level above Schema every relation of the source
  has the same row count on both sides, and at Checksums the same content digest.
\<close>

theorem Verify_is_exact:
  assumes "reader answer sql" and "Verify sql level source target w = (Inr r, w')"
    and "relations sql source w = (Inr rs, w)"
  shows "Equivalent r \<longleftrightarrow>
    fst (schemaFingerprint sql source w) = fst (schemaFingerprint sql target w) \<and>
    (level = VerifySchema \<or>
     (\<forall>rel \<in> set rs. fst (scalarInt64 sql source (CountRows (fst rel) (snd rel)) w) =
                     fst (scalarInt64 sql target (CountRows (fst rel) (snd rel)) w)) \<and>
     (level = VerifyRowCounts \<or>
      (\<forall>rel \<in> set rs. fst (scalar sql source (ChecksumRelation (fst rel) (snd rel)) w) =
                      fst (scalar sql target (ChecksumRelation (fst rel) (snd rel)) w))))"
proof -
  obtain sf w1 where sf: "schemaFingerprint sql source w = (Inr sf, w1)"
    using assms(2) by (auto simp: Verify_def eff_success)
  then have "w1 = w" by (rule schemaFingerprint_reader [OF assms(1)])
  with sf have sf: "schemaFingerprint sql source w = (Inr sf, w)" by simp
  obtain tf w2 where tf: "schemaFingerprint sql target w = (Inr tf, w2)"
    using assms(2) sf by (auto simp: Verify_def eff_success)
  then have "w2 = w" by (rule schemaFingerprint_reader [OF assms(1)])
  with tf have tf: "schemaFingerprint sql target w = (Inr tf, w)" by simp
  show ?thesis
    using assms(2,3) sf tf
    by (cases level)
      (auto simp: Verify_def eff_success Equivalent_def Let_def
        dest!: count_differences_reader [OF assms(1)] checksum_differences_reader [OF assms(1)]
        split: if_splits)
qed

text \<open>
  The catalog answers of the role queries are casts of booleans to text, which PostgreSQL spells
  \<open>true\<close> and \<open>false\<close>, while the readers compare with \<open>t\<close>: every role is carried without LOGIN and
  without INHERIT, and every membership with all its options off, whatever the source had.
\<close>

theorem boolean_casts_are_not_read:
  "rs_CanLogin (role_of_row [name, ''true'', ''true'', limit, until]) = False \<and>
   rs_Inherit (role_of_row [name, ''true'', ''true'', limit, until]) = False \<and>
   optionWord ''true'' = optionWord ''false'' \<and> optionWord ''true'' = ''FALSE''"
proof -
  have "TrimSpace ''true'' = ''true''" by code_simp
  moreover have "TrimSpace ''false'' = ''false''" by code_simp
  ultimately show ?thesis by (simp add: role_of_row_def optionWord_def numeral_eq_Suc)
qed

definition example_answer :: "endpoint \<Rightarrow> sql_statement \<Rightarrow> row list" where
  "example_answer at st =
     (case st of
        ListRelations \<Rightarrow> [[''public'', ''orders'']]
      | CountRows schema name \<Rightarrow> (if ep_Instance at = ''A'' then [[''6'']] else [[''5'']])
      | _ \<Rightarrow> [[''digest'']])"

definition example_reader :: "unit sql_port" where
  "example_reader =
     \<lparr>Exec = (\<lambda>at st. eff_return ()), Query = (\<lambda>at st. eff_return (example_answer at st))\<rparr>"

lemma example_reader_simps [simp]:
  "Query example_reader at st w = (Inr (example_answer at st), w)"
  "reader example_answer example_reader"
  by (simp_all add: example_reader_def eff_return_def reader_def)

lemma example_counts:
  "scalarInt64 example_reader (pl_Source example_plan) (CountRows a b) w = (Inr 6, w)"
  "scalarInt64 example_reader (pl_Target example_plan) (CountRows a b) w = (Inr 5, w)"
proof -
  have "TrimSpace ''6'' = ''6''" "TrimSpace ''5'' = ''5''" by code_simp+
  moreover have "ParseInt ''6'' = Inr 6" "ParseInt ''5'' = Inr 5"
    by (simp_all add: ParseInt_def ParseUint_def digit_value_def of_char_def)
  ultimately show "scalarInt64 example_reader (pl_Source example_plan) (CountRows a b) w = (Inr 6, w)"
    "scalarInt64 example_reader (pl_Target example_plan) (CountRows a b) w = (Inr 5, w)"
    by (simp_all add: scalarInt64_def scalar_def eff_bind_def eff_return_def example_answer_def
        example_plan_def)
qed

lemma example_relations:
  "relations example_reader at w = (Inr [(''public'', ''orders'')], w)"
  by (simp add: relations_def eff_bind_def eff_return_def example_answer_def)

lemma example_Verify_returns:
  "\<exists>r. Verify example_reader VerifyRowCounts (pl_Source example_plan) (pl_Target example_plan) w = (Inr r, w)"
proof -
  have "schemaFingerprint example_reader at w =
      (Inr (join_with (CHR '':'') (sort_func go_compare (replicate 7 ''digest''))), w)" for at
    by (simp add: schemaFingerprint_def schemaFingerprintParts_def scalar_def eff_bind_def eff_return_def
        example_answer_def numeral_eq_Suc)
  then show ?thesis
    by (simp add: Verify_def example_relations eff_bind_def eff_wrap_def eff_return_def Let_def
        count_differences_def rowCounts_def example_counts)
qed

theorem Verify_is_exact_witness:
  "\<exists>r. Verify example_reader VerifyRowCounts (pl_Source example_plan) (pl_Target example_plan) () = (Inr r, ()) \<and>
     \<not> Equivalent r"
proof -
  obtain r where r: "Verify example_reader VerifyRowCounts (pl_Source example_plan) (pl_Target example_plan) () = (Inr r, ())"
    using example_Verify_returns by blast
  from Verify_is_exact [OF example_reader_simps(2) r example_relations] r show ?thesis
    by (simp add: example_counts)
qed

end
