(* ===== verification/Migration_Engine.thy ===== *)
theory Migration_Engine
  imports Migration_Phase Migration_Steps
begin

text \<open>
  The migration engine (\<open>internal/migration/engine.go\<close>) over its three ports, and the router that
  keeps the routing table of record (\<open>internal/migration/router.go\<close>). \<open>Step\<close> performs the effect of
  the current phase and reports what it observed, \<open>Apply\<close> performs the effects of a decision. The
  preflight gate is an argument, a function of the world it reads.

  What the engine relies on of a router is the locale \<open>routing\<close>: one part of the world is the
  routing table, reads report it, a successful \<open>Route\<close> writes it and nothing else touches it. The
  binding router is shown to satisfy it.
\<close>

section \<open>Ports\<close>

record tenant_ref =
  tr_Namespace :: string
  tr_Name :: string

definition TenantRef_String :: "tenant_ref \<Rightarrow> string" where
  "TenantRef_String t = tr_Namespace t @ ''/'' @ tr_Name t"

record drain_status =
  ds_Known :: bool
  ds_Quiesced :: bool
  ds_Queued :: int
  ds_InFlight :: int
  ds_Drained :: bool
  ds_LeaseExpiresIn :: duration

definition zero_drain_status :: drain_status where
  "zero_drain_status =
     \<lparr>ds_Known = False, ds_Quiesced = False, ds_Queued = 0, ds_InFlight = 0, ds_Drained = False,
      ds_LeaseExpiresIn = 0\<rparr>"

record 'w router =
  rt_Quiesce :: "tenant_ref \<Rightarrow> string \<Rightarrow> ('w, unit) eff"
  rt_PreWarm :: "tenant_ref \<Rightarrow> string \<Rightarrow> ('w, unit) eff"
  rt_Route :: "tenant_ref \<Rightarrow> string \<Rightarrow> ('w, unit) eff"
  rt_Resume :: "tenant_ref \<Rightarrow> ('w, unit) eff"
  rt_Release :: "tenant_ref \<Rightarrow> ('w, unit) eff"
  rt_RoutedTo :: "tenant_ref \<Rightarrow> ('w, string) eff"
  rt_DrainStatus :: "tenant_ref \<Rightarrow> ('w, drain_status) eff"

record 'w engine =
  en_SQL :: "'w sql_port"
  en_Shell :: "'w shell_port option"
  en_Router :: "'w router"

section \<open>A run\<close>

record run =
  run_Migration :: tenant_ref
  run_Tenant :: tenant_ref
  run_Phase :: migration_phase
  run_Strategy :: migration_strategy
  run_Plan :: plan
  run_Sequences :: sequence_plan
  run_Verification :: verification_level
  run_ReplicationRole :: string
  run_Owner :: string
  run_AbortRequested :: bool
  run_AbortMessage :: string
  run_RollbackRequested :: bool
  run_RollbackWindowClosed :: bool
  run_SourceDropped :: bool
  run_QuiesceStartedAt :: "time option"
  run_DrainTimeout :: duration
  run_CutoverTimeout :: duration
  run_FaultingSince :: "time option"
  run_RetryBudget :: duration
  run_RollbackWindow :: duration
  run_MaxLagBytes :: "int option"

record step_result =
  sr_Observation :: migration_observation
  sr_Verification :: "verification_result option"
  sr_LagBytes :: "int option"
  sr_Copied :: "int option"
  sr_Total :: "int option"
  sr_PauseMillis :: "int option"
  sr_Queued :: "int option"

definition run_source :: "run \<Rightarrow> string" where
  "run_source run = ep_Instance (pl_Source (run_Plan run))"

definition run_target :: "run \<Rightarrow> string" where
  "run_target run = ep_Instance (pl_Target (run_Plan run))"

section \<open>Budgets\<close>

definition faultBudgetExceeded :: "time \<Rightarrow> run \<Rightarrow> error option \<Rightarrow> bool" where
  "faultBudgetExceeded now run err =
     (case err of
        None \<Rightarrow> False
      | Some _ \<Rightarrow>
          if run_RetryBudget run \<le> 0 then True
          else case run_FaultingSince run of
                 None \<Rightarrow> False
               | Some since \<Rightarrow> time_sub now since > run_RetryBudget run)"

definition applyPauseBudget :: "time \<Rightarrow> run \<Rightarrow> step_result \<Rightarrow> step_result" where
  "applyPauseBudget now run result =
     (case run_QuiesceStartedAt run of
        None \<Rightarrow> result
      | Some started \<Rightarrow>
          let elapsed = time_sub now started;
              obs = sr_Observation result;
              obs = (if run_Phase run = TenantMigrationPhaseQuiescing \<and> run_DrainTimeout run > 0 \<and>
                        elapsed > run_DrainTimeout run \<and> \<not> mo_Drained obs
                     then obs\<lparr>mo_DrainDeadlineExceeded := True\<rparr> else obs);
              obs = (if run_CutoverTimeout run > 0 \<and> elapsed > run_CutoverTimeout run \<and>
                        \<not> mo_CutoverComplete obs
                     then obs\<lparr>mo_CutoverDeadlineExceeded := True\<rparr> else obs)
          in result\<lparr>sr_Observation := obs\<rparr>)"

section \<open>The phases' effects\<close>

text \<open>
  An effect of a phase returns the step result it filled in and, when it failed, the error, since
  the source keeps what was observed before the failure.
\<close>

type_synonym 'w phase_effect = "step_result \<Rightarrow> 'w \<Rightarrow> (step_result \<times> error option) \<times> 'w"

text \<open>An effect that only reports its last observation.\<close>

definition phase_of :: "('w, step_result \<Rightarrow> step_result) eff \<Rightarrow> 'w phase_effect" where
  "phase_of m result w =
     (case m w of (Inl e, w') \<Rightarrow> ((result, Some e), w') | (Inr f, w') \<Rightarrow> ((f result, None), w'))"

definition observe :: "(migration_observation \<Rightarrow> migration_observation) \<Rightarrow> step_result \<Rightarrow> step_result" where
  "observe f r = r\<lparr>sr_Observation := f (sr_Observation r)\<rparr>"

text \<open>\<open>Engine.Shell\<close> is nil on an engine built without one; running a command on it then panics.\<close>

definition engine_shell :: "'w engine \<Rightarrow> 'w shell_port" where
  "engine_shell e =
     (case en_Shell e of
        None \<Rightarrow> \<lparr>Run = (\<lambda>at command w. (([], Some ''panic: nil Shell''), w))\<rparr>
      | Some shell \<Rightarrow> shell)"

definition engine_provision :: "'w engine \<Rightarrow> run \<Rightarrow> 'w phase_effect" where
  "engine_provision e run =
     (let sql = en_SQL e;
          plan = run_Plan run;
          online = (run_Strategy run = TenantMigrationOnline) in
      phase_of
        (eff_then (GrantSourceReads sql (pl_Source plan) (run_ReplicationRole run))
        (eff_try (rt_RoutedTo (en_Router e) (run_Tenant run)) (\<lambda>routed.
          let servingFromSource = (case routed of Inl _ \<Rightarrow> False | Inr i \<Rightarrow> i = run_source run) in
          eff_then (ProvisionTarget sql (engine_shell e) plan (run_Owner run) online servingFromSource)
          (eff_then (if online then StartReplication sql plan else eff_return ())
          (eff_return (observe (\<lambda>obs. obs\<lparr>mo_Provisioned := True\<rparr>))))))))"

definition engine_preWarm :: "'w engine \<Rightarrow> run \<Rightarrow> 'w phase_effect" where
  "engine_preWarm e run =
     phase_of (eff_then (rt_PreWarm (en_Router e) (run_Tenant run) (run_target run))
       (eff_return (observe (\<lambda>obs. obs\<lparr>mo_PreWarmed := True\<rparr>))))"

definition engine_copy :: "'w engine \<Rightarrow> run \<Rightarrow> 'w phase_effect" where
  "engine_copy e run =
     (if run_Strategy run = TenantMigrationOffline then
        phase_of
          (eff_then (CopyOffline (engine_shell e) (run_Plan run))
          (eff_then (SettleTargetGrants (en_SQL e) (run_Plan run) (run_Owner run))
          (eff_then (DiscardDump (engine_shell e) (run_Plan run))
          (eff_return (observe (\<lambda>obs. obs\<lparr>mo_CopyComplete := True\<rparr>))))))
      else
        phase_of (eff_bind (ReadCopyProgress (en_SQL e) (run_Plan run)) (\<lambda>progress.
          eff_return (\<lambda>r. observe (\<lambda>obs. obs\<lparr>mo_CopyComplete := CopyProgress_Done progress\<rparr>)
            (r\<lparr>sr_Copied := Some (cp_Copied progress), sr_Total := Some (cp_Total progress)\<rparr>)))))"

definition engine_catchup :: "'w engine \<Rightarrow> run \<Rightarrow> 'w phase_effect" where
  "engine_catchup e run =
     phase_of (eff_bind (ReadLagBytes (en_SQL e) (run_Plan run)) (\<lambda>lag.
       let threshold = (case run_MaxLagBytes run of None \<Rightarrow> 0 | Some n \<Rightarrow> n) in
       eff_return (\<lambda>r. observe (\<lambda>obs. obs\<lparr>mo_CaughtUp := lag \<le> threshold\<rparr>) (r\<lparr>sr_LagBytes := Some lag\<rparr>))))"

definition engine_quiesce :: "'w engine \<Rightarrow> run \<Rightarrow> 'w phase_effect" where
  "engine_quiesce e run =
     phase_of
       (eff_then (rt_Quiesce (en_Router e) (run_Tenant run) (TenantRef_String (run_Migration run)))
       (eff_bind (rt_DrainStatus (en_Router e) (run_Tenant run)) (\<lambda>gate.
       eff_bind (scalarInt64 (en_SQL e) (pl_Source (run_Plan run)) InFlightTransactions) (\<lambda>inFlight.
       eff_return (\<lambda>r. observe (\<lambda>obs. obs\<lparr>mo_Drained := inFlight = 0 \<and> (\<not> ds_Known gate \<or> ds_Drained gate)\<rparr>)
         (r\<lparr>sr_Queued := Some (ds_Queued gate)\<rparr>))))))"

definition ownsRouting :: "run \<Rightarrow> string \<Rightarrow> bool" where
  "ownsRouting run routed \<longleftrightarrow> routed = [] \<or> routed = run_source run \<or> routed = run_target run"

definition awaitFinalLSN :: "'w engine \<Rightarrow> run \<Rightarrow> ('w, bool) eff" where
  "awaitFinalLSN e run =
     eff_bind (CurrentWALLSN (en_SQL e) (run_Plan run)) (\<lambda>lsn.
       ConfirmedThrough (en_SQL e) (run_Plan run) lsn)"

text \<open>\<open>Duration.Milliseconds\<close>.\<close>

definition Milliseconds :: "duration \<Rightarrow> int" where
  "Milliseconds d = d sdiv 1000000"

definition foreign_route_error :: "run \<Rightarrow> string \<Rightarrow> error" where
  "foreign_route_error run routed =
     ''the tenant is routed to '' @ routed @ '', which is neither this migration's source '' @
     run_source run @ '' nor its target '' @ run_target run @ '', so another migration has moved it''"

text \<open>The part of the cutover after the evidence: the claim on the route, the fence, the flip.\<close>

definition cutover_flip :: "'w engine \<Rightarrow> run \<Rightarrow> ('w, unit) eff" where
  "cutover_flip e run =
     eff_bind (rt_RoutedTo (en_Router e) (run_Tenant run)) (\<lambda>routed.
       if \<not> ownsRouting run routed then eff_fail (foreign_route_error run routed)
       else eff_then (FenceSource (en_SQL e) (pl_Source (run_Plan run)))
              (rt_Route (en_Router e) (run_Tenant run) (run_target run)))"

definition cutover_complete :: "time \<Rightarrow> run \<Rightarrow> step_result \<Rightarrow> step_result" where
  "cutover_complete now run r =
     (let r = (case run_QuiesceStartedAt run of
                 None \<Rightarrow> r
               | Some started \<Rightarrow> r\<lparr>sr_PauseMillis := Some (Milliseconds (time_sub now started))\<rparr>)
      in observe (\<lambda>obs. obs\<lparr>mo_CutoverComplete := True\<rparr>) r)"

definition engine_cutover :: "time \<Rightarrow> 'w engine \<Rightarrow> run \<Rightarrow> 'w phase_effect" where
  "engine_cutover now e run result w0 =
     (case (if run_Strategy run = TenantMigrationOnline then awaitFinalLSN e run else eff_return True) w0 of
        (Inl err, w1) \<Rightarrow> ((result, Some err), w1)
      | (Inr caught, w1) \<Rightarrow>
          if \<not> caught then ((result, None), w1)
          else case SequencePlan_Reconcile (en_SQL e) (run_Sequences run) (pl_Source (run_Plan run))
                      (pl_Target (run_Plan run)) w1 of
            (Inl err, w2) \<Rightarrow> ((result, Some err), w2)
          | (Inr _, w2) \<Rightarrow>
              (case Verify (en_SQL e) (run_Verification run) (pl_Source (run_Plan run))
                      (pl_Target (run_Plan run)) w2 of
                 (Inl err, w3) \<Rightarrow> ((result, Some (''verification could not be completed: '' @ err)), w3)
               | (Inr verdict, w3) \<Rightarrow>
                   let result = result\<lparr>sr_Verification := Some verdict\<rparr> in
                   if \<not> Equivalent verdict then
                     ((result, Some (''verification refused the cutover: '' @ Verification_Message verdict)), w3)
                   else case cutover_flip e run w3 of
                     (Inl err, w4) \<Rightarrow> ((result, Some err), w4)
                   | (Inr _, w4) \<Rightarrow> ((cutover_complete now run result, None), w4)))"

section \<open>Step\<close>

definition initial_observation :: "run \<Rightarrow> migration_observation" where
  "initial_observation run =
     \<lparr>mo_Strategy = run_Strategy run, mo_AbortRequested = run_AbortRequested run,
      mo_AbortMessage = run_AbortMessage run, mo_RollbackRequested = run_RollbackRequested run,
      mo_Fault = None, mo_FaultBudgetExceeded = False, mo_PreflightPassed = False,
      mo_Provisioned = False, mo_PreWarmed = False, mo_CopyComplete = False, mo_CaughtUp = False,
      mo_Drained = False, mo_CutoverComplete = False, mo_DrainDeadlineExceeded = False,
      mo_CutoverDeadlineExceeded = False, mo_RollbackWindowClosed = run_RollbackWindowClosed run,
      mo_SourceDropped = run_SourceDropped run\<rparr>"

definition initial_result :: "run \<Rightarrow> step_result" where
  "initial_result run =
     \<lparr>sr_Observation = initial_observation run, sr_Verification = None, sr_LagBytes = None,
      sr_Copied = None, sr_Total = None, sr_PauseMillis = None, sr_Queued = None\<rparr>"

text \<open>The preflight gate: what it reads of the world and whether it passed.\<close>

type_synonym 'w preflight_gate = "run \<Rightarrow> 'w \<Rightarrow> bool \<times> 'w"

definition engine_preflight :: "'w preflight_gate \<Rightarrow> run \<Rightarrow> 'w phase_effect" where
  "engine_preflight gate run result w =
     (case gate run w of
        (passed, w') \<Rightarrow> ((observe (\<lambda>obs. obs\<lparr>mo_PreflightPassed := passed\<rparr>) result, None), w'))"

fun phase_effect :: "time \<Rightarrow> 'w preflight_gate \<Rightarrow> 'w engine \<Rightarrow> run \<Rightarrow> migration_phase \<Rightarrow> 'w phase_effect" where
  "phase_effect now gate e run TenantMigrationPhasePreflight = engine_preflight gate run"
| "phase_effect now gate e run TenantMigrationPhaseProvisioning = engine_provision e run"
| "phase_effect now gate e run TenantMigrationPhasePreWarm = engine_preWarm e run"
| "phase_effect now gate e run TenantMigrationPhaseCopying = engine_copy e run"
| "phase_effect now gate e run TenantMigrationPhaseCatchup = engine_catchup e run"
| "phase_effect now gate e run TenantMigrationPhaseQuiescing = engine_quiesce e run"
| "phase_effect now gate e run TenantMigrationPhaseCutover = engine_cutover now e run"
| "phase_effect now gate e run p = (\<lambda>result w. ((result, Some (''unknown phase '' @ phase_string p)), w))"

definition Step :: "time \<Rightarrow> 'w preflight_gate \<Rightarrow> 'w engine \<Rightarrow> run \<Rightarrow> 'w \<Rightarrow> step_result \<times> 'w" where
  "Step now gate e run w =
     (if run_AbortRequested run \<or> migration_Terminal (run_Phase run) then
        (applyPauseBudget now run (initial_result run), w)
      else
        case phase_effect now gate e run (run_Phase run) (initial_result run) w of
          ((result, err), w') \<Rightarrow>
            (applyPauseBudget now run
               (observe (\<lambda>obs. obs\<lparr>mo_Fault := err, mo_FaultBudgetExceeded := faultBudgetExceeded now run err\<rparr>)
                  result), w'))"

section \<open>Apply\<close>

definition restoreSource :: "'w engine \<Rightarrow> run \<Rightarrow> ('w, unit) eff" where
  "restoreSource e run =
     eff_then (eff_wrap ''readmitting connections to the source: ''
        (UnfenceSource (en_SQL e) (pl_Source (run_Plan run))))
     (eff_bind (rt_RoutedTo (en_Router e) (run_Tenant run)) (\<lambda>routed.
       if routed = run_source run then eff_return ()
       else if \<not> ownsRouting run routed then eff_return ()
       else rt_Route (en_Router e) (run_Tenant run) (run_source run)))"

definition release_effect :: "'w engine \<Rightarrow> run \<Rightarrow> migration_decision \<Rightarrow> ('w, unit) eff" where
  "release_effect e run decision =
     (if md_Serving decision = ServingTarget then
        eff_wrap ''resuming the tenant's clients: '' (rt_Resume (en_Router e) (run_Tenant run))
      else eff_wrap ''releasing the quiesce: '' (rt_Release (en_Router e) (run_Tenant run)))"

text \<open>The effects of one decision, in order; every one runs and every error is kept.\<close>

definition apply_effects :: "'w engine \<Rightarrow> run \<Rightarrow> migration_decision \<Rightarrow> ('w, unit) eff list" where
  "apply_effects e run decision =
     (if md_Serving decision = ServingSource then [restoreSource e run] else []) @
     (if md_ReleaseQuiesce decision then [release_effect e run decision] else []) @
     (if md_Cleanup decision then
        [Cleanup (en_SQL e) (run_Plan run) (run_ReplicationRole run) (md_DiscardTarget decision)] @
        (case en_Shell e of
           Some shell \<Rightarrow>
             if run_Strategy run = TenantMigrationOffline
             then [eff_wrap ''discarding the staged dump: '' (DiscardDump shell (run_Plan run))] else []
         | None \<Rightarrow> [])
      else []) @
     (if md_DiscardTarget decision then
        [eff_wrap ''discarding the half-built target: ''
           (DropTargetDatabase (en_SQL e) (pl_Target (run_Plan run)) (run_Owner run))] else []) @
     (if md_DropSource decision then
        [DropSourceDatabase (en_SQL e) (pl_Source (run_Plan run)) (run_Owner run)] else [])"

definition Apply :: "'w engine \<Rightarrow> run \<Rightarrow> migration_decision \<Rightarrow> ('w, unit) eff" where
  "Apply e run decision = eff_all (\<lambda>effect. effect) (apply_effects e run decision)"

text \<open>One reconcile of the engine: observe, decide, apply. The result of \<open>Apply\<close> is only logged.\<close>

definition engine_round ::
  "time \<Rightarrow> 'w preflight_gate \<Rightarrow> 'w engine \<Rightarrow> run \<Rightarrow> 'w \<Rightarrow> (step_result \<times> migration_decision \<times> (error + unit)) \<times> 'w" where
  "engine_round now gate e run w =
     (case Step now gate e run w of
        (result, w1) \<Rightarrow>
          let decision = migration_Decide (run_Phase run) (sr_Observation result) in
          case Apply e run decision w1 of
            (applied, w2) \<Rightarrow> ((result, decision, applied), w2))"

text \<open>The step gathered a verdict and it was favourable.\<close>

definition verified :: "step_result \<Rightarrow> bool" where
  "verified r \<longleftrightarrow> (case sr_Verification r of None \<Rightarrow> False | Some v \<Rightarrow> Equivalent v)"

lemma verified_simps [simp]:
  "verified (observe f r) = verified r"
  "verified (applyPauseBudget now run r) = verified r"
  by (simp_all add: verified_def observe_def applyPauseBudget_def Let_def split: option.split)

lemma sr_Observation_observe [simp]: "sr_Observation (observe f r) = f (sr_Observation r)"
  by (simp add: observe_def)

lemma applyPauseBudget_complete [simp]:
  "mo_CutoverComplete (sr_Observation (applyPauseBudget now run r)) = mo_CutoverComplete (sr_Observation r)"
  by (simp add: applyPauseBudget_def Let_def split: option.split)

section \<open>What the engine relies on of a router\<close>

locale routing =
  fixes router :: "'w router" and routed :: "'w \<Rightarrow> tenant_ref \<Rightarrow> string"
  assumes RoutedTo_reads: "rt_RoutedTo router t w = (Inr i, w') \<Longrightarrow> i = routed w t"
    and RoutedTo_keeps [keep]: "keeps routed (rt_RoutedTo router t)"
    and Quiesce_keeps [keep]: "keeps routed (rt_Quiesce router t m)"
    and PreWarm_keeps [keep]: "keeps routed (rt_PreWarm router t i)"
    and Resume_keeps [keep]: "keeps routed (rt_Resume router t)"
    and Release_keeps [keep]: "keeps routed (rt_Release router t)"
    and DrainStatus_keeps [keep]: "keeps routed (rt_DrainStatus router t)"
    and Route_writes: "rt_Route router t i w = (Inr (), w') \<Longrightarrow> routed w' = (routed w)(t := i)"
    and Route_fails: "rt_Route router t i w = (Inl err, w') \<Longrightarrow>
      routed w' = routed w \<or> routed w' = (routed w)(t := i)"
begin

lemma Route_cases:
  assumes "rt_Route router t i w = (r, w')"
  shows "routed w' = routed w \<or> routed w' = (routed w)(t := i)"
  using assms Route_writes Route_fails by (cases r) auto

end

locale migration_engine = routing "en_Router e" routed + quiet_ports "en_SQL e" "engine_shell e" routed
  for e :: "'w engine" and routed :: "'w \<Rightarrow> tenant_ref \<Rightarrow> string" +
  fixes gate :: "'w preflight_gate"
  assumes gate_keeps: "routed (snd (gate run w)) = routed w"
begin

lemma phase_of_keeps: "keeps routed m \<Longrightarrow> phase_of m result w = (r, w') \<Longrightarrow> routed w' = routed w"
  by (auto simp: phase_of_def keeps_def split: prod.splits sum.splits) (metis snd_conv)+

lemma keeps_awaitFinalLSN [keep]: "keeps routed (awaitFinalLSN e run)"
  unfolding awaitFinalLSN_def by (auto intro!: keep)

text \<open>The flip writes the route only of a tenant the migration still owns, and only to its target.\<close>

lemma cutover_flip_route:
  assumes "cutover_flip e run w = (r, w')"
  shows "routed w' = routed w \<or>
    ownsRouting run (routed w (run_Tenant run)) \<and> routed w' = (routed w)(run_Tenant run := run_target run)"
    and "r = Inr () \<Longrightarrow> routed w' = (routed w)(run_Tenant run := run_target run)"
proof -
  obtain q w1 where read: "rt_RoutedTo (en_Router e) (run_Tenant run) w = (q, w1)" by fastforce
  have w1: "routed w1 = routed w" using keepsD [OF RoutedTo_keeps read] .
  have both: "(routed w' = routed w \<or> ownsRouting run (routed w (run_Tenant run)) \<and>
      routed w' = (routed w)(run_Tenant run := run_target run)) \<and>
    (r = Inr () \<longrightarrow> routed w' = (routed w)(run_Tenant run := run_target run))"
  proof (cases "\<exists>i. q = Inr i \<and> ownsRouting run i")
    case True
    then obtain i where q: "q = Inr i" "ownsRouting run i" by blast
    obtain f w2 where fence: "FenceSource (en_SQL e) (pl_Source (run_Plan run)) w1 = (f, w2)" by fastforce
    have w2: "routed w2 = routed w" using keepsD [OF keeps_fence(1) fence] w1 by simp
    have owns: "ownsRouting run (routed w (run_Tenant run))"
      using q RoutedTo_reads read by simp
    show ?thesis
    proof (cases f)
      case (Inl err)
      with assms read q fence w2 show ?thesis
        by (auto simp: cutover_flip_def eff_bind_def eff_then_def)
    next
      case (Inr u)
      then have route: "rt_Route (en_Router e) (run_Tenant run) (run_target run) w2 = (r, w')"
        using assms read q fence by (auto simp: cutover_flip_def eff_bind_def eff_then_def)
      show ?thesis using Route_cases [OF route] Route_writes [of "run_Tenant run" "run_target run" w2 w']
          route w2 owns by auto
    qed
  next
    case False
    with assms read w1 show ?thesis
      by (cases q) (auto simp: cutover_flip_def eff_bind_def eff_fail_def)
  qed
  then show "routed w' = routed w \<or>
    ownsRouting run (routed w (run_Tenant run)) \<and> routed w' = (routed w)(run_Tenant run := run_target run)"
    and "r = Inr () \<Longrightarrow> routed w' = (routed w)(run_Tenant run := run_target run)"
    by auto
qed

lemma engine_cutover_route:
  assumes run: "engine_cutover now e run result w = ((res, err), w')"
  shows "routed w' = routed w \<or>
      ownsRouting run (routed w (run_Tenant run)) \<and> verified res \<and>
      routed w' = (routed w)(run_Tenant run := run_target run)"
    and "mo_CutoverComplete (sr_Observation res) \<Longrightarrow> \<not> mo_CutoverComplete (sr_Observation result) \<Longrightarrow>
      err = None \<and> routed w' = (routed w)(run_Tenant run := run_target run)"
proof -
  let ?wait = "if run_Strategy run = TenantMigrationOnline then awaitFinalLSN e run else eff_return True"
  let ?seq = "SequencePlan_Reconcile (en_SQL e) (run_Sequences run) (pl_Source (run_Plan run))
    (pl_Target (run_Plan run))"
  let ?verify = "Verify (en_SQL e) (run_Verification run) (pl_Source (run_Plan run)) (pl_Target (run_Plan run))"
  obtain a w1 where a: "?wait w = (a, w1)" by fastforce
  obtain b w2 where b: "?seq w1 = (b, w2)" by fastforce
  obtain c w3 where c: "?verify w2 = (c, w3)" by fastforce
  have "keeps routed ?wait" by (auto intro!: keep)
  then have w1: "routed w1 = routed w" using keepsD a by metis
  have w2: "routed w2 = routed w" using keepsD [OF keeps_sequences b] w1 by simp
  have w3: "routed w3 = routed w" using keepsD [OF keeps_Verify c] w2 by simp
  consider (stop) "sr_Observation res = sr_Observation result" "w' \<in> {w1, w2, w3}"
    | (flip) v d where "a = Inr True" "c = Inr v" "Equivalent v" "cutover_flip e run w3 = (d, w')"
      "(\<exists>x. d = Inl x \<and> err = Some x \<and> res = result\<lparr>sr_Verification := Some v\<rparr>) \<or>
       d = Inr () \<and> err = None \<and> res = cutover_complete now run (result\<lparr>sr_Verification := Some v\<rparr>)"
    using run a b c
    by (cases a; cases b; cases c)
      (auto simp: engine_cutover_def Let_def split: if_splits prod.splits sum.splits)
  then have both: "(routed w' = routed w \<or>
      ownsRouting run (routed w (run_Tenant run)) \<and> verified res \<and>
      routed w' = (routed w)(run_Tenant run := run_target run)) \<and>
    (mo_CutoverComplete (sr_Observation res) \<longrightarrow> \<not> mo_CutoverComplete (sr_Observation result) \<longrightarrow>
      err = None \<and> routed w' = (routed w)(run_Tenant run := run_target run))"
  proof cases
    case stop
    with w1 w2 w3 show ?thesis by auto
  next
    case flip
    have "verified res" using flip(3,5)
      by (auto simp: verified_def cutover_complete_def observe_def Let_def split: option.splits)
    with flip(5) cutover_flip_route [OF flip(4)] w3 show ?thesis by auto
  qed
  then show "routed w' = routed w \<or>
      ownsRouting run (routed w (run_Tenant run)) \<and> verified res \<and>
      routed w' = (routed w)(run_Tenant run := run_target run)"
    and "mo_CutoverComplete (sr_Observation res) \<Longrightarrow> \<not> mo_CutoverComplete (sr_Observation result) \<Longrightarrow>
      err = None \<and> routed w' = (routed w)(run_Tenant run := run_target run)"
    by auto
qed

lemma other_phases_keep_route:
  assumes "phase_effect now gate e run p result w = (r, w')" "p \<noteq> TenantMigrationPhaseCutover"
  shows "routed w' = routed w"
proof -
  show ?thesis
    using assms gate_keeps [of run w]
    by (cases p)
      (auto simp: engine_preflight_def engine_provision_def engine_preWarm_def engine_copy_def
        engine_catchup_def engine_quiesce_def Let_def
        split: prod.splits if_splits dest!: phase_of_keeps [rotated] intro!: keep)
qed

lemma Step_route:
  assumes "Step now gate e run w = (res, w')"
  shows "routed w' = routed w \<or>
      run_Phase run = TenantMigrationPhaseCutover \<and> ownsRouting run (routed w (run_Tenant run)) \<and>
      verified res \<and> routed w' = (routed w)(run_Tenant run := run_target run)"
    and "mo_CutoverComplete (sr_Observation res) \<Longrightarrow> run_Phase run = TenantMigrationPhaseCutover \<Longrightarrow>
      routed w' = (routed w)(run_Tenant run := run_target run)"
proof -
  obtain r err w1 where eff: "phase_effect now gate e run (run_Phase run) (initial_result run) w = ((r, err), w1)"
    by (metis surj_pair)
  have start: "\<not> mo_CutoverComplete (sr_Observation (initial_result run))"
    by (simp add: initial_result_def initial_observation_def)
  have "(routed w' = routed w \<or>
      run_Phase run = TenantMigrationPhaseCutover \<and> ownsRouting run (routed w (run_Tenant run)) \<and>
      verified res \<and> routed w' = (routed w)(run_Tenant run := run_target run)) \<and>
    (mo_CutoverComplete (sr_Observation res) \<longrightarrow> run_Phase run = TenantMigrationPhaseCutover \<longrightarrow>
      routed w' = (routed w)(run_Tenant run := run_target run))"
  proof (cases "run_AbortRequested run \<or> migration_Terminal (run_Phase run)")
    case True
    with assms start show ?thesis by (auto simp: Step_def)
  next
    case False
    then have res: "w' = w1" "verified res = verified r"
      "mo_CutoverComplete (sr_Observation res) = mo_CutoverComplete (sr_Observation r)"
      using assms eff by (auto simp: Step_def)
    show ?thesis
    proof (cases "run_Phase run = TenantMigrationPhaseCutover")
      case True
      then have "engine_cutover now e run (initial_result run) w = ((r, err), w')" using eff res(1) by simp
      from engine_cutover_route [OF this] start res True show ?thesis by auto
    next
      case other: False
      with other_phases_keep_route [OF eff] res show ?thesis by simp
    qed
  qed
  then show "routed w' = routed w \<or>
      run_Phase run = TenantMigrationPhaseCutover \<and> ownsRouting run (routed w (run_Tenant run)) \<and>
      verified res \<and> routed w' = (routed w)(run_Tenant run := run_target run)"
    and "mo_CutoverComplete (sr_Observation res) \<Longrightarrow> run_Phase run = TenantMigrationPhaseCutover \<Longrightarrow>
      routed w' = (routed w)(run_Tenant run := run_target run)"
    by auto
qed

text \<open>Restoring the source rewrites the route of a tenant the migration still owns, and no other.\<close>

lemma restoreSource_route:
  assumes "restoreSource e run w = (r, w')"
  shows "routed w' = routed w \<or>
    ownsRouting run (routed w (run_Tenant run)) \<and> routed w' = (routed w)(run_Tenant run := run_source run)"
    and "r = Inr () \<Longrightarrow> ownsRouting run (routed w (run_Tenant run)) \<Longrightarrow>
      routed w' = (routed w)(run_Tenant run := run_source run)"
proof -
  let ?unfence = "eff_wrap ''readmitting connections to the source: ''
    (UnfenceSource (en_SQL e) (pl_Source (run_Plan run)))"
  obtain u w1 where u: "?unfence w = (u, w1)" by fastforce
  have w1: "routed w1 = routed w" using keepsD [OF keeps_wrap [OF keeps_fence(2)] u] .
  obtain q w2 where q: "rt_RoutedTo (en_Router e) (run_Tenant run) w1 = (q, w2)" by fastforce
  have w2: "routed w2 = routed w" using keepsD [OF RoutedTo_keeps q] w1 by simp
  consider (stop) "w' = w1" "r \<noteq> Inr ()" | (unread) "w' = w2" "r \<noteq> Inr ()"
    | (here) i where "q = Inr i" "i = run_source run" "w' = w2"
    | (foreign) i where "q = Inr i" "\<not> ownsRouting run i" "w' = w2"
    | (route) i where "q = Inr i" "ownsRouting run i"
        "rt_Route (en_Router e) (run_Tenant run) (run_source run) w2 = (r, w')"
    using assms u q unfolding restoreSource_def
    by (cases u; cases q)
      (auto simp: eff_then_def eff_bind_def eff_return_def split: if_splits)
  then have "(routed w' = routed w \<or>
    ownsRouting run (routed w (run_Tenant run)) \<and> routed w' = (routed w)(run_Tenant run := run_source run)) \<and>
    (r = Inr () \<longrightarrow> ownsRouting run (routed w (run_Tenant run)) \<longrightarrow>
      routed w' = (routed w)(run_Tenant run := run_source run))"
  proof cases
    case here
    then have "routed w (run_Tenant run) = run_source run" using RoutedTo_reads q w1 by metis
    then have "(routed w)(run_Tenant run := run_source run) = routed w" by auto
    with here w2 show ?thesis by simp
  next
    case foreign
    then have "\<not> ownsRouting run (routed w (run_Tenant run))" using RoutedTo_reads q w1 by metis
    with foreign w2 show ?thesis by simp
  next
    case route
    then have "ownsRouting run (routed w (run_Tenant run))" using RoutedTo_reads q w1 by metis
    with Route_cases [OF route(3)] Route_writes [of "run_Tenant run" "run_source run" w2 w'] route(3) w2
    show ?thesis by auto
  qed (use w1 w2 in auto)
  then show "routed w' = routed w \<or>
    ownsRouting run (routed w (run_Tenant run)) \<and> routed w' = (routed w)(run_Tenant run := run_source run)"
    and "r = Inr () \<Longrightarrow> ownsRouting run (routed w (run_Tenant run)) \<Longrightarrow>
      routed w' = (routed w)(run_Tenant run := run_source run)"
    by auto
qed

text \<open>Every effect of a decision other than the restoration of the source leaves the route alone.\<close>

lemma shell_keeps: "Some shell = en_Shell e \<Longrightarrow> routed (snd (Run shell at c w)) = routed w"
  using Run_keeps [of at c w] by (cases "en_Shell e") (auto simp: engine_shell_def)

lemma later_effects_keep_route:
  obtains rest where
    "apply_effects e run d = (if md_Serving d = ServingSource then [restoreSource e run] else []) @ rest"
    "\<And>m. m \<in> set rest \<Longrightarrow> keeps routed m"
proof -
  let ?rest = "drop (if md_Serving d = ServingSource then 1 else 0) (apply_effects e run d)"
  have "apply_effects e run d = (if md_Serving d = ServingSource then [restoreSource e run] else []) @ ?rest"
    by (simp add: apply_effects_def)
  moreover have "keeps routed m" if "m \<in> set ?rest" for m
    using that
    by (auto simp: apply_effects_def release_effect_def intro!: keep shell_keeps
        split: if_splits option.splits)
  ultimately show ?thesis using that by blast
qed

lemma keeps_collected: "(\<And>m. m \<in> set ms \<Longrightarrow> keeps routed m) \<Longrightarrow> routed (snd (eff_all (\<lambda>m. m) ms w)) = routed w"
  using keeps_eff_all_list [of ms routed "\<lambda>m. m"] by (auto simp: keeps_def)

lemma Apply_route:
  assumes "Apply e run d w = (r, w')"
  shows "routed w' = routed w \<or> md_Serving d = ServingSource \<and>
      ownsRouting run (routed w (run_Tenant run)) \<and> routed w' = (routed w)(run_Tenant run := run_source run)"
    and "r = Inr () \<Longrightarrow> md_Serving d = ServingSource \<Longrightarrow>
      ownsRouting run (routed w (run_Tenant run)) \<Longrightarrow>
      routed w' = (routed w)(run_Tenant run := run_source run)"
proof -
  obtain rest where effects:
    "apply_effects e run d = (if md_Serving d = ServingSource then [restoreSource e run] else []) @ rest"
    and quiet: "\<And>m. m \<in> set rest \<Longrightarrow> keeps routed m"
    using later_effects_keep_route [of run d] by blast
  obtain q w1 where restore: "restoreSource e run w = (q, w1)" by fastforce
  have later: "routed (snd (eff_all (\<lambda>m. m) rest v)) = routed v" for v
    by (rule keeps_collected) (rule quiet)
  have "(routed w' = routed w \<or> md_Serving d = ServingSource \<and>
      ownsRouting run (routed w (run_Tenant run)) \<and> routed w' = (routed w)(run_Tenant run := run_source run)) \<and>
    (r = Inr () \<longrightarrow> md_Serving d = ServingSource \<longrightarrow> ownsRouting run (routed w (run_Tenant run)) \<longrightarrow>
      routed w' = (routed w)(run_Tenant run := run_source run))"
  proof (cases "md_Serving d = ServingSource")
    case True
    then have w': "routed w' = routed w1" and ok: "r = Inr () \<Longrightarrow> q = Inr ()"
      using assms effects restore later [of w1]
      by (auto simp: Apply_def eff_all_def split: prod.splits sum.splits)
    from restoreSource_route [OF restore] w' ok True show ?thesis by auto
  next
    case False
    with assms effects later [of w] show ?thesis
      by (auto simp: Apply_def)
  qed
  then show "routed w' = routed w \<or> md_Serving d = ServingSource \<and>
      ownsRouting run (routed w (run_Tenant run)) \<and> routed w' = (routed w)(run_Tenant run := run_source run)"
    and "r = Inr () \<Longrightarrow> md_Serving d = ServingSource \<Longrightarrow>
      ownsRouting run (routed w (run_Tenant run)) \<Longrightarrow>
      routed w' = (routed w)(run_Tenant run := run_source run)"
    by auto
qed

text \<open>What one round does to the routing table, whatever fails on the way.\<close>

lemma round_route:
  assumes round: "engine_round now gate e run w = ((res, d, applied), w')"
  shows "routed w' = routed w \<or> ownsRouting run (routed w (run_Tenant run)) \<and>
      (routed w' = (routed w)(run_Tenant run := run_source run) \<or>
       run_Phase run = TenantMigrationPhaseCutover \<and> verified res \<and>
       routed w' = (routed w)(run_Tenant run := run_target run))"
    and "applied = Inr () \<Longrightarrow> md_Serving d = ServingSource \<Longrightarrow>
      ownsRouting run (routed w (run_Tenant run)) \<Longrightarrow> routed w' (run_Tenant run) = run_source run"
    and "md_Phase d = TenantMigrationPhaseCompleted \<Longrightarrow> run_Phase run \<noteq> TenantMigrationPhaseCompleted \<Longrightarrow>
      routed w' (run_Tenant run) = run_target run"
proof -
  obtain r1 w1 where step: "Step now gate e run w = (r1, w1)" by fastforce
  obtain a w2 where app: "Apply e run (migration_Decide (run_Phase run) (sr_Observation r1)) w1 = (a, w2)"
    by fastforce
  have eqs: "res = r1" "d = migration_Decide (run_Phase run) (sr_Observation r1)" "applied = a" "w' = w2"
    using round step app by (auto simp: engine_round_def Let_def)
  note step' = Step_route [OF step] and app' = Apply_route [OF app]
  have owns: "ownsRouting run (run_target run)" by (simp add: ownsRouting_def)
  show "routed w' = routed w \<or> ownsRouting run (routed w (run_Tenant run)) \<and>
      (routed w' = (routed w)(run_Tenant run := run_source run) \<or>
       run_Phase run = TenantMigrationPhaseCutover \<and> verified res \<and>
       routed w' = (routed w)(run_Tenant run := run_target run))"
    using step'(1) app'(1) eqs by auto
  show "routed w' (run_Tenant run) = run_source run"
    if "applied = Inr ()" "md_Serving d = ServingSource" "ownsRouting run (routed w (run_Tenant run))"
    using step'(1) app'(2) eqs that owns by auto
  show "routed w' (run_Tenant run) = run_target run"
    if "md_Phase d = TenantMigrationPhaseCompleted" "run_Phase run \<noteq> TenantMigrationPhaseCompleted"
  proof -
    have "md_Serving d = ServingTarget" "run_Phase run = TenantMigrationPhaseCutover"
      "mo_CutoverComplete (sr_Observation r1)"
      using serving_target_cases [of "run_Phase run" "sr_Observation r1"] that eqs by auto
    with step'(2) app'(1) eqs show ?thesis by auto
  qed
qed

end

end
