(* ===== verification/Migration_Router.thy ===== *)
theory Migration_Router
  imports Migration_Engine
begin

text \<open>
  The binding router (\<open>internal/migration/router.go\<close>) over the Kubernetes API, and what a whole engine
  round does to the routing table of record.

  The world holds the stored tenants, a schedule of API faults and an arbitrary database state. The
  API server returns and replaces stored objects; by the schedule any call may be refused, lose a
  conflict, or be applied although its answer is lost. SQL and shell commands act on the database
  state only, by arbitrary functions.
\<close>

section \<open>The API server\<close>

record binding =
  bi_InstanceRef :: "string option"
  bi_BoundAt :: "time option"

record tenant_object =
  to_Annotations :: "(string \<times> string) list"
  to_Binding :: "binding option"

datatype api_fault = NoFault | Refused | Conflict | AnswerLost

record 'd world =
  w_tenants :: "tenant_ref \<Rightarrow> tenant_object option"
  w_faults :: "api_fault list"
  w_clock :: time
  w_pg :: 'd

definition errNotFound :: error where "errNotFound = ''not found''"
definition errUnavailable :: error where "errUnavailable = ''unavailable''"
definition errConflict :: error where "errConflict = ''the object has been modified''"

definition next_fault :: "'d world \<Rightarrow> api_fault \<times> 'd world" where
  "next_fault w = (case w_faults w of [] \<Rightarrow> (NoFault, w) | f # fs \<Rightarrow> (f, w\<lparr>w_faults := fs\<rparr>))"

definition api_get :: "tenant_ref \<Rightarrow> ('d world, tenant_object) eff" where
  "api_get t w =
     (case next_fault w of
        (f, w') \<Rightarrow>
          if f \<noteq> NoFault then (Inl errUnavailable, w')
          else case w_tenants w' t of None \<Rightarrow> (Inl errNotFound, w') | Some object \<Rightarrow> (Inr object, w'))"

text \<open>A write of one part of an object: \<open>f\<close> puts that part of the new object into the stored one.\<close>

definition api_write ::
  "(tenant_object \<Rightarrow> tenant_object) \<Rightarrow> tenant_ref \<Rightarrow> ('d world, unit) eff" where
  "api_write f t w =
     (case next_fault w of
        (fault, w') \<Rightarrow>
          (case w_tenants w' t of
             None \<Rightarrow> (Inl errNotFound, w')
           | Some stored \<Rightarrow>
               let written = w'\<lparr>w_tenants := (w_tenants w')(t := Some (f stored))\<rparr> in
               case fault of
                 NoFault \<Rightarrow> (Inr (), written)
               | AnswerLost \<Rightarrow> (Inl errUnavailable, written)
               | Refused \<Rightarrow> (Inl errUnavailable, w')
               | Conflict \<Rightarrow> (Inl errConflict, w')))"

definition api_update :: "tenant_ref \<Rightarrow> tenant_object \<Rightarrow> ('d world, unit) eff" where
  "api_update t object = api_write (\<lambda>stored. stored\<lparr>to_Annotations := to_Annotations object\<rparr>) t"

definition api_status_update :: "tenant_ref \<Rightarrow> tenant_object \<Rightarrow> ('d world, unit) eff" where
  "api_status_update t object = api_write (\<lambda>stored. stored\<lparr>to_Binding := to_Binding object\<rparr>) t"

text \<open>\<open>retry.RetryOnConflict\<close> with the default backoff: five attempts, only a conflict is retried.\<close>

fun RetryOnConflict :: "nat \<Rightarrow> ('w, unit) eff \<Rightarrow> ('w, unit) eff" where
  "RetryOnConflict 0 f = f"
| "RetryOnConflict (Suc n) f =
     (\<lambda>w. case f w of
            (Inl e, w') \<Rightarrow> if e = errConflict then RetryOnConflict n f w' else (Inl e, w')
          | (Inr u, w') \<Rightarrow> (Inr u, w'))"

definition DefaultRetry :: nat where "DefaultRetry = 4"

section \<open>The binding router\<close>

definition AnnotationQuiescedBy :: string where "AnnotationQuiescedBy = ''pgelastic.io/quiescedBy''"
definition AnnotationPreWarmTarget :: string where "AnnotationPreWarmTarget = ''pgelastic.io/preWarmInstance''"

definition router_get :: "tenant_ref \<Rightarrow> ('d world, tenant_object) eff" where
  "router_get t w =
     (case api_get t w of
        (Inl e, w') \<Rightarrow>
          if e = errNotFound then (Inl (''PgTenant '' @ TenantRef_String t @ '' does not exist: '' @ e), w')
          else (Inl e, w')
      | (Inr object, w') \<Rightarrow> (Inr object, w'))"

text \<open>The value of a key, the empty string when it is absent, as a Go map read.\<close>

definition annotation :: "(string \<times> string) list \<Rightarrow> string \<Rightarrow> string" where
  "annotation annotations key = (case map_of annotations key of None \<Rightarrow> [] | Some v \<Rightarrow> v)"

fun annotate_loop ::
  "(string \<times> string) list \<Rightarrow> bool \<Rightarrow> (string \<times> string) list \<Rightarrow> (string \<times> string) list \<times> bool" where
  "annotate_loop annotations changed [] = (annotations, changed)"
| "annotate_loop annotations changed ((key, v) # rest) =
     (if v = [] \<and> annotation annotations key \<noteq> [] then
        annotate_loop (filter (\<lambda>(k, _). k \<noteq> key) annotations) True rest
      else if v \<noteq> [] \<and> annotation annotations key \<noteq> v then
        annotate_loop ((key, v) # filter (\<lambda>(k, _). k \<noteq> key) annotations) True rest
      else annotate_loop annotations changed rest)"

definition annotateOnce :: "tenant_ref \<Rightarrow> (string \<times> string) list \<Rightarrow> ('d world, unit) eff" where
  "annotateOnce t values =
     eff_bind (router_get t) (\<lambda>object.
       let (annotations, changed) = annotate_loop (to_Annotations object) False values in
       if \<not> changed then eff_return ()
       else api_update t (object\<lparr>to_Annotations := annotations\<rparr>))"

definition annotate :: "tenant_ref \<Rightarrow> (string \<times> string) list \<Rightarrow> ('d world, unit) eff" where
  "annotate t values = RetryOnConflict DefaultRetry (annotateOnce t values)"

definition Binding_Route :: "tenant_ref \<Rightarrow> string \<Rightarrow> ('d world, unit) eff" where
  "Binding_Route t inst =
     RetryOnConflict DefaultRetry
       (eff_bind (router_get t) (\<lambda>object w.
          api_status_update t
            (object\<lparr>to_Binding := Some \<lparr>bi_InstanceRef = Some inst, bi_BoundAt = Some (w_clock w)\<rparr>\<rparr>) w))"

definition binding_instance :: "tenant_object \<Rightarrow> string" where
  "binding_instance object =
     (case to_Binding object of
        None \<Rightarrow> []
      | Some b \<Rightarrow> (case bi_InstanceRef b of None \<Rightarrow> [] | Some i \<Rightarrow> i))"

definition Binding_RoutedTo :: "tenant_ref \<Rightarrow> ('d world, string) eff" where
  "Binding_RoutedTo t = eff_bind (router_get t) (\<lambda>object. eff_return (binding_instance object))"

definition Binding_Release :: "tenant_ref \<Rightarrow> ('d world, unit) eff" where
  "Binding_Release t = annotate t [(AnnotationQuiescedBy, []), (AnnotationPreWarmTarget, [])]"

definition BindingRouter :: "'d world router" where
  "BindingRouter =
     \<lparr>rt_Quiesce = (\<lambda>t m. annotate t [(AnnotationQuiescedBy, m)]),
      rt_PreWarm = (\<lambda>t i. annotate t [(AnnotationPreWarmTarget, i)]),
      rt_Route = Binding_Route,
      rt_Resume = Binding_Release,
      rt_Release = Binding_Release,
      rt_RoutedTo = Binding_RoutedTo,
      rt_DrainStatus = (\<lambda>t. eff_return zero_drain_status)\<rparr>"

section \<open>The routing table of record\<close>

definition binding_of :: "'d world \<Rightarrow> tenant_ref \<Rightarrow> string" where
  "binding_of w t = (case w_tenants w t of None \<Rightarrow> [] | Some object \<Rightarrow> binding_instance object)"

lemma next_fault_tenants [simp]: "w_tenants (snd (next_fault w)) = w_tenants w"
  by (simp add: next_fault_def split: list.split)

lemma next_fault_binding: "next_fault w = (f, w') \<Longrightarrow> w_tenants w' = w_tenants w"
  by (metis next_fault_tenants snd_conv)

lemma api_get_keeps: "keeps w_tenants (api_get t)"
  by (auto simp: keeps_def api_get_def split: prod.split option.split dest!: next_fault_binding)

lemma router_get_keeps: "keeps w_tenants (router_get t)"
  unfolding keeps_def
proof
  fix w
  obtain r w' where get: "api_get t w = (r, w')" by fastforce
  then have "w_tenants w' = w_tenants w" using keepsD [OF api_get_keeps] by metis
  with get show "w_tenants (snd (router_get t w)) = w_tenants w"
    by (cases r) (auto simp: router_get_def)
qed

lemma router_get_reads: "router_get t w = (Inr object, w') \<Longrightarrow> w_tenants w t = Some object"
  by (auto simp: router_get_def api_get_def split: prod.splits option.splits if_splits sum.splits
      dest!: next_fault_binding)

lemma keeps_binding: "keeps w_tenants m \<Longrightarrow> keeps binding_of m"
  by (simp add: keeps_def binding_of_def [abs_def])

lemma keeps_RetryOnConflict: "keeps part f \<Longrightarrow> keeps part (RetryOnConflict n f)"
proof (induction n)
  case (Suc n)
  then show ?case
    by (auto simp: keeps_def split: prod.split sum.split) (metis snd_conv)+
qed simp

lemma api_write_cases:
  assumes "api_write f t w = (r, w')"
  shows "w_tenants w' = w_tenants w \<and> r \<noteq> Inr () \<or>
    (\<exists>stored. w_tenants w t = Some stored \<and> w_tenants w' = (w_tenants w)(t \<mapsto> f stored))"
proof -
  obtain fault w1 where fault: "next_fault w = (fault, w1)" by fastforce
  have "w_tenants w1 = w_tenants w" using next_fault_binding [OF fault] .
  with fault assms show ?thesis
    by (auto simp: api_write_def Let_def split: option.splits api_fault.splits)
qed

lemma api_update_keeps_binding: "keeps binding_of (api_update t object)"
  unfolding keeps_def
proof
  fix w
  obtain r w' where "api_update t object w = (r, w')" by fastforce
  from this [unfolded api_update_def] api_write_cases [OF this [unfolded api_update_def]]
  show "binding_of (snd (api_update t object w)) = binding_of w"
    by (auto simp: api_update_def binding_of_def binding_instance_def fun_eq_iff)
qed

lemma annotate_keeps: "keeps binding_of (annotate t values)"
  unfolding annotate_def annotateOnce_def
  by (auto intro!: keeps_RetryOnConflict keep keeps_binding [OF router_get_keeps] api_update_keeps_binding
      split: prod.split)

lemma api_status_update_binding:
  assumes "api_status_update t object w = (r, w')"
  shows "(binding_of w' = binding_of w \<and> r \<noteq> Inr ()) \<or>
    binding_of w' = (binding_of w)(t := binding_instance object)"
  using api_write_cases [OF assms [unfolded api_status_update_def]]
proof
  assume "w_tenants w' = w_tenants w \<and> r \<noteq> Inr ()"
  then show ?thesis by (simp add: binding_of_def fun_eq_iff)
next
  assume "\<exists>stored. w_tenants w t = Some stored \<and>
    w_tenants w' = (w_tenants w)(t \<mapsto> stored\<lparr>to_Binding := to_Binding object\<rparr>)"
  then have "binding_of w' = (binding_of w)(t := binding_instance object)"
    by (auto simp: binding_of_def binding_instance_def fun_eq_iff)
  then show ?thesis ..
qed

text \<open>One attempt at a flip, then the retries.\<close>

definition route_outcome :: "tenant_ref \<Rightarrow> string \<Rightarrow> ('d world, unit) eff \<Rightarrow> bool" where
  "route_outcome t i m \<longleftrightarrow>
     (\<forall>w r w'. m w = (r, w') \<longrightarrow>
        (binding_of w' = binding_of w \<and> r \<noteq> Inr ()) \<or> binding_of w' = (binding_of w)(t := i))"

lemma route_outcome_retry: "route_outcome t i m \<Longrightarrow> route_outcome t i (RetryOnConflict n m)"
proof (induction n)
  case (Suc n)
  have later: "(binding_of w' = binding_of w \<and> r \<noteq> Inr ()) \<or> binding_of w' = (binding_of w)(t := i)"
    if "RetryOnConflict n m w = (r, w')" for w r w'
    using Suc that by (auto simp: route_outcome_def)
  have first: "(binding_of w' = binding_of w \<and> r \<noteq> Inr ()) \<or> binding_of w' = (binding_of w)(t := i)"
    if "m w = (r, w')" for w r w'
    using Suc.prems that by (auto simp: route_outcome_def)
  show ?case
    unfolding route_outcome_def
  proof (intro allI impI)
    fix w r w' assume run: "RetryOnConflict (Suc n) m w = (r, w')"
    obtain q w1 where q: "m w = (q, w1)" by fastforce
    consider "q = r" "w1 = w'" | "RetryOnConflict n m w1 = (r, w')"
      using run q by (auto split: sum.splits if_splits)
    then show "(binding_of w' = binding_of w \<and> r \<noteq> Inr ()) \<or> binding_of w' = (binding_of w)(t := i)"
    proof cases
      case 2
      from later [OF 2] first [OF q] show ?thesis by auto
    qed (use first [OF q] in auto)
  qed
qed simp

lemma Binding_Route_outcome: "route_outcome t i (Binding_Route t i :: ('d world, unit) eff)"
proof -
  have "route_outcome t i (eff_bind (router_get t) (\<lambda>object w. api_status_update t
      (object\<lparr>to_Binding := Some \<lparr>bi_InstanceRef = Some i, bi_BoundAt = Some (w_clock w)\<rparr>\<rparr>) w)
      :: ('d world, unit) eff)"
    unfolding route_outcome_def
  proof (intro allI impI)
    fix w :: "'d world" and r w'
    assume run: "eff_bind (router_get t) (\<lambda>object w. api_status_update t
      (object\<lparr>to_Binding := Some \<lparr>bi_InstanceRef = Some i, bi_BoundAt = Some (w_clock w)\<rparr>\<rparr>) w) w = (r, w')"
    obtain q w1 where q: "router_get t w = (q, w1)" by fastforce
    have w1: "binding_of w1 = binding_of w" using keepsD [OF keeps_binding [OF router_get_keeps] q] .
    show "(binding_of w' = binding_of w \<and> r \<noteq> Inr ()) \<or> binding_of w' = (binding_of w)(t := i)"
    proof (cases q)
      case (Inl err)
      with run q w1 show ?thesis by (auto simp: eff_bind_def)
    next
      case (Inr object)
      with run q have "api_status_update t
          (object\<lparr>to_Binding := Some \<lparr>bi_InstanceRef = Some i, bi_BoundAt = Some (w_clock w1)\<rparr>\<rparr>) w1 = (r, w')"
        by (simp add: eff_bind_def)
      from api_status_update_binding [OF this] w1 show ?thesis by (simp add: binding_instance_def)
    qed
  qed
  then show ?thesis unfolding Binding_Route_def by (rule route_outcome_retry)
qed

interpretation binding: routing "BindingRouter :: 'd world router" binding_of
proof
  show "i = binding_of w t" if "rt_RoutedTo BindingRouter t w = (Inr i, w')" for t i and w w' :: "'d world"
    using that by (auto simp: BindingRouter_def Binding_RoutedTo_def eff_bind_Inr binding_of_def
        dest!: router_get_reads)
  show "keeps binding_of (rt_RoutedTo BindingRouter t)" for t
    by (auto simp: BindingRouter_def Binding_RoutedTo_def intro!: keep keeps_binding [OF router_get_keeps])
  show "binding_of w' = (binding_of w)(t := i)" if "rt_Route BindingRouter t i w = (Inr (), w')"
    for t i and w w' :: "'d world"
    using that Binding_Route_outcome [of t i] by (auto simp: BindingRouter_def route_outcome_def)
  show "binding_of w' = binding_of w \<or> binding_of w' = (binding_of w)(t := i)"
    if "rt_Route BindingRouter t i w = (Inl err, w')" for t i err and w w' :: "'d world"
    using that Binding_Route_outcome [of t i] by (auto simp: BindingRouter_def route_outcome_def)
qed (auto simp: BindingRouter_def Binding_Release_def intro!: annotate_keeps keep)

section \<open>An engine on the binding router\<close>

definition on_pg :: "('d, 'a) eff \<Rightarrow> ('d world, 'a) eff" where
  "on_pg m w = (case m (w_pg w) of (r, d) \<Rightarrow> (r, w\<lparr>w_pg := d\<rparr>))"

definition pg_sql :: "'d sql_port \<Rightarrow> 'd world sql_port" where
  "pg_sql p = \<lparr>Exec = (\<lambda>at st. on_pg (Exec p at st)), Query = (\<lambda>at st. on_pg (Query p at st))\<rparr>"

definition pg_shell :: "'d shell_port \<Rightarrow> 'd world shell_port" where
  "pg_shell p =
     \<lparr>Run = (\<lambda>at c w. case Run p at c (w_pg w) of (r, d) \<Rightarrow> (r, w\<lparr>w_pg := d\<rparr>))\<rparr>"

definition pg_gate :: "'d preflight_gate \<Rightarrow> 'd world preflight_gate" where
  "pg_gate g run w = (case g run (w_pg w) of (r, d) \<Rightarrow> (r, w\<lparr>w_pg := d\<rparr>))"

definition binding_engine :: "'d sql_port \<Rightarrow> 'd shell_port option \<Rightarrow> 'd world engine" where
  "binding_engine p shell =
     \<lparr>en_SQL = pg_sql p, en_Shell = map_option pg_shell shell, en_Router = BindingRouter\<rparr>"

lemma binding_of_pg [simp]: "binding_of (w\<lparr>w_pg := d\<rparr>) = binding_of w"
  by (simp add: binding_of_def fun_eq_iff)

lemma on_pg_keeps: "keeps binding_of (on_pg m)"
  by (simp add: keeps_def on_pg_def split: prod.split)

interpretation pg: quiet_ports "pg_sql p" "pg_shell shell" binding_of for p shell
  by unfold_locales
    (simp_all add: pg_sql_def pg_shell_def on_pg_keeps split: prod.split)

interpretation engine: migration_engine "binding_engine p shell" binding_of "pg_gate g" for p shell g
proof -
  have router: "en_Router (binding_engine p shell) = BindingRouter"
    by (simp add: binding_engine_def)
  show "migration_engine (binding_engine p shell) binding_of (pg_gate g)"
    unfolding migration_engine_def router
  proof (intro conjI binding.routing_axioms)
    show "quiet_ports (en_SQL (binding_engine p shell)) (engine_shell (binding_engine p shell)) binding_of"
      by unfold_locales
        (simp_all add: binding_engine_def engine_shell_def pg_sql_def pg_shell_def on_pg_keeps
          split: prod.split option.split)
    show "migration_engine_axioms binding_of (pg_gate g)"
      by unfold_locales (simp add: pg_gate_def split: prod.split)
  qed
qed

section \<open>Properties\<close>

text \<open>
  A round never moves a tenant that another migration has moved: when the recorded binding is
  neither empty, nor this migration's source, nor its target, every phase, every decision and every
  pattern of failures leaves the whole routing table as it was, and in every round the bindings of
  all other tenants stay.
\<close>

theorem round_leaves_foreign_tenants_alone:
  assumes "engine_round now (pg_gate g) (binding_engine p shell) run w = ((res, d, applied), w')"
    and "t \<noteq> run_Tenant run \<or>
      binding_of w (run_Tenant run) \<notin> {[], run_source run, run_target run}"
  shows "binding_of w' t = binding_of w t"
  using engine.round_route(1) [OF assms(1)] assms(2) by (auto simp: ownsRouting_def)

text \<open>
  C6. The route is flipped to the target only by a cutover that was verified: if a round leaves the
  tenant on the target it was not on before, the phase was Cutover and the step gathered a verdict of
  equivalence, whatever failed and whatever was decided.
\<close>

theorem only_a_verified_cutover_flips:
  assumes "engine_round now (pg_gate g) (binding_engine p shell) run w = ((res, d, applied), w')"
    and "run_source run \<noteq> run_target run"
    and "binding_of w' (run_Tenant run) = run_target run"
    and "binding_of w (run_Tenant run) \<noteq> run_target run"
  shows "run_Phase run = TenantMigrationPhaseCutover \<and> verified res"
  using engine.round_route(1) [OF assms(1)] assms(2-4) by auto


text \<open>
  A settled migration goes on writing. A migration that ended in Failed, Aborted or RolledBack
  applies its settled decision on every later reconcile, and whenever the tenant stands on the
  instance that migration once targeted, it is put back on the old source: a second migration between
  the same two instances is undone by the first.
\<close>

theorem settled_migration_takes_the_tenant_back:
  assumes "engine_round now (pg_gate g) (binding_engine p shell) run w = ((res, d, Inr ()), w')"
    and "run_Phase run \<in> {TenantMigrationPhaseFailed, TenantMigrationPhaseAborted, TenantMigrationPhaseRolledBack}"
    and "binding_of w (run_Tenant run) = run_target run"
  shows "md_Settled d \<and> md_Phase d = run_Phase run \<and> binding_of w' (run_Tenant run) = run_source run"
proof -
  obtain r w1 where "Step now (pg_gate g) (binding_engine p shell) run w = (r, w1)" by fastforce
  then have "d = migration_Decide (run_Phase run) (sr_Observation r)"
    using assms(1) by (auto simp: engine_round_def Let_def split: prod.splits)
  then have d: "md_Settled d" "md_Phase d = run_Phase run" "md_Serving d = ServingSource"
    using assms(2) by (auto simp: migration_Decide_def)
  with engine.round_route(2) [OF assms(1)] assms(3) show ?thesis by (simp add: ownsRouting_def)
qed

text \<open>
  C37. The drop at the end of the rollback window does not look at the binding: whatever instance the
  tenant stands on, a completed migration whose window has closed runs the drop of its source database.
  When a later migration has brought the tenant back to that instance, the database dropped is the one
  the tenant is served from, and the ownership guard does not stop it, because it is the tenant's own.
\<close>

theorem source_drop_ignores_the_binding:
  assumes "run_Phase run = TenantMigrationPhaseCompleted" "run_RollbackWindowClosed run" "\<not> run_SourceDropped run"
    and "DropSourceDatabase (pg_sql p) (pl_Source (run_Plan run)) (run_Owner run) w = (applied, w')"
  shows "\<exists>res d. engine_round now gate (binding_engine p shell) run w = ((res, d, applied), w') \<and>
    md_DropSource d \<and> binding_of w' = binding_of w"
proof -
  obtain res where res: "Step now gate (binding_engine p shell) run w = (res, w)"
    "mo_RollbackWindowClosed (sr_Observation res)" "\<not> mo_SourceDropped (sr_Observation res)"
    using assms(1-3)
    by (simp add: Step_def applyPauseBudget_def initial_result_def initial_observation_def Let_def split: option.split)
  let ?d = "migration_Decide (run_Phase run) (sr_Observation res)"
  have d: "?d = (MigrationDecision TenantMigrationPhaseCompleted ServingTarget ReasonSourceDropped
      ''rollbackWindow closed and the source database was dropped'')\<lparr>md_DropSource := True\<rparr>"
    using assms(1) res by (simp add: migration_Decide_def decideCompleted_def)
  then have "apply_effects (binding_engine p shell) run ?d
      = [DropSourceDatabase (pg_sql p) (pl_Source (run_Plan run)) (run_Owner run)]"
    by (simp add: apply_effects_def binding_engine_def)
  then have "Apply (binding_engine p shell) run ?d w = (applied, w')"
    using assms(4) by (cases applied) (simp_all add: Apply_def eff_all_def errors_Join_def)
  with res(1) have "engine_round now gate (binding_engine p shell) run w = ((res, ?d, applied), w')"
    by (simp add: engine_round_def Let_def)
  moreover have "binding_of w' = binding_of w"
    using pg.keeps_database_drops(1) assms(4) unfolding keeps_def by (metis snd_conv)
  ultimately show ?thesis using d by force
qed

section \<open>Examples\<close>

definition example_sql :: "unit sql_port" where
  "example_sql =
     \<lparr>Exec = (\<lambda>at st. eff_return ()),
      Query = (\<lambda>at st. eff_return (case st of
         ReadSequencePositions \<Rightarrow> [] | ListRelations \<Rightarrow> [] | _ \<Rightarrow> [[''1'']]))\<rparr>"

definition example_endpoint :: "string \<Rightarrow> endpoint" where
  "example_endpoint i = \<lparr>ep_Namespace = ''ns'', ep_Instance = i, ep_Member = [], ep_Database = ''shop''\<rparr>"

definition example_tenant :: tenant_ref where
  "example_tenant = \<lparr>tr_Namespace = ''ns'', tr_Name = ''shop''\<rparr>"

definition example_run :: "string \<Rightarrow> migration_phase \<Rightarrow> run" where
  "example_run name p =
     \<lparr>run_Migration = \<lparr>tr_Namespace = ''ns'', tr_Name = name\<rparr>, run_Tenant = example_tenant,
      run_Phase = p, run_Strategy = TenantMigrationOffline,
      run_Plan = \<lparr>pl_Source = example_endpoint ''A'', pl_Target = example_endpoint ''B'',
         pl_Publication = name, pl_Slot = name, pl_Subscription = name, pl_SchemaStamp = [],
         pl_SourceConnInfo = ''host=A'', pl_Concurrency = 1, pl_DumpDir = ''/dump''\<rparr>,
      run_Sequences = \<lparr>sp_Mode = SequenceHandlingSetvalWithGap, sp_SafetyGap = 1000\<rparr>,
      run_Verification = VerifySchema, run_ReplicationRole = ReplicationRole, run_Owner = ''shop'',
      run_AbortRequested = False, run_AbortMessage = [], run_RollbackRequested = False,
      run_RollbackWindowClosed = False, run_SourceDropped = False, run_QuiesceStartedAt = None,
      run_DrainTimeout = 0, run_CutoverTimeout = 0, run_FaultingSince = None, run_RetryBudget = 60,
      run_RollbackWindow = 60, run_MaxLagBytes = None\<rparr>"

definition example_world :: "string \<Rightarrow> unit world" where
  "example_world i =
     \<lparr>w_tenants = [example_tenant \<mapsto> \<lparr>to_Annotations = [],
        to_Binding = Some \<lparr>bi_InstanceRef = Some i, bi_BoundAt = None\<rparr>\<rparr>],
      w_faults = [], w_clock = 5, w_pg = ()\<rparr>"

abbreviation example_round :: "run \<Rightarrow> unit world \<Rightarrow> (step_result \<times> migration_decision \<times> (error + unit)) \<times> unit world" where
  "example_round run w \<equiv>
     engine_round 10 (pg_gate (\<lambda>_ d. (True, d))) (binding_engine example_sql None) run w"

lemma example_ports [simp]:
  "Exec (pg_sql example_sql) at st w = (Inr (), w)"
  "Query (pg_sql example_sql) at st w =
     (Inr (case st of ReadSequencePositions \<Rightarrow> [] | ListRelations \<Rightarrow> [] | _ \<Rightarrow> [[''1'']]), w)"
  by (simp_all add: pg_sql_def example_sql_def on_pg_def eff_return_def)

lemmas effect_defs = eff_bind_def eff_then_def eff_wrap_def eff_try_def eff_return_def eff_fail_def

lemma example_fingerprint: "schemaFingerprint (pg_sql example_sql) at w = (Inr ''1:1:1:1:1:1:1'', w)"
  by (simp add: schemaFingerprint_def effect_defs schemaFingerprintParts_def scalar_def sort_func_def go_compare_def)

lemma example_Verify:
  "Verify (pg_sql example_sql) VerifySchema at at' w =
     (Inr \<lparr>vr_Level = VerifySchema, vr_SchemaFingerprintMatch = Some True, vr_RowCountsMatch = None,
           vr_ChecksumsMatch = None, vr_Relations = 0, vr_Differences = []\<rparr>, w)"
  by (simp add: Verify_def example_fingerprint effect_defs Let_def relations_def)

lemmas router_defs = BindingRouter_def Binding_RoutedTo_def router_get_def api_get_def next_fault_def
  binding_instance_def Binding_Route_def DefaultRetry_def numeral_eq_Suc api_status_update_def api_write_def

lemma example_flip:
  "fst (cutover_flip (binding_engine example_sql None) (example_run name p) (example_world ''A'')) = Inr ()"
  by (simp add: cutover_flip_def effect_defs binding_engine_def FenceSource_def Let_def router_defs
      example_world_def example_run_def example_endpoint_def ownsRouting_def run_source_def run_target_def)

lemma example_complete:
  "migration_Decide TenantMigrationPhaseCutover (sr_Observation (fst (Step 10 gate (binding_engine example_sql None)
     (example_run name TenantMigrationPhaseCutover) (example_world ''A''))))
   = (MigrationDecision TenantMigrationPhaseCompleted ServingTarget ReasonCutoverComplete
        ''routing was flipped to the target and queued clients were released against it'')
          \<lparr>md_ReleaseQuiesce := True, md_Cleanup := True\<rparr>"
proof -
  let ?run = "example_run name TenantMigrationPhaseCutover"
  obtain w' where flip: "cutover_flip (binding_engine example_sql None) ?run (example_world ''A'') = (Inr (), w')"
    using example_flip [of name TenantMigrationPhaseCutover] by (metis prod.collapse)
  have seq: "SequencePlan_Reconcile (pg_sql example_sql) q at at' w = (Inr 0, w)" for q at at' w
    by (simp add: SequencePlan_Reconcile_def ReadSequences_def ApplySequences_def effect_defs Let_def)
  have run: "run_AbortRequested ?run = False" "run_Phase ?run = TenantMigrationPhaseCutover"
    "run_Strategy ?run = TenantMigrationOffline" "run_Verification ?run = VerifySchema" "run_QuiesceStartedAt ?run = None"
    "run_RollbackRequested ?run = False"
    by (simp_all add: example_run_def)
  have sql: "en_SQL (binding_engine example_sql None) = pg_sql example_sql" by (simp add: binding_engine_def)
  show ?thesis
    by (simp add: Step_def run sql seq flip engine_cutover_def eff_return_def example_Verify Equivalent_def
      cutover_complete_def applyPauseBudget_def faultBudgetExceeded_def initial_result_def initial_observation_def
      migration_Decide_def decide_running_def)
qed

text \<open>The outcome of the second migration's cutover, and of the first migration's next round.\<close>

lemma example_second:
  "binding_of (snd (example_round (example_run ''second'' TenantMigrationPhaseCutover) (example_world ''A'')))
     example_tenant = ''B''"
proof -
  let ?run = "example_run ''second'' TenantMigrationPhaseCutover"
  obtain res d applied w' where round: "example_round ?run (example_world ''A'') = ((res, d, applied), w')"
    by (metis surj_pair)
  have names: "run_Tenant ?run = example_tenant" "run_target ?run = ''B''" "run_Phase ?run = TenantMigrationPhaseCutover"
    by (simp_all add: example_run_def run_target_def example_endpoint_def)
  have "d = migration_Decide TenantMigrationPhaseCutover (sr_Observation (fst (Step 10
      (pg_gate (\<lambda>_ d. (True, d))) (binding_engine example_sql None) ?run (example_world ''A''))))"
    using round names(3) by (auto simp: engine_round_def Let_def split: prod.splits)
  then have "md_Phase d = TenantMigrationPhaseCompleted" by (simp add: example_complete)
  from engine.round_route(3) [OF round this] names round show ?thesis by simp
qed

lemma example_settled_applied:
  "snd (snd (fst (example_round (example_run ''first'' TenantMigrationPhaseFailed) (example_world ''B'')))) = Inr ()"
  by (simp add: engine_round_def Step_def Apply_def eff_all_def apply_effects_def migration_Decide_def
      Let_def effect_defs restoreSource_def UnfenceSource_def binding_engine_def router_defs
      example_run_def example_world_def example_endpoint_def ownsRouting_def run_source_def
      run_target_def errors_Join_def)

lemma example_binding [simp]: "binding_of (example_world i) example_tenant = i"
  by (simp add: example_world_def binding_of_def binding_instance_def)

lemma example_run_simps [simp]:
  "run_Tenant (example_run name p) = example_tenant" "run_Phase (example_run name p) = p"
  "run_source (example_run name p) = ''A''" "run_target (example_run name p) = ''B''"
  by (simp_all add: example_run_def run_source_def run_target_def example_endpoint_def)

theorem round_leaves_foreign_tenants_alone_witness:
  "binding_of (snd (example_round (example_run ''first'' TenantMigrationPhaseCutover) (example_world ''C'')))
     example_tenant = ''C''"
proof -
  obtain res d applied w' where
    "example_round (example_run ''first'' TenantMigrationPhaseCutover) (example_world ''C'') = ((res, d, applied), w')"
    by (metis surj_pair)
  from round_leaves_foreign_tenants_alone [OF this, of example_tenant] this show ?thesis by simp
qed

theorem only_a_verified_cutover_flips_witness:
  "verified (fst (fst (example_round (example_run ''second'' TenantMigrationPhaseCutover) (example_world ''A''))))"
proof -
  obtain res d applied w' where round:
    "example_round (example_run ''second'' TenantMigrationPhaseCutover) (example_world ''A'') = ((res, d, applied), w')"
    by (metis surj_pair)
  from only_a_verified_cutover_flips [OF this] example_second this show ?thesis by simp
qed


theorem settled_migration_takes_the_tenant_back_witness:
  "binding_of (snd (example_round (example_run ''first'' TenantMigrationPhaseFailed) (example_world ''B'')))
     example_tenant = ''A''"
proof -
  obtain res d w' where round:
    "example_round (example_run ''first'' TenantMigrationPhaseFailed) (example_world ''B'') = ((res, d, Inr ()), w')"
    using example_settled_applied by (metis prod.collapse)
  from settled_migration_takes_the_tenant_back [OF this] this show ?thesis by simp
qed

text \<open>A PostgreSQL that answers every count with one and keeps the statements it executed.\<close>

definition logging_sql :: "sql_statement list sql_port" where
  "logging_sql =
     \<lparr>Exec = (\<lambda>at st log. (Inr (), log @ [st])), Query = (\<lambda>at st. eff_return [[''1'']])\<rparr>"

definition returned_world :: "sql_statement list world" where
  "returned_world =
     \<lparr>w_tenants = [example_tenant \<mapsto> \<lparr>to_Annotations = [],
        to_Binding = Some \<lparr>bi_InstanceRef = Some ''A'', bi_BoundAt = None\<rparr>\<rparr>],
      w_faults = [], w_clock = 5, w_pg = []\<rparr>"

theorem source_drop_ignores_the_binding_witness:
  "binding_of returned_world example_tenant = ''A'' \<and>
   w_pg (snd (engine_round 10 (pg_gate (\<lambda>_ d. (True, d))) (binding_engine logging_sql None)
     ((example_run ''first'' TenantMigrationPhaseCompleted)\<lparr>run_RollbackWindowClosed := True\<rparr>) returned_world))
     = [DropDatabase ''shop'']"
proof -
  let ?run = "(example_run ''first'' TenantMigrationPhaseCompleted)\<lparr>run_RollbackWindowClosed := True\<rparr>"
  have "TrimSpace ''1'' = ''1''" by code_simp
  then have parsed: "ParseInt (TrimSpace ''1'') = Inr 1"
    by (simp add: ParseInt_def ParseUint_def digit_value_def of_char_def)
  have "DropSourceDatabase (pg_sql logging_sql) (pl_Source (run_Plan ?run)) (run_Owner ?run) returned_world
      = (Inr (), returned_world\<lparr>w_pg := [DropDatabase ''shop'']\<rparr>)"
    by (simp add: DropSourceDatabase_def dropOwnedDatabase_def ownedBy_def dropDatabase_def effect_defs
        pg_sql_def logging_sql_def on_pg_def scalarInt64_def scalar_def parsed example_run_def example_endpoint_def
        returned_world_def)
  from source_drop_ignores_the_binding [OF _ _ _ this, of 10 "pg_gate (\<lambda>_ d. (True, d))" None]
  show ?thesis
    by (auto simp: example_run_def returned_world_def binding_of_def binding_instance_def)
qed

end
