(* ===== verification/Proxy_Config.thy ===== *)
theory Proxy_Config
  imports Go_Text
begin

text \<open>
  \<open>internal/proxy/config.go\<close>: the configuration document of a pool's proxy fleet, with the names of
  \<open>internal/proxy/names.go\<close> and the reader \<open>RoutedInDocument\<close> of \<open>internal/proxy/router.go\<close>. A document
  is the list of its lines, each line what is written up to the next newline; strings are bytes, and
  for the valid UTF-8 an API object carries a rune above ASCII is copied byte by byte. SHA-256 is a
  parameter. Shown: a quoted value is read back as it was, on one line; the reader answers exactly
  what the routing table of the document says; the hash that decides whether the fleet is rolled does
  not depend on tenants, logins or the capacity of an instance.
\<close>

section \<open>The pool, as the renderer reads it\<close>

datatype PoolMode = PoolModeSession | PoolModeTransaction | PoolModeStatement | PoolModeUnset
datatype ResetPolicy = ResetNone | ResetDirtyTracked | ResetSmartDiscard | ResetDiscardAll | ResetVerified | ResetUnset
datatype StartupParameterPolicy =
  StartupParameterReject | StartupParameterIgnore | StartupParameterPoolKey | StartupParameterUnset
datatype TLSMode = TLSDisable | TLSAllow | TLSPrefer | TLSRequire | TLSVerifyCA | TLSVerifyFull | TLSUnset

record PoolTimeouts =
  to_ClientLogin :: "duration option"
  to_Connect :: "duration option"
  to_Shutdown :: "duration option"
  to_Checkout :: "duration option"
  to_Query :: "duration option"
  to_ClientIdleInTransaction :: "duration option"

record PoolingConfig =
  po_Mode :: PoolMode
  po_ResetMode :: ResetPolicy
  po_PreparedStatementsLimit :: "int option"
  po_GlobalStatementsLimit :: "int option"
  po_ServerLifetime :: "duration option"
  po_MaxPinnedFractionPercent :: "int option"
  po_MaxPinDuration :: "duration option"
  po_ServerIdleTimeout :: "duration option"
  po_StartupParameterPolicy :: StartupParameterPolicy
  po_IgnoreStartupParameters :: "string list option"
  po_TrackExtraParameters :: "string list"

record PoolAdmission =
  ad_MaxWaitSeconds :: "int option"
  ad_QueueDepthPerTenant :: "int option"
  ad_QueryWaitNotifySeconds :: "int option"

record ProxySpec =
  ps_MetricsPort :: "int option"
  ps_TenantDiscriminators :: "string list"
  ps_StartupOptionKey :: string
  ps_TLS :: "(TLSMode \<times> TLSMode option) option"

record proxied_pool =
  pp_Name :: string
  pp_Namespace :: string
  pp_Generation :: int
  pp_Timeouts :: "PoolTimeouts option"
  pp_BackendConnections :: int
  pp_HeadroomPercent :: "int option"
  pp_MaxClientConnections :: "int option"
  pp_Admission :: "PoolAdmission option"
  pp_Pooling :: "PoolingConfig option"
  pp_ScramIterations :: "int option"
  pp_Proxy :: "ProxySpec option"

record Instance =
  pi_Name :: string
  pi_Address :: string
  pi_BackendConnections :: int
  pi_User :: string
  pi_Password :: string

record Tenant =
  pt_Name :: string
  pt_Instance :: string
  pt_Guaranteed :: int
  pt_Burstable :: int
  pt_Weight :: int
  pt_Priority :: int
  pt_MaxClientConnections :: int
  pt_BackendRole :: string
  pt_BackendSaltedPassword :: string
  pt_BackendSalt :: string
  pt_BackendIterations :: int
  pt_CredentialGeneration :: int

record User =
  pu_Name :: string
  pu_Tenant :: string
  pu_Verifier :: string
  pu_Password :: string
  pu_Contained :: bool
  pu_BackendRole :: string
  pu_BackendSaltedPassword :: string
  pu_BackendSalt :: string
  pu_BackendIterations :: int
  pu_BackendCredentialGeneration :: int

record Config =
  cf_Pool :: proxied_pool
  cf_Instances :: "Instance list"
  cf_Tenants :: "Tenant list"
  cf_Users :: "User list"
  cf_ClientTLS :: bool
  cf_BackendCA :: bool
  cf_Control :: bool

record Document =
  dc_TOML :: string
  dc_Version :: string
  dc_StructuralHash :: string

section \<open>Names and defaults\<close>

definition DefaultClientPort :: int where "DefaultClientPort = 5432"
definition DefaultMetricsPort :: int where "DefaultMetricsPort = 9127"
definition DefaultControlPort :: int where "DefaultControlPort = 9128"
definition ConfigKey :: string where "ConfigKey = ''proxy.toml''"
definition TLSDir :: string where "TLSDir = ''/etc/pgelastic/tls''"
definition BackendCADir :: string where "BackendCADir = ''/etc/pgelastic/backend-ca''"
definition ControlTLSDir :: string where "ControlTLSDir = ''/etc/pgelastic/control-tls''"
definition ControlLeaseTTLMillis :: int where "ControlLeaseTTLMillis = 15000"
definition ControlMaxLeaseTTLMillis :: int where "ControlMaxLeaseTTLMillis = 120000"
definition ReloadIntervalMillis :: int where "ReloadIntervalMillis = 1000"

definition controlSuffix :: string where "controlSuffix = ''-proxy-control''"

definition ServiceName :: "string \<Rightarrow> string" where "ServiceName pool = pool @ ''-proxy''"
definition ConfigSecretName :: "string \<Rightarrow> string" where "ConfigSecretName pool = pool @ ''-proxy-config''"
definition ControlClientSecretName :: "string \<Rightarrow> string" where
  "ControlClientSecretName pool = pool @ controlSuffix @ ''-client''"
definition ControlClientCertificateName :: "string \<Rightarrow> string" where
  "ControlClientCertificateName pool = pool @ controlSuffix @ ''-client''"
definition ControlClientName :: "string \<Rightarrow> string \<Rightarrow> string" where
  "ControlClientName pool namespace = ControlClientCertificateName pool @ ''.'' @ namespace @ ''.svc''"

definition timeouts :: "proxied_pool \<Rightarrow> PoolTimeouts" where
  "timeouts pool =
     (case pp_Timeouts pool of
        Some t \<Rightarrow> t
      | None \<Rightarrow> \<lparr>to_ClientLogin = None, to_Connect = None, to_Shutdown = None, to_Checkout = None, to_Query = None,
                to_ClientIdleInTransaction = None\<rparr>)"

text \<open>Rounding up, with the wrap of an int64 sum written out.\<close>

definition whole_seconds :: "duration \<Rightarrow> int" where
  "whole_seconds d = wrap64 (wrap64 (d + second) - 1) sdiv second"

definition seconds :: "duration option \<Rightarrow> int \<Rightarrow> int" where
  "seconds duration fallback =
     (case duration of None \<Rightarrow> fallback | Some d \<Rightarrow> if d \<le> 0 then fallback else whole_seconds d)"

definition openBoundSeconds :: "duration option \<Rightarrow> int \<Rightarrow> int" where
  "openBoundSeconds duration fallback =
     (case duration of None \<Rightarrow> fallback | Some d \<Rightarrow> if d \<le> 0 then 0 else whole_seconds d)"

definition queryWaitSeconds :: "proxied_pool \<Rightarrow> int" where
  "queryWaitSeconds pool =
     (case Option.bind (pp_Admission pool) ad_MaxWaitSeconds of
        Some n \<Rightarrow> n
      | None \<Rightarrow> seconds (to_Checkout (timeouts pool)) 30)"

definition queryDeadlineSeconds :: "proxied_pool \<Rightarrow> int" where
  "queryDeadlineSeconds pool = openBoundSeconds (to_Query (timeouts pool)) 120"

definition the_or :: "'a \<Rightarrow> 'a option \<Rightarrow> 'a" where
  "the_or fallback v = (case v of None \<Rightarrow> fallback | Some x \<Rightarrow> x)"

definition maxPinnedPercent :: "PoolingConfig option \<Rightarrow> int" where
  "maxPinnedPercent pooling = the_or 20 (Option.bind pooling po_MaxPinnedFractionPercent)"

definition serverIdleTimeout :: "proxied_pool \<Rightarrow> duration option" where
  "serverIdleTimeout pool = Option.bind (pp_Pooling pool) po_ServerIdleTimeout"

definition maxPinDuration :: "PoolingConfig option \<Rightarrow> duration option" where
  "maxPinDuration pooling = Option.bind pooling po_MaxPinDuration"

definition startupParameterPolicy :: "PoolingConfig option \<Rightarrow> string" where
  "startupParameterPolicy pooling =
     (let policy =
        (case pooling of
           Some p \<Rightarrow> if po_StartupParameterPolicy p \<noteq> StartupParameterUnset then po_StartupParameterPolicy p
                     else StartupParameterPoolKey
         | None \<Rightarrow> StartupParameterPoolKey) in
      case policy of
        StartupParameterReject \<Rightarrow> ''reject''
      | StartupParameterIgnore \<Rightarrow> ''ignore''
      | _ \<Rightarrow> ''poolKey'')"

definition ignoreStartupParameters :: "PoolingConfig option \<Rightarrow> string list" where
  "ignoreStartupParameters pooling =
     the_or [''extra_float_digits'', ''options''] (Option.bind pooling po_IgnoreStartupParameters)"

definition trackExtraParameters :: "PoolingConfig option \<Rightarrow> string list" where
  "trackExtraParameters pooling = (case pooling of None \<Rightarrow> [] | Some p \<Rightarrow> po_TrackExtraParameters p)"

definition poolMode :: "PoolingConfig option \<Rightarrow> string" where
  "poolMode pooling =
     (case pooling of
        Some p \<Rightarrow> if po_Mode p = PoolModeSession then ''session'' else ''transaction''
      | None \<Rightarrow> ''transaction'')"

definition resetPolicy :: "PoolingConfig option \<Rightarrow> string" where
  "resetPolicy pooling =
     (case pooling of
        None \<Rightarrow> ''dirtyTracked''
      | Some p \<Rightarrow>
          (case po_ResetMode p of
             ResetNone \<Rightarrow> ''none''
           | ResetSmartDiscard \<Rightarrow> ''smartDiscard''
           | ResetVerified \<Rightarrow> ''verified''
           | ResetDiscardAll \<Rightarrow> ''discardAll''
           | _ \<Rightarrow> ''dirtyTracked''))"

definition preparedStatementsLimit :: "PoolingConfig option \<Rightarrow> int" where
  "preparedStatementsLimit pooling = the_or 200 (Option.bind pooling po_PreparedStatementsLimit)"

definition globalStatementsLimit :: "PoolingConfig option \<Rightarrow> int" where
  "globalStatementsLimit pooling = the_or 2048 (Option.bind pooling po_GlobalStatementsLimit)"

definition serverLifetimeSeconds :: "PoolingConfig option \<Rightarrow> int" where
  "serverLifetimeSeconds pooling = (case pooling of None \<Rightarrow> 3600 | Some p \<Rightarrow> seconds (po_ServerLifetime p) 3600)"

definition maxClientConnections :: "proxied_pool \<Rightarrow> int" where
  "maxClientConnections pool = the_or 10000 (pp_MaxClientConnections pool)"

definition headroomPercent :: "proxied_pool \<Rightarrow> int" where
  "headroomPercent pool = the_or 0 (pp_HeadroomPercent pool)"

definition queueDepthPerTenant :: "proxied_pool \<Rightarrow> int" where
  "queueDepthPerTenant pool = the_or 64 (Option.bind (pp_Admission pool) ad_QueueDepthPerTenant)"

definition queryWaitNotifySeconds :: "proxied_pool \<Rightarrow> int" where
  "queryWaitNotifySeconds pool = the_or 5 (Option.bind (pp_Admission pool) ad_QueryWaitNotifySeconds)"

definition scramIterations :: "proxied_pool \<Rightarrow> int" where
  "scramIterations pool = the_or 4096 (pp_ScramIterations pool)"

definition metricsPort :: "proxied_pool \<Rightarrow> int" where
  "metricsPort pool = the_or DefaultMetricsPort (Option.bind (pp_Proxy pool) ps_MetricsPort)"

definition tenantDiscriminators :: "proxied_pool \<Rightarrow> string list" where
  "tenantDiscriminators pool =
     (case pp_Proxy pool of
        Some p \<Rightarrow> if ps_TenantDiscriminators p \<noteq> [] then ps_TenantDiscriminators p
                  else [''SNI'', ''StartupOptions'', ''DatabaseName'']
      | None \<Rightarrow> [''SNI'', ''StartupOptions'', ''DatabaseName''])"

definition startupOptionKey :: "proxied_pool \<Rightarrow> string" where
  "startupOptionKey pool =
     (case pp_Proxy pool of
        Some p \<Rightarrow> if ps_StartupOptionKey p \<noteq> [] then ps_StartupOptionKey p else ''pgelastic.tenant''
      | None \<Rightarrow> ''pgelastic.tenant'')"

definition requireTLS :: "proxied_pool \<Rightarrow> bool" where
  "requireTLS pool =
     (case Option.bind (pp_Proxy pool) ps_TLS of
        None \<Rightarrow> False
      | Some (mode, _) \<Rightarrow> mode \<in> {TLSRequire, TLSVerifyCA, TLSVerifyFull})"

definition backendTLSMode :: "proxied_pool \<Rightarrow> bool \<Rightarrow> string" where
  "backendTLSMode pool hasCA =
     (case Option.bind (pp_Proxy pool) ps_TLS of
        Some (_, Some mode) \<Rightarrow>
          (if mode = TLSVerifyFull \<or> mode = TLSVerifyCA then (if hasCA then ''VerifyFull'' else ''Require'')
           else if mode = TLSRequire then ''Require''
           else ''Disable'')
      | _ \<Rightarrow> ''Disable'')"

section \<open>Quoting\<close>

text \<open>\<open>%04X\<close> of a code point below 128.\<close>

definition pad4 :: "string \<Rightarrow> string" where
  "pad4 s = replicate (4 - length s) (CHR ''0'') @ s"

definition toml_escape :: "char \<Rightarrow> string" where
  "toml_escape c =
     (if c = CHR 0x22 then [CHR 0x5C, CHR 0x22]
      else if c = CHR 0x5C then [CHR 0x5C, CHR 0x5C]
      else if c = CHR 0x08 then [CHR 0x5C, CHR ''b'']
      else if c = CHR 0x09 then [CHR 0x5C, CHR ''t'']
      else if c = CHR 0x0A then [CHR 0x5C, CHR ''n'']
      else if c = CHR 0x0C then [CHR 0x5C, CHR ''f'']
      else if c = CHR 0x0D then [CHR 0x5C, CHR ''r'']
      else if (of_char c :: nat) < 32 \<or> (of_char c :: nat) = 127 then [CHR 0x5C, CHR ''u''] @ pad4 (to_hex (of_char c))
      else [c])"

definition tomlString :: "string \<Rightarrow> string" where
  "tomlString v = [CHR 0x22] @ concat (map toml_escape v) @ [CHR 0x22]"

section \<open>The document\<close>

definition unlines :: "string list \<Rightarrow> string" where
  "unlines ls = concat (map (\<lambda>l. l @ [newline]) ls)"

definition writeString :: "string \<Rightarrow> string \<Rightarrow> string" where
  "writeString key v = key @ '' = '' @ tomlString v"

fun join_comma :: "string list \<Rightarrow> string" where
  "join_comma [] = []"
| "join_comma [s] = s"
| "join_comma (s # ss) = s @ '', '' @ join_comma ss"

definition writeStrings :: "string \<Rightarrow> string list \<Rightarrow> string" where
  "writeStrings key values = key @ '' = ['' @ join_comma (map tomlString values) @ '']''"

definition writeInt :: "string \<Rightarrow> int \<Rightarrow> string" where
  "writeInt key n = key @ '' = '' @ Itoa n"

definition writeBool :: "string \<Rightarrow> bool \<Rightarrow> string" where
  "writeBool key b = key @ '' = '' @ (if b then ''true'' else ''false'')"

definition sortedInstances :: "Config \<Rightarrow> Instance list" where
  "sortedInstances c = sort_func (\<lambda>a b. go_compare (pi_Name a) (pi_Name b)) (cf_Instances c)"

definition sortedTenants :: "Config \<Rightarrow> Tenant list" where
  "sortedTenants c = sort_func (\<lambda>a b. go_compare (pt_Name a) (pt_Name b)) (cf_Tenants c)"

definition sortedUsers :: "Config \<Rightarrow> User list" where
  "sortedUsers c = sort_func (\<lambda>a b. go_compare (pu_Name a) (pu_Name b)) (cf_Users c)"

definition renderListen :: "Config \<Rightarrow> string list" where
  "renderListen c =
     [''[listen]'',
      writeString ''address'' (''0.0.0.0:'' @ Itoa DefaultClientPort),
      writeInt ''maxClientConnections'' (maxClientConnections (cf_Pool c)),
      writeInt ''clientLoginSeconds'' (seconds (to_ClientLogin (timeouts (cf_Pool c))) 10)] @
     (if cf_ClientTLS c then
        [writeBool ''requireTls'' (requireTLS (cf_Pool c)), [],
         ''[listen.tls]'',
         writeString ''certificateFile'' (TLSDir @ ''/tls.crt''),
         writeString ''keyFile'' (TLSDir @ ''/tls.key'')]
      else []) @ [[]]"

definition renderBackend :: "Config \<Rightarrow> string list" where
  "renderBackend c =
     (let (address, user) =
        (case sortedInstances c of
           [] \<Rightarrow> (''127.0.0.1:5432'', ''postgres'')
         | first # _ \<Rightarrow> (pi_Address first, pi_User first)) in
      [''[backend]'',
       writeString ''address'' address,
       writeString ''user'' user,
       writeInt ''connectSeconds'' (seconds (to_Connect (timeouts (cf_Pool c))) 5), [],
       ''[backend.tls]'',
       writeString ''mode'' (backendTLSMode (cf_Pool c) (cf_BackendCA c))] @
      (if cf_BackendCA c then [writeString ''caFile'' (BackendCADir @ ''/ca.crt'')] else []) @ [[]])"

definition render_user :: "User \<Rightarrow> string list" where
  "render_user u =
     [''[[auth.users]]'',
      writeString ''name'' (pu_Name u),
      writeString ''tenant'' (pu_Tenant u)] @
     (if pu_Contained u then [writeBool ''contained'' True] else []) @
     [if pu_Verifier u \<noteq> [] then writeString ''verifier'' (pu_Verifier u)
      else writeString ''password'' (pu_Password u)] @
     (if pu_BackendRole u \<noteq> [] \<and> pu_BackendSaltedPassword u \<noteq> [] then
        [writeString ''backendRole'' (pu_BackendRole u),
         writeString ''backendSaltedPassword'' (pu_BackendSaltedPassword u),
         writeString ''backendSalt'' (pu_BackendSalt u),
         writeInt ''backendIterations'' (pu_BackendIterations u),
         writeInt ''backendCredentialGeneration'' (pu_BackendCredentialGeneration u)]
      else []) @ [[]]"

definition renderAuth :: "Config \<Rightarrow> bool \<Rightarrow> string list" where
  "renderAuth c dynamic =
     [''[auth]'', writeInt ''scramIterations'' (scramIterations (cf_Pool c)), []] @
     (if \<not> dynamic then [] else concat (map render_user (sortedUsers c)))"

definition renderDrainAndMetrics :: "Config \<Rightarrow> string list" where
  "renderDrainAndMetrics c =
     [''[drain]'', writeInt ''shutdownSeconds'' (seconds (to_Shutdown (timeouts (cf_Pool c))) 60), [],
      ''[metrics]'', writeString ''address'' (''0.0.0.0:'' @ Itoa (metricsPort (cf_Pool c))), []]"

definition renderControl :: "Config \<Rightarrow> string list" where
  "renderControl c =
     (if \<not> cf_Control c then []
      else [''[control]'',
            writeString ''address'' (''0.0.0.0:'' @ Itoa DefaultControlPort),
            writeInt ''defaultLeaseTtlMs'' ControlLeaseTTLMillis,
            writeInt ''maxLeaseTtlMs'' ControlMaxLeaseTTLMillis, [],
            ''[control.tls]'',
            writeString ''certificateFile'' (ControlTLSDir @ ''/tls.crt''),
            writeString ''keyFile'' (ControlTLSDir @ ''/tls.key''),
            writeString ''clientCaFile'' (ControlTLSDir @ ''/ca.crt''),
            writeString ''clientName'' (ControlClientName (pp_Name (cf_Pool c)) (pp_Namespace (cf_Pool c))), []])"

text \<open>The entries of the inline table: a tenant without an instance or with a name already written is skipped.\<close>

fun route_entries :: "string set \<Rightarrow> Tenant list \<Rightarrow> (string \<times> string) list" where
  "route_entries written [] = []"
| "route_entries written (t # ts) =
     (if pt_Instance t = [] then route_entries written ts
      else if pt_Name t \<in> written then route_entries written ts
      else (pt_Name t, pt_Instance t) # route_entries (insert (pt_Name t) written) ts)"

definition route_entry :: "string \<times> string \<Rightarrow> string" where
  "route_entry e = tomlString (fst e) @ '' = '' @ tomlString (snd e)"

definition tenants_line :: "(string \<times> string) list \<Rightarrow> string" where
  "tenants_line es = ''tenants = { '' @ join_comma (map route_entry es) @ '' }''"

definition renderRouting :: "Config \<Rightarrow> bool \<Rightarrow> string list" where
  "renderRouting c dynamic =
     [''[routing]'',
      ''tenantDiscriminators = ['' @ join_comma (map tomlString (tenantDiscriminators (cf_Pool c))) @ '']'',
      writeString ''startupOptionKey'' (startupOptionKey (cf_Pool c))] @
     (case sortedInstances c of [] \<Rightarrow> [] | first # _ \<Rightarrow> [writeString ''defaultInstance'' (pi_Name first)]) @
     (if dynamic then [tenants_line (route_entries {} (sortedTenants c))] else []) @ [[]]"

definition render_tenant :: "Tenant \<Rightarrow> string list" where
  "render_tenant t =
     [''[[pool.tenants]]'',
      writeString ''name'' (pt_Name t),
      writeInt ''guaranteed'' (pt_Guaranteed t),
      writeInt ''burstable'' (pt_Burstable t),
      writeInt ''weight'' (pt_Weight t),
      writeInt ''priority'' (pt_Priority t)] @
     (if pt_MaxClientConnections t > 0 then [writeInt ''maxClientConnections'' (pt_MaxClientConnections t)] else []) @
     (if pt_BackendRole t \<noteq> [] then [writeString ''backendRole'' (pt_BackendRole t)] else []) @
     (if pt_BackendRole t \<noteq> [] \<and> pt_BackendSaltedPassword t \<noteq> [] then
        [writeString ''backendSaltedPassword'' (pt_BackendSaltedPassword t),
         writeString ''backendSalt'' (pt_BackendSalt t),
         writeInt ''backendIterations'' (pt_BackendIterations t),
         writeInt ''credentialGeneration'' (pt_CredentialGeneration t)]
      else []) @ [[]]"

definition renderPool :: "Config \<Rightarrow> bool \<Rightarrow> string list" where
  "renderPool c dynamic =
     (let pool = cf_Pool c; pooling = pp_Pooling pool in
      [''[pool]'',
       writeString ''mode'' (poolMode pooling),
       writeInt ''backendConnections'' (pp_BackendConnections pool),
       writeInt ''headroomPercent'' (headroomPercent pool),
       writeInt ''maxClientConnections'' (maxClientConnections pool),
       writeString ''resetPolicy'' (resetPolicy pooling)] @
      (if dynamic then
         [writeInt ''queryWaitSeconds'' (queryWaitSeconds pool),
          writeInt ''queryDeadlineSeconds'' (queryDeadlineSeconds pool),
          writeInt ''clientIdleInTransactionSeconds'' (openBoundSeconds (to_ClientIdleInTransaction (timeouts pool)) 60),
          writeInt ''maxPinnedPercent'' (maxPinnedPercent pooling),
          writeInt ''maxPinDurationSeconds'' (openBoundSeconds (maxPinDuration pooling) 3600),
          writeInt ''serverIdleTimeoutSeconds'' (openBoundSeconds (serverIdleTimeout pool) 600)]
       else []) @
      [writeInt ''notifyAfterSeconds'' (queryWaitNotifySeconds pool),
       writeInt ''queueDepthPerTenant'' (queueDepthPerTenant pool),
       writeInt ''maxServerStatements'' (preparedStatementsLimit pooling),
       writeInt ''maxGlobalStatements'' (globalStatementsLimit pooling),
       writeInt ''serverLifetimeSeconds'' (serverLifetimeSeconds pooling),
       writeString ''startupParameterPolicy'' (startupParameterPolicy pooling),
       writeStrings ''ignoreStartupParameters'' (ignoreStartupParameters pooling),
       writeStrings ''trackExtraParameters'' (trackExtraParameters pooling), []] @
      (if \<not> dynamic then [] else concat (map render_tenant (sortedTenants c))))"

definition renderReload :: "Config \<Rightarrow> string list" where
  "renderReload c =
     [''[reload]'', writeInt ''intervalMs'' ReloadIntervalMillis, writeBool ''reportToPod'' True, [],
      ''[reload.secret]'',
      writeString ''namespace'' (pp_Namespace (cf_Pool c)),
      writeString ''name'' (ConfigSecretName (pp_Name (cf_Pool c))),
      writeString ''key'' ConfigKey, []]"

definition render_instance :: "bool \<Rightarrow> Instance \<Rightarrow> string list" where
  "render_instance dynamic i =
     [''[[instances]]'',
      writeString ''name'' (pi_Name i),
      writeString ''address'' (pi_Address i)] @
     (if dynamic \<and> pi_BackendConnections i > 0 then [writeInt ''backendConnections'' (pi_BackendConnections i)] else []) @
     [writeString ''user'' (pi_User i),
      writeString ''password'' (pi_Password i), []]"

definition renderInstances :: "Config \<Rightarrow> bool \<Rightarrow> string list" where
  "renderInstances c dynamic = concat (map (render_instance dynamic) (sortedInstances c))"

definition render_lines :: "Config \<Rightarrow> bool \<Rightarrow> string list" where
  "render_lines c dynamic =
     renderListen c @ renderBackend c @ renderAuth c dynamic @ renderDrainAndMetrics c @ renderControl c @
     renderRouting c dynamic @ renderPool c dynamic @ renderReload c @ renderInstances c dynamic"

definition render :: "Config \<Rightarrow> bool \<Rightarrow> string" where
  "render c dynamic = unlines (render_lines c dynamic)"

text \<open>\<open>shortHash\<close>: the first sixteen digits of the hexadecimal SHA-256, the parameter \<open>sha\<close>.\<close>

definition shortHash :: "(string \<Rightarrow> string) \<Rightarrow> string \<Rightarrow> string" where
  "shortHash sha v = take 16 (sha v)"

definition Render :: "(string \<Rightarrow> string) \<Rightarrow> Config \<Rightarrow> Document" where
  "Render sha c =
     (let full = render c True; structural = render c False;
          version = Itoa (pp_Generation (cf_Pool c)) @ ''-'' @ shortHash sha full in
      \<lparr>dc_TOML = ''configVersion = '' @ tomlString version @ [newline, newline] @ full,
       dc_Version = version,
       dc_StructuralHash = shortHash sha structural\<rparr>)"

section \<open>The reader\<close>

text \<open>\<open>strings.Contains\<close>.\<close>

fun Contains :: "string \<Rightarrow> string \<Rightarrow> bool" where
  "Contains [] sub = (sub = [])"
| "Contains (c # s) sub = (prefix sub (c # s) \<or> Contains s sub)"

fun routed_loop :: "string list \<Rightarrow> string \<Rightarrow> string \<Rightarrow> bool" where
  "routed_loop [] database inst = False"
| "routed_loop (l # ls) database inst =
     (if \<not> prefix ''tenants = {'' (TrimSpace l) then routed_loop ls database inst
      else Contains (TrimSpace l) (tomlString database @ '' = '' @ tomlString inst))"

definition RoutedInDocument :: "string \<Rightarrow> string \<Rightarrow> string \<Rightarrow> bool" where
  "RoutedInDocument document database inst = routed_loop (Split newline document) database inst"

section \<open>Quoting is undone by reading\<close>

text \<open>The reading of a basic string as TOML defines it, for code points below 128.\<close>

definition hex4 :: "string \<Rightarrow> nat option" where
  "hex4 s = (case ParseUint s 16 16 of Inl _ \<Rightarrow> None | Inr n \<Rightarrow> Some n)"

fun toml_body :: "string \<Rightarrow> (string \<times> string) option" where
  "toml_body [] = None"
| "toml_body (c # s) =
     (if c = CHR 0x22 then Some ([], s)
      else if c \<noteq> CHR 0x5C then
        (if (of_char c :: nat) < 32 \<or> (of_char c :: nat) = 127 then None
         else map_option (apfst ((#) c)) (toml_body s))
      else case s of
        [] \<Rightarrow> None
      | e # s' \<Rightarrow>
          (case map_of [(CHR 0x22, CHR 0x22), (CHR 0x5C, CHR 0x5C), (CHR ''b'', CHR 0x08), (CHR ''t'', CHR 0x09),
                        (CHR ''n'', CHR 0x0A), (CHR ''f'', CHR 0x0C), (CHR ''r'', CHR 0x0D)] e of
             Some d \<Rightarrow> map_option (apfst ((#) d)) (toml_body s')
           | None \<Rightarrow>
               if e = CHR ''u'' then
                 (case hex4 (take 4 s') of
                    None \<Rightarrow> None
                  | Some n \<Rightarrow> map_option (apfst ((#) (char_of n))) (toml_body (drop 4 s')))
               else None))"

definition toml_read :: "string \<Rightarrow> (string \<times> string) option" where
  "toml_read s = (case s of [] \<Rightarrow> None | c # s' \<Rightarrow> if c = CHR 0x22 then toml_body s' else None)"

lemma control_escape:
  assumes "n < 32 \<or> n = 127"
  shows "length (pad4 (to_hex n)) = 4" "hex4 (pad4 (to_hex n)) = Some n" "\<forall>c \<in> set (pad4 (to_hex n)). graphic c"
proof -
  have "n div 16 < 16" using assms by auto
  then have "length (to_hex n) \<le> 4" by (simp add: to_hex.simps [of n] to_hex.simps [of "n div 16"])
  then show "length (pad4 (to_hex n)) = 4" by (simp add: pad4_def)
  show "hex4 (pad4 (to_hex n)) = Some n"
    using assms by (auto simp: hex4_def pad4_def hex.ParseUint_padded)
  show "\<forall>c \<in> set (pad4 (to_hex n)). graphic c"
    using hex_graphic(1) by (auto simp: pad4_def graphic_def)
qed

lemma toml_body_escape: "toml_body (toml_escape c @ s) = map_option (apfst ((#) c)) (toml_body s)"
proof (cases "((of_char c :: nat) < 32 \<or> (of_char c :: nat) = 127) \<and>
    c \<notin> {CHR 0x22, CHR 0x5C, CHR 0x08, CHR 0x09, CHR 0x0A, CHR 0x0C, CHR 0x0D}")
  case True
  then show ?thesis using control_escape [of "of_char c"] by (simp add: toml_escape_def)
next
  case False
  then show ?thesis by (auto simp: toml_escape_def)
qed

lemma toml_read_tomlString: "toml_read (tomlString v @ rest) = Some (v, rest)"
proof -
  have "toml_body (concat (map toml_escape v) @ CHR 0x22 # rest) = Some (v, rest)"
    by (induction v) (simp_all add: toml_body_escape del: toml_body.simps(2), simp)
  then show ?thesis by (simp add: toml_read_def tomlString_def)
qed

lemma char_32: "(of_char c :: nat) = 32 \<Longrightarrow> c = CHR '' ''"
proof -
  assume "(of_char c :: nat) = 32"
  then have "(of_char c :: nat) = of_char (CHR '' '')" by simp
  then show "c = CHR '' ''" by (simp only: of_char_eq_iff)
qed

lemma toml_escape_printable:
  assumes "x \<in> set (toml_escape c)"
  shows "x = CHR '' '' \<or> graphic x \<or> 127 < (of_char x :: nat)"
proof (cases "((of_char c :: nat) < 32 \<or> (of_char c :: nat) = 127) \<and>
    c \<notin> {CHR 0x22, CHR 0x5C, CHR 0x08, CHR 0x09, CHR 0x0A, CHR 0x0C, CHR 0x0D}")
  case True
  with assms control_escape(3) [of "of_char c"] show ?thesis by (auto simp: toml_escape_def graphic_def)
next
  case False
  have "(of_char c :: nat) = 32 \<or> graphic c \<or> 127 < (of_char c :: nat)"
    if "\<not> ((of_char c :: nat) < 32 \<or> (of_char c :: nat) = 127)"
    using that by (auto simp: graphic_def)
  with False assms char_32 [of c] show ?thesis by (auto simp: toml_escape_def graphic_def split: if_splits)
qed



lemma newline_tomlString [simp]: "newline \<notin> set (tomlString v)"
  using toml_escape_printable [of newline] by (auto simp: tomlString_def newline_def graphic_def)

section \<open>The lines of a document\<close>

lemma newline_Itoa [simp]: "newline \<notin> set (Itoa n)"
  using Itoa_graphic [of n] by (auto simp: newline_def graphic_def)

lemma newline_join [simp]: "\<forall>s \<in> set ss. newline \<notin> set s \<Longrightarrow> newline \<notin> set (join_comma ss)"
  by (induction ss rule: join_comma.induct) (auto simp: newline_def)

lemma Split_unlines: "\<forall>l \<in> set ls. newline \<notin> set l \<Longrightarrow> Split newline (unlines ls) = ls @ [[]]"
  by (induction ls) (simp_all add: unlines_def Split_append)

lemmas newline_free [simp] = newline_tomlString [unfolded newline_def] newline_Itoa [unfolded newline_def]
  newline_join [unfolded newline_def]

text \<open>A line that starts with a letter or a bracket and is not the routing table.\<close>

definition no_table :: "string \<Rightarrow> bool" where
  "no_table l \<longleftrightarrow> newline \<notin> set l \<and> (l = [] \<or> graphic (hd l)) \<and> \<not> prefix ''tenants = {'' l"

lemma no_table_Nil [simp]: "no_table []"
  by (simp add: no_table_def)

lemma no_table_section [simp]: "newline \<notin> set l \<Longrightarrow> no_table (CHR ''['' # l)"
  by (simp add: no_table_def graphic_def newline_def)

lemma no_table_key:
  assumes "list_all graphic key" "key \<noteq> []" "key \<noteq> ''tenants''" "newline \<notin> set v"
  shows "no_table (key @ '' = '' @ v)"
proof -
  let ?w = "takeWhile ((\<noteq>) (CHR '' ''))"
  have key: "?w (key @ '' = '' @ v) = key" using assms(1)
    by (subst takeWhile_append2) (auto simp: list_all_iff graphic_def)
  have "\<not> prefix ''tenants = {'' (key @ '' = '' @ v)"
  proof
    assume "prefix ''tenants = {'' (key @ '' = '' @ v)"
    then obtain r where "key @ '' = '' @ v = ''tenants = {'' @ r" by (auto simp: prefix_def)
    then have "?w (key @ '' = '' @ v) = ''tenants''" by simp
    with key assms(3) show False by simp
  qed
  with assms show ?thesis
    by (cases key) (auto simp: no_table_def list_all_iff newline_def graphic_def)
qed

lemma no_table_writes [simp]:
  assumes "list_all graphic key" "key \<noteq> []" "key \<noteq> ''tenants''"
  shows "no_table (writeString key v)" "no_table (writeInt key n)" "no_table (writeBool key b)" "no_table (writeStrings key vs)"
  using no_table_key [OF assms, of "tomlString v"] no_table_key [OF assms, of "Itoa n"]
    no_table_key [OF assms, of "if b then ''true'' else ''false''"]
    no_table_key [OF assms, of "''['' @ join_comma (map tomlString vs) @ '']''"]
  by (auto simp: writeString_def writeInt_def writeBool_def writeStrings_def newline_def)

lemma discriminators_line:
  "''tenantDiscriminators = ['' @ join_comma (map tomlString ds) @ '']'' = writeStrings ''tenantDiscriminators'' ds"
  by (simp add: writeStrings_def)

named_theorems tables

lemma no_table_listen [tables]: "list_all no_table (renderListen c)"
  by (simp add: renderListen_def graphic_def newline_def)

lemma no_table_backend [tables]: "list_all no_table (renderBackend c)"
  by (simp add: renderBackend_def graphic_def newline_def split: list.split)

lemma no_table_user: "list_all no_table (render_user u)"
  by (simp add: render_user_def graphic_def newline_def)

lemma no_table_auth [tables]: "list_all no_table (renderAuth c dynamic)"
  using no_table_user by (auto simp: renderAuth_def graphic_def newline_def list_all_iff)

lemma no_table_drain [tables]: "list_all no_table (renderDrainAndMetrics c)"
  by (simp add: renderDrainAndMetrics_def graphic_def newline_def)

lemma no_table_control [tables]: "list_all no_table (renderControl c)"
  by (simp add: renderControl_def graphic_def newline_def)

lemma no_table_tenant: "list_all no_table (render_tenant t)"
  by (simp add: render_tenant_def graphic_def newline_def)

lemma no_table_pool [tables]: "list_all no_table (renderPool c dynamic)"
  using no_table_tenant by (auto simp: renderPool_def Let_def graphic_def newline_def list_all_iff)

lemma no_table_reload [tables]: "list_all no_table (renderReload c)"
  by (simp add: renderReload_def graphic_def newline_def)

lemma no_table_instance: "list_all no_table (render_instance dynamic i)"
  by (simp add: render_instance_def graphic_def newline_def)

lemma no_table_instances [tables]: "list_all no_table (renderInstances c dynamic)"
  using no_table_instance by (auto simp: renderInstances_def list_all_iff)

lemma no_table_routing [tables]:
  "list_all no_table (case sortedInstances c of [] \<Rightarrow> [] | first # _ \<Rightarrow> [writeString ''defaultInstance'' (pi_Name first)])"
  by (simp add: graphic_def split: list.split)

section \<open>The routing table\<close>

text \<open>\<open>strings.Contains\<close> finds a substring.\<close>

lemma Contains_iff: "Contains s sub \<longleftrightarrow> (\<exists>a b. s = a @ sub @ b)"
proof (induction s)
  case (Cons c s)
  have "(\<exists>a b. c # s = a @ sub @ b) \<longleftrightarrow> prefix sub (c # s) \<or> (\<exists>a b. s = a @ sub @ b)"
    by (auto simp: prefix_def Cons_eq_append_conv)
  with Cons show ?case by simp
qed auto

lemma Split_app: "Split q (a @ q # b) = Split q a @ Split q b"
  by (induction a) (auto split: list.split simp: append_eq_Cons_conv)

text \<open>The names the API admits: no space, no quote, nothing to escape.\<close>

definition plain :: "string \<Rightarrow> bool" where
  "plain v \<longleftrightarrow> list_all (\<lambda>c. graphic c \<and> c \<noteq> CHR 0x22 \<and> c \<noteq> CHR 0x5C) v"

lemma tomlString_plain: "plain v \<Longrightarrow> tomlString v = CHR 0x22 # v @ [CHR 0x22]"
proof -
  assume "plain v"
  then have "concat (map toml_escape v) = v"
    by (induction v) (auto simp: plain_def toml_escape_def graphic_def)
  then show ?thesis by (simp add: tomlString_def)
qed

lemma quote_plain: "plain v \<Longrightarrow> CHR 0x22 \<notin> set v"
  by (auto simp: plain_def list_all_iff)

text \<open>The pieces of the table between its quotes.\<close>

fun pieces :: "(string \<times> string) list \<Rightarrow> string list" where
  "pieces [] = []"
| "pieces [(k, v)] = [k, '' = '', v, '' }'']"
| "pieces ((k, v) # es) = [k, '' = '', v, '', ''] @ pieces es"

lemma separators: "\<not> plain '' = ''" "\<not> plain '', ''" "\<not> plain '' }''" "'' = '' \<noteq> '', ''" "'' = '' \<noteq> '' }''"
  by (simp_all add: plain_def graphic_def)

lemma pieces_entry:
  assumes "pieces es = X @ db # '' = '' # inst # Y" "\<forall>(k, v) \<in> set es. plain k \<and> plain v" "plain db"
  shows "(db, inst) \<in> set es"
  using assms
proof (induction es arbitrary: X rule: pieces.induct)
  case (2 k v)
  then show ?case using separators by (cases X; cases "tl X"; cases "tl (tl X)"; cases "tl (tl (tl X))") auto
next
  case (3 k v e es)
  have eq: "k # '' = '' # v # '', '' # pieces (e # es) = X @ db # '' = '' # inst # Y" using 3(2) by simp
  consider "X = []" | x where "X = [x]" | x y where "X = [x, y]" | x y z where "X = [x, y, z]"
    | x y z u X' where "X = x # y # z # u # X'"
    by (metis list.exhaust)
  then show ?case
  proof cases
    case 5
    with eq have "pieces (e # es) = X' @ db # '' = '' # inst # Y" by (simp del: pieces.simps)
    from 3(1) [OF this] 3(3,4) show ?thesis by simp
  qed (use eq separators 3(4) in auto)
qed simp

lemma Split_entries:
  assumes "\<forall>(k, v) \<in> set es. plain k \<and> plain v" "es \<noteq> []"
  shows "Split (CHR 0x22) (join_comma (map route_entry es) @ '' }'') = [] # pieces es"
  using assms
proof (induction es rule: pieces.induct)
  case (2 k v)
  then show ?case
    using Split_app [of "CHR 0x22" k] Split_app [of "CHR 0x22" v]
    by (simp add: route_entry_def tomlString_plain Split_plain quote_plain)
next
  case (3 k v e es)
  then show ?case
    using Split_app [of "CHR 0x22" k] Split_app [of "CHR 0x22" v]
    by (simp add: route_entry_def tomlString_plain Split_plain quote_plain)
qed simp

lemma tenants_line_contains:
  assumes "\<forall>(k, v) \<in> set es. plain k \<and> plain v" "plain db" "plain inst"
  shows "Contains (tenants_line es) (tomlString db @ '' = '' @ tomlString inst) \<longleftrightarrow> (db, inst) \<in> set es"
proof
  assume "(db, inst) \<in> set es"
  then obtain xs ys where "es = xs @ (db, inst) # ys" by (auto simp: in_set_conv_decomp)
  moreover have "\<exists>a b. join_comma (map route_entry (xs @ (db, inst) # ys)) = a @ route_entry (db, inst) @ b"
  proof (induction xs)
    case Nil
    show ?case by (cases ys) (auto intro: exI [of _ "[]"])
  next
    case (Cons x xs)
    then obtain a b where "join_comma (map route_entry (xs @ (db, inst) # ys)) = a @ route_entry (db, inst) @ b" by blast
    then have "join_comma (map route_entry ((x # xs) @ (db, inst) # ys)) = (route_entry x @ '', '' @ a) @ route_entry (db, inst) @ b"
      by (cases xs) auto
    then show ?case by blast
  qed
  ultimately obtain a b where "tenants_line es = (''tenants = { '' @ a) @ route_entry (db, inst) @ b @ '' }''"
    by (auto simp: tenants_line_def)
  then show "Contains (tenants_line es) (tomlString db @ '' = '' @ tomlString inst)"
    unfolding Contains_iff by (metis append_assoc fst_conv route_entry_def snd_conv)
next
  let ?q = "CHR 0x22" and ?head = "''tenants = { ''"
  assume "Contains (tenants_line es) (tomlString db @ '' = '' @ tomlString inst)"
  then obtain a b where split: "tenants_line es = a @ ?q # db @ ?q # '' = '' @ ?q # inst @ ?q # b"
    using assms(2,3) by (auto simp: Contains_iff tomlString_plain)
  have "?q \<notin> set '' = ''" by simp
  then have right: "Split ?q (tenants_line es) = Split ?q a @ db # '' = '' # inst # Split ?q b"
    unfolding split using assms(2,3) by (simp only: Split_app) (simp add: Split_plain quote_plain)
  show "(db, inst) \<in> set es"
  proof (cases "es = []")
    case True
    then have "Split ?q (tenants_line es) = [''tenants = {  }'']" by (simp add: tenants_line_def)
    with right show ?thesis by (auto simp: append_eq_Cons_conv)
  next
    case False
    have "Split ?q (tenants_line es) = ?head # pieces es"
      using Split_entries [OF assms(1) False] by (simp add: tenants_line_def)
    with right have eq: "?head # pieces es = Split ?q a @ db # '' = '' # inst # Split ?q b" by simp
    have "\<not> plain ?head" by (simp add: plain_def graphic_def)
    then have "Split ?q a \<noteq> []" using eq assms(2) by auto
    with eq have "pieces es = tl (Split ?q a) @ db # '' = '' # inst # Split ?q b" by (cases "Split ?q a") auto
    from pieces_entry [OF this assms(1,2)] show ?thesis .
  qed
qed

text \<open>Trimming the lines.\<close>

lemma trim_runes_suffix: "\<exists>a. s = a @ trim_runes rs s"
proof (induction rs s rule: trim_runes.induct)
  case (1 rs s)
  show ?case
  proof (cases "find (\<lambda>r. r \<noteq> [] \<and> prefix r s) rs")
    case None
    then show ?thesis by (simp add: trim_runes_id)
  next
    case (Some r)
    from 1 [OF this] obtain a where "drop (length r) s = a @ trim_runes rs (drop (length r) s)" ..
    then have "s = (take (length r) s @ a) @ trim_runes rs s"
      using Some by (subst trim_runes.simps) (metis append.assoc append_take_drop_id option.simps(5))
    then show ?thesis ..
  qed
qed

lemma trim_left: "l = [] \<or> graphic (hd l) \<Longrightarrow> trim_runes space_runes l = l"
  by (intro trim_runes_id find_rune_graphic) (auto dest: space_rune_ends)

lemma TrimSpace_prefix: "l = [] \<or> graphic (hd l) \<Longrightarrow> prefix (TrimSpace l) l"
  using trim_runes_suffix [of "rev l" "map rev space_runes"] trim_left [of l]
  by (auto simp: TrimSpace_def prefix_def) (metis rev_append rev_rev_ident)

lemma TrimSpace_ends: "graphic (hd l) \<Longrightarrow> graphic (last l) \<Longrightarrow> l \<noteq> [] \<Longrightarrow> TrimSpace l = l"
proof -
  assume ends: "graphic (hd l)" "graphic (last l)" "l \<noteq> []"
  have "trim_runes (map rev space_runes) (rev l) = rev l"
    using ends by (intro trim_runes_id find_rune_graphic) (auto simp: hd_rev dest: space_rune_ends)
  with ends trim_left [of l] show ?thesis by (simp add: TrimSpace_def)
qed

lemma routed_loop_skip: "list_all no_table ls \<Longrightarrow> routed_loop (ls @ rest) db inst = routed_loop rest db inst"
proof (induction ls)
  case (Cons l ls)
  then have "prefix (TrimSpace l) l" "\<not> prefix ''tenants = {'' l" by (auto simp: no_table_def intro: TrimSpace_prefix)
  then have "\<not> prefix ''tenants = {'' (TrimSpace l)" by (meson prefix_order.trans)
  with Cons show ?case by simp
qed simp

lemma TrimSpace_tenants_line: "TrimSpace (tenants_line es) = tenants_line es"
  by (rule TrimSpace_ends) (auto simp: tenants_line_def graphic_def)

text \<open>What the table means: the first entry of a name counts.\<close>

lemma route_entries_set:
  "(db, inst) \<in> set (route_entries written ts) \<longleftrightarrow>
     db \<notin> written \<and> inst \<noteq> [] \<and>
     map_of (map (\<lambda>t. (pt_Name t, pt_Instance t)) (filter (\<lambda>t. pt_Instance t \<noteq> []) ts)) db = Some inst"
  by (induction ts arbitrary: written) auto

lemma route_entries_written: "db \<in> written \<Longrightarrow> db \<notin> fst ` set (route_entries written ts)"
proof
  assume "db \<in> written" "db \<in> fst ` set (route_entries written ts)"
  then obtain inst where "(db, inst) \<in> set (route_entries written ts)" by auto
  with \<open>db \<in> written\<close> show False unfolding route_entries_set by simp
qed

lemma route_entries_distinct: "distinct (map fst (route_entries written ts))"
  by (induction ts arbitrary: written) (simp_all add: route_entries_written)

definition routes :: "Config \<Rightarrow> string \<Rightarrow> string option" where
  "routes c = map_of (map (\<lambda>t. (pt_Name t, pt_Instance t)) (filter (\<lambda>t. pt_Instance t \<noteq> []) (sortedTenants c)))"

lemma routes_nonempty: "routes c db = Some inst \<Longrightarrow> inst \<noteq> []"
  by (auto simp: routes_def dest!: map_of_SomeD)

lemma newline_tenants_line: "newline \<notin> set (tenants_line es)"
proof -
  have "newline \<notin> set (join_comma (map route_entry es))"
    by (rule newline_join) (auto simp: route_entry_def newline_def)
  then show ?thesis by (simp add: tenants_line_def newline_def)
qed

lemma route_entries_names:
  "(k, v) \<in> set (route_entries written ts) \<Longrightarrow> \<exists>t \<in> set ts. k = pt_Name t \<and> v = pt_Instance t"
  by (induction ts arbitrary: written) (fastforce split: if_splits)+

text \<open>
  C30. The wait for a flip ends exactly when the document carries it: for names without spaces, quotes
  and escapes, which are all the API admits, the reader finds a database on an instance in a rendered
  document iff the routing table binds it there, and the table binds every database once, to the first
  of the tenants with that name that has an instance.
\<close>

theorem RoutedInDocument_exact:
  assumes "\<forall>t \<in> set (cf_Tenants c). plain (pt_Name t) \<and> plain (pt_Instance t)" "plain db" "plain inst"
  shows "(RoutedInDocument (dc_TOML (Render sha c)) db inst \<longleftrightarrow> routes c db = Some inst) \<and>
    distinct (map fst (route_entries {} (sortedTenants c)))"
proof (rule conjI [OF _ route_entries_distinct])
  let ?es = "route_entries {} (sortedTenants c)"
  have plain: "\<forall>(k, v) \<in> set ?es. plain k \<and> plain v"
    using assms(1) by (auto dest!: route_entries_names simp: sortedTenants_def)
  define before where "before = renderListen c @ renderBackend c @ renderAuth c True @ renderDrainAndMetrics c @ renderControl c @
    [''[routing]'', writeStrings ''tenantDiscriminators'' (tenantDiscriminators (cf_Pool c)),
     writeString ''startupOptionKey'' (startupOptionKey (cf_Pool c))] @
    (case sortedInstances c of [] \<Rightarrow> [] | first # _ \<Rightarrow> [writeString ''defaultInstance'' (pi_Name first)])"
  define after where "after = [[]] @ renderPool c True @ renderReload c @ renderInstances c True"
  define version where "version = Itoa (pp_Generation (cf_Pool c)) @ ''-'' @ shortHash sha (render c True)"
  have lines: "render_lines c True = before @ tenants_line ?es # after"
    by (simp add: render_lines_def renderRouting_def before_def after_def discriminators_line del: append_assoc)
      (simp add: writeStrings_def)
  have before: "list_all no_table before" and after: "list_all no_table after"
    by (simp_all add: before_def after_def tables graphic_def newline_def)
  have version: "no_table (writeString ''configVersion'' version)" by (simp add: graphic_def)
  have whole: "dc_TOML (Render sha c) = unlines (writeString ''configVersion'' version # [] # before @ tenants_line ?es # after)"
    by (simp add: Render_def Let_def version_def render_def lines unlines_def writeString_def)
  have "Split newline (dc_TOML (Render sha c)) = (writeString ''configVersion'' version # [] # before) @ tenants_line ?es # after @ [[]]"
    unfolding whole using version before after newline_tenants_line
    by (subst Split_unlines) (auto simp: list_all_iff no_table_def)
  moreover have "list_all no_table (writeString ''configVersion'' version # [] # before)"
    using version before by simp
  ultimately have "RoutedInDocument (dc_TOML (Render sha c)) db inst =
      Contains (tenants_line ?es) (tomlString db @ '' = '' @ tomlString inst)"
    by (simp only: RoutedInDocument_def routed_loop_skip) (simp add: TrimSpace_tenants_line, simp add: tenants_line_def)
  then show "RoutedInDocument (dc_TOML (Render sha c)) db inst \<longleftrightarrow> routes c db = Some inst"
    using tenants_line_contains [OF plain assms(2,3)] route_entries_set [of db inst "{}" "sortedTenants c"]
      routes_nonempty [of c db inst]
    unfolding routes_def by simp blast
qed

section \<open>What rolls the fleet\<close>

text \<open>A configuration with everything a running replica adopts taken out of it.\<close>

definition structural_part :: "Config \<Rightarrow> Config" where
  "structural_part c =
     (let pool = cf_Pool c in
      c\<lparr>cf_Tenants := [], cf_Users := [],
        cf_Instances := map (\<lambda>i. i\<lparr>pi_BackendConnections := 0\<rparr>) (cf_Instances c),
        cf_Pool := pool\<lparr>
          pp_Generation := 0,
          pp_Timeouts := map_option (\<lambda>t. t\<lparr>to_Checkout := None, to_Query := None, to_ClientIdleInTransaction := None\<rparr>) (pp_Timeouts pool),
          pp_Admission := map_option (\<lambda>a. a\<lparr>ad_MaxWaitSeconds := None\<rparr>) (pp_Admission pool),
          pp_Pooling := map_option (\<lambda>p. p\<lparr>po_MaxPinnedFractionPercent := None, po_MaxPinDuration := None, po_ServerIdleTimeout := None\<rparr>) (pp_Pooling pool)\<rparr>\<rparr>)"

lemma insert_by_map:
  "(\<And>a b. cmp (f a) (f b) = cmp a b) \<Longrightarrow> insert_by cmp (f x) (map f xs) = map f (insert_by cmp x xs)"
  by (induction xs) auto

lemma sort_func_map:
  "(\<And>a b. cmp (f a) (f b) = cmp a b) \<Longrightarrow> sort_func cmp (map f xs) = map f (sort_func cmp xs)"
  by (induction xs) (simp_all add: sort_func_def insert_by_map)

lemma sortedInstances_structural:
  "sortedInstances (structural_part c) = map (\<lambda>i. i\<lparr>pi_BackendConnections := 0\<rparr>) (sortedInstances c)"
  by (simp add: sortedInstances_def structural_part_def Let_def sort_func_map)

lemma render_instance_structural:
  "render_instance False (i\<lparr>pi_BackendConnections := n\<rparr>) = render_instance False i"
  by (simp add: render_instance_def)

lemma structural_settings:
  "timeouts (cf_Pool (structural_part c)) =
     (timeouts (cf_Pool c))\<lparr>to_Checkout := None, to_Query := None, to_ClientIdleInTransaction := None\<rparr>"
  by (simp add: timeouts_def structural_part_def Let_def split: option.split)

lemma render_structural: "render (structural_part c) False = render c False"
proof -
  note part = sortedInstances_structural structural_settings
  have fields: "cf_ClientTLS (structural_part c) = cf_ClientTLS c" "cf_BackendCA (structural_part c) = cf_BackendCA c"
    "cf_Control (structural_part c) = cf_Control c" "pp_Name (cf_Pool (structural_part c)) = pp_Name (cf_Pool c)"
    "pp_Namespace (cf_Pool (structural_part c)) = pp_Namespace (cf_Pool c)"
    "pp_BackendConnections (cf_Pool (structural_part c)) = pp_BackendConnections (cf_Pool c)"
    "pp_HeadroomPercent (cf_Pool (structural_part c)) = pp_HeadroomPercent (cf_Pool c)"
    "pp_MaxClientConnections (cf_Pool (structural_part c)) = pp_MaxClientConnections (cf_Pool c)"
    "pp_ScramIterations (cf_Pool (structural_part c)) = pp_ScramIterations (cf_Pool c)"
    "pp_Proxy (cf_Pool (structural_part c)) = pp_Proxy (cf_Pool c)"
    by (simp_all add: structural_part_def Let_def)
  have pool: "maxClientConnections (cf_Pool (structural_part c)) = maxClientConnections (cf_Pool c)"
    "requireTLS (cf_Pool (structural_part c)) = requireTLS (cf_Pool c)"
    "backendTLSMode (cf_Pool (structural_part c)) ca = backendTLSMode (cf_Pool c) ca"
    "scramIterations (cf_Pool (structural_part c)) = scramIterations (cf_Pool c)"
    "metricsPort (cf_Pool (structural_part c)) = metricsPort (cf_Pool c)"
    "tenantDiscriminators (cf_Pool (structural_part c)) = tenantDiscriminators (cf_Pool c)"
    "startupOptionKey (cf_Pool (structural_part c)) = startupOptionKey (cf_Pool c)"
    "headroomPercent (cf_Pool (structural_part c)) = headroomPercent (cf_Pool c)" for ca
    by (simp_all add: fields maxClientConnections_def requireTLS_def backendTLSMode_def scramIterations_def metricsPort_def
        tenantDiscriminators_def startupOptionKey_def headroomPercent_def)
  have pooling: "poolMode (pp_Pooling (cf_Pool (structural_part c))) = poolMode (pp_Pooling (cf_Pool c))"
    "resetPolicy (pp_Pooling (cf_Pool (structural_part c))) = resetPolicy (pp_Pooling (cf_Pool c))"
    "preparedStatementsLimit (pp_Pooling (cf_Pool (structural_part c))) = preparedStatementsLimit (pp_Pooling (cf_Pool c))"
    "globalStatementsLimit (pp_Pooling (cf_Pool (structural_part c))) = globalStatementsLimit (pp_Pooling (cf_Pool c))"
    "serverLifetimeSeconds (pp_Pooling (cf_Pool (structural_part c))) = serverLifetimeSeconds (pp_Pooling (cf_Pool c))"
    "startupParameterPolicy (pp_Pooling (cf_Pool (structural_part c))) = startupParameterPolicy (pp_Pooling (cf_Pool c))"
    "ignoreStartupParameters (pp_Pooling (cf_Pool (structural_part c))) = ignoreStartupParameters (pp_Pooling (cf_Pool c))"
    "trackExtraParameters (pp_Pooling (cf_Pool (structural_part c))) = trackExtraParameters (pp_Pooling (cf_Pool c))"
    "queueDepthPerTenant (cf_Pool (structural_part c)) = queueDepthPerTenant (cf_Pool c)"
    "queryWaitNotifySeconds (cf_Pool (structural_part c)) = queryWaitNotifySeconds (cf_Pool c)"
    by (simp_all add: structural_part_def Let_def poolMode_def resetPolicy_def preparedStatementsLimit_def globalStatementsLimit_def
        serverLifetimeSeconds_def startupParameterPolicy_def ignoreStartupParameters_def trackExtraParameters_def
        queueDepthPerTenant_def queryWaitNotifySeconds_def bind_map_option comp_def split: option.split)
  have "renderInstances (structural_part c) False = renderInstances c False"
    by (simp add: renderInstances_def part render_instance_structural comp_def)
  moreover have "renderPool (structural_part c) False = renderPool c False"
    by (simp add: renderPool_def Let_def pool pooling fields)
  moreover have "renderRouting (structural_part c) False = renderRouting c False"
    by (simp add: renderRouting_def part pool split: list.split)
  moreover have "renderBackend (structural_part c) = renderBackend c"
    by (simp add: renderBackend_def part pool fields split: list.split)
  ultimately show ?thesis
    by (simp add: render_def render_lines_def renderListen_def renderAuth_def renderDrainAndMetrics_def renderControl_def
        renderReload_def part pool fields)
qed

text \<open>
  Adding or moving a tenant, a login or a credential, an instance publishing another capacity, or a
  change of the adopted bounds rolls no replica: two configurations that agree on the structural part
  give the same hash for the Pod template, whatever the hash function.
\<close>

theorem adopted_changes_roll_nothing:
  assumes "structural_part c = structural_part c'"
  shows "dc_StructuralHash (Render sha c) = dc_StructuralHash (Render sha c')"
  using render_structural [of c] render_structural [of c'] assms by (simp add: Render_def Let_def)

text \<open>
  A rendered timeout is the shortest whole number of seconds that covers the one asked for, so no
  positive timeout becomes the zero that means none; this holds up to the last second before the
  largest duration, where the rounding overflows to a negative value.
\<close>

theorem seconds_round_up:
  assumes "0 < d" "d \<le> 2 ^ 63 - 1 - second"
  shows "1 \<le> seconds (Some d) fallback \<and> d \<le> seconds (Some d) fallback * second \<and>
    (seconds (Some d) fallback - 1) * second < d"
proof -
  have "wrap64 (d + second) = d + second" "wrap64 (d + second - 1) = d + second - 1"
    using assms by (simp_all add: wrap64_id in_int64_def second_def)
  then have "seconds (Some d) fallback = (d + second - 1) div second"
    using assms by (simp add: seconds_def whole_seconds_def sdiv_nonneg second_def)
  then obtain q r where q: "seconds (Some d) fallback = q" "q * second + r = d + second - 1" "0 \<le> r" "r < second"
    by (metis div_mult_mod_eq pos_mod_bound pos_mod_sign second_def zero_less_numeral)
  then show ?thesis
    unfolding q(1) by (intro conjI) (use q(2-) assms(1) in \<open>simp_all add: second_def\<close>)
qed

section \<open>A concrete document\<close>

definition sample_pool :: proxied_pool where
  "sample_pool =
     \<lparr>pp_Name = ''p'', pp_Namespace = ''ns'', pp_Generation = 7, pp_Timeouts = None, pp_BackendConnections = 100,
      pp_HeadroomPercent = None, pp_MaxClientConnections = None, pp_Admission = None, pp_Pooling = None,
      pp_ScramIterations = None, pp_Proxy = None\<rparr>"

definition sample_tenant :: "string \<Rightarrow> string \<Rightarrow> Tenant" where
  "sample_tenant name inst =
     \<lparr>pt_Name = name, pt_Instance = inst, pt_Guaranteed = 1, pt_Burstable = 2, pt_Weight = 1, pt_Priority = 0,
      pt_MaxClientConnections = 0, pt_BackendRole = [], pt_BackendSaltedPassword = [], pt_BackendSalt = [],
      pt_BackendIterations = 0, pt_CredentialGeneration = 0\<rparr>"

definition sample_config :: "Tenant list \<Rightarrow> int \<Rightarrow> Config" where
  "sample_config tenants capacity =
     \<lparr>cf_Pool = sample_pool,
      cf_Instances = [\<lparr>pi_Name = ''i'', pi_Address = ''i:5432'', pi_BackendConnections = capacity, pi_User = ''u'', pi_Password = ''x''\<rparr>],
      cf_Tenants = tenants, cf_Users = [], cf_ClientTLS = False, cf_BackendCA = False, cf_Control = True\<rparr>"

theorem RoutedInDocument_exact_witness:
  "RoutedInDocument (dc_TOML (Render rev (sample_config [sample_tenant ''b'' ''j'', sample_tenant ''a'' ''i''] 10))) ''b'' ''j''"
proof -
  let ?c = "sample_config [sample_tenant ''b'' ''j'', sample_tenant ''a'' ''i''] 10"
  have "\<forall>t \<in> set (cf_Tenants ?c). plain (pt_Name t) \<and> plain (pt_Instance t)" "plain ''b''" "plain ''j''"
    by (simp_all add: sample_config_def sample_tenant_def plain_def graphic_def)
  moreover have "routes ?c ''b'' = Some ''j''"
    by (simp add: routes_def sortedTenants_def sample_config_def sample_tenant_def sort_func_def go_compare_def)
  ultimately show ?thesis using RoutedInDocument_exact [of ?c "''b''" "''j''" rev] by simp
qed

theorem adopted_changes_roll_nothing_witness:
  "dc_StructuralHash (Render rev (sample_config [] 10)) = dc_StructuralHash (Render rev (sample_config [sample_tenant ''a'' ''i''] 0))"
  by (rule adopted_changes_roll_nothing) (simp add: structural_part_def sample_config_def)

theorem seconds_round_up_witness: "1 \<le> seconds (Some 500000000) 10"
  using seconds_round_up [of 500000000 10] by (simp add: second_def)

end
