(* ===== verification/Proxy_Router.thy ===== *)
theory Proxy_Router
  imports Migration_Router Proxy_Config
begin

text \<open>
  The router of a pool with a proxy fleet (\<open>internal/proxy/router.go\<close>, \<open>internal/proxy/instance_router.go\<close>,
  the endpoints of \<open>internal/proxy/control.go\<close>). It holds the clients of a tenant or of a whole instance
  on every replica, waits for a flip to reach the document the replicas re-read and then pushes it, and
  keeps the binding router's table of record behind it.

  The state of the router is the part \<open>w_pg\<close> of the world of \<open>Migration_Router\<close>: its holds, its pauses,
  the renewal loops that run, a log of the control calls with their answers and of the documents read,
  and the rest of the cluster. What that cluster answers is the parameter \<open>cluster\<close>; an answer carries
  what \<open>json.Unmarshal\<close> makes of its body. A renewal loop is a step \<open>renewal_tick\<close> that may come between
  any two operations.
\<close>

section \<open>State\<close>

type_synonym object_key = "string \<times> string"

definition key_String :: "object_key \<Rightarrow> string" where
  "key_String k = fst k @ ''/'' @ snd k"

datatype 'a lookup = Present 'a | Missing | Unreadable error

record ControlEndpoint =
  ce_Pod :: string
  ce_BaseURL :: string

record drainReport =
  rp_Quiesced :: bool
  rp_InFlight :: int
  rp_Queued :: int
  rp_Drained :: bool
  rp_LeaseExpiresInMs :: "int option"
  rp_Tenants :: "string list"

record Answer =
  an_Status :: int
  an_Body :: string
  an_Report :: "error + drainReport"

datatype json = JString string | JInt int

type_synonym body = "(string \<times> json) list"

datatype control_event =
    Called string string "body option" "error + Answer"
  | ReadConfig "string lookup"

record hold =
  hd_holder :: string
  hd_closedAt :: time
  hd_loop :: "nat option"

datatype renewal = RenewTenant tenant_ref string | RenewInstance object_key string string

record 'x router_state =
  px_holds :: "string \<rightharpoonup> hold"
  px_pauses :: "string \<rightharpoonup> duration"
  px_loops :: "(nat \<times> renewal) list"
  px_next :: nat
  px_log :: "control_event list"
  px_cluster :: 'x

record fleet =
  fl_pool :: object_key
  fl_tenant :: tenant_ref
  fl_database :: string
  fl_endpoints :: "ControlEndpoint list"

text \<open>
  \<open>ct_pool\<close> says whether a pool declares a proxy. \<open>ct_polls\<close> is the number of poll intervals that end
  before the deadline of a wait for a render (fewer than fit when the reads take time).
\<close>

record 'x cluster =
  ct_now :: "'x \<Rightarrow> time"
  ct_spec :: "'x \<Rightarrow> tenant_ref \<Rightarrow> string \<times> string"
  ct_pool :: "object_key \<Rightarrow> 'x \<Rightarrow> bool lookup \<times> 'x"
  ct_clientSecret :: "object_key \<Rightarrow> 'x \<Rightarrow> unit lookup \<times> 'x"
  ct_configSecret :: "object_key \<Rightarrow> 'x \<Rightarrow> string lookup \<times> 'x"
  ct_migration :: "object_key \<Rightarrow> 'x \<Rightarrow> migration_phase lookup \<times> 'x"
  ct_endpoints :: "object_key \<Rightarrow> ('x, ControlEndpoint list) eff"
  ct_do :: "object_key \<Rightarrow> string \<Rightarrow> string \<Rightarrow> body option \<Rightarrow> ('x, Answer) eff"
  ct_LeaseTTL :: duration
  ct_RenderTimeout :: duration
  ct_polls :: nat

definition millisecond :: duration where "millisecond = 1000000"

definition DefaultLeaseTTL :: duration where "DefaultLeaseTTL = ControlLeaseTTLMillis * millisecond"

definition leaseTTL :: "'x cluster \<Rightarrow> duration" where
  "leaseTTL env = (if ct_LeaseTTL env > 0 then ct_LeaseTTL env else DefaultLeaseTTL)"

definition DefaultRenderTimeout :: duration where "DefaultRenderTimeout = 15 * second"
definition renderPollInterval :: duration where "renderPollInterval = 100 * millisecond"

definition renderTimeout :: "'x cluster \<Rightarrow> duration" where
  "renderTimeout env = (if ct_RenderTimeout env > 0 then ct_RenderTimeout env else DefaultRenderTimeout)"

text \<open>Each wait takes an interval, so no more of them end before the deadline than fit in the timeout.\<close>

definition render_polls :: "'x cluster \<Rightarrow> nat" where
  "render_polls env = min (ct_polls env) (nat (renderTimeout env div renderPollInterval))"

definition asks :: "('x \<Rightarrow> 'a \<times> 'x) \<Rightarrow> ('x router_state, 'a) eff" where
  "asks f s = (case f (px_cluster s) of (a, x) \<Rightarrow> (Inr a, s\<lparr>px_cluster := x\<rparr>))"

definition on_cluster :: "('x, 'a) eff \<Rightarrow> ('x router_state, 'a) eff" where
  "on_cluster m s = (case m (px_cluster s) of (r, x) \<Rightarrow> (r, s\<lparr>px_cluster := x\<rparr>))"

section \<open>Endpoints\<close>

record replica =
  re_Name :: string
  re_Deleting :: bool
  re_PodIP :: string
  re_Conditions :: "(string \<times> string) list"

definition replica_ready :: "replica \<Rightarrow> bool" where
  "replica_ready p =
     (case find (\<lambda>(ty, _). ty = ''Ready'') (re_Conditions p) of
        None \<Rightarrow> False
      | Some (_, status) \<Rightarrow> status = ''True'')"

definition hostLiteral :: "string \<Rightarrow> string" where
  "hostLiteral address = (if CHR '':'' \<in> set address then ''['' @ address @ '']'' else address)"

definition PodEndpoints_Endpoints ::
  "object_key \<Rightarrow> (string \<times> string) list lookup \<Rightarrow> error + replica list \<Rightarrow> error + ControlEndpoint list" where
  "PodEndpoints_Endpoints pool service pods =
     (let name = ServiceName (snd pool) in
      case service of
        Unreadable e \<Rightarrow> Inl (''proxy Service '' @ name @ '': '' @ e)
      | Missing \<Rightarrow> Inl (''proxy Service '' @ name @ '': '' @ errNotFound)
      | Present selector \<Rightarrow>
          if selector = [] then Inl (''the proxy Service '' @ name @ '' selects nothing'')
          else case pods of
            Inl e \<Rightarrow> Inl (''proxy replicas of '' @ snd pool @ '': '' @ e)
          | Inr items \<Rightarrow>
              Inr (map (\<lambda>p. \<lparr>ce_Pod = re_Name p,
                             ce_BaseURL = ''https://'' @ hostLiteral (re_PodIP p) @ '':'' @ Itoa DefaultControlPort\<rparr>)
                     (filter (\<lambda>p. \<not> (re_Deleting p \<or> re_PodIP p = [] \<or> \<not> replica_ready p)) items)))"

section \<open>Control calls\<close>

definition holderBody :: "string \<Rightarrow> string \<Rightarrow> body" where
  "holderBody database holder = [(''tenant'', JString database), (''holder'', JString holder)]"

definition quiesceBody :: "string \<Rightarrow> string \<Rightarrow> duration \<Rightarrow> body" where
  "quiesceBody database holder ttl = holderBody database holder @ [(''ttlMs'', JInt (ttl sdiv millisecond))]"

definition routeBody :: "string \<Rightarrow> string \<Rightarrow> string \<Rightarrow> body" where
  "routeBody database holder inst = holderBody database holder @ [(''instance'', JString inst)]"

definition instanceBody :: "string \<Rightarrow> string \<Rightarrow> body" where
  "instanceBody inst holder = [(''instance'', JString inst), (''holder'', JString holder)]"

definition instanceQuiesceBody :: "string \<Rightarrow> string \<Rightarrow> duration \<Rightarrow> body" where
  "instanceQuiesceBody inst holder ttl = instanceBody inst holder @ [(''ttlMs'', JInt (ttl sdiv millisecond))]"

definition instanceHoldKey :: "object_key \<Rightarrow> string \<Rightarrow> string" where
  "instanceHoldKey pool inst = ''instance/'' @ key_String pool @ ''/'' @ inst"

definition endsAHold :: "string \<Rightarrow> bool" where
  "endsAHold path \<longleftrightarrow> path \<in> {''/resume'', ''/unquiesce'', ''/resumeInstance'', ''/unquiesceInstance''}"

definition refusal :: "ControlEndpoint \<Rightarrow> string \<Rightarrow> Answer \<Rightarrow> error" where
  "refusal endpoint path answer =
     path @ '' on '' @ ce_Pod endpoint @ '' answered '' @ Itoa (an_Status answer) @ '': '' @ TrimSpace (an_Body answer)"

definition control_call ::
  "'x cluster \<Rightarrow> fleet \<Rightarrow> ControlEndpoint \<Rightarrow> string \<Rightarrow> string \<Rightarrow> string \<Rightarrow> body option \<Rightarrow> ('x router_state, Answer) eff" where
  "control_call env f endpoint verb path query ask s =
     (case ct_do env (fl_pool f) verb (ce_BaseURL endpoint @ path @ query) ask (px_cluster s) of
        (r, x) \<Rightarrow> (r, s\<lparr>px_cluster := x, px_log := px_log s @ [Called (ce_Pod endpoint) path ask r]\<rparr>))"

definition accepted :: "string \<Rightarrow> Answer \<Rightarrow> bool" where
  "accepted path answer \<longleftrightarrow> an_Status answer = 200 \<or> an_Status answer = 422 \<and> endsAHold path"

definition post :: "'x cluster \<Rightarrow> fleet \<Rightarrow> ControlEndpoint \<Rightarrow> string \<Rightarrow> body \<Rightarrow> ('x router_state, unit) eff" where
  "post env f endpoint path ask =
     eff_bind (control_call env f endpoint ''POST'' path [] (Some ask)) (\<lambda>answer.
       if accepted path answer then eff_return () else eff_fail (refusal endpoint path answer))"

definition everyReplica ::
  "fleet \<Rightarrow> string \<Rightarrow> (ControlEndpoint \<Rightarrow> ('x router_state, unit) eff) \<Rightarrow> ('x router_state, unit) eff" where
  "everyReplica f what call s =
     (case eff_collect (\<lambda>e. eff_wrap (what @ '' on '' @ ce_Pod e @ '': '') (call e)) (fl_endpoints f) s of
        (problems, s') \<Rightarrow> (errors_Join problems, s'))"

section \<open>Holds\<close>

definition beginHold :: "'x cluster \<Rightarrow> string \<Rightarrow> string \<Rightarrow> 'x router_state \<Rightarrow> 'x router_state" where
  "beginHold env key holder s =
     (let fresh = s\<lparr>px_holds := (px_holds s)(key \<mapsto>
                     \<lparr>hd_holder = holder, hd_closedAt = ct_now env (px_cluster s), hd_loop = None\<rparr>)\<rparr> in
      case px_holds s key of
        Some current \<Rightarrow> if hd_holder current = holder then s else fresh
      | None \<Rightarrow> fresh)"

definition keepAlive :: "string \<Rightarrow> string \<Rightarrow> renewal \<Rightarrow> 'x router_state \<Rightarrow> 'x router_state" where
  "keepAlive key holder renewal s =
     (case px_holds s key of
        None \<Rightarrow> s
      | Some current \<Rightarrow>
          if hd_holder current \<noteq> holder \<or> hd_loop current \<noteq> None then s
          else s\<lparr>px_holds := (px_holds s)(key \<mapsto> current\<lparr>hd_loop := Some (px_next s)\<rparr>),
                 px_loops := px_loops s @ [(px_next s, renewal)],
                 px_next := Suc (px_next s)\<rparr>)"

text \<open>Stopping a loop waits until it has returned.\<close>

definition stop_loop :: "nat option \<Rightarrow> 'x router_state \<Rightarrow> 'x router_state" where
  "stop_loop lo s = (case lo of None \<Rightarrow> s | Some n \<Rightarrow> s\<lparr>px_loops := filter (\<lambda>l. fst l \<noteq> n) (px_loops s)\<rparr>)"

definition endHold :: "'x cluster \<Rightarrow> string \<Rightarrow> 'x router_state \<Rightarrow> 'x router_state" where
  "endHold env key s =
     (case px_holds s key of
        None \<Rightarrow> s
      | Some current \<Rightarrow>
          stop_loop (hd_loop current)
            (s\<lparr>px_holds := (px_holds s)(key := None),
               px_pauses := (px_pauses s)(key \<mapsto> time_sub (ct_now env (px_cluster s)) (hd_closedAt current))\<rparr>))"

text \<open>Taking every gate, up to the first replica that refuses, and giving back the ones taken.\<close>

fun take_gates ::
  "string \<Rightarrow> (ControlEndpoint \<Rightarrow> ('w, unit) eff) \<Rightarrow> ControlEndpoint list \<Rightarrow> ControlEndpoint list \<Rightarrow> 'w \<Rightarrow>
   (error option \<times> ControlEndpoint list) \<times> 'w" where
  "take_gates what call [] taken w = ((None, taken), w)"
| "take_gates what call (e # es) taken w =
     (case call e w of
        (Inl err, w') \<Rightarrow> ((Some (what @ ce_Pod e @ '': '' @ err), taken), w')
      | (Inr _, w') \<Rightarrow> take_gates what call es (taken @ [e]) w')"

fun unwind ::
  "string \<Rightarrow> (ControlEndpoint \<Rightarrow> ('w, unit) eff) \<Rightarrow> ControlEndpoint list \<Rightarrow> error \<Rightarrow> 'w \<Rightarrow> error \<times> 'w" where
  "unwind what call [] failure w = (failure, w)"
| "unwind what call (e # es) failure w =
     (case call e w of
        (Inl err, w') \<Rightarrow> unwind what call es (join_lines [failure, what @ ce_Pod e @ '': '' @ err]) w'
      | (Inr _, w') \<Rightarrow> unwind what call es failure w')"

definition closeGate :: "'x cluster \<Rightarrow> fleet \<Rightarrow> string \<Rightarrow> ('x router_state, unit) eff" where
  "closeGate env f holder s =
     (case take_gates ''quiescing ''
             (\<lambda>e. post env f e ''/quiesce'' (quiesceBody (fl_database f) holder (leaseTTL env)))
             (fl_endpoints f) [] s of
        ((None, _), s') \<Rightarrow> (Inr (), beginHold env (TenantRef_String (fl_tenant f)) holder s')
      | ((Some failure, taken), s') \<Rightarrow>
          (case unwind ''unwinding the quiesce on ''
                  (\<lambda>e. post env f e ''/unquiesce'' (holderBody (fl_database f) holder)) taken failure s' of
             (problem, s'') \<Rightarrow> (Inl problem, s'')))"

definition closeInstanceGate :: "'x cluster \<Rightarrow> fleet \<Rightarrow> string \<Rightarrow> string \<Rightarrow> ('x router_state, unit) eff" where
  "closeInstanceGate env f inst holder s =
     (case take_gates (''holding '' @ inst @ '' on '')
             (\<lambda>e. post env f e ''/quiesceInstance'' (instanceQuiesceBody inst holder (leaseTTL env)))
             (fl_endpoints f) [] s of
        ((None, _), s') \<Rightarrow> (Inr (), beginHold env (instanceHoldKey (fl_pool f) inst) holder s')
      | ((Some failure, taken), s') \<Rightarrow>
          (case unwind ''unwinding the instance hold on ''
                  (\<lambda>e. post env f e ''/unquiesceInstance'' (instanceBody inst holder)) taken failure s' of
             (problem, s'') \<Rightarrow> (Inl problem, s'')))"

section \<open>Finding the fleet\<close>

text \<open>The part both resolutions share: the client certificate and the replicas.\<close>

definition resolve_fleet :: "'x cluster \<Rightarrow> object_key \<Rightarrow> tenant_ref \<Rightarrow> string \<Rightarrow> ('x router_state, fleet option) eff" where
  "resolve_fleet env pool t database =
     eff_bind (asks (ct_clientSecret env (fst pool, ControlClientSecretName (snd pool)))) (\<lambda>secret.
       case secret of
         Missing \<Rightarrow> eff_return None
       | Unreadable e \<Rightarrow> eff_fail (''control client certificate for '' @ snd pool @ '': '' @ e)
       | Present _ \<Rightarrow>
           eff_bind (on_cluster (ct_endpoints env pool)) (\<lambda>endpoints.
             if endpoints = [] then eff_return None
             else eff_return (Some \<lparr>fl_pool = pool, fl_tenant = t, fl_database = database, fl_endpoints = endpoints\<rparr>)))"

definition resolve :: "'x cluster \<Rightarrow> tenant_ref \<Rightarrow> ('x router_state world, fleet option) eff" where
  "resolve env t =
     eff_bind (eff_wrap (''PgTenant '' @ TenantRef_String t @ '': '') (api_get t)) (\<lambda>_ w.
       let (database, poolName) = ct_spec env (px_cluster (w_pg w)) t in
       if database = [] \<or> poolName = [] then (Inr None, w)
       else on_pg
         (eff_bind (asks (ct_pool env (tr_Namespace t, poolName))) (\<lambda>pool.
            case pool of
              Missing \<Rightarrow> eff_return None
            | Unreadable e \<Rightarrow> eff_fail (''PgElasticPool '' @ poolName @ '': '' @ e)
            | Present declares \<Rightarrow>
                if \<not> declares then eff_return None
                else resolve_fleet env (tr_Namespace t, poolName) t database)) w)"

definition no_tenant :: tenant_ref where
  "no_tenant = \<lparr>tr_Namespace = [], tr_Name = []\<rparr>"

text \<open>
  \<open>resolvePool\<close>, with a pool that does not exist told apart from the other errors, as
  \<open>apierrors.IsNotFound\<close> tells them apart through the wrapping.
\<close>

definition resolvePool :: "'x cluster \<Rightarrow> object_key \<Rightarrow> ('x router_state, fleet option lookup) eff" where
  "resolvePool env pool =
     eff_bind (asks (ct_pool env pool)) (\<lambda>found.
       case found of
         Missing \<Rightarrow> eff_return Missing
       | Unreadable e \<Rightarrow> eff_return (Unreadable (''PgElasticPool '' @ snd pool @ '': '' @ e))
       | Present declares \<Rightarrow>
           if \<not> declares then eff_return (Present None)
           else eff_try (resolve_fleet env pool no_tenant []) (\<lambda>r.
             case r of Inl e \<Rightarrow> eff_return (Unreadable e) | Inr f \<Rightarrow> eff_return (Present f)))"

definition pool_error :: "object_key \<Rightarrow> error" where
  "pool_error pool = ''PgElasticPool '' @ snd pool @ '': '' @ errNotFound"

definition with_fleet ::
  "'x cluster \<Rightarrow> object_key \<Rightarrow> 'a \<Rightarrow> (fleet \<Rightarrow> ('x router_state, 'a) eff) \<Rightarrow> ('x router_state, 'a) eff" where
  "with_fleet env pool headless m =
     eff_bind (resolvePool env pool) (\<lambda>r.
       case r of
         Missing \<Rightarrow> eff_fail (pool_error pool)
       | Unreadable e \<Rightarrow> eff_fail e
       | Present None \<Rightarrow> eff_return headless
       | Present (Some f) \<Rightarrow> m f)"

text \<open>The in-memory hold first, then the annotation on the tenant.\<close>

definition holderFor :: "tenant_ref \<Rightarrow> ('x router_state world, string option) eff" where
  "holderFor t w =
     (case px_holds (w_pg w) (TenantRef_String t) of
        Some current \<Rightarrow> (Inr (Some (hd_holder current)), w)
      | None \<Rightarrow>
          (case api_get t w of
             (Inl _, w') \<Rightarrow> (Inr None, w')
           | (Inr object, w') \<Rightarrow>
               (let holder = annotation (to_Annotations object) AnnotationQuiescedBy in
                (Inr (if holder \<noteq> [] then Some holder else None), w'))))"

section \<open>The operations on a tenant\<close>

definition update :: "('s \<Rightarrow> 's) \<Rightarrow> ('s, unit) eff" where
  "update f s = (Inr (), f s)"

definition Proxy_Quiesce :: "'x cluster \<Rightarrow> tenant_ref \<Rightarrow> string \<Rightarrow> ('x router_state world, unit) eff" where
  "Proxy_Quiesce env t name =
     eff_then (rt_Quiesce BindingRouter t name)
       (eff_bind (resolve env t) (\<lambda>found.
          case found of
            None \<Rightarrow> eff_return ()
          | Some f \<Rightarrow>
              on_pg (eff_then (closeGate env f name)
                (update (keepAlive (TenantRef_String (fl_tenant f)) name (RenewTenant (fl_tenant f) name))))))"

text \<open>The error says which Secret was waited for; its text is shortened.\<close>

fun awaitRendered :: "'x cluster \<Rightarrow> fleet \<Rightarrow> string \<Rightarrow> nat \<Rightarrow> ('x router_state, unit) eff" where
  "awaitRendered env f inst polls s =
     (case ct_configSecret env (fst (fl_pool f), ConfigSecretName (snd (fl_pool f))) (px_cluster s) of
        (secret, x) \<Rightarrow>
          (let s' = s\<lparr>px_cluster := x, px_log := px_log s @ [ReadConfig secret]\<rparr> in
           if (case secret of Present document \<Rightarrow> RoutedInDocument document (fl_database f) inst | _ \<Rightarrow> False)
           then (Inr (), s')
           else case polls of
             0 \<Rightarrow> (Inl (''the flip of '' @ fl_database f @ '' onto '' @ inst @ '' had not reached '' @
                         ConfigSecretName (snd (fl_pool f))), s')
           | Suc n \<Rightarrow> awaitRendered env f inst n s'))"

declare awaitRendered.simps [simp del]

definition Proxy_Route :: "'x cluster \<Rightarrow> tenant_ref \<Rightarrow> string \<Rightarrow> ('x router_state world, unit) eff" where
  "Proxy_Route env t inst =
     eff_then (rt_Route BindingRouter t inst)
       (eff_bind (resolve env t) (\<lambda>found.
          case found of
            None \<Rightarrow> eff_return ()
          | Some f \<Rightarrow>
              eff_bind (holderFor t) (\<lambda>held.
                case held of
                  None \<Rightarrow> eff_return ()
                | Some holder \<Rightarrow>
                    on_pg (eff_then (awaitRendered env f inst (render_polls env))
                      (everyReplica f ''flipping the route''
                        (\<lambda>e. post env f e ''/setRoute'' (routeBody (fl_database f) holder inst)))))))"

definition problem_of :: "error + 'a \<Rightarrow> error list" where
  "problem_of r = (case r of Inl e \<Rightarrow> [e] | Inr _ \<Rightarrow> [])"

text \<open>The calls that end a hold on the fleet, with the problems they met.\<close>

definition end_calls ::
  "bool \<Rightarrow> fleet \<Rightarrow> string \<times> string \<Rightarrow> string \<times> string \<Rightarrow> (string \<Rightarrow> ControlEndpoint \<Rightarrow> ('x router_state, unit) eff) \<Rightarrow>
   'x router_state \<Rightarrow> error list \<times> 'x router_state" where
  "end_calls commit f resuming releasing call s =
     (case (if commit then everyReplica f (fst resuming) (call (snd resuming)) s else (Inr (), s)) of
        (resumed, s1) \<Rightarrow>
          (case everyReplica f (fst releasing) (call (snd releasing)) s1 of
             (released, s2) \<Rightarrow> (problem_of resumed @ problem_of released, s2)))"

definition end_tenant_hold ::
  "'x cluster \<Rightarrow> bool \<Rightarrow> error + fleet option \<Rightarrow> error + string option \<Rightarrow> 'x router_state \<Rightarrow> error list \<times> 'x router_state" where
  "end_tenant_hold env commit found held s =
     (case (found, held) of
        (Inr (Some f), Inr (Some holder)) \<Rightarrow>
          end_calls commit f (''resuming'', ''/resume'') (''releasing the hold'', ''/unquiesce'')
            (\<lambda>path e. post env f e path (holderBody (fl_database f) holder)) s
      | _ \<Rightarrow> ([], s))"

definition Proxy_finish :: "'x cluster \<Rightarrow> tenant_ref \<Rightarrow> bool \<Rightarrow> ('x router_state world, unit) eff" where
  "Proxy_finish env t commit w =
     (case holderFor t w of (held, w1) \<Rightarrow>
      case resolve env t w1 of (found, w2) \<Rightarrow>
      case end_tenant_hold env commit found held (w_pg w2) of (problems, s) \<Rightarrow>
      case rt_Release BindingRouter t (w2\<lparr>w_pg := endHold env (TenantRef_String t) s\<rparr>) of
        (released, w3) \<Rightarrow> (errors_Join (problem_of found @ problems @ problem_of released), w3))"

text \<open>One replica's account added to the total.\<close>

definition lease_of :: "duration \<Rightarrow> int option \<Rightarrow> duration" where
  "lease_of tally ms =
     (case ms of
        None \<Rightarrow> tally
      | Some n \<Rightarrow> (let left = wrap64 (n * millisecond) in if tally = 0 \<or> left < tally then left else tally))"

definition add_report :: "drain_status \<Rightarrow> drainReport \<Rightarrow> drain_status" where
  "add_report tally report =
     \<lparr>ds_Known = ds_Known tally,
      ds_Quiesced = (ds_Quiesced tally \<and> rp_Quiesced report),
      ds_Queued = wrap64 (ds_Queued tally + rp_Queued report),
      ds_InFlight = wrap64 (ds_InFlight tally + rp_InFlight report),
      ds_Drained = (ds_Drained tally \<and> rp_Drained report),
      ds_LeaseExpiresIn = lease_of (ds_LeaseExpiresIn tally) (rp_LeaseExpiresInMs report)\<rparr>"

definition full_drain_status :: drain_status where
  "full_drain_status = zero_drain_status\<lparr>ds_Known := True, ds_Quiesced := True, ds_Drained := True\<rparr>"

definition ask_report :: "'x cluster \<Rightarrow> fleet \<Rightarrow> string \<Rightarrow> string \<Rightarrow> string \<Rightarrow> ControlEndpoint \<Rightarrow> ('x router_state, drainReport) eff" where
  "ask_report env f what path query e =
     eff_bind (eff_wrap (what @ ce_Pod e @ '': '') (control_call env f e ''GET'' path query None)) (\<lambda>answer.
       if an_Status answer \<noteq> 200 then eff_fail (refusal e path answer)
       else case an_Report answer of
         Inl err \<Rightarrow> eff_fail (what @ ce_Pod e @ '': '' @ err)
       | Inr report \<Rightarrow> eff_return report)"

fun drain_loop ::
  "(ControlEndpoint \<Rightarrow> ('w, drainReport) eff) \<Rightarrow> ('t \<Rightarrow> drainReport \<Rightarrow> 't) \<Rightarrow> ControlEndpoint list \<Rightarrow> 't \<Rightarrow> ('w, 't) eff" where
  "drain_loop ask add [] tally = eff_return tally"
| "drain_loop ask add (e # es) tally = eff_bind (ask e) (\<lambda>report. drain_loop ask add es (add tally report))"

text \<open>\<open>url.QueryEscape\<close> leaves letters, digits, \<open>-\<close>, \<open>_\<close> and \<open>.\<close> alone, which is all a database or instance name has.\<close>

definition query_of :: "string \<Rightarrow> string \<Rightarrow> string" where
  "query_of key v = ''?'' @ key @ ''='' @ v"

definition Proxy_DrainStatus :: "'x cluster \<Rightarrow> tenant_ref \<Rightarrow> ('x router_state world, drain_status) eff" where
  "Proxy_DrainStatus env t =
     eff_bind (resolve env t) (\<lambda>found.
       case found of
         None \<Rightarrow> eff_return zero_drain_status
       | Some f \<Rightarrow>
           on_pg (eff_bind
             (drain_loop (ask_report env f ''drain status from '' ''/drainStatus'' (query_of ''tenant'' (fl_database f)))
               add_report (fl_endpoints f) full_drain_status) (\<lambda>tally.
             if fl_endpoints f = [] then eff_return zero_drain_status else eff_return tally)))"

definition ClientPause :: "string \<Rightarrow> 'x router_state \<Rightarrow> duration option \<times> 'x router_state" where
  "ClientPause key s = (px_pauses s key, s\<lparr>px_pauses := (px_pauses s)(key := None)\<rparr>)"

definition ProxyRouter :: "'x cluster \<Rightarrow> 'x router_state world router" where
  "ProxyRouter env =
     \<lparr>rt_Quiesce = Proxy_Quiesce env,
      rt_PreWarm = rt_PreWarm BindingRouter,
      rt_Route = Proxy_Route env,
      rt_Resume = (\<lambda>t. Proxy_finish env t True),
      rt_Release = (\<lambda>t. Proxy_finish env t False),
      rt_RoutedTo = rt_RoutedTo BindingRouter,
      rt_DrainStatus = Proxy_DrainStatus env\<rparr>"

section \<open>The operations on an instance\<close>

record instance_drain =
  fd_status :: drain_status
  fd_Tenants :: "string list"

definition add_instance_report :: "instance_drain \<Rightarrow> drainReport \<Rightarrow> instance_drain" where
  "add_instance_report tally report =
     \<lparr>fd_status = add_report (fd_status tally) report,
      fd_Tenants = foldl (\<lambda>seen t. if t \<in> set seen then seen else seen @ [t]) (fd_Tenants tally) (rp_Tenants report)\<rparr>"

definition QuiesceInstance :: "'x cluster \<Rightarrow> object_key \<Rightarrow> string \<Rightarrow> string \<Rightarrow> ('x router_state, unit) eff" where
  "QuiesceInstance env pool inst holder =
     with_fleet env pool () (\<lambda>f.
       eff_then (closeInstanceGate env f inst holder)
         (update (keepAlive (instanceHoldKey pool inst) holder (RenewInstance pool inst holder))))"

definition InstanceDrainStatus :: "'x cluster \<Rightarrow> object_key \<Rightarrow> string \<Rightarrow> ('x router_state, instance_drain) eff" where
  "InstanceDrainStatus env pool inst =
     with_fleet env pool \<lparr>fd_status = zero_drain_status, fd_Tenants = []\<rparr> (\<lambda>f.
       eff_bind
         (drain_loop (ask_report env f ''instance drain status from '' ''/instanceDrainStatus'' (query_of ''instance'' inst))
           add_instance_report (fl_endpoints f) \<lparr>fd_status = full_drain_status, fd_Tenants = []\<rparr>) (\<lambda>tally.
         if fl_endpoints f = [] then eff_return \<lparr>fd_status = zero_drain_status, fd_Tenants = []\<rparr> else eff_return tally))"

definition finishInstance :: "'x cluster \<Rightarrow> object_key \<Rightarrow> string \<Rightarrow> string \<Rightarrow> bool \<Rightarrow> ('x router_state, unit) eff" where
  "finishInstance env pool inst holder commit s =
     (case with_fleet env pool None (\<lambda>f. eff_return (Some f)) s of
        (found, s1) \<Rightarrow>
          (case (case found of
                   Inr (Some f) \<Rightarrow>
                     end_calls commit f (''resuming the instance'', ''/resumeInstance'')
                       (''releasing the instance hold'', ''/unquiesceInstance'')
                       (\<lambda>path e. post env f e path (instanceBody inst holder)) s1
                 | _ \<Rightarrow> ([], s1)) of
             (problems, s2) \<Rightarrow>
               (errors_Join (problem_of found @ problems), endHold env (instanceHoldKey pool inst) s2)))"

section \<open>The renewal loops\<close>

definition post_all :: "fleet \<Rightarrow> (ControlEndpoint \<Rightarrow> ('x router_state, unit) eff) \<Rightarrow> 'x router_state \<Rightarrow> 'x router_state" where
  "post_all f call s = snd (eff_collect call (fl_endpoints f) s)"

definition holderIsStillRunning :: "'x cluster \<Rightarrow> string \<Rightarrow> 'x router_state \<Rightarrow> bool \<times> 'x router_state" where
  "holderIsStillRunning env holder s =
     (case Cut holder (CHR ''/'') of
        (namespace, name, found) \<Rightarrow>
          if \<not> found then (True, s)
          else case ct_migration env (namespace, name) (px_cluster s) of
            (object, x) \<Rightarrow>
              ((case object of Missing \<Rightarrow> False | Unreadable _ \<Rightarrow> True | Present phase \<Rightarrow> \<not> migration_Terminal phase),
               s\<lparr>px_cluster := x\<rparr>))"

definition renew :: "'x cluster \<Rightarrow> tenant_ref \<Rightarrow> string \<Rightarrow> 'x router_state world \<Rightarrow> bool \<times> 'x router_state world" where
  "renew env t holder w =
     (case holderIsStillRunning env holder (w_pg w) of
        (running, s) \<Rightarrow>
          if \<not> running then (False, w\<lparr>w_pg := s\<rparr>)
          else case resolve env t (w\<lparr>w_pg := s\<rparr>) of
            (Inr (Some f), w') \<Rightarrow>
              (True, w'\<lparr>w_pg := post_all f
                 (\<lambda>e. post env f e ''/quiesce'' (quiesceBody (fl_database f) holder (leaseTTL env))) (w_pg w')\<rparr>)
          | (_, w') \<Rightarrow> (True, w'))"

definition abandon :: "'x cluster \<Rightarrow> tenant_ref \<Rightarrow> string \<Rightarrow> 'x router_state world \<Rightarrow> 'x router_state world" where
  "abandon env t holder w =
     (let w1 =
        (case resolve env t w of
           (Inr (Some f), w') \<Rightarrow>
             w'\<lparr>w_pg := post_all f (\<lambda>e. post env f e ''/unquiesce'' (holderBody (fl_database f) holder)) (w_pg w')\<rparr>
         | (_, w') \<Rightarrow> w');
        s = w_pg w1; key = TenantRef_String t in
      case px_holds s key of
        None \<Rightarrow> w1
      | Some current \<Rightarrow>
          if hd_holder current \<noteq> holder then w1
          else w1\<lparr>w_pg := s\<lparr>px_holds := (px_holds s)(key := None),
                 px_pauses := (px_pauses s)(key \<mapsto> time_sub (ct_now env (px_cluster s)) (hd_closedAt current))\<rparr>\<rparr>)"

definition renewInstance :: "'x cluster \<Rightarrow> object_key \<Rightarrow> string \<Rightarrow> string \<Rightarrow> 'x router_state \<Rightarrow> bool \<times> 'x router_state" where
  "renewInstance env pool inst holder s =
     (case resolvePool env pool s of
        (Inr Missing, s') \<Rightarrow> (False, s')
      | (Inr (Present (Some f)), s') \<Rightarrow>
          (True, post_all f (\<lambda>e. post env f e ''/quiesceInstance'' (instanceQuiesceBody inst holder (leaseTTL env))) s')
      | (_, s') \<Rightarrow> (True, s'))"

definition drop_loop :: "nat \<Rightarrow> 'x router_state \<Rightarrow> 'x router_state" where
  "drop_loop n s = s\<lparr>px_loops := filter (\<lambda>l. fst l \<noteq> n) (px_loops s)\<rparr>"

text \<open>One tick of the loop \<open>n\<close>: a loop whose renewal answers false returns.\<close>

definition renewal_tick :: "'x cluster \<Rightarrow> nat \<Rightarrow> 'x router_state world \<Rightarrow> 'x router_state world" where
  "renewal_tick env n w =
     (case map_of (px_loops (w_pg w)) n of
        None \<Rightarrow> w
      | Some (RenewTenant t holder) \<Rightarrow>
          (case renew env t holder w of
             (True, w') \<Rightarrow> w'
           | (False, w') \<Rightarrow> (let w'' = abandon env t holder w' in w''\<lparr>w_pg := drop_loop n (w_pg w'')\<rparr>))
      | Some (RenewInstance pool inst holder) \<Rightarrow>
          (case renewInstance env pool inst holder (w_pg w) of
             (True, s) \<Rightarrow> w\<lparr>w_pg := s\<rparr>
           | (False, s) \<Rightarrow> w\<lparr>w_pg := drop_loop n s\<rparr>))"

section \<open>The contract of a router\<close>

lemma api_get_binding [keep]: "keeps binding_of (api_get t)"
  by (rule keeps_binding [OF api_get_keeps])

lemma binding_keeps [keep]:
  "keeps binding_of (rt_Quiesce BindingRouter t m)" "keeps binding_of (rt_PreWarm BindingRouter t i)"
  "keeps binding_of (rt_Release BindingRouter t)" "keeps binding_of (rt_RoutedTo BindingRouter t)"
  by (rule binding.Quiesce_keeps binding.PreWarm_keeps binding.Release_keeps binding.RoutedTo_keeps)+

lemma resolve_keeps [keep]:
  fixes env :: "'x cluster"
  shows "keeps binding_of (resolve env t)"
proof -
  have "keeps binding_of (\<lambda>w. let (database, poolName) = ct_spec env (px_cluster (w_pg w)) t in
      if database = [] \<or> poolName = [] then (Inr None, w) else on_pg (m database poolName) w)"
    for m :: "string \<Rightarrow> string \<Rightarrow> ('x router_state, fleet option) eff"
    using on_pg_keeps by (auto simp: keeps_def Let_def split: prod.split)
  then show ?thesis unfolding resolve_def by (intro keep)
qed

lemma holderFor_keeps [keep]: "keeps binding_of (holderFor t :: ('x router_state world, string option) eff)"
proof -
  have "binding_of (snd (holderFor t w)) = binding_of w" for w :: "'x router_state world"
  proof -
    obtain r w' where "api_get t w = (r, w')" by fastforce
    with keepsD [OF api_get_binding this] show ?thesis
      by (auto simp: holderFor_def Let_def split: option.split sum.split)
  qed
  then show ?thesis by (simp add: keeps_def)
qed

lemma on_pg_binding [keep]: "keeps binding_of (on_pg m)"
  by (rule on_pg_keeps)

lemma Proxy_finish_keeps:
  fixes env :: "'x cluster"
  shows "keeps binding_of (Proxy_finish env t commit)"
proof -
  have "binding_of (snd (Proxy_finish env t commit w)) = binding_of w" for w :: "'x router_state world"
  proof -
    obtain held w1 where h: "holderFor t w = (held, w1)" by fastforce
    obtain found w2 where r: "resolve env t w1 = (found, w2)" by fastforce
    obtain problems s where p: "end_tenant_hold env commit found held (w_pg w2) = (problems, s)" by fastforce
    obtain released w3 where l: "rt_Release BindingRouter t (w2\<lparr>w_pg := endHold env (TenantRef_String t) s\<rparr>) = (released, w3)"
      by fastforce
    have "binding_of w3 = binding_of w"
      using keepsD [OF binding_keeps(3) l] keepsD [OF resolve_keeps r] keepsD [OF holderFor_keeps h] by simp
    then show ?thesis by (simp add: Proxy_finish_def h r p l)
  qed
  then show ?thesis by (simp add: keeps_def)
qed

interpretation proxy: routing "ProxyRouter env" binding_of for env :: "'x cluster"
proof
  fix t i and w w' :: "'x router_state world"
  show "i = binding_of w t" if "rt_RoutedTo (ProxyRouter env) t w = (Inr i, w')"
    using binding.RoutedTo_reads that by (simp add: ProxyRouter_def)
  have later: "keeps binding_of (eff_bind (resolve env t) (\<lambda>found.
          case found of
            None \<Rightarrow> eff_return ()
          | Some f \<Rightarrow>
              eff_bind (holderFor t) (\<lambda>held.
                case held of
                  None \<Rightarrow> eff_return ()
                | Some holder \<Rightarrow>
                    on_pg (eff_then (awaitRendered env f i (render_polls env))
                      (everyReplica f ''flipping the route''
                        (\<lambda>e. post env f e ''/setRoute'' (routeBody (fl_database f) holder i)))))))"
    by (intro keep)
  show "binding_of w' = (binding_of w)(t := i)" if run: "rt_Route (ProxyRouter env) t i w = (Inr (), w')"
  proof -
    from run obtain w1 where first: "rt_Route BindingRouter t i w = (Inr (), w1)"
      and rest: "eff_bind (resolve env t) (\<lambda>found.
          case found of
            None \<Rightarrow> eff_return ()
          | Some f \<Rightarrow>
              eff_bind (holderFor t) (\<lambda>held.
                case held of
                  None \<Rightarrow> eff_return ()
                | Some holder \<Rightarrow>
                    on_pg (eff_then (awaitRendered env f i (render_polls env))
                      (everyReplica f ''flipping the route''
                        (\<lambda>e. post env f e ''/setRoute'' (routeBody (fl_database f) holder i)))))) w1 = (Inr (), w')"
      unfolding ProxyRouter_def Proxy_Route_def by (auto simp: eff_then_Inr)
    from keepsD [OF later rest] binding.Route_writes [OF first] show ?thesis by simp
  qed
  show "binding_of w' = binding_of w \<or> binding_of w' = (binding_of w)(t := i)"
    if run: "rt_Route (ProxyRouter env) t i w = (Inl err, w')" for err
  proof -
    obtain r w1 where first: "rt_Route BindingRouter t i w = (r, w1)" by fastforce
    have "binding_of w' = binding_of w1"
      using run first later unfolding ProxyRouter_def Proxy_Route_def
      by (cases r) (auto simp: eff_then_def eff_bind_def [of "rt_Route BindingRouter t i"] dest: keepsD)
    with binding.Route_cases [OF first] show ?thesis by simp
  qed
qed (auto simp: ProxyRouter_def Proxy_Quiesce_def Proxy_DrainStatus_def intro!: keep Proxy_finish_keeps)

text \<open>The engine on a pool with a fleet; databases and fleet are parts of the same cluster.\<close>

definition fleet_engine :: "'x cluster \<Rightarrow> 'x router_state sql_port \<Rightarrow> 'x router_state shell_port option \<Rightarrow> 'x router_state world engine" where
  "fleet_engine env p shell = (binding_engine p shell)\<lparr>en_Router := ProxyRouter env\<rparr>"

interpretation fleet: migration_engine "fleet_engine env p shell" binding_of "pg_gate g" for env p shell g
proof -
  have router: "en_Router (fleet_engine env p shell) = ProxyRouter env" by (simp add: fleet_engine_def)
  show "migration_engine (fleet_engine env p shell) binding_of (pg_gate g)"
    unfolding migration_engine_def router
  proof (intro conjI proxy.routing_axioms)
    show "quiet_ports (en_SQL (fleet_engine env p shell)) (engine_shell (fleet_engine env p shell)) binding_of"
      by unfold_locales
        (simp_all add: fleet_engine_def binding_engine_def engine_shell_def pg_sql_def pg_shell_def on_pg_keeps
          split: prod.split option.split)
    show "migration_engine_axioms binding_of (pg_gate g)"
      by unfold_locales (simp add: pg_gate_def split: prod.split)
  qed
qed

section \<open>What the calls leave in the log\<close>

definition same_holds :: "'x router_state \<Rightarrow> 'x router_state \<Rightarrow> bool" where
  "same_holds s s' \<longleftrightarrow>
     px_holds s' = px_holds s \<and> px_pauses s' = px_pauses s \<and> px_loops s' = px_loops s \<and> px_next s' = px_next s"

lemma same_holds_refl [simp]: "same_holds s s"
  by (simp add: same_holds_def)

lemma same_holds_trans: "same_holds s s' \<Longrightarrow> same_holds s' s'' \<Longrightarrow> same_holds s s''"
  by (simp add: same_holds_def)

fun went_well :: "control_event \<Rightarrow> bool" where
  "went_well (Called pod path ask (Inr answer)) = accepted path answer"
| "went_well _ = False"

text \<open>The calls of one kind on a list of replicas, in order, whatever they answered.\<close>

definition calls_on :: "string \<Rightarrow> body \<Rightarrow> ControlEndpoint list \<Rightarrow> control_event list \<Rightarrow> bool" where
  "calls_on path ask = list_all2 (\<lambda>e ev. \<exists>answer. ev = Called (ce_Pod e) path (Some ask) answer)"

lemma calls_on_Nil [simp]: "calls_on path ask [] evs \<longleftrightarrow> evs = []"
  by (simp add: calls_on_def)

lemma calls_on_Cons [simp]:
  "calls_on path ask (e # es) evs \<longleftrightarrow>
     (\<exists>answer evs'. evs = Called (ce_Pod e) path (Some ask) answer # evs' \<and> calls_on path ask es evs')"
  by (auto simp: calls_on_def list_all2_Cons1)

lemma post_logs:
  assumes "post env f e path ask s = (r, s')"
  obtains answer where "px_log s' = px_log s @ [Called (ce_Pod e) path (Some ask) answer]" "same_holds s s'"
    "went_well (Called (ce_Pod e) path (Some ask) answer) \<longleftrightarrow> r = Inr ()"
proof -
  obtain answer x where a: "ct_do env (fl_pool f) ''POST'' (ce_BaseURL e @ path @ []) (Some ask) (px_cluster s) = (answer, x)"
    by fastforce
  have "px_log s' = px_log s @ [Called (ce_Pod e) path (Some ask) answer]" "same_holds s s'"
    "went_well (Called (ce_Pod e) path (Some ask) answer) \<longleftrightarrow> r = Inr ()"
    using assms a
    by (auto simp: post_def eff_bind_def control_call_def eff_return_def eff_fail_def same_holds_def
        split: sum.splits if_splits)
  then show thesis by (rule that)
qed

lemma take_gates_logs:
  assumes "take_gates what (\<lambda>e. post env f e path ask) es taken s = ((failure, taken'), s')"
  shows "same_holds s s' \<and>
    (failure = None \<and> taken' = taken @ es \<and>
       (\<exists>evs. px_log s' = px_log s @ evs \<and> calls_on path ask es evs \<and> list_all went_well evs) \<or>
     failure \<noteq> None \<and>
       (\<exists>xs bad ys evs ev. es = xs @ bad # ys \<and> taken' = taken @ xs \<and> px_log s' = px_log s @ evs @ [ev] \<and>
          calls_on path ask xs evs \<and> list_all went_well evs \<and> calls_on path ask [bad] [ev] \<and> \<not> went_well ev))"
  using assms
proof (induction es arbitrary: taken s)
  case (Cons e es)
  obtain r s1 where first: "post env f e path ask s = (r, s1)" by fastforce
  from post_logs [OF this] obtain answer where ev: "px_log s1 = px_log s @ [Called (ce_Pod e) path (Some ask) answer]"
    "same_holds s s1" "went_well (Called (ce_Pod e) path (Some ask) answer) \<longleftrightarrow> r = Inr ()" .
  show ?case
  proof (cases r)
    case (Inl err)
    let ?c = "Called (ce_Pod e) path (Some ask) answer"
    have "e # es = [] @ e # es \<and> taken' = taken @ [] \<and> px_log s' = px_log s @ [] @ [?c] \<and> calls_on path ask [] [] \<and>
        list_all went_well [] \<and> calls_on path ask [e] [?c] \<and> \<not> went_well ?c"
      using Cons.prems first ev Inl by auto
    moreover have "failure \<noteq> None" "same_holds s s'" using Cons.prems first ev(2) Inl by auto
    ultimately show ?thesis by blast
  next
    case (Inr u)
    with Cons.prems first have "take_gates what (\<lambda>e. post env f e path ask) es (taken @ [e]) s1 = ((failure, taken'), s')" by simp
    note rest = Cons.IH [OF this]
    then have same: "same_holds s s'" using ev(2) same_holds_trans by blast
    from rest consider (all) evs where "failure = None" "taken' = (taken @ [e]) @ es" "px_log s' = px_log s1 @ evs"
        "calls_on path ask es evs" "list_all went_well evs"
      | (some) xs bad ys evs ev' where "failure \<noteq> None" "es = xs @ bad # ys" "taken' = (taken @ [e]) @ xs"
        "px_log s' = px_log s1 @ evs @ [ev']" "calls_on path ask xs evs" "list_all went_well evs"
        "calls_on path ask [bad] [ev']" "\<not> went_well ev'"
      by blast
    then show ?thesis
    proof cases
      case all
      with ev Inr same show ?thesis by auto
    next
      case some
      let ?c = "Called (ce_Pod e) path (Some ask) answer"
      have "e # es = (e # xs) @ bad # ys \<and> taken' = taken @ (e # xs) \<and> px_log s' = px_log s @ (?c # evs) @ [ev'] \<and>
          calls_on path ask (e # xs) (?c # evs) \<and> list_all went_well (?c # evs) \<and> calls_on path ask [bad] [ev'] \<and> \<not> went_well ev'"
        using some ev Inr by auto
      with some(1) same show ?thesis by blast
    qed
  qed
qed auto

lemma unwind_logs:
  assumes "unwind what (\<lambda>e. post env f e path ask) es failure s = (problem, s')"
  shows "same_holds s s' \<and> (\<exists>evs. px_log s' = px_log s @ evs \<and> calls_on path ask es evs)"
  using assms
proof (induction es arbitrary: failure s)
  case (Cons e es)
  obtain r s1 where first: "post env f e path ask s = (r, s1)" by fastforce
  from post_logs [OF this] obtain answer where ev: "px_log s1 = px_log s @ [Called (ce_Pod e) path (Some ask) answer]"
    "same_holds s s1" by blast
  from Cons.prems first obtain failure' where "unwind what (\<lambda>e. post env f e path ask) es failure' s1 = (problem, s')"
    by (auto split: sum.splits)
  from Cons.IH [OF this] ev show ?case by (auto intro: same_holds_trans)
qed auto

section \<open>Taking a hold\<close>

text \<open>
  Either every replica granted the hold, or the first that did not is preceded by grants that were all
  given back in the same pass.
\<close>

definition all_or_unwound ::
  "ControlEndpoint list \<Rightarrow> string \<times> body \<Rightarrow> string \<times> body \<Rightarrow> error + unit \<Rightarrow> 'x router_state \<Rightarrow> 'x router_state \<Rightarrow> bool" where
  "all_or_unwound es hold give r s s' \<longleftrightarrow>
     (r = Inr () \<and>
        (\<exists>evs. px_log s' = px_log s @ evs \<and> calls_on (fst hold) (snd hold) es evs \<and> list_all went_well evs)) \<or>
     (r \<noteq> Inr () \<and> same_holds s s' \<and>
        (\<exists>xs bad ys evs ev us. es = xs @ bad # ys \<and> px_log s' = px_log s @ evs @ [ev] @ us \<and>
           calls_on (fst hold) (snd hold) xs evs \<and> list_all went_well evs \<and>
           calls_on (fst hold) (snd hold) [bad] [ev] \<and> \<not> went_well ev \<and>
           calls_on (fst give) (snd give) xs us))"

lemma hold_all_or_unwound:
  assumes "(case take_gates what (\<lambda>e. post env f e hp ha) es [] s of
        ((None, _), s1) \<Rightarrow> (Inr (), beginHold env key holder s1)
      | ((Some failure, taken), s1) \<Rightarrow>
          (case unwind undo (\<lambda>e. post env f e gp ga) taken failure s1 of (problem, s2) \<Rightarrow> (Inl problem, s2))) = (r, s')"
  shows "all_or_unwound es (hp, ha) (gp, ga) r s s'"
proof -
  obtain failure taken s1 where taken: "take_gates what (\<lambda>e. post env f e hp ha) es [] s = ((failure, taken), s1)"
    by (metis prod.exhaust)
  note first = take_gates_logs [OF taken]
  show ?thesis
  proof (cases failure)
    case None
    then have "r = Inr ()" "px_log s' = px_log s1" using assms taken by (auto simp: beginHold_def Let_def split: option.splits)
    with first None show ?thesis by (auto simp: all_or_unwound_def)
  next
    case (Some err)
    obtain problem s2 where "unwind undo (\<lambda>e. post env f e gp ga) taken err s1 = (problem, s2)" by fastforce
    note second = unwind_logs [OF this] and this
    then have r: "r = Inl problem" "s' = s2" using assms taken Some by auto
    from first Some obtain xs bad ys evs ev where split: "es = xs @ bad # ys" "taken = xs" "px_log s1 = px_log s @ evs @ [ev]"
      "calls_on hp ha xs evs" "list_all went_well evs" "calls_on hp ha [bad] [ev]" "\<not> went_well ev" by auto
    from second(1) obtain us where us: "px_log s2 = px_log s1 @ us" "calls_on gp ga taken us" by auto
    have "same_holds s s'" using first second(1) r(2) same_holds_trans by blast
    moreover have "px_log s' = px_log s @ evs @ [ev] @ us" using us(1) split(3) r(2) by simp
    ultimately show ?thesis
      unfolding all_or_unwound_def fst_conv snd_conv using split us(2) r(1) by blast
  qed
qed

lemma instance_hold_unwound:
  "closeInstanceGate env f inst holder s = (r, s') \<Longrightarrow>
     all_or_unwound (fl_endpoints f) (''/quiesceInstance'', instanceQuiesceBody inst holder (leaseTTL env))
       (''/unquiesceInstance'', instanceBody inst holder) r s s'"
  by (rule hold_all_or_unwound) (simp add: closeInstanceGate_def)

text \<open>
  C15. No hold is left half taken. Closing the gate of a tenant, or of a whole instance, either was
  granted by every replica of the fleet, or stopped at the first that refused or could not be reached,
  asked every replica that had granted it to give it back, and left the router's holds and renewal
  loops as they were.
\<close>

theorem partial_holds_are_unwound:
  "all_or_unwound (fl_endpoints f) (''/quiesce'', quiesceBody (fl_database f) holder (leaseTTL env))
     (''/unquiesce'', holderBody (fl_database f) holder)
     (fst (closeGate env f holder s)) s (snd (closeGate env f holder s)) \<and>
   all_or_unwound (fl_endpoints f) (''/quiesceInstance'', instanceQuiesceBody inst holder (leaseTTL env))
     (''/unquiesceInstance'', instanceBody inst holder)
     (fst (closeInstanceGate env f inst holder s)) s (snd (closeInstanceGate env f inst holder s))"
  by (intro conjI hold_all_or_unwound) (simp_all add: closeGate_def closeInstanceGate_def)

section \<open>Flipping a route\<close>

definition no_push :: "control_event \<Rightarrow> bool" where
  "no_push ev \<longleftrightarrow> (\<forall>pod ask answer. ev \<noteq> Called pod ''/setRoute'' ask answer)"

lemma awaitRendered_reads:
  assumes "awaitRendered env f inst polls s = (r, s')"
  shows "\<exists>docs secret. px_log s' = px_log s @ map ReadConfig docs @ [ReadConfig secret] \<and> length docs \<le> polls \<and>
    (r = Inr () \<longleftrightarrow> (\<exists>document. secret = Present document \<and> RoutedInDocument document (fl_database f) inst))"
  using assms
proof (induction polls arbitrary: s)
  case 0
  then show ?case
    by (subst (asm) awaitRendered.simps)
      (auto simp: Let_def split: prod.splits lookup.splits if_splits intro!: exI [of _ "[]"])
next
  case (Suc polls)
  obtain secret x where read: "ct_configSecret env (fst (fl_pool f), ConfigSecretName (snd (fl_pool f))) (px_cluster s) = (secret, x)"
    by fastforce
  let ?s = "s\<lparr>px_cluster := x, px_log := px_log s @ [ReadConfig secret]\<rparr>"
  show ?case
  proof (cases "case secret of Present document \<Rightarrow> RoutedInDocument document (fl_database f) inst | _ \<Rightarrow> False")
    case True
    then have "r = Inr ()" "s' = ?s" using Suc.prems read by (auto simp: awaitRendered.simps [of _ _ _ "Suc polls"])
    with True show ?thesis by (auto split: lookup.splits intro!: exI [of _ "[]"])
  next
    case False
    then have "awaitRendered env f inst polls ?s = (r, s')"
      using Suc.prems read by (auto simp: awaitRendered.simps [of _ _ _ "Suc polls"])
    from Suc.IH [OF this] obtain docs last where "px_log s' = px_log ?s @ map ReadConfig docs @ [ReadConfig last]"
      "length docs \<le> polls"
      "r = Inr () \<longleftrightarrow> (\<exists>document. last = Present document \<and> RoutedInDocument document (fl_database f) inst)" by blast
    then show ?thesis by (intro exI [of _ "secret # docs"] exI [of _ last]) auto
  qed
qed

lemma eff_collect_logs:
  assumes "eff_collect (\<lambda>e. eff_wrap (pre e) (post env f e path ask)) es s = (problems, s')"
  shows "same_holds s s' \<and> (\<exists>evs. px_log s' = px_log s @ evs \<and> calls_on path ask es evs \<and> (problems = [] \<longleftrightarrow> list_all went_well evs))"
  using assms
proof (induction es arbitrary: s problems)
  case (Cons e es)
  obtain r s1 where first: "post env f e path ask s = (r, s1)" by fastforce
  from post_logs [OF this] obtain answer where ev: "px_log s1 = px_log s @ [Called (ce_Pod e) path (Some ask) answer]"
    "same_holds s s1" "went_well (Called (ce_Pod e) path (Some ask) answer) \<longleftrightarrow> r = Inr ()" .
  from Cons.prems first obtain more where rest: "eff_collect (\<lambda>e. eff_wrap (pre e) (post env f e path ask)) es s1 = (more, s')"
    and "problems = [] \<longleftrightarrow> r = Inr () \<and> more = []"
    by (auto simp: eff_wrap_def split: sum.splits prod.splits)
  with Cons.IH [OF rest] ev show ?case by (auto intro: same_holds_trans)
qed auto

lemma everyReplica_logs:
  assumes "everyReplica f what (\<lambda>e. post env f e path ask) s = (r, s')"
  shows "same_holds s s' \<and> (\<exists>evs. px_log s' = px_log s @ evs \<and> calls_on path ask (fl_endpoints f) evs \<and> (r = Inr () \<longleftrightarrow> list_all went_well evs))"
proof -
  obtain problems where "eff_collect (\<lambda>e. eff_wrap (what @ '' on '' @ ce_Pod e @ '': '') (post env f e path ask)) (fl_endpoints f) s = (problems, s')"
    "r = errors_Join problems"
    using assms by (auto simp: everyReplica_def split: prod.splits)
  with eff_collect_logs [OF this(1)] show ?thesis by simp
qed

text \<open>What only reads the API server leaves the router alone.\<close>

definition router_part :: "'x router_state world \<Rightarrow> (string \<rightharpoonup> hold) \<times> (string \<rightharpoonup> duration) \<times> (nat \<times> renewal) list \<times> nat \<times> control_event list" where
  "router_part w = (px_holds (w_pg w), px_pauses (w_pg w), px_loops (w_pg w), px_next (w_pg w), px_log (w_pg w))"

lemma next_fault_pg: "w_pg (snd (next_fault w)) = w_pg w"
  by (simp add: next_fault_def split: list.split)

lemma api_write_pg: "w_pg (snd (api_write g t w)) = w_pg w"
  using next_fault_pg [of w]
  by (auto simp: api_write_def Let_def split: prod.splits option.splits api_fault.splits)

lemma keeps_pg_part: "keeps w_pg m \<Longrightarrow> keeps router_part m"
  by (simp add: keeps_def router_part_def)

lemma api_get_world [keep]: "keeps w_pg (api_get t :: ('d world, tenant_object) eff)"
proof -
  have "w_pg (snd (api_get t w)) = w_pg w" for w :: "'d world"
    using next_fault_pg [of w] by (cases "next_fault w") (auto simp: api_get_def split: option.split)
  then show ?thesis by (simp add: keeps_def)
qed

lemma api_get_part [keep]: "keeps router_part (api_get t)"
  by (intro keeps_pg_part api_get_world)

lemma router_get_pg: "keeps w_pg (router_get t :: ('d world, tenant_object) eff)"
proof -
  have "w_pg (snd (router_get t w)) = w_pg w" for w :: "'d world"
  proof -
    obtain r w' where get: "api_get t w = (r, w')" by fastforce
    from keepsD [OF api_get_world get] get show ?thesis by (auto simp: router_get_def split: sum.split)
  qed
  then show ?thesis by (simp add: keeps_def)
qed

lemma api_updates_pg: "keeps w_pg (api_update t object)" "keeps w_pg (api_status_update t object)"
  "keeps w_pg (\<lambda>w. api_status_update t (new w) w)"
  by (simp_all add: keeps_def api_update_def api_status_update_def api_write_pg)

lemma annotate_pg: "keeps w_pg (annotate t vs)"
  unfolding annotate_def annotateOnce_def
  by (auto intro!: keeps_RetryOnConflict keep router_get_pg api_updates_pg split: prod.split)

lemma binding_router_pg [keep]:
  "keeps router_part (rt_Route BindingRouter t i)" "keeps router_part (rt_Quiesce BindingRouter t m)"
  "keeps router_part (rt_Release BindingRouter t)"
proof -
  have "keeps w_pg (Binding_Route t i)"
    unfolding Binding_Route_def by (intro keeps_RetryOnConflict keep router_get_pg api_updates_pg(3))
  then show "keeps router_part (rt_Route BindingRouter t i)" by (intro keeps_pg_part) (simp add: BindingRouter_def)
  show "keeps router_part (rt_Quiesce BindingRouter t m)" "keeps router_part (rt_Release BindingRouter t)"
    by (intro keeps_pg_part; simp add: BindingRouter_def Binding_Release_def annotate_pg)+
qed

abbreviation state_part where
  "state_part s \<equiv> (px_holds s, px_pauses s, px_loops s, px_next s, px_log s)"

lemma cluster_parts [keep]:
  "keeps state_part (asks g)" "keeps state_part (on_cluster m)"
  by (simp_all add: keeps_def asks_def on_cluster_def split: prod.split)

lemma keeps_lookup [keep]:
  "(\<And>x. keeps part (f x)) \<Longrightarrow> keeps part m \<Longrightarrow> (\<And>e. keeps part (g e)) \<Longrightarrow>
   keeps part (case r of Present x \<Rightarrow> f x | Missing \<Rightarrow> m | Unreadable e \<Rightarrow> g e)"
  by (cases r) simp_all

lemma resolve_fleet_part [keep]: "keeps state_part (resolve_fleet env pool t database)"
  unfolding resolve_fleet_def by (intro keep)

lemma resolvePool_part [keep]: "keeps state_part (resolvePool env pool)"
  unfolding resolvePool_def by (intro keep)

lemma on_pg_part: "keeps state_part m \<Longrightarrow> keeps router_part (on_pg m)"
  by (auto simp: keeps_def router_part_def on_pg_def split: prod.split) (metis prod.inject snd_conv)+

lemma resolve_part [keep]:
  fixes env :: "'x cluster"
  shows "keeps router_part (resolve env t)"
proof -
  have inner: "keeps router_part (on_pg (eff_bind (asks (ct_pool env (tr_Namespace t, poolName))) (\<lambda>pool.
            case pool of
              Missing \<Rightarrow> eff_return None
            | Unreadable e \<Rightarrow> eff_fail (''PgElasticPool '' @ poolName @ '': '' @ e)
            | Present declares \<Rightarrow>
                if \<not> declares then eff_return None
                else resolve_fleet env (tr_Namespace t, poolName) t database)))" for poolName database
    by (intro on_pg_part keep)
  have "keeps router_part (\<lambda>w. let (database, poolName) = ct_spec env (px_cluster (w_pg w)) t in
      if database = [] \<or> poolName = [] then (Inr None, w) else on_pg (m database poolName) w)"
    if "\<And>database poolName. keeps router_part (on_pg (m database poolName))"
    for m :: "string \<Rightarrow> string \<Rightarrow> ('x router_state, fleet option) eff"
    using that by (auto simp: keeps_def Let_def split: prod.split)
  from this [OF inner] show ?thesis unfolding resolve_def by (intro keep)
qed

lemma holderFor_part [keep]: "keeps router_part (holderFor t :: ('x router_state world, string option) eff)"
proof -
  have "router_part (snd (holderFor t w)) = router_part w" for w :: "'x router_state world"
  proof -
    obtain r w' where "api_get t w = (r, w')" by fastforce
    with keepsD [OF api_get_part this] show ?thesis
      by (auto simp: holderFor_def Let_def split: option.split sum.split)
  qed
  then show ?thesis by (simp add: keeps_def)
qed

definition push_route :: "'x cluster \<Rightarrow> fleet \<Rightarrow> string \<Rightarrow> string \<Rightarrow> ('x router_state, unit) eff" where
  "push_route env f holder inst =
     everyReplica f ''flipping the route'' (\<lambda>e. post env f e ''/setRoute'' (routeBody (fl_database f) holder inst))"

text \<open>A flip either ends before it waits, or waits and pushes from a state with the same log.\<close>

lemma Proxy_Route_cases:
  assumes "Proxy_Route env t inst w = (r, w')"
  obtains (early) "router_part w' = router_part w"
  | (waits) f holder w3 where "router_part w3 = router_part w" "binding_of w3 t = inst"
      "on_pg (eff_then (awaitRendered env f inst (render_polls env)) (push_route env f holder inst)) w3 = (r, w')"
proof -
  obtain q w1 where route: "rt_Route BindingRouter t inst w = (q, w1)" by fastforce
  obtain found w2 where found: "resolve env t w1 = (found, w2)" by fastforce
  obtain held w3 where held: "holderFor t w2 = (held, w3)" by fastforce
  have part1: "router_part w1 = router_part w" using keepsD [OF binding_router_pg(1) route] .
  have part2: "router_part w2 = router_part w" using keepsD [OF resolve_part found] part1 by simp
  have part3: "router_part w3 = router_part w" using keepsD [OF holderFor_part held] part2 by simp
  consider "q \<noteq> Inr ()" | "q = Inr ()" "\<forall>f. found \<noteq> Inr (Some f)" | f where "q = Inr ()" "found = Inr (Some f)" "\<forall>h. held \<noteq> Inr (Some h)"
    | f holder where "q = Inr ()" "found = Inr (Some f)" "held = Inr (Some holder)" by blast
  then show thesis
  proof cases
    case 1
    then show thesis using early assms route part1 by (cases q) (auto simp: Proxy_Route_def eff_then_def eff_bind_def)
  next
    case 2
    then have "w' = w2" using assms route found
      by (auto simp: Proxy_Route_def eff_then_def eff_bind_def eff_return_def split: sum.splits option.splits)
    with part2 early show thesis by simp
  next
    case 3
    then have "w' = w3" using assms route found held
      by (auto simp: Proxy_Route_def eff_then_def eff_bind_def eff_return_def split: sum.splits option.splits)
    with part3 early show thesis by simp
  next
    case (4 f holder)
    then have "on_pg (eff_then (awaitRendered env f inst (render_polls env)) (push_route env f holder inst)) w3 = (r, w')"
      using assms route found held by (simp add: Proxy_Route_def eff_then_def eff_bind_def push_route_def)
    moreover have "binding_of w3 t = inst"
      using binding.Route_writes [of t inst w w1] route 4(1) keepsD [OF resolve_keeps found] keepsD [OF holderFor_keeps held] by simp
    ultimately show thesis using waits part3 by blast
  qed
qed


section \<open>The account of the fleet\<close>

text \<open>What the status says when every replica has answered, in order, with a report.\<close>

definition answers_with :: "string \<Rightarrow> ControlEndpoint \<Rightarrow> drainReport \<Rightarrow> control_event \<Rightarrow> bool" where
  "answers_with path e report ev \<longleftrightarrow>
     (\<exists>a. ev = Called (ce_Pod e) path None (Inr a) \<and> an_Status a = 200 \<and> an_Report a = Inr report)"

fun all_answer :: "string \<Rightarrow> ControlEndpoint list \<Rightarrow> drainReport list \<Rightarrow> control_event list \<Rightarrow> bool" where
  "all_answer path [] [] [] = True"
| "all_answer path (e # es) (r # rs) (v # vs) = (answers_with path e r v \<and> all_answer path es rs vs)"
| "all_answer path _ _ _ = False"

definition fleet_account :: "drainReport list \<Rightarrow> drain_status \<Rightarrow> bool" where
  "fleet_account reports st \<longleftrightarrow>
     ds_Known st \<and>
     ds_Drained st = list_all rp_Drained reports \<and>
     ds_Quiesced st = list_all rp_Quiesced reports \<and>
     ds_InFlight st = wrap64 (sum_list (map rp_InFlight reports)) \<and>
     ds_Queued st = wrap64 (sum_list (map rp_Queued reports))"

lemma foldl_add_report:
  assumes "ds_InFlight st = wrap64 i" "ds_Queued st = wrap64 q"
  shows "ds_Known (foldl add_report st reports) = ds_Known st"
    "ds_Drained (foldl add_report st reports) = (ds_Drained st \<and> list_all rp_Drained reports)"
    "ds_Quiesced (foldl add_report st reports) = (ds_Quiesced st \<and> list_all rp_Quiesced reports)"
    "ds_InFlight (foldl add_report st reports) = wrap64 (i + sum_list (map rp_InFlight reports))"
    "ds_Queued (foldl add_report st reports) = wrap64 (q + sum_list (map rp_Queued reports))"
  using assms
  by (induction reports arbitrary: st i q) (simp_all add: add_report_def wrap64_add add.assoc)

lemma ask_report_logs:
  assumes "ask_report env f what path query e s = (r, s')"
  shows "same_holds s s' \<and> (\<forall>report. r = Inr report \<longrightarrow> (\<exists>ev. px_log s' = px_log s @ [ev] \<and> answers_with path e report ev))"
  using assms
  by (auto simp: ask_report_def eff_bind_def eff_wrap_def control_call_def eff_fail_def eff_return_def same_holds_def answers_with_def
      split: prod.splits sum.splits if_splits)

lemma drain_loop_logs:
  assumes "drain_loop (ask_report env f what path query) add es tally s = (Inr out, s')"
  shows "same_holds s s' \<and> (\<exists>reports evs. px_log s' = px_log s @ evs \<and> all_answer path es reports evs \<and> out = foldl add tally reports)"
  using assms
proof (induction es arbitrary: tally s)
  case (Cons e es)
  from Cons.prems obtain report s1 where first: "ask_report env f what path query e s = (Inr report, s1)"
    and rest: "drain_loop (ask_report env f what path query) add es (add tally report) s1 = (Inr out, s')"
    by (auto simp: eff_bind_Inr)
  from ask_report_logs [OF first] obtain ev where ev: "px_log s1 = px_log s @ [ev]" "answers_with path e report ev" "same_holds s s1" by blast
  from Cons.IH [OF rest] obtain reports evs where more: "px_log s' = px_log s1 @ evs" "all_answer path es reports evs"
    "out = foldl add (add tally report) reports" "same_holds s1 s'" by blast
  have "px_log s' = px_log s @ (ev # evs) \<and> all_answer path (e # es) (report # reports) (ev # evs) \<and> out = foldl add tally (report # reports)"
    using ev more by simp
  with same_holds_trans [OF ev(3) more(4)] show ?case by blast
qed (auto intro!: exI [of _ "[]"])

lemma fleet_account_full: "fleet_account reports (foldl add_report full_drain_status reports)"
proof -
  have "ds_InFlight full_drain_status = wrap64 0" "ds_Queued full_drain_status = wrap64 0"
    by (simp_all add: full_drain_status_def zero_drain_status_def wrap64_def)
  from foldl_add_report [OF this] show ?thesis
    by (simp add: fleet_account_def full_drain_status_def)
qed

lemma fd_status_foldl: "fd_status (foldl add_instance_report d reports) = foldl add_report (fd_status d) reports"
  by (induction reports arbitrary: d) (simp_all add: add_instance_report_def)

lemma asks_Inr: "asks g s = (Inr (fst (g (px_cluster s))), s\<lparr>px_cluster := snd (g (px_cluster s))\<rparr>)"
  by (simp add: asks_def split: prod.split)

lemma resolve_fleet_endpoints:
  assumes "resolve_fleet env pool t database s = (Inr (Some f), s')"
  shows "fl_endpoints f \<noteq> []"
proof (cases "fst (ct_clientSecret env (fst pool, ControlClientSecretName (snd pool)) (px_cluster s))")
  case (Present u)
  with assms show ?thesis by (auto simp: resolve_fleet_def eff_bind_Inr asks_Inr split: if_splits)
qed (use assms in \<open>auto simp: resolve_fleet_def eff_bind_Inr asks_Inr\<close>)

lemma resolvePool_endpoints:
  assumes "resolvePool env pool s = (Inr (Present (Some f)), s')"
  shows "fl_endpoints f \<noteq> []"
proof (cases "fst (ct_pool env pool (px_cluster s))")
  case (Present declares)
  obtain r s1 where r: "resolve_fleet env pool no_tenant [] (s\<lparr>px_cluster := snd (ct_pool env pool (px_cluster s))\<rparr>) = (r, s1)"
    by fastforce
  with assms Present have "r = Inr (Some f)"
    by (cases r) (auto simp: resolvePool_def eff_bind_Inr asks_Inr eff_try_def split: if_splits)
  with r show ?thesis using resolve_fleet_endpoints by blast
qed (use assms in \<open>auto simp: resolvePool_def eff_bind_Inr asks_Inr\<close>)

lemma with_fleet_Inr:
  assumes "with_fleet env pool headless m s = (Inr d, s')"
  obtains (headless) "d = headless"
  | (fleet) f s1 where "resolvePool env pool s = (Inr (Present (Some f)), s1)" "m f s1 = (Inr d, s')"
proof -
  obtain found s1 where found: "resolvePool env pool s = (Inr found, s1)"
    using assms by (auto simp: with_fleet_def eff_bind_Inr)
  show thesis
  proof (cases found)
    case (Present v)
    then show thesis using assms found headless fleet by (cases v) (auto simp: with_fleet_def eff_bind_def)
  qed (use assms found in \<open>auto simp: with_fleet_def eff_bind_def\<close>)
qed

text \<open>
  An instance is reported drained only by every replica of a fleet. A status that is known comes
  from a fleet of at least one replica of which each one answered 200 with a report; it is drained, or
  quiesced, exactly when all of them are, and its counts are the sums of theirs in 64 bits.
\<close>

theorem drained_means_every_replica:
  assumes "InstanceDrainStatus env pool inst s = (Inr d, s')" "ds_Known (fd_status d)"
  shows "\<exists>es reports evs. es \<noteq> [] \<and> px_log s' = px_log s @ evs \<and>
    all_answer ''/instanceDrainStatus'' es reports evs \<and> fleet_account reports (fd_status d)"
proof -
  have unknown: "\<not> ds_Known zero_drain_status" by (simp add: zero_drain_status_def)
  let ?start = "\<lparr>fd_status = full_drain_status, fd_Tenants = []\<rparr>"
  from assms(1) [unfolded InstanceDrainStatus_def] show ?thesis
  proof (cases rule: with_fleet_Inr)
    case headless
    with assms(2) unknown show ?thesis by simp
  next
    case (fleet f s1)
    have log: "px_log s1 = px_log s" using keepsD [OF resolvePool_part fleet(1)] by simp
    note nonempty = resolvePool_endpoints [OF fleet(1)]
    with fleet(2) have "drain_loop (ask_report env f ''instance drain status from '' ''/instanceDrainStatus'' (query_of ''instance'' inst))
        add_instance_report (fl_endpoints f) ?start s1 = (Inr d, s')" by (auto simp: eff_bind_Inr)
    from drain_loop_logs [OF this] obtain reports evs where "px_log s' = px_log s1 @ evs"
      "all_answer ''/instanceDrainStatus'' (fl_endpoints f) reports evs" "d = foldl add_instance_report ?start reports" by blast
    then have "fl_endpoints f \<noteq> [] \<and> px_log s' = px_log s @ evs \<and>
        all_answer ''/instanceDrainStatus'' (fl_endpoints f) reports evs \<and> fleet_account reports (fd_status d)"
      using log nonempty fleet_account_full [of reports] by (simp add: fd_status_foldl)
    then show ?thesis by blast
  qed
qed

section \<open>Ending a hold\<close>

lemma endHold_ends:
  "px_holds (endHold env key s) key = None"
  "px_holds s key = Some h \<Longrightarrow> hd_loop h = Some n \<Longrightarrow> n \<notin> fst ` set (px_loops (endHold env key s))"
  "px_log (endHold env key s) = px_log s"
  by (auto simp: endHold_def stop_loop_def split: option.splits)

lemma end_calls_logs:
  assumes "end_calls commit f a b (\<lambda>path e. post env f e path ask) s = (problems, s')"
  shows "same_holds s s' \<and>
    (\<exists>resumes releases. px_log s' = px_log s @ resumes @ releases \<and>
       (if commit then calls_on (snd a) ask (fl_endpoints f) resumes else resumes = []) \<and>
       calls_on (snd b) ask (fl_endpoints f) releases)"
proof -
  let ?call = "\<lambda>x. everyReplica f (fst x) (\<lambda>e. post env f e (snd x) ask)"
  obtain r s1 where first: "(if commit then ?call a s else (Inr (), s)) = (r, s1)" by fastforce
  obtain q where second: "?call b s1 = (q, s')"
    using assms first by (auto simp: end_calls_def split: prod.splits)
  have "same_holds s s1 \<and> (\<exists>resumes. px_log s1 = px_log s @ resumes \<and>
      (if commit then calls_on (snd a) ask (fl_endpoints f) resumes else resumes = []))"
  proof (cases commit)
    case True
    with first everyReplica_logs [of f "fst a" env "snd a" ask s r s1] show ?thesis by auto
  qed (use first in auto)
  with everyReplica_logs [OF second] same_holds_trans show ?thesis by (metis append_assoc)
qed

text \<open>
  Ending a hold ends it here whatever the fleet answers. After a resume or a release, of a tenant or
  of an instance, the router records no hold under the key, the renewal loop of the hold that was there
  has stopped, so a call that failed is bounded by the lease of the replica, and the calls that were
  made resumed every replica, when the hold is committed, before they released every replica.
\<close>

theorem ended_holds_are_not_renewed:
  assumes "finishInstance env pool inst holder commit s = (r, s')"
    and "px_holds s (instanceHoldKey pool inst) = Some h" "hd_loop h = Some n"
  shows "px_holds s' (instanceHoldKey pool inst) = None \<and> n \<notin> fst ` set (px_loops s') \<and>
    (\<exists>es resumes releases. px_log s' = px_log s @ resumes @ releases \<and>
       (if commit then calls_on ''/resumeInstance'' (instanceBody inst holder) es resumes else resumes = []) \<and>
       calls_on ''/unquiesceInstance'' (instanceBody inst holder) es releases)"
proof -
  let ?key = "instanceHoldKey pool inst"
  obtain found s1 where found: "with_fleet env pool None (\<lambda>f. eff_return (Some f)) s = (found, s1)" by fastforce
  have "keeps state_part (with_fleet env pool None (\<lambda>f. eff_return (Some f)))"
    unfolding with_fleet_def by (intro keep)
  note part = keepsD [OF this found]
  define calls where "calls = (case found of
      Inr (Some f) \<Rightarrow> end_calls commit f (''resuming the instance'', ''/resumeInstance'')
        (''releasing the instance hold'', ''/unquiesceInstance'') (\<lambda>path e. post env f e path (instanceBody inst holder)) s1
    | _ \<Rightarrow> ([], s1))"
  obtain problems s2 where calls: "calls = (problems, s2)" by fastforce
  have s': "s' = endHold env ?key s2"
    using assms(1) found calls by (simp add: finishInstance_def calls_def [symmetric])
  have "same_holds s1 s2 \<and> (\<exists>es resumes releases. px_log s2 = px_log s1 @ resumes @ releases \<and>
       (if commit then calls_on ''/resumeInstance'' (instanceBody inst holder) es resumes else resumes = []) \<and>
       calls_on ''/unquiesceInstance'' (instanceBody inst holder) es releases)"
  proof (cases "\<exists>f. found = Inr (Some f)")
    case True
    then obtain f where "found = Inr (Some f)" ..
    with calls have "end_calls commit f (''resuming the instance'', ''/resumeInstance'')
        (''releasing the instance hold'', ''/unquiesceInstance'') (\<lambda>path e. post env f e path (instanceBody inst holder)) s1 = (problems, s2)"
      by (simp add: calls_def)
    from end_calls_logs [OF this, unfolded snd_conv] show ?thesis by blast
  next
    case False
    with calls have "s2 = s1" by (auto simp: calls_def split: sum.splits option.splits)
    then show ?thesis by (auto intro!: exI [of _ "[]"])
  qed
  moreover have "px_holds s2 ?key = Some h" if "same_holds s1 s2" using that part assms(2) by (simp add: same_holds_def)
  ultimately show ?thesis
    unfolding s' using endHold_ends [where env = env and key = ?key and s = s2] assms(3) part by auto
qed

lemma resolvePool_returns:
  obtains found s' where "resolvePool env pool s = (Inr found, s')"
proof (cases "fst (ct_pool env pool (px_cluster s))")
  case (Present declares)
  obtain r s1 where "resolve_fleet env pool no_tenant [] (s\<lparr>px_cluster := snd (ct_pool env pool (px_cluster s))\<rparr>) = (r, s1)"
    by fastforce
  with Present that show thesis
    by (cases declares; cases r) (auto simp: resolvePool_def eff_bind_def asks_Inr eff_return_def eff_try_def)
qed (use that in \<open>auto simp: resolvePool_def eff_bind_def asks_Inr eff_return_def\<close>)

lemma closeInstanceGate_keeps_holder:
  assumes "closeInstanceGate env f inst holder s = (q, s')" "px_holds s key = Some h" "hd_holder h = holder"
  shows "px_holds s' key = Some h \<and> px_loops s' = px_loops s"
proof (cases "q = Inr ()")
  case False
  with instance_hold_unwound [OF assms(1)] assms(2) show ?thesis
    by (auto simp: all_or_unwound_def same_holds_def)
next
  case True
  obtain failure taken s1 where taken: "take_gates (''holding '' @ inst @ '' on '')
      (\<lambda>e. post env f e ''/quiesceInstance'' (instanceQuiesceBody inst holder (leaseTTL env))) (fl_endpoints f) [] s = ((failure, taken), s1)"
    by (metis prod.exhaust)
  have same: "same_holds s s1" using take_gates_logs [OF taken] by blast
  have "s' = beginHold env (instanceHoldKey (fl_pool f) inst) holder s1"
    using assms(1) True taken by (auto simp: closeInstanceGate_def split: option.splits prod.splits)
  with same assms(2,3) show ?thesis by (auto simp: beginHold_def Let_def same_holds_def split: option.splits)
qed

text \<open>
  A hold whose renewal stopped by itself is never renewed again. When a pool is gone at a tick the
  renewal loop of the instance hold returns but the hold stays recorded, and a later
  \<open>QuiesceInstance\<close> by the same holder, though every replica grants it and it reports success, starts no
  loop: the replicas let the clients go when the lease runs out.
\<close>

theorem returned_loop_is_not_restarted:
  assumes "px_holds (w_pg w) (instanceHoldKey pool inst) = Some h" "hd_holder h = holder" "hd_loop h = Some n"
    and "px_loops (w_pg w) = [(n, RenewInstance pool inst holder)]"
    and "fst (ct_pool env pool (px_cluster (w_pg w))) = Missing"
    and "QuiesceInstance env pool inst holder ((w_pg (renewal_tick env n w))\<lparr>px_cluster := x\<rparr>) = (r, s')"
  shows "px_loops s' = [] \<and> px_holds s' (instanceHoldKey pool inst) = Some h"
proof -
  let ?key = "instanceHoldKey pool inst"
  let ?s = "(w_pg (renewal_tick env n w))\<lparr>px_cluster := x\<rparr>"
  have "renewInstance env pool inst holder (w_pg w) = (False, (w_pg w)\<lparr>px_cluster := snd (ct_pool env pool (px_cluster (w_pg w)))\<rparr>)"
    using assms(5) by (simp add: renewInstance_def resolvePool_def eff_bind_def asks_Inr eff_return_def)
  then have s: "px_loops ?s = []" "px_holds ?s ?key = Some h"
    using assms(1,4) by (simp_all add: renewal_tick_def drop_loop_def)
  obtain found s1 where found: "resolvePool env pool ?s = (Inr found, s1)" by (rule resolvePool_returns)
  note part = keepsD [OF resolvePool_part found]
  have s1: "px_loops s1 = []" "px_holds s1 ?key = Some h" using part s by simp_all
  show ?thesis
  proof (cases "\<exists>f. found = Present (Some f)")
    case False
    then have "s' = s1"
      using assms(6) found by (auto simp: QuiesceInstance_def with_fleet_def eff_bind_def eff_return_def eff_fail_def split: lookup.splits option.splits)
    with s1 show ?thesis by simp
  next
    case True
    then obtain f where "found = Present (Some f)" ..
    then have run: "eff_then (closeInstanceGate env f inst holder) (update (keepAlive ?key holder (RenewInstance pool inst holder))) s1 = (r, s')"
      using assms(6) found by (simp add: QuiesceInstance_def with_fleet_def eff_bind_def)
    obtain q s2 where close: "closeInstanceGate env f inst holder s1 = (q, s2)" by fastforce
    have s2: "px_loops s2 = []" "px_holds s2 ?key = Some h"
      using closeInstanceGate_keeps_holder [OF close s1(2) assms(2)] s1 by simp_all
    with run close assms(2,3) show ?thesis
      by (cases q) (auto simp: eff_then_def eff_bind_def update_def keepAlive_def)
  qed
qed


text \<open>
  C22. The engine drives the fleet as safely as the binding alone. Over the proxy router, whatever the
  replicas, the API server and the databases answer, a round changes no tenant's binding but that of
  the migration's own tenant, and only from the migration's own source, target or none; it moves it
  back to the source, or to the target in the cutover phase with a verdict of equivalence.
\<close>

theorem fleet_rounds_are_safe:
  "case engine_round now (pg_gate g) (fleet_engine env p shell) run w of ((res, d, applied), w') \<Rightarrow>
     binding_of w' = binding_of w \<or>
     ownsRouting run (binding_of w (run_Tenant run)) \<and>
       (binding_of w' = (binding_of w)(run_Tenant run := run_source run) \<or>
        run_Phase run = TenantMigrationPhaseCutover \<and> verified res \<and>
        binding_of w' = (binding_of w)(run_Tenant run := run_target run))"
proof -
  obtain res d applied w' where round: "engine_round now (pg_gate g) (fleet_engine env p shell) run w = ((res, d, applied), w')"
    by (metis prod.exhaust)
  from fleet.round_route(1) [OF round] round show ?thesis by simp
qed

section \<open>A concrete fleet\<close>

definition sample_report :: drainReport where
  "sample_report = \<lparr>rp_Quiesced = True, rp_InFlight = 0, rp_Queued = 3, rp_Drained = True, rp_LeaseExpiresInMs = Some 9000, rp_Tenants = [''shop'']\<rparr>"

definition sample_document :: string where
  "sample_document = tenants_line [(''shop'', ''B'')]"

text \<open>Two replicas that accept every call.\<close>

definition sample_cluster :: "bool lookup cluster" where
  "sample_cluster =
     \<lparr>ct_now = (\<lambda>_. 7 * second), ct_spec = (\<lambda>_ _. (''shop'', ''p'')), ct_pool = (\<lambda>_ x. (x, x)),
      ct_clientSecret = (\<lambda>_ x. (Present (), x)), ct_configSecret = (\<lambda>_ x. (Present sample_document, x)),
      ct_migration = (\<lambda>_ x. (Missing, x)),
      ct_endpoints = (\<lambda>_. eff_return [\<lparr>ce_Pod = ''p-0'', ce_BaseURL = ''u0''\<rparr>, \<lparr>ce_Pod = ''p-1'', ce_BaseURL = ''u1''\<rparr>]),
      ct_do = (\<lambda>_ _ _ _. eff_return \<lparr>an_Status = 200, an_Body = [], an_Report = Inr sample_report\<rparr>),
      ct_LeaseTTL = 0, ct_RenderTimeout = 0, ct_polls = 3\<rparr>"

definition sample_hold :: hold where
  "sample_hold = \<lparr>hd_holder = ''ns/m'', hd_closedAt = second, hd_loop = Some 0\<rparr>"

definition sample_state :: "string \<Rightarrow> bool lookup \<Rightarrow> bool lookup router_state" where
  "sample_state key found =
     \<lparr>px_holds = [key \<mapsto> sample_hold], px_pauses = Map.empty, px_loops = [(0, RenewInstance (''ns'', ''p'') ''i'' ''ns/m'')],
      px_next = 1, px_log = [], px_cluster = found\<rparr>"

definition sample_world :: "bool lookup router_state world" where
  "sample_world =
     \<lparr>w_tenants = [example_tenant \<mapsto> \<lparr>to_Annotations = [], to_Binding = Some \<lparr>bi_InstanceRef = Some ''A'', bi_BoundAt = None\<rparr>\<rparr>],
      w_faults = [], w_clock = 5, w_pg = sample_state ''ns/shop'' (Present True)\<rparr>"

lemma sample_push:
  "list_ex (\<lambda>ev. case ev of Called pod path _ _ \<Rightarrow> pod = ''p-0'' \<and> path = ''/setRoute'' | _ \<Rightarrow> False)
     (px_log (w_pg (snd (Proxy_Route sample_cluster example_tenant ''B'' sample_world))))"
  by code_simp


lemma sample_drain:
  "(case InstanceDrainStatus sample_cluster (''ns'', ''p'') ''i'' (sample_state ''k'' (Present True)) of
      (Inr d, _) \<Rightarrow> ds_Known (fd_status d) \<and> ds_Drained (fd_status d) | _ \<Rightarrow> False)"
  by code_simp

theorem drained_means_every_replica_witness:
  "\<exists>es reports evs. es \<noteq> [] \<and> all_answer ''/instanceDrainStatus'' es reports evs \<and> list_all rp_Drained reports"
proof -
  obtain d s' where run: "InstanceDrainStatus sample_cluster (''ns'', ''p'') ''i'' (sample_state ''k'' (Present True)) = (Inr d, s')"
    and known: "ds_Known (fd_status d)" "ds_Drained (fd_status d)"
    using sample_drain by (auto split: prod.splits sum.splits)
  from drained_means_every_replica [OF run known(1)] known(2) show ?thesis by (auto simp: fleet_account_def)
qed

theorem ended_holds_are_not_renewed_witness:
  "px_holds (snd (finishInstance sample_cluster (''ns'', ''p'') ''i'' ''ns/m'' True (sample_state ''instance/ns/p/i'' (Present True)))) ''instance/ns/p/i'' = None"
proof -
  let ?s = "sample_state ''instance/ns/p/i'' (Present True)"
  have key: "instanceHoldKey (''ns'', ''p'') ''i'' = ''instance/ns/p/i''" by (simp add: instanceHoldKey_def key_String_def)
  obtain r s' where run: "finishInstance sample_cluster (''ns'', ''p'') ''i'' ''ns/m'' True ?s = (r, s')" by fastforce
  have "px_holds ?s (instanceHoldKey (''ns'', ''p'') ''i'') = Some sample_hold" "hd_loop sample_hold = Some 0"
    by (simp_all add: key sample_state_def sample_hold_def)
  from ended_holds_are_not_renewed [OF run this] run key show ?thesis by simp
qed

theorem returned_loop_is_not_restarted_witness:
  "px_loops (snd (QuiesceInstance sample_cluster (''ns'', ''p'') ''i'' ''ns/m''
     ((w_pg (renewal_tick sample_cluster 0 (sample_world\<lparr>w_pg := sample_state ''instance/ns/p/i'' Missing\<rparr>)))\<lparr>px_cluster := Present True\<rparr>))) = []"
proof -
  let ?w = "sample_world\<lparr>w_pg := sample_state ''instance/ns/p/i'' Missing\<rparr>"
  have key: "instanceHoldKey (''ns'', ''p'') ''i'' = ''instance/ns/p/i''" by (simp add: instanceHoldKey_def key_String_def)
  obtain r s' where run: "QuiesceInstance sample_cluster (''ns'', ''p'') ''i'' ''ns/m''
     ((w_pg (renewal_tick sample_cluster 0 ?w))\<lparr>px_cluster := Present True\<rparr>) = (r, s')" by fastforce
  have "px_holds (w_pg ?w) (instanceHoldKey (''ns'', ''p'') ''i'') = Some sample_hold" "hd_holder sample_hold = ''ns/m''"
    "hd_loop sample_hold = Some 0" "px_loops (w_pg ?w) = [(0, RenewInstance (''ns'', ''p'') ''i'' ''ns/m'')]"
    "fst (ct_pool sample_cluster (''ns'', ''p'') (px_cluster (w_pg ?w))) = Missing"
    by (simp_all add: key sample_state_def sample_hold_def sample_cluster_def)
  from returned_loop_is_not_restarted [OF this run] run show ?thesis by simp
qed

end
