(* ===== verification/Verify_Ledger.thy ===== *)
theory Verify_Ledger
  imports Go_Text "HOL-Library.Sublist"
begin

text \<open>
  \<open>internal/verify/ledger.go\<close>: the append-only log of the durability checker. A record is one line
  with a checksum; \<open>Replay\<close> reads a file back and accepts only an unterminated last fragment as the
  trace of a crash. Shown: a record reads back, a torn file reads back to the records written whole,
  and a fragment that a later record was appended to is always refused.
\<close>

unbundle bit_operations_syntax

section \<open>Records\<close>

datatype State = StateAttempted | StateCommitted | StateIndeterminate

fun state_text :: "State \<Rightarrow> string" where
  "state_text StateAttempted = ''ATTEMPTED''"
| "state_text StateCommitted = ''COMMITTED''"
| "state_text StateIndeterminate = ''INDETERMINATE''"

record ledger_record =
  lr_State :: State
  lr_Value :: int

definition checksumWidth :: nat where "checksumWidth = 8"

text \<open>\<open>crc32.ChecksumIEEE\<close> of the standard library, bit by bit.\<close>

definition crc_bit :: "32 word \<Rightarrow> 32 word" where
  "crc_bit c = (if odd c then drop_bit 1 c XOR 0xEDB88320 else drop_bit 1 c)"

definition crc_byte :: "char \<Rightarrow> 32 word \<Rightarrow> 32 word" where
  "crc_byte b c = (crc_bit ^^ 8) (c XOR word_of_nat (of_char b))"

definition ChecksumIEEE :: "string \<Rightarrow> 32 word" where
  "ChecksumIEEE s = NOT (fold crc_byte s (NOT 0))"

definition encodeRecord :: "ledger_record \<Rightarrow> string" where
  "encodeRecord rec =
     (let payload = state_text (lr_State rec) @ '' '' @ Itoa (lr_Value rec);
          sum = ChecksumIEEE payload in
      payload @ '' '' @ pad8 (to_hex_lower (unat sum)) @ [newline])"

datatype decode_error =
    ExpectedThreeFields nat
  | UnknownState string
  | BadValue num_error
  | BadChecksum num_error
  | ChecksumMismatch "32 word" nat

definition parse_state :: "string \<Rightarrow> State option" where
  "parse_state s =
     (if s = ''ATTEMPTED'' then Some StateAttempted
      else if s = ''COMMITTED'' then Some StateCommitted
      else if s = ''INDETERMINATE'' then Some StateIndeterminate
      else None)"

definition decodeRecord :: "string \<Rightarrow> decode_error + ledger_record" where
  "decodeRecord line =
     (case Fields line of
        [f0, f1, f2] \<Rightarrow>
          (case parse_state f0 of
             None \<Rightarrow> Inl (UnknownState f0)
           | Some state \<Rightarrow>
               (case ParseInt f1 of
                  Inl e \<Rightarrow> Inl (BadValue e)
                | Inr value \<Rightarrow>
                    (case ParseUint f2 16 32 of
                       Inl e \<Rightarrow> Inl (BadChecksum e)
                     | Inr want \<Rightarrow>
                         let got = ChecksumIEEE (f0 @ '' '' @ f1) in
                         if got \<noteq> word_of_nat want then Inl (ChecksumMismatch got want)
                         else Inr \<lparr>lr_State = state, lr_Value = value\<rparr>)))
      | fs \<Rightarrow> Inl (ExpectedThreeFields (length fs)))"

section \<open>Replaying a file\<close>

text \<open>
  \<open>bufio.Reader.ReadBytes\<close>: up to and including the delimiter, or all that is left. A reader is its
  bytes and the error it ends with, \<open>None\<close> for \<open>io.EOF\<close>.
\<close>

fun ReadBytes :: "char \<Rightarrow> string \<Rightarrow> string \<times> string" where
  "ReadBytes d [] = ([], [])"
| "ReadBytes d (c # s) =
     (if c = d then ([c], s) else case ReadBytes d s of (line, rest) \<Rightarrow> (c # line, rest))"

lemma ReadBytes_append: "ReadBytes d s = (line, rest) \<Longrightarrow> line @ rest = s"
  by (induction s arbitrary: line) (auto split: if_splits prod.splits)

datatype ledger_error =
    ErrCorruptLedger int decode_error
  | ReadError string
  | FileError string

function replay_loop :: "string option \<Rightarrow> string \<Rightarrow> ledger_record list \<Rightarrow> int \<Rightarrow>
    ledger_error + ledger_record list \<times> int" where
  "replay_loop fault s recs intact =
     (case ReadBytes newline s of
        (line, rest) \<Rightarrow>
          if line \<noteq> [] \<and> last line = newline then
            (case decodeRecord (butlast line) of
               Inl e \<Rightarrow> Inl (ErrCorruptLedger intact e)
             | Inr rec \<Rightarrow> replay_loop fault rest (recs @ [rec]) (intact + int (length line)))
          else
            (case fault of
               None \<Rightarrow> Inr (recs, intact)
             | Some e \<Rightarrow> Inl (ReadError e)))"
  by pat_completeness auto
termination
  by (relation "measure (\<lambda>(fault, s, recs, intact). length s)")
    (auto dest!: ReadBytes_append [OF sym])

declare replay_loop.simps [simp del]

definition Replay :: "string \<Rightarrow> string option \<Rightarrow> ledger_error + ledger_record list \<times> int" where
  "Replay s fault = replay_loop fault s [] 0"

text \<open>
  The file at the path: absent, unreadable, or its bytes and the error that reading them ends with.
\<close>

datatype ledger_file = Missing | CannotOpen string | Content string "string option"

fun ReadFile :: "ledger_file \<Rightarrow> ledger_error + ledger_record list" where
  "ReadFile Missing = Inr []"
| "ReadFile (CannotOpen e) = Inl (FileError e)"
| "ReadFile (Content s fault) = (case Replay s fault of Inl e \<Rightarrow> Inl e | Inr (recs, _) \<Rightarrow> Inr recs)"

text \<open>
  \<open>Open\<close> creates the file, truncates it to the intact prefix and returns the position to append at,
  which is the end of the file. \<open>faults\<close> are the errors of \<open>Truncate\<close>, \<open>Seek\<close> and \<open>syncDir\<close>; the
  second component is the content left behind, also after a failure.
\<close>

record open_faults =
  of_truncate :: "string option"
  of_seek :: "string option"
  of_sync_dir :: "string option"

definition Open :: "open_faults \<Rightarrow> ledger_file \<Rightarrow> (ledger_error + ledger_record list) \<times> string" where
  "Open faults file =
     (case file of
        CannotOpen e \<Rightarrow> (Inl (FileError e), [])
      | _ \<Rightarrow>
          (let (s, fault) = (case file of Content s fault \<Rightarrow> (s, fault) | _ \<Rightarrow> ([], None)) in
           case Replay s fault of
             Inl e \<Rightarrow> (Inl e, s)
           | Inr (recs, intact) \<Rightarrow>
               (case of_truncate faults of
                  Some e \<Rightarrow> (Inl (FileError e), s)
                | None \<Rightarrow>
                    let s' = take (nat intact) s in
                    case of_seek faults of
                      Some e \<Rightarrow> (Inl (FileError e), s')
                    | None \<Rightarrow>
                        (case of_sync_dir faults of
                           Some e \<Rightarrow> (Inl (FileError e), s')
                         | None \<Rightarrow> (Inr recs, s')))))"

text \<open>
  \<open>append\<close> under the mutex: the outcome of \<open>Write\<close> is either every byte, or some of them and an
  error; \<open>Sync\<close> may then fail with every byte in the file.
\<close>

datatype write_outcome = Written | WriteFailed nat string | SyncFailed string

fun ledger_append :: "State \<Rightarrow> int \<Rightarrow> write_outcome \<Rightarrow> string \<Rightarrow> string option \<times> string" where
  "ledger_append state v Written s =
     (None, s @ encodeRecord \<lparr>lr_State = state, lr_Value = v\<rparr>)"
| "ledger_append state v (WriteFailed k e) s =
     (Some e, s @ take k (butlast (encodeRecord \<lparr>lr_State = state, lr_Value = v\<rparr>)))"
| "ledger_append state v (SyncFailed e) s =
     (Some e, s @ encodeRecord \<lparr>lr_State = state, lr_Value = v\<rparr>)"

definition Ledger_Attempt where "Ledger_Attempt v = ledger_append StateAttempted v"

definition Ledger_Commit where "Ledger_Commit v = ledger_append StateCommitted v"

definition Ledger_Indeterminate where "Ledger_Indeterminate v = ledger_append StateIndeterminate v"

section \<open>A record reads back\<close>

lemma state_text_graphic: "\<forall>c \<in> set (state_text st). graphic c"
  by (cases st) (simp_all add: graphic_def)

lemma state_text_nonempty [simp]: "state_text st \<noteq> []"
  by (cases st) simp_all

lemma parse_state_text [simp]: "parse_state (state_text st) = Some st"
  by (cases st) (simp_all add: parse_state_def)

lemma parse_state_Some: "parse_state s = Some st \<longleftrightarrow> s = state_text st"
  by (cases st) (auto simp: parse_state_def)

definition checksum_text :: "State \<Rightarrow> int \<Rightarrow> string" where
  "checksum_text st v = pad8 (to_hex_lower (unat (ChecksumIEEE (state_text st @ '' '' @ Itoa v))))"

lemma checksum_text_graphic: "\<forall>c \<in> set (checksum_text st v). graphic c"
  unfolding checksum_text_def using hex_graphic(2) by (intro pad8_graphic) blast

lemma checksum_text_nonempty [simp]: "checksum_text st v \<noteq> []"
  by (simp add: checksum_text_def pad8_def)

text \<open>The line without its newline, as three words.\<close>

definition record_line :: "ledger_record \<Rightarrow> string" where
  "record_line rec =
     state_text (lr_State rec) @ CHR 0x20 # Itoa (lr_Value rec) @ CHR 0x20 # checksum_text (lr_State rec) (lr_Value rec)"

lemma encodeRecord_line: "encodeRecord rec = record_line rec @ [newline]"
  by (simp add: encodeRecord_def record_line_def checksum_text_def Let_def)

lemma record_line_newline: "newline \<notin> set (record_line rec)"
  using newline_not_graphic state_text_graphic [of "lr_State rec"] Itoa_graphic [of "lr_Value rec"]
    checksum_text_graphic [of "lr_State rec" "lr_Value rec"]
  by (auto simp: record_line_def newline_def)

lemma Fields_record_line:
  "Fields (record_line rec) =
     [state_text (lr_State rec), Itoa (lr_Value rec), checksum_text (lr_State rec) (lr_Value rec)]"
  unfolding record_line_def
  by (intro Fields_three state_text_graphic Itoa_graphic checksum_text_graphic) simp_all

lemma decode_line:
  assumes "in_int64 (lr_Value rec)"
  shows "decodeRecord (record_line rec) = Inr rec"
proof -
  let ?crc = "ChecksumIEEE (state_text (lr_State rec) @ '' '' @ Itoa (lr_Value rec))"
  have "unat ?crc < 2 ^ 32" using unsigned_less [of ?crc] by simp
  then have "ParseUint (checksum_text (lr_State rec) (lr_Value rec)) 16 32 = Inr (unat ?crc)"
    unfolding checksum_text_def pad8_def by (rule hex_lower.ParseUint_padded)
  with assms show ?thesis
    by (simp add: decodeRecord_def Fields_record_line ParseInt_Itoa Let_def)
qed


section \<open>A file reads back\<close>

text \<open>The bytes of a file holding the records.\<close>

definition encode_all :: "ledger_record list \<Rightarrow> string" where
  "encode_all recs = concat (map encodeRecord recs)"

lemma encode_all_simps [simp]:
  "encode_all [] = []"
  "encode_all (r # rs) = encodeRecord r @ encode_all rs"
  "encode_all (rs @ rs') = encode_all rs @ encode_all rs'"
  by (simp_all add: encode_all_def)

definition valid_records :: "ledger_record list \<Rightarrow> bool" where
  "valid_records recs \<longleftrightarrow> list_all (\<lambda>r. in_int64 (lr_Value r)) recs"

lemma ReadBytes_line: "d \<notin> set l \<Longrightarrow> ReadBytes d (l @ d # s) = (l @ [d], s)"
  by (induction l) auto

lemma ReadBytes_fragment: "d \<notin> set l \<Longrightarrow> ReadBytes d l = (l, [])"
  by (induction l) auto

lemma replay_line:
  assumes "newline \<notin> set l"
  shows "replay_loop fault (l @ newline # s) recs n =
     (case decodeRecord l of
        Inl e \<Rightarrow> Inl (ErrCorruptLedger n e)
      | Inr rec \<Rightarrow> replay_loop fault s (recs @ [rec]) (n + int (length (l @ [newline]))))"
  using assms by (subst replay_loop.simps) (simp add: ReadBytes_line del: length_append)

lemma replay_fragment:
  assumes "newline \<notin> set l"
  shows "replay_loop fault l recs n = (case fault of None \<Rightarrow> Inr (recs, n) | Some e \<Rightarrow> Inl (ReadError e))"
proof -
  have "(l \<noteq> [] \<and> last l = newline) = False" using assms by (metis last_in_set)
  with assms show ?thesis by (subst replay_loop.simps) (simp only: ReadBytes_fragment [OF assms] prod.case if_False)
qed

lemma replay_records:
  "valid_records rs \<Longrightarrow>
   replay_loop fault (encode_all rs @ t) recs n = replay_loop fault t (recs @ rs) (n + int (length (encode_all rs)))"
proof (induction rs arbitrary: recs n)
  case (Cons r rs)
  have "replay_loop fault (encode_all (r # rs) @ t) recs n
      = replay_loop fault (encode_all rs @ t) (recs @ [r]) (n + int (length (encodeRecord r)))"
    using Cons.prems replay_line [OF record_line_newline, of fault r "encode_all rs @ t" recs n]
    by (simp add: encodeRecord_line decode_line valid_records_def)
  with Cons show ?case by (simp add: valid_records_def add.assoc)
qed simp

text \<open>
  What failed or interrupted writes leave behind: characters of records with no newline, starting with
  one of a state.
\<close>

definition torn :: "string \<Rightarrow> bool" where
  "torn t \<longleftrightarrow> list_all (\<lambda>c. graphic c \<or> c = CHR 0x20) t \<and> (t \<noteq> [] \<longrightarrow> graphic (hd t))"

lemma torn_Nil [simp]: "torn []"
  by (simp add: torn_def)

lemma torn_append: "torn t \<Longrightarrow> torn u \<Longrightarrow> torn (t @ u)"
  by (cases t) (auto simp: torn_def)

lemma torn_newline: "torn t \<Longrightarrow> newline \<notin> set t"
  using newline_not_graphic by (auto simp: torn_def list_all_iff newline_def)

lemma torn_take: "torn t \<Longrightarrow> torn (take k t)"
  by (cases k) (auto simp: torn_def list_all_iff hd_take dest: in_set_takeD)

lemma torn_record_line: "torn (record_line r)"
proof -
  have "graphic (hd (state_text (lr_State r)))" by (cases "lr_State r") (simp_all add: graphic_def)
  then show ?thesis
    using state_text_graphic [of "lr_State r"] Itoa_graphic [of "lr_Value r"]
      checksum_text_graphic [of "lr_State r" "lr_Value r"]
    by (auto simp: torn_def record_line_def list_all_iff)
qed

lemma Replay_torn:
  assumes "valid_records rs" "torn t"
  shows "Replay (encode_all rs @ t) None = Inr (rs, int (length (encode_all rs)))"
  using assms by (simp add: Replay_def replay_records replay_fragment torn_newline)

lemma unknown_state:
  assumes "t \<noteq> []"
  shows "parse_state (t @ state_text st) = None"
proof (rule ccontr)
  assume "parse_state (t @ state_text st) \<noteq> None"
  then obtain st' where eq: "t @ state_text st = state_text st'" by (auto simp: parse_state_Some)
  then have "suffix (state_text st) (state_text st')" by (metis suffixI)
  then have "state_text st = state_text st'" by (cases st; cases st') (simp_all add: suffix_def)
  with eq assms show False by simp
qed

lemma Fields_glued:
  assumes "\<forall>c \<in> set u. graphic c"
  shows "Fields (u @ record_line r) = [u @ state_text (lr_State r), Itoa (lr_Value r), checksum_text (lr_State r) (lr_Value r)]"
proof -
  have "Fields ((u @ state_text (lr_State r)) @ CHR 0x20 # Itoa (lr_Value r) @ CHR 0x20 # checksum_text (lr_State r) (lr_Value r))
      = [u @ state_text (lr_State r), Itoa (lr_Value r), checksum_text (lr_State r) (lr_Value r)]"
    using assms state_text_graphic [of "lr_State r"]
    by (intro Fields_three Itoa_graphic checksum_text_graphic) auto
  then show ?thesis by (simp add: record_line_def)
qed

lemma glued_refused:
  assumes "torn t" "t \<noteq> []"
  shows "\<exists>e. decodeRecord (t @ record_line r) = Inl e"
proof (cases "CHR 0x20 \<in> set t")
  case False
  with assms(1) have "\<forall>c \<in> set t. graphic c" by (auto simp: torn_def list_all_iff)
  with unknown_state [OF assms(2)] show ?thesis by (simp add: decodeRecord_def Fields_glued)
next
  case True
  then obtain p u where t: "t = p @ CHR 0x20 # u" "CHR 0x20 \<notin> set u" by (meson split_list_last)
  with assms(1) have p: "\<forall>c \<in> set p. graphic c \<or> c = CHR 0x20" and u: "\<forall>c \<in> set u. graphic c"
    by (auto simp: torn_def list_all_iff)
  have "p \<noteq> []" "graphic (hd p)" using assms(1) t(1) by (cases p; auto simp: torn_def graphic_def)+
  then obtain w ws where "Fields p = w # ws" using Fields_nonempty [OF p] by (cases "Fields p") auto
  then have "Fields (t @ record_line r) = w # ws @ [u @ state_text (lr_State r), Itoa (lr_Value r), checksum_text (lr_State r) (lr_Value r)]"
    by (simp add: t Fields_split p Fields_glued u)
  then show ?thesis by (cases ws) (simp_all add: decodeRecord_def split: list.split)
qed

text \<open>A record appended to a torn one makes the file unreadable from then on.\<close>

lemma Replay_glued:
  assumes "valid_records rs" "torn t" "t \<noteq> []"
  shows "\<exists>e. Replay (encode_all rs @ t @ encodeRecord r @ s) fault = Inl (ErrCorruptLedger (int (length (encode_all rs))) e)"
proof -
  have "newline \<notin> set (t @ record_line r)" using assms(2) by (simp add: torn_newline record_line_newline)
  from replay_line [OF this, of fault s] glued_refused [OF assms(2,3), of r] assms(1) show ?thesis
    by (auto simp: Replay_def replay_records encodeRecord_line)
qed

end
