(* ===== verification/Verify_Check.thy ===== *)
theory Verify_Check
  imports Verify_Ledger
begin

text \<open>
  \<open>internal/verify/check.go\<close>, \<open>classify.go\<close> and \<open>pg.go\<close>, with the check of \<open>cmd/verify/main.go\<close>:
  the sets a ledger stands for, the two assertions and the exit code, the outcome of one \<open>INSERT\<close>, and
  reading the set back.
\<close>

section \<open>The assertions\<close>

datatype Verdict = VerdictPass | VerdictFail

definition ExitPass :: int where "ExitPass = 0"
definition ExitDurabilityViolation :: int where "ExitDurabilityViolation = 1"
definition ExitUnexpectedWrite :: int where "ExitUnexpectedWrite = 2"
definition ExitOperational :: int where "ExitOperational = 3"

record Summary =
  sum_Attempted :: "int set"
  sum_Committed :: "int set"
  sum_Indeterminate :: "int set"
  sum_Orphans :: "int list"
  sum_Conflicts :: "int list"

definition sortedKeys :: "int set \<Rightarrow> int list" where
  "sortedKeys m = sorted_list_of_set m"

definition difference :: "int set \<Rightarrow> int set \<Rightarrow> int list" where
  "difference a b = sorted_list_of_set (a - b)"

text \<open>The three sets and the orphans found so far, after the records.\<close>

fun summarize_loop :: "ledger_record list \<Rightarrow> int set \<times> int set \<times> int set \<times> int set
    \<Rightarrow> int set \<times> int set \<times> int set \<times> int set" where
  "summarize_loop [] acc = acc"
| "summarize_loop (rec # recs) (att, com, ind, orp) =
     (let v = lr_Value rec;
          orp' = (if v \<in> att then orp else insert v orp) in
      case lr_State rec of
        StateAttempted \<Rightarrow> summarize_loop recs (insert v att, com, ind, orp)
      | StateCommitted \<Rightarrow> summarize_loop recs (att, insert v com, ind, orp')
      | StateIndeterminate \<Rightarrow> summarize_loop recs (att, com, insert v ind, orp'))"

definition Summarize :: "ledger_record list \<Rightarrow> Summary" where
  "Summarize recs =
     (case summarize_loop recs ({}, {}, {}, {}) of
        (att, com, ind, orp) \<Rightarrow>
          \<lparr>sum_Attempted = att, sum_Committed = com, sum_Indeterminate = ind,
           sum_Orphans = sortedKeys orp, sum_Conflicts = sorted_list_of_set (com \<inter> ind)\<rparr>)"

record Counts =
  cnt_Attempted :: nat
  cnt_Committed :: nat
  cnt_Indeterminate :: nat
  cnt_Observed :: nat
  cnt_Lost :: nat
  cnt_Unexpected :: nat
  cnt_Recovered :: nat

record Report =
  rep_Verdict :: Verdict
  rep_DurabilityViolation :: bool
  rep_UnexpectedWrites :: bool
  rep_Counts :: Counts
  rep_LostCommitted :: "int list"
  rep_Unexpected :: "int list"
  rep_Recovered :: "int list"
  rep_RecoveredOmitted :: nat
  rep_LedgerOrphans :: "int list"
  rep_LedgerConflicts :: "int list"

definition defaultMaxRecoveredListed :: int where "defaultMaxRecoveredListed = 100"

text \<open>\<open>Check\<close>; the argument \<open>opts\<close> is \<open>opts.MaxRecoveredListed\<close>.\<close>

definition Check :: "Summary \<Rightarrow> int list \<Rightarrow> int \<Rightarrow> Report" where
  "Check s observed opts =
     (let maxRecovered = (if opts \<le> 0 then defaultMaxRecoveredListed else opts);
          obs = set observed;
          lost = difference (sum_Committed s) obs;
          unexpected = difference obs (sum_Attempted s);
          recovered = sorted_list_of_set {v \<in> obs. v \<in> sum_Attempted s \<and> v \<notin> sum_Committed s};
          violated = lost \<noteq> [];
          unexpectedWrites = unexpected \<noteq> [] in
      \<lparr>rep_Verdict = (if violated \<or> unexpectedWrites then VerdictFail else VerdictPass),
       rep_DurabilityViolation = violated,
       rep_UnexpectedWrites = unexpectedWrites,
       rep_Counts =
         \<lparr>cnt_Attempted = card (sum_Attempted s), cnt_Committed = card (sum_Committed s),
          cnt_Indeterminate = card (sum_Indeterminate s), cnt_Observed = card obs,
          cnt_Lost = length lost, cnt_Unexpected = length unexpected, cnt_Recovered = length recovered\<rparr>,
       rep_LostCommitted = lost,
       rep_Unexpected = unexpected,
       rep_Recovered = (if int (length recovered) > maxRecovered then take (nat maxRecovered) recovered else recovered),
       rep_RecoveredOmitted = (if int (length recovered) > maxRecovered then length recovered - nat maxRecovered else 0),
       rep_LedgerOrphans = sum_Orphans s,
       rep_LedgerConflicts = sum_Conflicts s\<rparr>)"

definition ExitCode :: "Report \<Rightarrow> int" where
  "ExitCode r =
     (if rep_DurabilityViolation r then ExitDurabilityViolation
      else if rep_UnexpectedWrites r then ExitUnexpectedWrite
      else ExitPass)"

definition assertionResult :: "bool \<Rightarrow> string" where
  "assertionResult ok = (if ok then ''holds'' else ''VIOLATED'')"

fun join_comma :: "string list \<Rightarrow> string" where
  "join_comma [] = []"
| "join_comma [s] = s"
| "join_comma (s # ss) = s @ '', '' @ join_comma ss"

definition formatValues :: "int list \<Rightarrow> string" where
  "formatValues vs =
     (let maxShown = 32;
          shown = (if length vs > maxShown then take maxShown vs else vs);
          suffix = (if length vs > maxShown then '' ... and '' @ show_nat (length vs - maxShown) @ '' more'' else []) in
      join_comma (map Itoa shown) @ suffix)"

fun verdict_text :: "Verdict \<Rightarrow> string" where
  "verdict_text VerdictPass = ''PASS''"
| "verdict_text VerdictFail = ''FAIL''"

definition Report_Text :: "Report \<Rightarrow> string" where
  "Report_Text r =
     (let c = rep_Counts r in
      ''verdict: '' @ verdict_text (rep_Verdict r) @ [newline] @
      ''  attempted='' @ show_nat (cnt_Attempted c) @ '' committed='' @ show_nat (cnt_Committed c) @
      '' indeterminate='' @ show_nat (cnt_Indeterminate c) @ '' observed='' @ show_nat (cnt_Observed c) @ [newline] @
      ''  COMMITTED subset of R: '' @ assertionResult (\<not> rep_DurabilityViolation r) @ [newline] @
      (if rep_DurabilityViolation r
       then ''    LOST COMMITTED TRANSACTIONS ('' @ show_nat (cnt_Lost c) @ ''): '' @ formatValues (rep_LostCommitted r) @ [newline]
       else []) @
      ''  R subset of ATTEMPTED: '' @ assertionResult (\<not> rep_UnexpectedWrites r) @ [newline] @
      (if rep_UnexpectedWrites r
       then ''    UNEXPECTED VALUES ('' @ show_nat (cnt_Unexpected c) @ ''): '' @ formatValues (rep_Unexpected r) @ [newline]
       else []) @
      ''  recovered (informational, not a failure): '' @ show_nat (cnt_Recovered c) @ [newline] @
      (if rep_LedgerOrphans r \<noteq> []
       then ''  ledger orphans (verifier bug): '' @ formatValues (rep_LedgerOrphans r) @ [newline] else []) @
      (if rep_LedgerConflicts r \<noteq> []
       then ''  ledger conflicts (verifier bug): '' @ formatValues (rep_LedgerConflicts r) @ [newline] else []))"

section \<open>The outcome of one insert\<close>

datatype Outcome = OutcomeCommitted | OutcomeIndeterminate | OutcomeFailed

record Classification =
  cl_Outcome :: Outcome
  cl_Code :: string
  cl_Reason :: string

text \<open>
  An error as \<open>errors.As\<close> and \<open>errors.Is\<close> see it: the SQLSTATE of a wrapped \<open>PgError\<close>, the
  sentinels in its chain, whether it is a network timeout, and its text.
\<close>

datatype sentinel = DeadlineExceeded | Canceled | ECONNRESET | EPIPE | EOF | ErrUnexpectedEOF | ErrClosed

record exec_error =
  ee_pg :: "string option"
  ee_is :: "sentinel list"
  ee_timeout :: bool
  ee_text :: string

definition definiteRejections :: "string list" where
  "definiteRejections = [''40001'', ''40P01'', ''53300'', ''3D000'']"

definition definiteRejectionClasses :: "string list" where
  "definiteRejectionClasses = [''22'', ''23'', ''28'', ''42'']"

definition isDefiniteRejectionClass :: "string \<Rightarrow> bool" where
  "isDefiniteRejectionClass code \<longleftrightarrow>
     \<not> length code < 2 \<and> list_ex (\<lambda>cls. prefix cls code) definiteRejectionClasses"

definition indeterminate :: "string \<Rightarrow> string \<Rightarrow> Classification" where
  "indeterminate code reason = \<lparr>cl_Outcome = OutcomeIndeterminate, cl_Code = code, cl_Reason = reason\<rparr>"

definition classifyServerError :: "string \<Rightarrow> Classification" where
  "classifyServerError code =
     (if code = ''57P01'' then indeterminate code ''admin shutdown''
      else if code = ''57014'' then indeterminate code ''query canceled''
      else if code = ''08006'' then indeterminate code ''connection failure''
      else if code = ''08003'' then indeterminate code ''connection does not exist''
      else if code \<in> set definiteRejections \<or> isDefiniteRejectionClass code then
        \<lparr>cl_Outcome = OutcomeFailed, cl_Code = code, cl_Reason = ''server rejected the statement''\<rparr>
      else indeterminate code ''ambiguous server error'')"

definition Classify :: "exec_error option \<Rightarrow> Classification" where
  "Classify err =
     (case err of
        None \<Rightarrow> \<lparr>cl_Outcome = OutcomeCommitted, cl_Code = [], cl_Reason = ''server acknowledged the commit''\<rparr>
      | Some e \<Rightarrow>
          (case ee_pg e of
             Some code \<Rightarrow> classifyServerError code
           | None \<Rightarrow>
               if DeadlineExceeded \<in> set (ee_is e) then indeterminate [] ''context deadline exceeded''
               else if Canceled \<in> set (ee_is e) then indeterminate [] ''context canceled''
               else if ECONNRESET \<in> set (ee_is e) \<or> EPIPE \<in> set (ee_is e) then
                 indeterminate [] ''connection reset by peer''
               else if EOF \<in> set (ee_is e) \<or> ErrUnexpectedEOF \<in> set (ee_is e) \<or> ErrClosed \<in> set (ee_is e) then
                 indeterminate [] ''connection closed mid-statement''
               else if ee_timeout e then indeterminate [] ''network timeout''
               else if sublist ''connection reset by peer'' (ee_text e) then
                 indeterminate [] ''connection reset by peer''
               else indeterminate [] (''unclassified error: '' @ ee_text e)))"

text \<open>Only a nil error is a commit.\<close>

lemma Classify_committed: "cl_Outcome (Classify err) = OutcomeCommitted \<longleftrightarrow> err = None"
  by (auto simp: Classify_def classifyServerError_def indeterminate_def split: option.splits)

lemma Classify_code [simp]: "cl_Code (Classify err) = (case err of None \<Rightarrow> [] | Some e \<Rightarrow> case_option [] id (ee_pg e))"
  by (auto simp: Classify_def classifyServerError_def indeterminate_def split: option.splits)

section \<open>Reading the set\<close>

definition DefaultTable :: string where "DefaultTable = ''set''"

definition in_range :: "char \<Rightarrow> char \<Rightarrow> char \<Rightarrow> bool" where
  "in_range lo c hi \<longleftrightarrow> (of_char lo :: nat) \<le> of_char c \<and> (of_char c :: nat) \<le> of_char hi"

fun identifierPattern :: "string \<Rightarrow> bool" where
  "identifierPattern [] \<longleftrightarrow> False"
| "identifierPattern (c # s) \<longleftrightarrow>
     (in_range (CHR ''a'') c (CHR ''z'') \<or> c = CHR ''_'') \<and>
     list_all (\<lambda>d. in_range (CHR ''a'') d (CHR ''z'') \<or> in_range (CHR ''0'') d (CHR ''9'') \<or> d = CHR ''_'') s"

definition quoteIdentifier :: "string \<Rightarrow> string option" where
  "quoteIdentifier name = (if \<not> identifierPattern name then None else Some (CHR 0x22 # name @ [CHR 0x22]))"

text \<open>
  \<open>ReadSet\<close> on a connection: the answer of \<open>pg_is_in_recovery\<close> and the rows of the query on the
  quoted table, each row a value or the error of scanning it, then the error the rows end with.
\<close>

datatype read_error = InvalidTable | ErrNotPrimary | QueryError string

record set_conn =
  sc_in_recovery :: "string + bool"
  sc_rows :: "string \<Rightarrow> string + (string + int) list \<times> string option"

fun scan_rows :: "(string + int) list \<Rightarrow> int list \<Rightarrow> string + int list" where
  "scan_rows [] acc = Inr acc"
| "scan_rows (Inl e # rows) acc = Inl e"
| "scan_rows (Inr v # rows) acc = scan_rows rows (acc @ [v])"

definition ReadSet :: "set_conn \<Rightarrow> string \<Rightarrow> bool \<Rightarrow> read_error + int list" where
  "ReadSet conn table requirePrimary =
     (case quoteIdentifier table of
        None \<Rightarrow> Inl InvalidTable
      | Some ident \<Rightarrow>
          let read =
            (case sc_rows conn ident of
               Inl e \<Rightarrow> Inl (QueryError e)
             | Inr (rows, ended) \<Rightarrow>
                 (case scan_rows rows [] of
                    Inl e \<Rightarrow> Inl (QueryError e)
                  | Inr vs \<Rightarrow> (case ended of Some e \<Rightarrow> Inl (QueryError e) | None \<Rightarrow> Inr vs))) in
          if requirePrimary then
            (case sc_in_recovery conn of
               Inl e \<Rightarrow> Inl (QueryError e)
             | Inr True \<Rightarrow> Inl ErrNotPrimary
             | Inr False \<Rightarrow> read)
          else read)"

text \<open>\<open>checkLedger\<close>: the exit code of the command. The connection may fail; encoding the report does not.\<close>

definition checkLedger :: "ledger_file \<Rightarrow> (string + set_conn) \<Rightarrow> string \<Rightarrow> bool \<Rightarrow> int" where
  "checkLedger file conn table allowReplica =
     (case ReadFile file of
        Inl _ \<Rightarrow> ExitOperational
      | Inr records \<Rightarrow>
          if records = [] then ExitOperational
          else case conn of
            Inl _ \<Rightarrow> ExitOperational
          | Inr c \<Rightarrow>
              (case ReadSet c table (\<not> allowReplica) of
                 Inl _ \<Rightarrow> ExitOperational
               | Inr observed \<Rightarrow> ExitCode (Check (Summarize records) observed 0)))"

section \<open>What a ledger summarises to\<close>

definition values_of :: "State \<Rightarrow> ledger_record list \<Rightarrow> int set" where
  "values_of st recs = lr_Value ` {r \<in> set recs. lr_State r = st}"

text \<open>Every outcome is recorded after the attempt at the same value.\<close>

definition attempts_first :: "ledger_record list \<Rightarrow> bool" where
  "attempts_first recs \<longleftrightarrow>
     (\<forall>i < length recs. lr_State (recs ! i) \<noteq> StateAttempted \<longrightarrow>
        lr_Value (recs ! i) \<in> values_of StateAttempted (take i recs))"

lemma values_of_Nil [simp]: "values_of st [] = {}"
  by (simp add: values_of_def)

lemma values_of_append [simp]: "values_of st (a @ b) = values_of st a \<union> values_of st b"
  by (auto simp: values_of_def)

lemma values_of_Cons [simp]:
  "values_of st (r # rs) = (if lr_State r = st then insert (lr_Value r) (values_of st rs) else values_of st rs)"
  by (auto simp: values_of_def)

lemma finite_values_of [simp]: "finite (values_of st recs)"
  by (simp add: values_of_def)

lemma attempts_first_snoc [simp]:
  "attempts_first (recs @ [r]) \<longleftrightarrow>
     attempts_first recs \<and> (lr_State r \<noteq> StateAttempted \<longrightarrow> lr_Value r \<in> values_of StateAttempted recs)"
  by (auto simp: attempts_first_def nth_append less_Suc_eq)

lemma attempts_first_Nil [simp]: "attempts_first []"
  by (simp add: attempts_first_def)

lemma summarize_loop_append: "summarize_loop (a @ b) acc = summarize_loop b (summarize_loop a acc)"
proof (induction a arbitrary: acc)
  case (Cons r a)
  obtain att com ind orp where "acc = (att, com, ind, orp)" by (cases acc)
  with Cons show ?case by (cases "lr_State r") (simp_all add: Let_def)
qed simp

lemma summarize_loop_sets:
  "\<exists>orp. summarize_loop recs ({}, {}, {}, {}) =
     (values_of StateAttempted recs, values_of StateCommitted recs, values_of StateIndeterminate recs, orp) \<and>
     finite orp \<and> (attempts_first recs \<longrightarrow> orp = {})"
proof (induction recs rule: rev_induct)
  case (snoc r recs)
  then show ?case
    by (cases "lr_State r") (auto simp: summarize_loop_append Let_def)
qed simp

lemma Summarize_sets [simp]:
  "sum_Attempted (Summarize recs) = values_of StateAttempted recs"
  "sum_Committed (Summarize recs) = values_of StateCommitted recs"
  "sum_Indeterminate (Summarize recs) = values_of StateIndeterminate recs"
  "sum_Conflicts (Summarize recs) = sorted_list_of_set (values_of StateCommitted recs \<inter> values_of StateIndeterminate recs)"
  "attempts_first recs \<Longrightarrow> sum_Orphans (Summarize recs) = []"
  using summarize_loop_sets [of recs] by (auto simp: Summarize_def sortedKeys_def)

lemma difference_Nil [simp]: "finite a \<Longrightarrow> difference a b = [] \<longleftrightarrow> a \<subseteq> b"
  by (auto simp: difference_def)

lemma ExitCode_Check:
  "finite (sum_Committed s) \<Longrightarrow>
   ExitCode (Check s R opts) =
     (if \<not> sum_Committed s \<subseteq> set R then ExitDurabilityViolation
      else if \<not> set R \<subseteq> sum_Attempted s then ExitUnexpectedWrite
      else ExitPass)"
  by (simp add: ExitCode_def Check_def Let_def)

end
