(* ===== verification/Verify_Workload.thy ===== *)
theory Verify_Workload
  imports Verify_Check
begin

text \<open>
  \<open>internal/verify/workload.go\<close>: the writers that share one ledger, as the step relation \<open>fleet_step\<close>
  with one step per access to what they share, failed writes, kills that tear a record, and restarts
  through \<open>Open\<close> and \<open>NextValue\<close>. Over every interleaving a ledger either reads back to records that
  are true of the server, or is refused as corrupt.
\<close>

section \<open>The writers\<close>

definition NextValue :: "ledger_record list \<Rightarrow> int" where
  "NextValue recs =
     wrap64 (foldl (\<lambda>highest rec. if lr_Value rec > highest then lr_Value rec else highest) 0 recs + 1)"

record Stats =
  st_Attempted :: int
  st_Committed :: int
  st_Indeterminate :: int
  st_Failed :: int
  st_ConnectErrors :: int

text \<open>
  Where a writer stands: without a connection, between two inserts, or inside \<open>insert\<close> with the value
  it took: before \<open>Attempt\<close> returned, before \<open>Exec\<close>, waiting for the server, and with its answer.
\<close>

datatype writer =
    Disconnected
  | Connected
  | Took int
  | Attempted int
  | Issued int
  | Answered int "exec_error option"
  | Stopped "string option"

text \<open>
  The fleet: the bytes of the ledger, the shared counter, the writers and their counters; and, for
  the statements only, the values whose \<open>INSERT\<close> was sent, those the server acknowledged, those whose
  \<open>Commit\<close> record was made durable, and whether a write to the ledger ever failed.
\<close>

record fleet =
  o_ledger :: string
  o_next :: int
  o_writers :: "writer list"
  o_stats :: Stats
  o_issued :: "int set"
  o_acked :: "int set"
  o_recorded :: "int set"
  o_failed :: bool

definition set_writer :: "nat \<Rightarrow> writer \<Rightarrow> fleet \<Rightarrow> fleet" where
  "set_writer i w s = s\<lparr>o_writers := (o_writers s)[i := w]\<rparr>"

text \<open>The steps of \<open>insert\<close>, one per access to what the writers share.\<close>

definition insert_take :: "nat \<Rightarrow> fleet \<Rightarrow> fleet" where
  "insert_take i s =
     (let n = wrap64 (o_next s + 1) in set_writer i (Took (wrap64 (n - 1))) (s\<lparr>o_next := n\<rparr>))"

definition insert_attempt :: "nat \<Rightarrow> int \<Rightarrow> write_outcome \<Rightarrow> fleet \<Rightarrow> fleet" where
  "insert_attempt i v out s =
     (case Ledger_Attempt v out (o_ledger s) of
        (Some e, l) \<Rightarrow> set_writer i (Stopped (Some e)) (s\<lparr>o_ledger := l, o_failed := True\<rparr>)
      | (None, l) \<Rightarrow>
          set_writer i (Attempted v)
            (s\<lparr>o_ledger := l, o_stats := (o_stats s)\<lparr>st_Attempted := st_Attempted (o_stats s) + 1\<rparr>\<rparr>))"

definition insert_exec :: "nat \<Rightarrow> int \<Rightarrow> fleet \<Rightarrow> fleet" where
  "insert_exec i v s = set_writer i (Issued v) (s\<lparr>o_issued := insert v (o_issued s)\<rparr>)"

definition insert_answer :: "nat \<Rightarrow> int \<Rightarrow> exec_error option \<Rightarrow> fleet \<Rightarrow> fleet" where
  "insert_answer i v err s =
     set_writer i (Answered v err) (s\<lparr>o_acked := (if err = None then insert v (o_acked s) else o_acked s)\<rparr>)"

text \<open>\<open>closed\<close> is \<open>conn.IsClosed()\<close>.\<close>

definition insert_done :: "bool \<Rightarrow> exec_error option \<Rightarrow> writer" where
  "insert_done closed err =
     (if closed \<or> (err \<noteq> None \<and> cl_Code (Classify err) = []) then Disconnected else Connected)"

definition insert_record :: "nat \<Rightarrow> int \<Rightarrow> exec_error option \<Rightarrow> write_outcome \<Rightarrow> bool \<Rightarrow> fleet \<Rightarrow> fleet" where
  "insert_record i v err out closed s =
     (case cl_Outcome (Classify err) of
        OutcomeCommitted \<Rightarrow>
          (case Ledger_Commit v out (o_ledger s) of
             (Some e, l) \<Rightarrow> set_writer i (Stopped (Some e)) (s\<lparr>o_ledger := l, o_failed := True\<rparr>)
           | (None, l) \<Rightarrow>
               set_writer i (insert_done closed err)
                 (s\<lparr>o_ledger := l, o_recorded := insert v (o_recorded s),
                    o_stats := (o_stats s)\<lparr>st_Committed := st_Committed (o_stats s) + 1\<rparr>\<rparr>))
      | OutcomeIndeterminate \<Rightarrow>
          (case Ledger_Indeterminate v out (o_ledger s) of
             (Some e, l) \<Rightarrow> set_writer i (Stopped (Some e)) (s\<lparr>o_ledger := l, o_failed := True\<rparr>)
           | (None, l) \<Rightarrow>
               set_writer i (insert_done closed err)
                 (s\<lparr>o_ledger := l,
                    o_stats := (o_stats s)\<lparr>st_Indeterminate := st_Indeterminate (o_stats s) + 1\<rparr>\<rparr>))
      | OutcomeFailed \<Rightarrow>
          set_writer i (insert_done closed err)
            (s\<lparr>o_stats := (o_stats s)\<lparr>st_Failed := st_Failed (o_stats s) + 1\<rparr>\<rparr>))"

text \<open>The record a writer is about to append, if it is.\<close>

fun pending :: "writer \<Rightarrow> ledger_record option" where
  "pending (Took v) = Some \<lparr>lr_State = StateAttempted, lr_Value = v\<rparr>"
| "pending (Answered v err) =
     (case cl_Outcome (Classify err) of
        OutcomeCommitted \<Rightarrow> Some \<lparr>lr_State = StateCommitted, lr_Value = v\<rparr>
      | OutcomeIndeterminate \<Rightarrow> Some \<lparr>lr_State = StateIndeterminate, lr_Value = v\<rparr>
      | OutcomeFailed \<Rightarrow> None)"
| "pending _ = None"

definition stopped :: "writer \<Rightarrow> bool" where
  "stopped w \<longleftrightarrow> (\<exists>e. w = Stopped e)"

definition no_stats :: Stats where
  "no_stats = \<lparr>st_Attempted = 0, st_Committed = 0, st_Indeterminate = 0, st_Failed = 0, st_ConnectErrors = 0\<rparr>"

text \<open>
  A run of the fleet. A kill stops every writer and may leave any part of one record being written;
  a later run opens what the last one left and starts \<open>n\<close> writers after the highest value on record.
\<close>

inductive fleet_step :: "fleet \<Rightarrow> fleet \<Rightarrow> bool" where
  connect: "i < length (o_writers s) \<Longrightarrow> o_writers s ! i = Disconnected \<Longrightarrow>
    fleet_step s (set_writer i Connected s)"
| connect_fails: "i < length (o_writers s) \<Longrightarrow> o_writers s ! i = Disconnected \<Longrightarrow>
    fleet_step s (s\<lparr>o_stats := (o_stats s)\<lparr>st_ConnectErrors := st_ConnectErrors (o_stats s) + 1\<rparr>\<rparr>)"
| ctx_done: "i < length (o_writers s) \<Longrightarrow> o_writers s ! i \<in> {Disconnected, Connected} \<Longrightarrow>
    fleet_step s (set_writer i (Stopped None) s)"
| take: "i < length (o_writers s) \<Longrightarrow> o_writers s ! i = Connected \<Longrightarrow>
    fleet_step s (insert_take i s)"
| attempt: "i < length (o_writers s) \<Longrightarrow> o_writers s ! i = Took v \<Longrightarrow>
    fleet_step s (insert_attempt i v out s)"
| exec: "i < length (o_writers s) \<Longrightarrow> o_writers s ! i = Attempted v \<Longrightarrow>
    fleet_step s (insert_exec i v s)"
| answer: "i < length (o_writers s) \<Longrightarrow> o_writers s ! i = Issued v \<Longrightarrow>
    fleet_step s (insert_answer i v err s)"
| outcome: "i < length (o_writers s) \<Longrightarrow> o_writers s ! i = Answered v err \<Longrightarrow>
    fleet_step s (insert_record i v err out closed s)"
| kill: "(\<And>r. torn_by = Some r \<Longrightarrow> r \<in> Option.these (pending ` set (o_writers s))) \<Longrightarrow>
    fleet_step s
      (s\<lparr>o_ledger := o_ledger s @ (case torn_by of None \<Rightarrow> [] | Some r \<Rightarrow> take k (encodeRecord r)),
         o_writers := map (\<lambda>_. Stopped None) (o_writers s)\<rparr>)"
| reopen: "list_all stopped (o_writers s) \<Longrightarrow> Open faults (Content (o_ledger s) None) = (Inr recs, l) \<Longrightarrow>
    fleet_step s
      (s\<lparr>o_ledger := l, o_next := NextValue recs, o_writers := replicate n Disconnected, o_stats := no_stats\<rparr>)"
| reopen_fails: "list_all stopped (o_writers s) \<Longrightarrow> Open faults (Content (o_ledger s) None) = (Inl e, l) \<Longrightarrow>
    fleet_step s (s\<lparr>o_ledger := l\<rparr>)"

definition fleet_init :: fleet where
  "fleet_init =
     \<lparr>o_ledger = [], o_next = 0, o_writers = [], o_stats = no_stats, o_issued = {}, o_acked = {},
      o_recorded = {}, o_failed = False\<rparr>"

inductive fleet_reaches :: "fleet \<Rightarrow> bool" where
  start: "fleet_reaches fleet_init"
| step: "fleet_reaches s \<Longrightarrow> fleet_step s s' \<Longrightarrow> fleet_reaches s'"

section \<open>What every run leaves behind\<close>

text \<open>A file with a record behind a torn one, and a file that reads back with a fact about its records.\<close>

definition corrupt :: "string \<Rightarrow> bool" where
  "corrupt l \<longleftrightarrow> (\<exists>rs t r s. valid_records rs \<and> torn t \<and> t \<noteq> [] \<and> l = encode_all rs @ t @ encodeRecord r @ s)"

definition holds_records :: "string \<Rightarrow> (ledger_record list \<Rightarrow> bool) \<Rightarrow> bool" where
  "holds_records l P \<longleftrightarrow> (\<exists>rs t. valid_records rs \<and> torn t \<and> l = encode_all rs @ t \<and> P rs)"

lemma corrupt_append: "corrupt l \<Longrightarrow> corrupt (l @ u)"
  by (fastforce simp: corrupt_def)

lemma append_whole:
  assumes "holds_records l P" "in_int64 (lr_Value r)" "\<And>rs. P rs \<Longrightarrow> Q (rs @ [r])"
  shows "corrupt (l @ encodeRecord r) \<or> holds_records (l @ encodeRecord r) Q"
proof -
  obtain rs t where l: "valid_records rs" "torn t" "l = encode_all rs @ t" "P rs"
    using assms(1) by (auto simp: holds_records_def)
  show ?thesis
  proof (cases "t = []")
    case True
    with l assms show ?thesis
      unfolding holds_records_def by (intro disjI2 exI [of _ "rs @ [r]"] exI [of _ "[]"]) (simp add: valid_records_def)
  next
    case False
    with l show ?thesis
      unfolding corrupt_def
      by (intro disjI1 exI [of _ rs] exI [of _ t] exI [of _ r] exI [of _ "[]"]) simp
  qed
qed

lemma append_part:
  assumes "holds_records l P" "in_int64 (lr_Value r)" "\<And>rs. P rs \<Longrightarrow> Q (rs @ [r])" "\<And>rs. P rs \<Longrightarrow> Q rs"
  shows "corrupt (l @ take k (encodeRecord r)) \<or> holds_records (l @ take k (encodeRecord r)) Q"
proof (cases "k \<le> length (record_line r)")
  case True
  then have "take k (encodeRecord r) = take k (record_line r)" by (simp add: encodeRecord_line)
  moreover obtain rs t where "valid_records rs" "torn t" "l = encode_all rs @ t" "P rs"
    using assms(1) by (auto simp: holds_records_def)
  ultimately show ?thesis
    unfolding holds_records_def using assms(4)
    by (intro disjI2 exI [of _ rs] exI [of _ "t @ take k (record_line r)"])
      (simp add: torn_append torn_take torn_record_line)
next
  case False
  then have "take k (encodeRecord r) = encodeRecord r" by (simp add: encodeRecord_line)
  with append_whole [where P = P and Q = Q, OF assms(1-3)] show ?thesis by simp
qed

lemma holds_records_mono: "holds_records l P \<Longrightarrow> (\<And>rs. P rs \<Longrightarrow> Q rs) \<Longrightarrow> holds_records l Q"
  by (auto simp: holds_records_def)

text \<open>What a writer's position says about the records and about the server.\<close>

fun writer_ok :: "int set \<Rightarrow> int set \<Rightarrow> writer \<Rightarrow> bool" where
  "writer_ok att ack (Took v) \<longleftrightarrow> in_int64 v"
| "writer_ok att ack (Attempted v) \<longleftrightarrow> in_int64 v \<and> v \<in> att"
| "writer_ok att ack (Issued v) \<longleftrightarrow> in_int64 v \<and> v \<in> att"
| "writer_ok att ack (Answered v err) \<longleftrightarrow> in_int64 v \<and> v \<in> att \<and> (err = None \<longrightarrow> v \<in> ack)"
| "writer_ok att ack _ \<longleftrightarrow> True"

definition facts :: "fleet \<Rightarrow> ledger_record list \<Rightarrow> bool" where
  "facts s rs \<longleftrightarrow>
     o_issued s \<subseteq> values_of StateAttempted rs \<and>
     values_of StateCommitted rs \<subseteq> o_acked s \<and>
     o_recorded s \<subseteq> values_of StateCommitted rs \<and>
     attempts_first rs \<and>
     list_all (writer_ok (values_of StateAttempted rs) (o_acked s)) (o_writers s)"

definition readable :: "fleet \<Rightarrow> bool" where
  "readable s \<longleftrightarrow> corrupt (o_ledger s) \<or> holds_records (o_ledger s) (facts s)"

lemma writer_ok_mono: "writer_ok att ack w \<Longrightarrow> att \<subseteq> att' \<Longrightarrow> ack \<subseteq> ack' \<Longrightarrow> writer_ok att' ack' w"
  by (cases w) auto

lemma pending_in_range: "writer_ok att ack w \<Longrightarrow> pending w = Some r \<Longrightarrow> in_int64 (lr_Value r)"
  by (cases w) (auto split: Outcome.splits)

lemma list_all_update: "list_all P xs \<Longrightarrow> P x \<Longrightarrow> list_all P (xs[i := x])"
  using set_update_subset_insert [of xs i x] by (auto simp: list_all_iff)

lemma facts_writer:
  "facts s rs \<Longrightarrow> i < length (o_writers s) \<Longrightarrow> writer_ok (values_of StateAttempted rs) (o_acked s) (o_writers s ! i)"
  by (auto simp: facts_def list_all_length)

lemma facts_set_writer:
  "facts s rs \<Longrightarrow> writer_ok (values_of StateAttempted rs) (o_acked s) w \<Longrightarrow> facts (set_writer i w s) rs"
  by (simp add: facts_def set_writer_def list_all_update)

text \<open>An attempt or an outcome appended to the records.\<close>

lemma facts_snoc:
  assumes "facts s rs"
    and "lr_State r \<noteq> StateAttempted \<Longrightarrow> lr_Value r \<in> values_of StateAttempted rs"
    and "lr_State r = StateCommitted \<Longrightarrow> lr_Value r \<in> o_acked s"
  shows "facts s (rs @ [r])"
proof -
  have "list_all (writer_ok (values_of StateAttempted (rs @ [r])) (o_acked s)) (o_writers s)"
    using assms(1) unfolding facts_def list_all_iff by (auto intro: writer_ok_mono)
  with assms show ?thesis by (auto simp: facts_def)
qed

lemma facts_pending:
  assumes "facts s rs" "w \<in> set (o_writers s)" "pending w = Some r"
  shows "facts s (rs @ [r])" and "in_int64 (lr_Value r)"
proof -
  have ok: "writer_ok (values_of StateAttempted rs) (o_acked s) w"
    using assms(1,2) by (auto simp: facts_def list_all_iff)
  with assms(3) show "in_int64 (lr_Value r)" by (simp add: pending_in_range)
  show "facts s (rs @ [r])"
    using assms(3) ok by (intro facts_snoc assms(1); cases w) (auto simp: Classify_committed split: Outcome.splits)
qed

lemma facts_unrelated [simp]:
  "facts (s\<lparr>o_ledger := l\<rparr>) = facts s" "facts (s\<lparr>o_stats := st\<rparr>) = facts s"
  "facts (s\<lparr>o_next := n\<rparr>) = facts s" "facts (s\<lparr>o_failed := b\<rparr>) = facts s"
  by (simp_all add: facts_def fun_eq_iff)

lemma set_writer_fields [simp]:
  "o_ledger (set_writer i w s) = o_ledger s" "o_failed (set_writer i w s) = o_failed s"
  "o_writers (set_writer i w s) = (o_writers s)[i := w]"
  by (simp_all add: set_writer_def)

lemma ledger_append_cases:
  assumes "ledger_append st v out l = (err, l')"
  obtains (whole) "err = None" "l' = l @ encodeRecord \<lparr>lr_State = st, lr_Value = v\<rparr>"
  | (part) e k where "err = Some e" "l' = l @ take k (encodeRecord \<lparr>lr_State = st, lr_Value = v\<rparr>)"
proof (cases out)
  case (WriteFailed k e)
  let ?r = "\<lparr>lr_State = st, lr_Value = v\<rparr>"
  have "take k (record_line ?r) = take (min k (length (record_line ?r))) (record_line ?r)" by (simp add: min_def)
  with WriteFailed assms have "err = Some e" "l' = l @ take (min k (length (record_line ?r))) (encodeRecord ?r)"
    by (auto simp: encodeRecord_line)
  then show ?thesis by (rule part)
next
  case (SyncFailed e)
  with assms part [of e "length (encodeRecord \<lparr>lr_State = st, lr_Value = v\<rparr>)"] show ?thesis by auto
qed (use assms whole in auto)

lemma readable_same:
  assumes "readable s" "o_ledger s' = o_ledger s" "\<And>rs. facts s rs \<Longrightarrow> facts s' rs"
  shows "readable s'"
  using assms holds_records_mono [of _ "facts s" "facts s'"] by (auto simp: readable_def)

lemma readable_whole:
  assumes "readable s" "o_ledger s' = o_ledger s @ encodeRecord r"
    and "\<And>rs. facts s rs \<Longrightarrow> in_int64 (lr_Value r) \<and> facts s' (rs @ [r])"
  shows "readable s'"
proof (cases "corrupt (o_ledger s)")
  case False
  with assms(1) have holds: "holds_records (o_ledger s) (facts s)" by (simp add: readable_def)
  with assms(3) have "in_int64 (lr_Value r)" by (auto simp: holds_records_def)
  with append_whole [where P = "facts s" and Q = "facts s'", OF holds, of r] assms show ?thesis
    by (simp add: readable_def)
qed (simp add: readable_def assms(2) corrupt_append)

lemma readable_part:
  assumes "readable s" "o_ledger s' = o_ledger s @ take k (encodeRecord r)"
    and "\<And>rs. facts s rs \<Longrightarrow> in_int64 (lr_Value r) \<and> facts s' (rs @ [r]) \<and> facts s' rs"
  shows "readable s'"
proof (cases "corrupt (o_ledger s)")
  case False
  with assms(1) have holds: "holds_records (o_ledger s) (facts s)" by (simp add: readable_def)
  with assms(3) have "in_int64 (lr_Value r)" by (auto simp: holds_records_def)
  with append_part [where P = "facts s" and Q = "facts s'", OF holds, of r k] assms show ?thesis
    by (simp add: readable_def)
qed (simp add: readable_def assms(2) corrupt_append)

text \<open>The append a writer is about to make, failed or done.\<close>

lemma readable_append_fails:
  assumes "readable s" "i < length (o_writers s)" "pending (o_writers s ! i) = Some r"
  shows "readable (set_writer i (Stopped e) (s\<lparr>o_ledger := o_ledger s @ take k (encodeRecord r), o_failed := b\<rparr>))"
proof (rule readable_part [OF assms(1)])
  let ?s = "set_writer i (Stopped e) (s\<lparr>o_ledger := o_ledger s @ take k (encodeRecord r), o_failed := b\<rparr>)"
  fix rs assume facts: "facts s rs"
  from facts_pending [OF this _ assms(3)] assms(2) have "facts s (rs @ [r])" "in_int64 (lr_Value r)" by auto
  with facts show "in_int64 (lr_Value r) \<and> facts ?s (rs @ [r]) \<and> facts ?s rs"
    by (auto intro!: facts_set_writer)
qed simp

lemma readable_append_done:
  assumes "readable s" "i < length (o_writers s)" "pending (o_writers s ! i) = Some r"
    and w: "\<And>att ack. lr_Value r \<in> att \<or> lr_State r \<noteq> StateAttempted \<Longrightarrow> in_int64 (lr_Value r) \<Longrightarrow> writer_ok att ack w"
    and rec: "rec = o_recorded s \<or> lr_State r = StateCommitted \<and> rec = insert (lr_Value r) (o_recorded s)"
  shows "readable (set_writer i w (s\<lparr>o_ledger := o_ledger s @ encodeRecord r, o_recorded := rec, o_stats := st\<rparr>))"
proof (rule readable_whole [OF assms(1)])
  fix rs assume facts: "facts s rs"
  from facts_pending [OF this _ assms(3)] assms(2) have r: "facts s (rs @ [r])" "in_int64 (lr_Value r)" by auto
  moreover have "facts (s\<lparr>o_ledger := o_ledger s @ encodeRecord r, o_recorded := rec, o_stats := st\<rparr>) (rs @ [r])"
    using r(1) rec by (auto simp: facts_def)
  ultimately show "in_int64 (lr_Value r) \<and>
      facts (set_writer i w (s\<lparr>o_ledger := o_ledger s @ encodeRecord r, o_recorded := rec, o_stats := st\<rparr>)) (rs @ [r])"
    using w by (auto intro!: facts_set_writer)
qed simp

text \<open>The two appending steps, as the append that was pending.\<close>

lemma insert_attempt_cases:
  obtains (whole) st where "insert_attempt i v out s = set_writer i (Attempted v)
      (s\<lparr>o_ledger := o_ledger s @ encodeRecord \<lparr>lr_State = StateAttempted, lr_Value = v\<rparr>, o_recorded := o_recorded s, o_stats := st\<rparr>)"
  | (part) e k where "insert_attempt i v out s = set_writer i (Stopped e)
      (s\<lparr>o_ledger := o_ledger s @ take k (encodeRecord \<lparr>lr_State = StateAttempted, lr_Value = v\<rparr>), o_failed := True\<rparr>)"
proof -
  obtain err l where step: "Ledger_Attempt v out (o_ledger s) = (err, l)" by fastforce
  from step [unfolded Ledger_Attempt_def] show ?thesis
    by (cases rule: ledger_append_cases) (use step that in \<open>auto simp: insert_attempt_def\<close>)
qed

lemma insert_record_cases:
  obtains (whole) r rec st where "pending (Answered v err) = Some r"
      "insert_record i v err out closed s = set_writer i (insert_done closed err)
         (s\<lparr>o_ledger := o_ledger s @ encodeRecord r, o_recorded := rec, o_stats := st\<rparr>)"
      "rec = o_recorded s \<or> lr_State r = StateCommitted \<and> rec = insert (lr_Value r) (o_recorded s)"
  | (part) r e k where "pending (Answered v err) = Some r"
      "insert_record i v err out closed s = set_writer i (Stopped e)
         (s\<lparr>o_ledger := o_ledger s @ take k (encodeRecord r), o_failed := True\<rparr>)"
  | (none) st where "insert_record i v err out closed s = set_writer i (insert_done closed err) (s\<lparr>o_stats := st\<rparr>)"
proof (cases "cl_Outcome (Classify err)")
  case OutcomeCommitted
  obtain e l where step: "Ledger_Commit v out (o_ledger s) = (e, l)" by fastforce
  from step [unfolded Ledger_Commit_def] show ?thesis
    by (cases rule: ledger_append_cases)
      (use step OutcomeCommitted whole(1) part(1) in \<open>auto simp: insert_record_def\<close>)
next
  case OutcomeIndeterminate
  obtain e l where step: "Ledger_Indeterminate v out (o_ledger s) = (e, l)" by fastforce
  from step [unfolded Ledger_Indeterminate_def] show ?thesis
    by (cases rule: ledger_append_cases)
      (use step OutcomeIndeterminate whole [of _ _ "o_recorded s"] part in \<open>auto simp: insert_record_def\<close>)
next
  case OutcomeFailed
  then show ?thesis using none by (simp add: insert_record_def)
qed

lemma insert_done_ok [simp]: "writer_ok att ack (insert_done closed err)"
  by (simp add: insert_done_def)

lemma readable_attempt:
  assumes "readable s" "i < length (o_writers s)" "o_writers s ! i = Took v"
  shows "readable (insert_attempt i v out s)"
proof -
  let ?r = "\<lparr>lr_State = StateAttempted, lr_Value = v\<rparr>"
  have pend: "pending (o_writers s ! i) = Some ?r" using assms(3) by simp
  show ?thesis
    using readable_append_done [OF assms(1,2) pend, of "Attempted v" "o_recorded s"]
    by (cases rule: insert_attempt_cases [where i = i and v = v and out = out and s = s])
      (simp_all add: readable_append_fails [OF assms(1,2) pend])
qed

lemma readable_outcome:
  assumes "readable s" "i < length (o_writers s)" "o_writers s ! i = Answered v err"
  shows "readable (insert_record i v err out closed s)"
proof (cases rule: insert_record_cases [where v = v and err = err and i = i and out = out and closed = closed and s = s])
  case (whole r rec st)
  with assms(3) readable_append_done [OF assms(1,2), of r] show ?thesis by simp
next
  case (part r e k)
  with assms(3) readable_append_fails [OF assms(1,2), of r] show ?thesis by simp
next
  case (none st)
  then show ?thesis by (intro readable_same [OF assms(1)]) (simp_all add: facts_set_writer)
qed

lemma Open_holds:
  assumes "holds_records l P"
  shows "holds_records (snd (Open faults (Content l None))) P"
    and "fst (Open faults (Content l None)) = Inr recs \<Longrightarrow> P recs \<and> valid_records recs \<and> snd (Open faults (Content l None)) = encode_all recs"
proof -
  obtain rs t where l: "valid_records rs" "torn t" "l = encode_all rs @ t" "P rs"
    using assms by (auto simp: holds_records_def)
  have self: "holds_records (encode_all rs) P" "holds_records (encode_all rs @ t) P"
    unfolding holds_records_def using l(1,2,4) torn_Nil append_Nil2 by blast+
  have "Replay l None = Inr (rs, int (length (encode_all rs)))" unfolding l(3) by (rule Replay_torn [OF l(1,2)])
  then show "holds_records (snd (Open faults (Content l None))) P"
    and "fst (Open faults (Content l None)) = Inr recs \<Longrightarrow> P recs \<and> valid_records recs \<and> snd (Open faults (Content l None)) = encode_all recs"
    using l self by (auto simp: Open_def Let_def split: option.splits)
qed

lemma Open_corrupt:
  assumes "corrupt l"
  shows "\<exists>n e. Open faults (Content l None) = (Inl (ErrCorruptLedger n e), l)"
proof -
  obtain n e where "Replay l None = Inl (ErrCorruptLedger n e)"
    using assms Replay_glued by (fastforce simp: corrupt_def)
  then show ?thesis by (simp add: Open_def)
qed

lemma readable_kill:
  assumes "readable s" "\<And>r. torn_by = Some r \<Longrightarrow> r \<in> Option.these (pending ` set (o_writers s))"
  shows "readable (s\<lparr>o_ledger := o_ledger s @ (case torn_by of None \<Rightarrow> [] | Some r \<Rightarrow> take k (encodeRecord r)),
         o_writers := map (\<lambda>_. Stopped None) (o_writers s)\<rparr>)" (is "readable ?s")
proof -
  have stop: "facts ?s rs" if "facts s rs" for rs
    using that by (simp add: facts_def list_all_iff)
  show ?thesis
  proof (cases torn_by)
    case None
    with stop show ?thesis by (intro readable_same [OF assms(1)]) auto
  next
    case (Some r)
    with assms(2) obtain w where w: "w \<in> set (o_writers s)" "pending w = Some r"
      by (fastforce simp: Option.these_def)
    show ?thesis
      using Some stop facts_pending [OF _ w] by (intro readable_part [OF assms(1), of _ k r]) auto
  qed
qed

lemma readable_reopen:
  assumes "readable s" "Open faults (Content (o_ledger s) None) = (res, l)"
  shows "readable (s\<lparr>o_ledger := l\<rparr>)"
    and "res = Inr recs \<Longrightarrow> readable (s\<lparr>o_ledger := l, o_next := n, o_writers := replicate k Disconnected, o_stats := st\<rparr>)"
proof -
  have idle: "facts (s\<lparr>o_ledger := l, o_next := n, o_writers := replicate k Disconnected, o_stats := st\<rparr>) rs"
    if "facts s rs" for rs
    using that by (simp add: facts_def list_all_iff)
  from assms(1) consider "corrupt (o_ledger s)" | "holds_records (o_ledger s) (facts s)"
    by (auto simp: readable_def)
  then show "readable (s\<lparr>o_ledger := l\<rparr>)"
    and "res = Inr recs \<Longrightarrow> readable (s\<lparr>o_ledger := l, o_next := n, o_writers := replicate k Disconnected, o_stats := st\<rparr>)"
  proof (atomize (full), cases)
    case 1
    with Open_corrupt [OF this, of faults] assms(2) show "readable (s\<lparr>o_ledger := l\<rparr>) \<and> (res = Inr recs \<longrightarrow>
        readable (s\<lparr>o_ledger := l, o_next := n, o_writers := replicate k Disconnected, o_stats := st\<rparr>))"
      by (auto simp: readable_def)
  next
    case 2
    with Open_holds(1) [OF this, of faults] assms(2) have "holds_records l (facts s)" by simp
    then show "readable (s\<lparr>o_ledger := l\<rparr>) \<and> (res = Inr recs \<longrightarrow>
        readable (s\<lparr>o_ledger := l, o_next := n, o_writers := replicate k Disconnected, o_stats := st\<rparr>))"
      using holds_records_mono [OF _ idle] by (auto simp: readable_def)
  qed
qed

lemma readable_step:
  assumes "fleet_step s s'" "readable s"
  shows "readable s'"
  using assms
proof (cases rule: fleet_step.cases)
  case (connect i)
  show ?thesis unfolding connect(1) by (rule readable_same [OF assms(2)]) (simp_all add: facts_set_writer)
next
  case (connect_fails i)
  show ?thesis unfolding connect_fails(1) by (rule readable_same [OF assms(2)]) simp_all
next
  case (ctx_done i)
  show ?thesis unfolding ctx_done(1) by (rule readable_same [OF assms(2)]) (simp_all add: facts_set_writer)
next
  case (take i)
  show ?thesis unfolding take(1)
    by (rule readable_same [OF assms(2)]) (simp_all add: insert_take_def Let_def facts_set_writer)
next
  case (exec i v)
  have "facts (insert_exec i v s) rs" if "facts s rs" for rs
  proof -
    have v: "in_int64 v" "v \<in> values_of StateAttempted rs"
      using facts_writer [OF that exec(2)] exec(3) by auto
    with that have "facts (s\<lparr>o_issued := insert v (o_issued s)\<rparr>) rs" by (simp add: facts_def)
    with v show ?thesis unfolding insert_exec_def by (intro facts_set_writer) simp_all
  qed
  with exec(1) show ?thesis by (intro readable_same [OF assms(2)]) (auto simp: insert_exec_def)
next
  case (answer i v err)
  have "facts (insert_answer i v err s) rs" if "facts s rs" for rs
  proof -
    let ?ack = "if err = None then insert v (o_acked s) else o_acked s"
    have v: "in_int64 v" "v \<in> values_of StateAttempted rs"
      using facts_writer [OF that answer(2)] answer(3) by auto
    have "list_all (writer_ok (values_of StateAttempted rs) ?ack) (o_writers s)"
      using that unfolding facts_def list_all_iff by (auto intro: writer_ok_mono)
    with that have "facts (s\<lparr>o_acked := ?ack\<rparr>) rs" by (auto simp: facts_def)
    with v show ?thesis unfolding insert_answer_def by (intro facts_set_writer) simp_all
  qed
  with answer(1) show ?thesis by (intro readable_same [OF assms(2)]) (auto simp: insert_answer_def)
next
  case (attempt i v out)
  show ?thesis unfolding attempt(1) by (rule readable_attempt [OF assms(2) attempt(2,3)])
next
  case (outcome i v err out closed)
  show ?thesis unfolding outcome(1) by (rule readable_outcome [OF assms(2) outcome(2,3)])
next
  case (kill torn_by k)
  show ?thesis unfolding kill(1) by (rule readable_kill [OF assms(2) kill(2)])
next
  case (reopen faults recs l n)
  show ?thesis unfolding reopen(1) by (rule readable_reopen(2) [OF assms(2) reopen(3) refl])
next
  case (reopen_fails faults e l)
  show ?thesis unfolding reopen_fails(1) by (rule readable_reopen(1) [OF assms(2) reopen_fails(3)])
qed

lemma fleet_readable: "fleet_reaches s \<Longrightarrow> readable s"
proof (induction rule: fleet_reaches.induct)
  case start
  have "holds_records [] (facts fleet_init)"
    unfolding holds_records_def
    by (intro exI [of _ "[]"]) (simp add: facts_def fleet_init_def valid_records_def)
  then show ?case by (simp add: readable_def fleet_init_def)
qed (rule readable_step)

text \<open>The two ways a ledger of the fleet can read.\<close>

lemma fleet_replay:
  assumes "fleet_reaches s"
  obtains (corrupt) n e where "Replay (o_ledger s) None = Inl (ErrCorruptLedger n e)"
  | (intact) recs n where "Replay (o_ledger s) None = Inr (recs, n)" "facts s recs"
proof -
  from fleet_readable [OF assms] consider "corrupt (o_ledger s)" | "holds_records (o_ledger s) (facts s)"
    by (auto simp: readable_def)
  then show ?thesis
  proof cases
    case 1
    then show ?thesis using Replay_glued corrupt by (fastforce simp: corrupt_def)
  next
    case 2
    then show ?thesis using Replay_torn intact by (fastforce simp: holds_records_def)
  qed
qed

text \<open>
  As long as no write to the ledger failed, only a kill leaves a torn record, and then nobody is
  writing.
\<close>

definition tidy :: "fleet \<Rightarrow> bool" where
  "tidy s \<longleftrightarrow>
     list_all (writer_ok UNIV UNIV) (o_writers s) \<and>
     (o_failed s \<or>
      (\<exists>rs t. valid_records rs \<and> torn t \<and> o_ledger s = encode_all rs @ t \<and> (t = [] \<or> list_all stopped (o_writers s))))"

lemma tidy_same:
  assumes "tidy s" "o_ledger s' = o_ledger s" "o_failed s' = o_failed s"
    and "o_writers s' = (o_writers s)[i := w]" "i < length (o_writers s)" "\<not> stopped (o_writers s ! i)"
    and "writer_ok UNIV UNIV w"
  shows "tidy s'"
proof -
  have "\<not> list_all stopped (o_writers s)" using assms(5,6) by (auto simp: list_all_length)
  with assms show ?thesis unfolding tidy_def by (auto intro: list_all_update)
qed

lemma tidy_whole:
  assumes "tidy s" "i < length (o_writers s)" "o_ledger s' = o_ledger s @ encodeRecord r" "o_failed s' = o_failed s"
    and "o_writers s' = (o_writers s)[i := w]" "pending (o_writers s ! i) = Some r" "writer_ok UNIV UNIV w"
  shows "tidy s'"
proof -
  have "\<not> stopped (o_writers s ! i)" using assms(6) by (auto simp: stopped_def)
  then have active: "\<not> list_all stopped (o_writers s)" using assms(2) by (auto simp: list_all_length)
  have "writer_ok UNIV UNIV (o_writers s ! i)" using assms(1,2) by (auto simp: tidy_def list_all_length)
  then have v: "in_int64 (lr_Value r)" using assms(6) by (rule pending_in_range)
  have "\<exists>rs t. valid_records rs \<and> torn t \<and> o_ledger s' = encode_all rs @ t \<and> (t = [] \<or> list_all stopped (o_writers s'))"
    if "\<not> o_failed s"
  proof -
    from that assms(1) active obtain rs where "valid_records rs" "o_ledger s = encode_all rs"
      by (auto simp: tidy_def)
    with v assms(3) show ?thesis
      by (intro exI [of _ "rs @ [r]"] exI [of _ "[]"]) (simp add: valid_records_def)
  qed
  moreover have "list_all (writer_ok UNIV UNIV) (o_writers s')"
    using assms(1,5,7) by (simp add: tidy_def list_all_update)
  ultimately show ?thesis using assms(4) by (auto simp: tidy_def)
qed

lemma tidy_failed: "tidy s \<Longrightarrow> tidy (set_writer i (Stopped e) (s\<lparr>o_ledger := l, o_failed := True\<rparr>))"
  by (simp add: tidy_def list_all_update)

lemma tidy_kill:
  assumes "tidy s" "\<And>r. torn_by = Some r \<Longrightarrow> r \<in> Option.these (pending ` set (o_writers s))"
  shows "tidy (s\<lparr>o_ledger := o_ledger s @ (case torn_by of None \<Rightarrow> [] | Some r \<Rightarrow> take k (encodeRecord r)),
         o_writers := map (\<lambda>_. Stopped None) (o_writers s)\<rparr>)" (is "tidy ?s")
proof (cases "o_failed s \<or> torn_by = None")
  case True
  with assms(1) show ?thesis by (auto simp: tidy_def list_all_iff stopped_def)
next
  case False
  then obtain r where r: "torn_by = Some r" by auto
  with assms(2) obtain w where w: "w \<in> set (o_writers s)" "pending w = Some r"
    by (fastforce simp: Option.these_def)
  then have "writer_ok UNIV UNIV w" "\<not> stopped w" using assms(1) by (auto simp: tidy_def list_all_iff stopped_def)
  with w(2) have v: "in_int64 (lr_Value r)" by (simp add: pending_in_range)
  from \<open>\<not> stopped w\<close> w False assms(1) obtain rs where rs: "valid_records rs" "o_ledger s = encode_all rs"
    by (auto simp: tidy_def list_all_iff)
  have "\<exists>rs t. valid_records rs \<and> torn t \<and> o_ledger s @ take k (encodeRecord r) = encode_all rs @ t"
  proof (cases "k \<le> length (record_line r)")
    case True
    with rs show ?thesis
      by (intro exI [of _ rs] exI [of _ "take k (record_line r)"])
        (simp add: encodeRecord_line torn_take torn_record_line)
  next
    case False
    with rs v show ?thesis
      by (intro exI [of _ "rs @ [r]"] exI [of _ "[]"]) (simp add: encodeRecord_line valid_records_def)
  qed
  with r show ?thesis by (auto simp: tidy_def list_all_iff stopped_def)
qed

lemma tidy_reopen:
  assumes "tidy s" "list_all stopped (o_writers s)" "Open faults (Content (o_ledger s) None) = (res, l)"
  shows "tidy (s\<lparr>o_ledger := l\<rparr>)"
    and "res = Inr recs \<Longrightarrow> tidy (s\<lparr>o_ledger := l, o_next := n, o_writers := replicate k Disconnected, o_stats := st\<rparr>)"
proof -
  have holds: "holds_records (o_ledger s) (\<lambda>_. True)" if "\<not> o_failed s"
    using assms(1) that by (auto simp: tidy_def holds_records_def)
  have "\<not> o_failed s \<Longrightarrow> holds_records l (\<lambda>_. True)"
    using Open_holds(1) [OF holds, of faults] assms(3) by simp
  with assms(1,2) show "tidy (s\<lparr>o_ledger := l\<rparr>)" by (auto simp: tidy_def holds_records_def)
  assume "res = Inr recs"
  then have "\<not> o_failed s \<Longrightarrow> valid_records recs \<and> l = encode_all recs"
    using Open_holds(2) [OF holds, of faults recs] assms(3) by simp
  then show "tidy (s\<lparr>o_ledger := l, o_next := n, o_writers := replicate k Disconnected, o_stats := st\<rparr>)"
    using torn_Nil append_Nil2 [of l] by (auto simp: tidy_def list_all_iff)
qed

lemma tidy_step:
  assumes "fleet_step s s'" "tidy s"
  shows "tidy s'"
  using assms(1)
proof (cases rule: fleet_step.cases)
  case (connect i)
  show ?thesis unfolding connect(1) by (rule tidy_same [OF assms(2), of _ i Connected]) (simp_all add: connect stopped_def)
next
  case (connect_fails i)
  with assms(2) show ?thesis by (simp add: tidy_def)
next
  case (ctx_done i)
  show ?thesis unfolding ctx_done(1)
    by (rule tidy_same [OF assms(2), of _ i "Stopped None"]) (use ctx_done in \<open>auto simp: stopped_def\<close>)
next
  case (take i)
  show ?thesis unfolding take(1)
    by (rule tidy_same [OF assms(2), of _ i]) (use take in \<open>auto simp: stopped_def insert_take_def Let_def\<close>)
next
  case (attempt i v out)
  show ?thesis unfolding attempt(1)
  proof (cases rule: insert_attempt_cases [where i = i and v = v and out = out and s = s])
    case (whole st)
    have "in_int64 v" using assms(2) attempt(2,3) by (force simp: tidy_def list_all_length)
    with whole attempt(3) show "tidy (insert_attempt i v out s)"
      by (intro tidy_whole [OF assms(2) attempt(2), of _ "\<lparr>lr_State = StateAttempted, lr_Value = v\<rparr>" "Attempted v"]) simp_all
  qed (simp add: tidy_failed assms(2))
next
  case (exec i v)
  have "in_int64 v" using assms(2) exec(2,3) by (force simp: tidy_def list_all_length)
  then show ?thesis unfolding exec(1)
    by (intro tidy_same [OF assms(2), of _ i "Issued v"]) (simp_all add: exec stopped_def insert_exec_def)
next
  case (answer i v err)
  have "in_int64 v" using assms(2) answer(2,3) by (force simp: tidy_def list_all_length)
  then show ?thesis unfolding answer(1)
    by (intro tidy_same [OF assms(2), of _ i "Answered v err"]) (simp_all add: answer stopped_def insert_answer_def)
next
  case (outcome i v err out closed)
  show ?thesis unfolding outcome(1)
  proof (cases rule: insert_record_cases [where v = v and err = err and i = i and out = out and closed = closed and s = s])
    case (whole r rec st)
    with outcome(3) show "tidy (insert_record i v err out closed s)"
      by (intro tidy_whole [OF assms(2) outcome(2), of _ r "insert_done closed err"]) simp_all
  next
    case (none st)
    with outcome show "tidy (insert_record i v err out closed s)"
      by (intro tidy_same [OF assms(2), of _ i "insert_done closed err"]) (simp_all add: stopped_def)
  qed (simp add: tidy_failed assms(2))
next
  case (kill torn_by k)
  show ?thesis unfolding kill(1) by (rule tidy_kill [OF assms(2) kill(2)])
next
  case (reopen faults recs l n)
  show ?thesis unfolding reopen(1) by (rule tidy_reopen(2) [OF assms(2) reopen(2,3) refl])
next
  case (reopen_fails faults e l)
  show ?thesis unfolding reopen_fails(1) by (rule tidy_reopen(1) [OF assms(2) reopen_fails(2,3)])
qed

lemma fleet_tidy: "fleet_reaches s \<Longrightarrow> tidy s"
proof (induction rule: fleet_reaches.induct)
  case start
  show ?case
    unfolding tidy_def
    by (intro conjI disjI2 exI [of _ "[]"]) (simp_all add: fleet_init_def valid_records_def)
qed (rule tidy_step)

section \<open>The verdict\<close>


text \<open>
  C23. Nor does the check cry wolf: when no write to the ledger failed, a set that holds every
  acknowledged value and nothing that was never sent passes, whatever was killed and restarted, and the
  ledger has no outcome without its attempt.
\<close>

theorem sound_set_passes:
  assumes "fleet_reaches s" "\<not> o_failed s" "o_issued s \<noteq> {}"
    and "ReadSet conn table (\<not> allowReplica) = Inr R" "o_acked s \<subseteq> set R" "set R \<subseteq> o_issued s"
  shows "checkLedger (Content (o_ledger s) None) (Inr conn) table allowReplica = ExitPass \<and>
    (\<exists>recs n. Replay (o_ledger s) None = Inr (recs, n) \<and> sum_Orphans (Summarize recs) = [])"
proof -
  obtain rs t where "valid_records rs" "torn t" "o_ledger s = encode_all rs @ t"
    using fleet_tidy [OF assms(1)] assms(2) by (auto simp: tidy_def)
  then have readable: "\<exists>recs n. Replay (o_ledger s) None = Inr (recs, n)" using Replay_torn by auto
  from assms(1) obtain recs n where intact: "Replay (o_ledger s) None = Inr (recs, n)" "facts s recs"
    by (cases rule: fleet_replay) (use readable in auto)
  then have "values_of StateCommitted recs \<subseteq> set R" "set R \<subseteq> values_of StateAttempted recs"
    "values_of StateAttempted recs \<noteq> {}" "attempts_first recs"
    using assms(3,5,6) by (auto simp: facts_def)
  moreover from this(3) have "recs \<noteq> []" by auto
  ultimately show ?thesis
    using intact(1) assms(4) by (auto simp: checkLedger_def ExitCode_Check)
qed

text \<open>
  A record reads back to what was written, for every state and every \<open>int64\<close>, the checksum
  included.
\<close>

theorem record_round_trip:
  assumes "in_int64 v"
  shows "decodeRecord (butlast (encodeRecord \<lparr>lr_State = st, lr_Value = v\<rparr>)) = Inr \<lparr>lr_State = st, lr_Value = v\<rparr>"
  using assms by (simp add: encodeRecord_line decode_line)

text \<open>
  A write that fails part of the way does not stop the run: the writer that met the error returns,
  the others go on, and the next record they append makes the whole ledger unreadable for every later
  check.
\<close>

theorem failed_write_spoils_the_ledger:
  assumes "fleet_reaches s" "o_ledger s = encode_all recs" "valid_records recs"
    and "i < length (o_writers s)" "j < length (o_writers s)" "i \<noteq> j"
    and "o_writers s ! i = Took v" "o_writers s ! j = Took w" "0 < k"
    and s': "s' = insert_attempt j w Written (insert_attempt i v (WriteFailed k e) s)"
  shows "fleet_reaches s' \<and> o_writers s' ! j = Attempted w \<and>
    (\<exists>n err. Replay (o_ledger s') None = Inl (ErrCorruptLedger n err))"
proof -
  let ?s = "insert_attempt i v (WriteFailed k e) s"
  let ?r = "\<lparr>lr_State = StateAttempted, lr_Value = v\<rparr>"
  have "fleet_reaches ?s"
    using fleet_reaches.step [OF assms(1)] fleet_step.attempt [OF assms(4,7)] by blast
  moreover have "j < length (o_writers ?s)" "o_writers ?s ! j = Took w"
    using assms(5,6,8) by (simp_all add: insert_attempt_def Ledger_Attempt_def)
  ultimately have "fleet_reaches s'" unfolding s' using fleet_step.attempt by (blast intro: fleet_reaches.step)
  moreover have "o_writers s' ! j = Attempted w"
    using assms(5) by (simp add: s' insert_attempt_def Ledger_Attempt_def)
  moreover have "o_ledger s' = encode_all recs @ take k (record_line ?r)
      @ encodeRecord \<lparr>lr_State = StateAttempted, lr_Value = w\<rparr> @ []"
    using assms(2) by (simp add: s' insert_attempt_def Ledger_Attempt_def encodeRecord_line)
  moreover have "take k (record_line ?r) \<noteq> []" using assms(9) by (simp add: record_line_def)
  moreover have "torn (take k (record_line ?r))" by (simp add: torn_take torn_record_line)
  ultimately show ?thesis using Replay_glued [OF assms(3)] by metis
qed

section \<open>Concrete runs\<close>

text \<open>One writer that commits the value 1, and two writers that both took a value.\<close>

definition opened :: "nat \<Rightarrow> fleet" where
  "opened n = fleet_init\<lparr>o_next := 1, o_writers := replicate n Disconnected\<rparr>"

lemma opened_reaches: "fleet_reaches (opened n)"
proof -
  have "Replay [] None = Inr ([], 0)" using Replay_torn [of "[]" "[]"] by (simp add: valid_records_def)
  then have "Open \<lparr>of_truncate = None, of_seek = None, of_sync_dir = None\<rparr> (Content (o_ledger fleet_init) None) = (Inr [], [])"
    by (simp add: Open_def fleet_init_def)
  from fleet_step.reopen [OF _ this, of n] have "fleet_step fleet_init (opened n)"
    by (simp add: opened_def fleet_init_def NextValue_def wrap64_def)
  then show ?thesis by (rule fleet_reaches.step [OF fleet_reaches.start])
qed

definition taken :: "nat \<Rightarrow> fleet \<Rightarrow> fleet" where
  "taken i s = insert_take i (set_writer i Connected s)"

lemma taken_reaches:
  assumes "fleet_reaches s" "i < length (o_writers s)" "o_writers s ! i = Disconnected"
  shows "fleet_reaches (taken i s)"
proof -
  have "fleet_reaches (set_writer i Connected s)"
    using assms fleet_step.connect by (blast intro: fleet_reaches.step)
  moreover have "fleet_step (set_writer i Connected s) (taken i s)"
    unfolding taken_def using assms(2) by (intro fleet_step.take) simp_all
  ultimately show ?thesis by (rule fleet_reaches.step)
qed

definition one_issued :: fleet where
  "one_issued = insert_exec 0 1 (insert_attempt 0 1 Written (taken 0 (opened 1)))"

definition one_commit :: fleet where
  "one_commit = insert_record 0 1 None Written False (insert_answer 0 1 None one_issued)"

lemmas run_simps = one_issued_def one_commit_def taken_def opened_def fleet_init_def insert_take_def
  insert_attempt_def Ledger_Attempt_def Ledger_Commit_def insert_exec_def insert_answer_def insert_record_def
  set_writer_def Classify_def wrap64_def

lemma one_commit_reaches: "fleet_reaches one_commit"
proof -
  have "fleet_reaches (taken 0 (opened 1))" by (rule taken_reaches [OF opened_reaches]) (simp_all add: opened_def)
  then have "fleet_reaches (insert_attempt 0 1 Written (taken 0 (opened 1)))"
    by (rule fleet_reaches.step, intro fleet_step.attempt) (simp_all add: run_simps)
  then have "fleet_reaches one_issued"
    unfolding one_issued_def by (rule fleet_reaches.step, intro fleet_step.exec) (simp_all add: run_simps)
  then have "fleet_reaches (insert_answer 0 1 None one_issued)"
    by (rule fleet_reaches.step, intro fleet_step.answer) (simp_all add: run_simps)
  then show ?thesis
    unfolding one_commit_def by (rule fleet_reaches.step, intro fleet_step.outcome) (simp_all add: run_simps)
qed

definition primary_with :: "int list \<Rightarrow> set_conn" where
  "primary_with R = \<lparr>sc_in_recovery = Inr False, sc_rows = (\<lambda>_. Inr (map Inr R, None))\<rparr>"

lemma ReadSet_primary: "ReadSet (primary_with []) DefaultTable True = Inr []"
  "ReadSet (primary_with [1]) DefaultTable True = Inr [1]"
  by (simp_all add: ReadSet_def primary_with_def DefaultTable_def quoteIdentifier_def in_range_def)


theorem sound_set_passes_witness:
  "checkLedger (Content (o_ledger one_commit) None) (Inr (primary_with [1])) DefaultTable False = ExitPass"
  using sound_set_passes [OF one_commit_reaches, of "primary_with [1]" DefaultTable False "[1]"]
  by (simp add: ReadSet_primary run_simps)

theorem record_round_trip_witness:
  "decodeRecord (butlast (encodeRecord \<lparr>lr_State = StateCommitted, lr_Value = - 7\<rparr>)) =
     Inr \<lparr>lr_State = StateCommitted, lr_Value = - 7\<rparr>"
  by (rule record_round_trip) (simp add: in_int64_def)

definition two_taken :: fleet where
  "two_taken = taken 1 (taken 0 (opened 2))"

theorem failed_write_spoils_the_ledger_witness:
  "\<exists>n err. Replay (o_ledger (insert_attempt 1 2 Written (insert_attempt 0 1 (WriteFailed 5 ''no space left on device'') two_taken))) None
     = Inl (ErrCorruptLedger n err)"
proof -
  have "fleet_reaches (taken 0 (opened 2))"
    by (rule taken_reaches [OF opened_reaches]) (simp_all add: opened_def)
  then have "fleet_reaches two_taken"
    unfolding two_taken_def by (rule taken_reaches) (simp_all add: run_simps)
  then show ?thesis
    using failed_write_spoils_the_ledger [of two_taken "[]" 0 1 1 2 5 _ "''no space left on device''"]
    by (simp add: two_taken_def run_simps valid_records_def)
qed

end
