(* ===== verification/Metering_Totals.thy ===== *)
theory Metering_Totals
  imports Go_Prelude
begin

text \<open>
  \<open>internal/metering/pgstat.go\<close> and \<open>accumulator.go\<close>: cumulative counters of PostgreSQL turned into
  totals that only grow. A cursor remembers the last reading of a source; a source that restarts its
  count is folded in and not subtracted. Shown: a total is the sum of the deltas handed to the
  exporter, none of them negative, whatever the order of readings, freed pool objects and forgotten
  keys; and a source that counts on without a reset contributes exactly what it counted.
\<close>

section \<open>Readings and cursors\<close>

datatype Stat =
    StatXactCommit | StatXactRollback | StatBlksRead | StatBlksHit
  | StatTupReturned | StatTupFetched | StatTupModified | StatDeadlocks

definition Stats :: "Stat list" where
  "Stats = [StatXactCommit, StatXactRollback, StatBlksRead, StatBlksHit,
            StatTupReturned, StatTupFetched, StatTupModified, StatDeadlocks]"

lemma Stats_all: "set Stats = UNIV" "distinct Stats" "length Stats = 8"
  using Stat.exhaust by (auto simp: Stats_def)

datatype Role = RolePrimary | RoleReplica

definition Roles :: "Role list" where
  "Roles = [RolePrimary, RoleReplica]"

lemma Roles_all: "set Roles = UNIV" "distinct Roles" "length Roles = 2"
  using Role.exhaust by (auto simp: Roles_def)

record Key =
  key_Namespace :: string
  key_Pool :: string
  key_Tenant :: string

record DatabaseStats =
  ds_DatabaseOID :: int
  ds_NumBackends :: int
  ds_Counters :: "Stat \<rightharpoonup> int"
  ds_StatsReset :: "time option"
  ds_SizeBytes :: int
  ds_Relations :: int

record cursorKey =
  ck_Key :: Key
  ck_Instance :: string
  ck_Role :: Role
  ck_OID :: int

record cursor =
  cu_counters :: "Stat \<rightharpoonup> int"
  cu_statsReset :: "time option"
  cu_seen :: bool

definition new_cursor :: cursor where
  "new_cursor = \<lparr>cu_counters = Map.empty, cu_statsReset = None, cu_seen = False\<rparr>"

definition sameInstant :: "time option \<Rightarrow> time option \<Rightarrow> bool" where
  "sameInstant a b =
     (case (a, b) of
        (None, None) \<Rightarrow> True
      | (Some x, Some y) \<Rightarrow> x = y
      | _ \<Rightarrow> False)"

text \<open>A missing entry of a map reads as zero.\<close>

definition zero_or :: "int option \<Rightarrow> int" where
  "zero_or v = (case v of None \<Rightarrow> 0 | Some x \<Rightarrow> x)"

definition baseline :: "DatabaseStats \<Rightarrow> cursor" where
  "baseline next = \<lparr>cu_counters = ds_Counters next, cu_statsReset = ds_StatsReset next, cu_seen = True\<rparr>"

definition cursor_reset :: "cursor \<Rightarrow> DatabaseStats \<Rightarrow> bool" where
  "cursor_reset c next \<longleftrightarrow> \<not> cu_seen c \<or> \<not> sameInstant (cu_statsReset c) (ds_StatsReset next)"

text \<open>\<open>delta\<close>: the change since the last reading and the cursor that remembers this one.\<close>

definition delta :: "cursor \<Rightarrow> DatabaseStats \<Rightarrow> (Stat \<rightharpoonup> int) \<times> cursor" where
  "delta c next =
     (let reset = cursor_reset c next in
      ((\<lambda>stat.
          case ds_Counters next stat of
            None \<Rightarrow> None
          | Some value \<Rightarrow>
              let previous = zero_or (cu_counters c stat) in
              if reset \<or> value < previous then Some value else Some (wrap64 (value - previous))),
       baseline next))"

section \<open>The accumulator\<close>

record TotalKey =
  tk_Key :: Key
  tk_Database :: string
  tk_Role :: Role

record observerKey =
  ok_Key :: Key
  ok_Instance :: string
  ok_Role :: Role

record Accumulator =
  acc_totals :: "TotalKey \<rightharpoonup> (Stat \<rightharpoonup> int)"
  acc_cursors :: "cursorKey \<rightharpoonup> cursor"
  acc_observing :: "observerKey \<Rightarrow> bool"

definition NewAccumulator :: Accumulator where
  "NewAccumulator = \<lparr>acc_totals = Map.empty, acc_cursors = Map.empty, acc_observing = (\<lambda>_. False)\<rparr>"

text \<open>The loop of \<open>addLocked\<close> over \<open>Stats\<close>, on the totals of the key and the applied deltas.\<close>

fun add_loop :: "(Stat \<rightharpoonup> int) \<Rightarrow> Stat list \<Rightarrow> (Stat \<rightharpoonup> int) \<times> (Stat \<rightharpoonup> int)
    \<Rightarrow> (Stat \<rightharpoonup> int) \<times> (Stat \<rightharpoonup> int)" where
  "add_loop deltas [] acc = acc"
| "add_loop deltas (stat # stats) (totals, applied) =
     (case deltas stat of
        None \<Rightarrow> add_loop deltas stats (totals, applied)
      | Some d \<Rightarrow>
          if d \<le> 0 then add_loop deltas stats (totals, applied)
          else add_loop deltas stats
                 (totals(stat \<mapsto> wrap64 (zero_or (totals stat) + d)), applied(stat \<mapsto> d)))"

definition addLocked :: "TotalKey \<Rightarrow> (Stat \<rightharpoonup> int) \<Rightarrow> Accumulator \<Rightarrow> (Stat \<rightharpoonup> int) \<times> Accumulator" where
  "addLocked key deltas a =
     (let totals = (case acc_totals a key of None \<Rightarrow> Map.empty | Some t \<Rightarrow> t);
          (totals', applied) = add_loop deltas Stats (totals, Map.empty) in
      (applied, a\<lparr>acc_totals := (acc_totals a)(key \<mapsto> totals')\<rparr>))"

definition Accumulator_Add :: "TotalKey \<Rightarrow> (Stat \<rightharpoonup> int) \<Rightarrow> Accumulator \<Rightarrow> (Stat \<rightharpoonup> int) \<times> Accumulator" where
  "Accumulator_Add key deltas a = addLocked key deltas a"

definition source_of :: "TotalKey \<Rightarrow> string \<Rightarrow> DatabaseStats \<Rightarrow> cursorKey" where
  "source_of key inst stats =
     \<lparr>ck_Key = tk_Key key, ck_Instance = inst, ck_Role = tk_Role key, ck_OID = ds_DatabaseOID stats\<rparr>"

definition observer_of :: "TotalKey \<Rightarrow> string \<Rightarrow> observerKey" where
  "observer_of key inst = \<lparr>ok_Key = tk_Key key, ok_Instance = inst, ok_Role = tk_Role key\<rparr>"

definition Accumulator_Observe ::
    "TotalKey \<Rightarrow> string \<Rightarrow> DatabaseStats \<Rightarrow> Accumulator \<Rightarrow> (Stat \<rightharpoonup> int) \<times> Accumulator" where
  "Accumulator_Observe key inst stats a =
     (let source = source_of key inst stats;
          observer = observer_of key inst;
          firstEver = \<not> acc_observing a observer;
          a = a\<lparr>acc_observing := (acc_observing a)(observer := True)\<rparr>;
          entry = (case acc_cursors a source of None \<Rightarrow> new_cursor | Some c \<Rightarrow> c) in
      if firstEver then
        addLocked key Map.empty (a\<lparr>acc_cursors := (acc_cursors a)(source \<mapsto> baseline stats)\<rparr>)
      else
        (let (deltas, entry') = delta entry stats in
         addLocked key deltas (a\<lparr>acc_cursors := (acc_cursors a)(source \<mapsto> entry')\<rparr>)))"

definition drop_cursors :: "TotalKey \<Rightarrow> (cursorKey \<rightharpoonup> cursor) \<Rightarrow> (cursorKey \<rightharpoonup> cursor)" where
  "drop_cursors key m = (\<lambda>source. if ck_Key source = tk_Key key \<and> ck_Role source = tk_Role key then None else m source)"

definition PoolObjectFreed :: "TotalKey \<Rightarrow> Accumulator \<Rightarrow> Accumulator" where
  "PoolObjectFreed key a = a\<lparr>acc_cursors := drop_cursors key (acc_cursors a)\<rparr>"

definition Total :: "Accumulator \<Rightarrow> TotalKey \<Rightarrow> Stat \<Rightarrow> int" where
  "Total a key stat = (case acc_totals a key of None \<Rightarrow> 0 | Some t \<Rightarrow> zero_or (t stat))"

definition Accumulator_Forget :: "TotalKey \<Rightarrow> Accumulator \<Rightarrow> Accumulator" where
  "Accumulator_Forget key a =
     a\<lparr>acc_totals := (acc_totals a)(key := None),
       acc_cursors := drop_cursors key (acc_cursors a),
       acc_observing := (\<lambda>observer.
         if ok_Key observer = tk_Key key \<and> ok_Role observer = tk_Role key then False else acc_observing a observer)\<rparr>"

section \<open>Deltas\<close>

lemma add_loop_untouched: "stat \<notin> set stats \<Longrightarrow>
  fst (add_loop deltas stats acc) stat = fst acc stat \<and> snd (add_loop deltas stats acc) stat = snd acc stat"
proof (induction stats arbitrary: acc)
  case (Cons s stats)
  then show ?case by (cases acc) (auto split: option.split)
qed simp

lemma add_loop_at:
  assumes "distinct stats" "stat \<in> set stats"
  shows "fst (add_loop deltas stats (t, ap)) stat =
      (case deltas stat of Some d \<Rightarrow> if d \<le> 0 then t stat else Some (wrap64 (zero_or (t stat) + d)) | None \<Rightarrow> t stat)"
    and "snd (add_loop deltas stats (t, ap)) stat =
      (case deltas stat of Some d \<Rightarrow> if d \<le> 0 then ap stat else Some d | None \<Rightarrow> ap stat)"
  using assms
proof (atomize (full), induction stats arbitrary: t ap)
  case (Cons s stats)
  show ?case
  proof (cases "s = stat")
    case True
    with Cons.prems show ?thesis
      using add_loop_untouched [of stat stats deltas] by (auto split: option.split)
  next
    case False
    with Cons.prems Cons.IH show ?thesis by (auto split: option.split)
  qed
qed simp

text \<open>What one call hands to the exporter, and what it leaves as the total.\<close>

lemma addLocked_applied:
  "fst (addLocked key deltas a) stat = (case deltas stat of Some d \<Rightarrow> if d \<le> 0 then None else Some d | None \<Rightarrow> None)"
  by (simp add: addLocked_def Let_def add_loop_at(2) Stats_all split: prod.split)
    (metis (no_types, lifting) Stats_all(1,2) UNIV_I add_loop_at(2) snd_conv option.case_eq_if)

lemma addLocked_Total:
  "Total (snd (addLocked key deltas a)) key' stat =
     (if key' = key then
        case fst (addLocked key deltas a) stat of
          None \<Rightarrow> Total a key stat
        | Some d \<Rightarrow> wrap64 (Total a key stat + d)
      else Total a key' stat)"
proof -
  obtain t ap where loop: "add_loop deltas Stats (case acc_totals a key of None \<Rightarrow> Map.empty | Some t \<Rightarrow> t, Map.empty) = (t, ap)"
    by fastforce
  have "fst (add_loop deltas Stats (u, Map.empty)) stat =
      (case deltas stat of Some d \<Rightarrow> if d \<le> 0 then u stat else Some (wrap64 (zero_or (u stat) + d)) | None \<Rightarrow> u stat)" for u
    by (rule add_loop_at) (simp_all add: Stats_all)
  from this [of "case acc_totals a key of None \<Rightarrow> Map.empty | Some t \<Rightarrow> t"] loop show ?thesis
    unfolding addLocked_applied
    by (auto simp: addLocked_def Let_def Total_def zero_or_def split: option.splits)
qed

lemma addLocked_cursors [simp]:
  "acc_cursors (snd (addLocked key deltas a)) = acc_cursors a"
  "acc_observing (snd (addLocked key deltas a)) = acc_observing a"
  by (simp_all add: addLocked_def Let_def split: prod.split)

lemma snd_delta: "snd (delta c next) = baseline next"
  by (simp add: delta_def Let_def)

section \<open>Sequences of readings\<close>

datatype meter_op =
    OpObserve TotalKey string DatabaseStats
  | OpAdd TotalKey "Stat \<rightharpoonup> int"
  | OpFreed TotalKey
  | OpForget TotalKey

text \<open>One operation: what it exports, under which key, and the accumulator it leaves.\<close>

fun meter_step :: "meter_op \<Rightarrow> Accumulator \<Rightarrow> (TotalKey \<times> (Stat \<rightharpoonup> int)) option \<times> Accumulator" where
  "meter_step (OpObserve key inst stats) a =
     (case Accumulator_Observe key inst stats a of (applied, a') \<Rightarrow> (Some (key, applied), a'))"
| "meter_step (OpAdd key deltas) a =
     (case Accumulator_Add key deltas a of (applied, a') \<Rightarrow> (Some (key, applied), a'))"
| "meter_step (OpFreed key) a = (None, PoolObjectFreed key a)"
| "meter_step (OpForget key) a = (None, Accumulator_Forget key a)"

fun exported :: "TotalKey \<Rightarrow> Stat \<Rightarrow> (TotalKey \<times> (Stat \<rightharpoonup> int)) option \<Rightarrow> int" where
  "exported key stat None = 0"
| "exported key stat (Some (key', applied)) = (if key' = key then zero_or (applied stat) else 0)"

text \<open>What a sequence exported for a key in all, and the accumulator after it.\<close>

fun meter_run :: "TotalKey \<Rightarrow> Stat \<Rightarrow> meter_op list \<Rightarrow> Accumulator \<Rightarrow> int \<times> Accumulator" where
  "meter_run key stat [] a = (0, a)"
| "meter_run key stat (op # ops) a =
     (case meter_step op a of
        (out, a') \<Rightarrow> (case meter_run key stat ops a' of (given, a'') \<Rightarrow> (exported key stat out + given, a'')))"

lemma Observe_is_add:
  obtains deltas b where "Accumulator_Observe key inst stats a = addLocked key deltas b" "acc_totals b = acc_totals a"
proof -
  obtain deltas entry where "delta (case acc_cursors a (source_of key inst stats) of None \<Rightarrow> new_cursor | Some c \<Rightarrow> c) stats = (deltas, entry)"
    by fastforce
  then show ?thesis
    by (cases "acc_observing a (observer_of key inst)") (auto simp: Accumulator_Observe_def Let_def intro: that)
qed

lemma Total_cong: "acc_totals b = acc_totals a \<Longrightarrow> Total b = Total a"
  by (simp add: Total_def fun_eq_iff)

lemma exported_add: "exported key stat (Some (key', fst (addLocked key' deltas a))) =
    (if key' = key then case deltas stat of Some d \<Rightarrow> max 0 d | None \<Rightarrow> 0 else 0)"
  by (simp add: addLocked_applied zero_or_def split: option.split)

lemma exported_nonneg: "0 \<le> exported key stat (Some (key', fst (addLocked key' deltas a)))"
  unfolding exported_add by (simp split: option.split)

lemma addLocked_step:
  assumes "0 \<le> Total a key stat"
    and "Total a key stat + exported key stat (Some (key', fst (addLocked key' deltas a))) < 2 ^ 63"
  shows "Total (snd (addLocked key' deltas a)) key stat
      = Total a key stat + exported key stat (Some (key', fst (addLocked key' deltas a)))"
    and "0 \<le> exported key stat (Some (key', fst (addLocked key' deltas a)))"
proof -
  show "0 \<le> exported key stat (Some (key', fst (addLocked key' deltas a)))" by (rule exported_nonneg)
  show "Total (snd (addLocked key' deltas a)) key stat
      = Total a key stat + exported key stat (Some (key', fst (addLocked key' deltas a)))"
    using assms unfolding addLocked_Total exported_add
    by (auto simp: addLocked_applied in_int64_def intro!: wrap64_id split: option.splits if_splits)
qed

lemma meter_step_total:
  assumes "meter_step op a = (out, a')" "op \<noteq> OpForget key"
    and "0 \<le> Total a key stat" "Total a key stat + exported key stat out < 2 ^ 63"
  shows "Total a' key stat = Total a key stat + exported key stat out \<and> 0 \<le> exported key stat out"
proof (cases op)
  case (OpObserve key' inst stats)
  obtain deltas b where b: "Accumulator_Observe key' inst stats a = addLocked key' deltas b" "acc_totals b = acc_totals a"
    by (rule Observe_is_add)
  obtain applied where out: "out = Some (key', applied)" and step: "addLocked key' deltas b = (applied, a')"
    using assms(1) OpObserve b(1) by (auto split: prod.splits)
  from addLocked_step [of b key stat key' deltas] assms(3,4) show ?thesis
    by (simp add: Total_cong [OF b(2)] step out)
next
  case (OpAdd key' deltas)
  obtain applied where out: "out = Some (key', applied)" and step: "addLocked key' deltas a = (applied, a')"
    using assms(1) OpAdd by (auto simp: Accumulator_Add_def split: prod.splits)
  from addLocked_step [of a key stat key' deltas] assms(3,4) show ?thesis by (simp add: step out)
next
  case (OpFreed key')
  with assms(1) show ?thesis by (auto simp: PoolObjectFreed_def Total_def)
next
  case (OpForget key')
  with assms(1,2) show ?thesis by (auto simp: Accumulator_Forget_def Total_def)
qed

lemma meter_run_exported_nonneg: "0 \<le> fst (meter_run key stat ops a)"
proof (induction ops arbitrary: a)
  case (Cons op ops)
  obtain out a' where step: "meter_step op a = (out, a')" by fastforce
  have "0 \<le> exported key stat out"
  proof (cases op)
    case (OpObserve key' inst stats)
    obtain deltas b where "Accumulator_Observe key' inst stats a = addLocked key' deltas b"
      by (rule Observe_is_add)
    with OpObserve step have "out = Some (key', fst (addLocked key' deltas b))" by (auto split: prod.splits)
    then show ?thesis by (simp only: exported_nonneg)
  next
    case (OpAdd key' deltas)
    with step have "out = Some (key', fst (addLocked key' deltas a))"
      by (auto simp: Accumulator_Add_def split: prod.splits)
    then show ?thesis by (simp only: exported_nonneg)
  qed (use step in auto)
  with Cons [of a'] step show ?case by (auto split: prod.split)
qed simp

text \<open>
  C24. The retained total of a key is what it was plus everything handed to the exporter since, so
  neither ever goes down, whatever readings arrive in whatever order, restarted counters, recreated
  databases and freed pool objects included. Only forgetting the key itself is excluded, and a total
  past the range of \<open>int64\<close>.
\<close>

theorem totals_are_what_was_exported:
  assumes "OpForget key \<notin> set ops" "0 \<le> Total a key stat"
    and "meter_run key stat ops a = (given, a')" "Total a key stat + given < 2 ^ 63"
  shows "Total a' key stat = Total a key stat + given \<and> 0 \<le> given"
  using assms
proof (induction ops arbitrary: a given)
  case (Cons op ops)
  obtain out b where step: "meter_step op a = (out, b)" by fastforce
  obtain rest where run: "meter_run key stat ops b = (rest, a')" "given = exported key stat out + rest"
    using Cons.prems(3) step by (auto split: prod.splits)
  have rest: "0 \<le> rest" using meter_run_exported_nonneg [of key stat ops b] run(1) by simp
  have "Total b key stat = Total a key stat + exported key stat out \<and> 0 \<le> exported key stat out"
    using Cons.prems rest run(2) by (intro meter_step_total [OF step]) auto
  with Cons.IH [OF _ _ run(1)] Cons.prems run(2) show ?case by simp
qed simp

text \<open>
  A source that counts on from a reading it already gave, without a reset, contributes to the total
  exactly what it counted between the first and the last reading, however many readings there were.
\<close>

theorem steady_source_is_counted_once:
  assumes "acc_observing a (observer_of key inst)"
    and "acc_cursors a (source_of key inst r0) = Some (baseline r0)"
    and "list_all (\<lambda>r. ds_DatabaseOID r = ds_DatabaseOID r0 \<and> ds_StatsReset r = ds_StatsReset r0) rs"
    and "\<And>r. r \<in> set (r0 # rs) \<Longrightarrow> ds_Counters r stat = Some (cnt r)"
    and "sorted (map cnt (r0 # rs))" "0 \<le> cnt r0" "cnt (last (r0 # rs)) < 2 ^ 63"
  shows "fst (meter_run key stat (map (OpObserve key inst) rs) a) = cnt (last (r0 # rs)) - cnt r0"
  using assms
proof (induction rs arbitrary: a r0)
  case (Cons r rs)
  have same: "source_of key inst r = source_of key inst r0" "sameInstant (ds_StatsReset r0) (ds_StatsReset r)"
    using Cons.prems(3) by (auto simp: source_of_def sameInstant_def split: option.split)
  let ?deltas = "fst (delta (baseline r0) r)"
  let ?b = "a\<lparr>acc_observing := (acc_observing a)(observer_of key inst := True),
              acc_cursors := (acc_cursors a)(source_of key inst r0 \<mapsto> baseline r)\<rparr>"
  have step: "Accumulator_Observe key inst r a = addLocked key ?deltas ?b"
    using Cons.prems(1,2) by (simp add: Accumulator_Observe_def same snd_delta case_prod_beta Let_def)
  have "cnt r0 \<le> cnt r" "cnt r \<le> cnt (last (r # rs))"
    using Cons.prems(5) by auto
  then have "in_int64 (cnt r - cnt r0)" using Cons.prems(6,7) by (auto simp: in_int64_def)
  then have "?deltas stat = Some (cnt r - cnt r0)"
    using Cons.prems(4) \<open>cnt r0 \<le> cnt r\<close> same(2)
    by (simp add: delta_def Let_def cursor_reset_def baseline_def zero_or_def wrap64_id)
  then have out: "exported key stat (Some (key, fst (addLocked key ?deltas ?b))) = cnt r - cnt r0"
    using \<open>cnt r0 \<le> cnt r\<close> by (simp only: exported_add) simp
  define c where "c = snd (addLocked key ?deltas ?b)"
  have "fst (meter_run key stat (map (OpObserve key inst) rs) c) = cnt (last (r # rs)) - cnt r"
  proof (rule Cons.IH)
    show "acc_observing c (observer_of key inst)" "acc_cursors c (source_of key inst r) = Some (baseline r)"
      by (simp_all add: c_def same)
  qed (use Cons.prems \<open>cnt r0 \<le> cnt r\<close> in auto)
  with step out show ?case by (simp add: c_def case_prod_beta)
qed simp

definition sample_key :: TotalKey where
  "sample_key = \<lparr>tk_Key = \<lparr>key_Namespace = ''ns'', key_Pool = ''p'', key_Tenant = ''t''\<rparr>, tk_Database = ''db'', tk_Role = RolePrimary\<rparr>"

definition sample_reading :: "int \<Rightarrow> DatabaseStats" where
  "sample_reading n =
     \<lparr>ds_DatabaseOID = 16384, ds_NumBackends = 1, ds_Counters = [StatXactCommit \<mapsto> n], ds_StatsReset = None,
      ds_SizeBytes = 0, ds_Relations = 0\<rparr>"

lemmas sample_simps = sample_key_def sample_reading_def Accumulator_Observe_def observer_of_def source_of_def
  addLocked_def NewAccumulator_def Stats_def delta_def cursor_reset_def baseline_def new_cursor_def sameInstant_def
  zero_or_def wrap64_def PoolObjectFreed_def drop_cursors_def Total_def Let_def

text \<open>A baseline, a growing counter, a freed pool object and a count that starts again.\<close>

theorem totals_are_what_was_exported_witness:
  "Total (snd (meter_run sample_key StatXactCommit
      [OpObserve sample_key ''i'' (sample_reading 100), OpObserve sample_key ''i'' (sample_reading 130),
       OpFreed sample_key, OpObserve sample_key ''i'' (sample_reading 7)] NewAccumulator)) sample_key StatXactCommit = 37"
proof -
  let ?ops = "[OpObserve sample_key ''i'' (sample_reading 100), OpObserve sample_key ''i'' (sample_reading 130),
       OpFreed sample_key, OpObserve sample_key ''i'' (sample_reading 7)]"
  have "fst (meter_run sample_key StatXactCommit ?ops NewAccumulator) = 37"
    by (simp add: sample_simps)
  moreover have "Total NewAccumulator sample_key StatXactCommit = 0" by (simp add: sample_simps)
  ultimately show ?thesis
    using totals_are_what_was_exported [of sample_key ?ops NewAccumulator StatXactCommit 37
        "snd (meter_run sample_key StatXactCommit ?ops NewAccumulator)"]
    by (auto simp: prod_eq_iff)
qed

theorem steady_source_is_counted_once_witness:
  "fst (meter_run sample_key StatXactCommit
      (map (OpObserve sample_key ''i'') [sample_reading 130, sample_reading 150])
      (snd (Accumulator_Observe sample_key ''i'' (sample_reading 100) NewAccumulator))) = 50"
proof -
  have "fst (meter_run sample_key StatXactCommit
      (map (OpObserve sample_key ''i'') [sample_reading 130, sample_reading 150])
      (snd (Accumulator_Observe sample_key ''i'' (sample_reading 100) NewAccumulator)))
      = (\<lambda>r. zero_or (ds_Counters r StatXactCommit)) (last [sample_reading 100, sample_reading 130, sample_reading 150])
        - (\<lambda>r. zero_or (ds_Counters r StatXactCommit)) (sample_reading 100)"
    by (rule steady_source_is_counted_once) (auto simp: sample_simps)
  then show ?thesis by (simp add: sample_reading_def zero_or_def)
qed

end
