(* ===== verification/Go_Float.thy ===== *)
theory Go_Float
  imports Go_Prelude Complex_Main "HOL-Library.Log_Nat"
begin

text \<open>
  Go's \<open>float64\<close> as far as the sources use it: finite values as rationals, every conversion and
  operation rounded to the nearest value with a significand of 53 bits, ties to the even one. The
  exponent is not bounded: the magnitudes the sources form lie between \<open>2\<^sup>-\<^sup>6\<^sup>3\<close> and \<open>2\<^sup>6\<^sup>4\<close>.
\<close>

type_synonym float64 = rat

definition round_even :: "rat \<Rightarrow> int" where
  "round_even q =
     (let n = \<lfloor>q\<rfloor>; r = q - of_int n in
      if r < 1 / 2 \<or> (r = 1 / 2 \<and> even n) then n else n + 1)"

text \<open>The exponent of the leading bit of a positive rational.\<close>

definition leading :: "rat \<Rightarrow> int" where
  "leading q =
     (let (n, d) = quotient_of q;
          e = int (floorlog 2 (nat n)) - int (floorlog 2 (nat d)) in
      if power_int 2 e \<le> q then e else e - 1)"

definition round64 :: "rat \<Rightarrow> float64" where
  "round64 q =
     (if q = 0 then 0
      else let ulp = power_int 2 (leading \<bar>q\<bar> - 52) in of_int (round_even (q / ulp)) * ulp)"

text \<open>\<open>float32\<close>: a significand of 24 bits.\<close>

type_synonym float32 = rat

definition round32 :: "rat \<Rightarrow> float32" where
  "round32 q =
     (if q = 0 then 0
      else let ulp = power_int 2 (leading \<bar>q\<bar> - 23) in of_int (round_even (q / ulp)) * ulp)"

definition float_of_int :: "int \<Rightarrow> float64" where "float_of_int n = round64 (of_int n)"

definition float_sub :: "float64 \<Rightarrow> float64 \<Rightarrow> float64" where "float_sub x y = round64 (x - y)"

definition float_add :: "float64 \<Rightarrow> float64 \<Rightarrow> float64" where "float_add x y = round64 (x + y)"

definition float_mul :: "float64 \<Rightarrow> float64 \<Rightarrow> float64" where "float_mul x y = round64 (x * y)"

definition float_div :: "float64 \<Rightarrow> float64 \<Rightarrow> float64" where "float_div x y = round64 (x / y)"

lemma round_even_of_int [simp]: "round_even (of_int n) = n"
  by (simp add: round_even_def)

lemma round64_0 [simp]: "round64 0 = 0"
  by (simp add: round64_def)

text \<open>Integers of up to 53 bits are converted exactly.\<close>

lemma leading_of_nat:
  assumes "0 < n"
  shows "leading (of_nat n) = int (floorlog 2 n) - 1"
proof -
  have quotient: "quotient_of (of_nat n) = (int n, 1)"
    using quotient_of_int [of "int n"] by (simp add: Rat.of_int_def)
  have one: "floorlog 2 (Suc 0) = 1" by (simp add: floorlog_def)
  have "n < 2 ^ floorlog 2 n" "2 ^ (floorlog 2 n - 1) \<le> n"
    using assms floorlog_bounds [of n 2] by auto
  then have "(of_nat n :: rat) < 2 ^ floorlog 2 n" "(2::rat) ^ (floorlog 2 n - 1) \<le> of_nat n"
    by (metis of_nat_less_iff of_nat_power of_nat_numeral, metis of_nat_le_iff of_nat_power of_nat_numeral)
  moreover have "0 < floorlog 2 n" using assms by (simp add: floorlog_def)
  moreover have "power_int (2::rat) (int (floorlog 2 n) - 1) = 2 ^ (floorlog 2 n - 1)"
    using calculation(3) by (simp add: power_int_def nat_diff_distrib')
  ultimately show ?thesis
    by (simp add: leading_def quotient one)
qed

lemma float_of_int_exact:
  assumes "\<bar>n\<bar> < 2 ^ 53"
  shows "float_of_int n = of_int n"
proof (cases "n = 0")
  case False
  let ?m = "nat \<bar>n\<bar>"
  have abs: "\<bar>of_int n :: rat\<bar> = of_nat ?m" by simp
  have "2 ^ (floorlog 2 ?m - 1) \<le> ?m"
    using False floorlog_bounds [of ?m 2] by auto
  also have "?m < 2 ^ 53" using assms by (simp add: nat_less_iff)
  finally have "floorlog 2 ?m - 1 < 53" by (rule power_less_imp_less_exp [rotated]) simp
  then have small: "floorlog 2 ?m \<le> 53" by linarith
  have "leading \<bar>of_int n :: rat\<bar> = int (floorlog 2 ?m) - 1"
    unfolding abs using False by (intro leading_of_nat) simp
  with small have e: "leading \<bar>of_int n :: rat\<bar> - 52 = - int (53 - floorlog 2 ?m)"
    by (simp only: of_nat_diff)
  have "power_int (2::rat) (leading \<bar>of_int n :: rat\<bar> - 52) = 1 / 2 ^ (53 - floorlog 2 ?m)"
    unfolding e by (simp add: power_int_minus_divide)
  then show ?thesis
    using False round_even_of_int [of "n * 2 ^ (53 - floorlog 2 ?m)"]
    by (simp add: float_of_int_def round64_def Let_def)
qed (simp add: float_of_int_def)

end
