(* ===== verification/Metering_Store.thy ===== *)
theory Metering_Store
  imports Metering_Totals Go_Float
begin

text \<open>
  \<open>internal/metering/histogram.go\<close> and \<open>store.go\<close>: the trailing window of a tenant as a ring of slots,
  each a histogram and a peak. \<open>math.Log\<close> and \<open>math.Exp2\<close>, which the language leaves approximate, are
  parameters (\<open>fmath\<close>). Shown: the ring implements a plain list of samples. As long as samples do not
  arrive out of order, the peak read back is the peak of exactly the samples of the window, slot reuse
  included.
\<close>

section \<open>Histograms\<close>

record fmath =
  m_Log :: "float64 \<Rightarrow> float64"
  m_Exp2 :: "float64 \<Rightarrow> float64"

definition bucketCount :: nat where "bucketCount = 100"
definition bucketRatio :: float64 where "bucketRatio = round64 (11 / 10)"
definition firstBucketBound :: float64 where "firstBucketBound = 1"

fun bounds_from :: "nat \<Rightarrow> float64 \<Rightarrow> float64 list" where
  "bounds_from 0 bound = []"
| "bounds_from (Suc n) bound = bound # bounds_from n (float_mul bound bucketRatio)"

definition bucketBounds :: "float64 list" where
  "bucketBounds = bounds_from bucketCount firstBucketBound"

text \<open>Finite values only; the logarithm of a value above one is not negative.\<close>

definition bucketFor :: "fmath \<Rightarrow> float64 \<Rightarrow> nat" where
  "bucketFor fm value =
     (if value \<le> firstBucketBound then 0
      else
        let index = \<lceil>float_div (m_Log fm value) (m_Log fm bucketRatio)\<rceil> in
        if index \<ge> int bucketCount then bucketCount - 1 else nat index)"

type_synonym histogram = "float32 list"

definition no_weights :: histogram where "no_weights = replicate bucketCount 0"

definition hist_add :: "fmath \<Rightarrow> float64 \<Rightarrow> float64 \<Rightarrow> histogram \<Rightarrow> histogram" where
  "hist_add fm value weight h =
     (let i = bucketFor fm value in h[i := round32 (h ! i + round32 weight)])"

definition hist_reset :: "histogram \<Rightarrow> histogram" where
  "hist_reset h = no_weights"

definition addScaled :: "histogram \<Rightarrow> float64 \<Rightarrow> histogram \<Rightarrow> histogram" where
  "addScaled other factor h =
     (let scale = round32 factor in map2 (\<lambda>w o'. round32 (w + round32 (o' * scale))) h other)"

definition hist_total :: "histogram \<Rightarrow> float64" where
  "hist_total h = foldl float_add 0 h"

fun quantile_loop :: "float64 \<Rightarrow> float64 \<Rightarrow> (float32 \<times> float64) list \<Rightarrow> float64" where
  "quantile_loop target cumulative [] = bucketBounds ! (bucketCount - 1)"
| "quantile_loop target cumulative ((weight, bound) # rest) =
     (let cumulative = float_add cumulative weight in
      if cumulative \<ge> target then bound else quantile_loop target cumulative rest)"

definition quantile :: "float64 \<Rightarrow> histogram \<Rightarrow> float64" where
  "quantile q h =
     (let total = hist_total h in
      if total = 0 then 0 else quantile_loop (float_mul q total) 0 (zip h bucketBounds))"

section \<open>The store\<close>

definition DefaultWindow :: duration where "DefaultWindow = 168 * hour"
definition DefaultResolution :: duration where "DefaultResolution = 4 * hour"
definition DefaultHalfLife :: duration where "DefaultHalfLife = 24 * hour"

record Sample =
  sm_BackendConnections :: float64
  sm_StorageBytes :: int
  sm_Relations :: int

record Options =
  op_Window :: duration
  op_Resolution :: duration
  op_HalfLife :: duration

definition withDefaults :: "Options \<Rightarrow> Options" where
  "withDefaults o0 =
     (let o1 = (if op_Window o0 \<le> 0 then o0\<lparr>op_Window := DefaultWindow\<rparr> else o0);
          o2 = (if op_Resolution o1 \<le> 0 then o1\<lparr>op_Resolution := DefaultResolution\<rparr> else o1);
          o3 = (if op_Resolution o2 > op_Window o2 then o2\<lparr>op_Resolution := op_Window o2\<rparr> else o2) in
      if op_HalfLife o3 < 0 then o3\<lparr>op_HalfLife := 0\<rparr> else o3)"

definition Options_slots :: "Options \<Rightarrow> nat" where
  "Options_slots opts = nat (max (op_Window opts sdiv op_Resolution opts) 1)"

record slot =
  sl_ordinal :: int
  sl_hist :: histogram
  sl_peak :: float64

record series =
  sr_slots :: "slot list"
  sr_current :: float64
  sr_storageBytes :: int
  sr_relations :: int
  sr_samples :: int
  sr_firstSampleAt :: time
  sr_lastSampleAt :: time

record Observation =
  ob_P95 :: float64
  ob_Peak :: float64
  ob_Current :: float64
  ob_StorageBytes :: int
  ob_Relations :: int
  ob_Samples :: int
  ob_FirstSampleAt :: time
  ob_LastSampleAt :: time

definition Covers :: "Observation \<Rightarrow> duration \<Rightarrow> bool" where
  "Covers ob window \<longleftrightarrow>
     ob_Samples ob > 0 \<and> \<not> IsZero (ob_FirstSampleAt ob) \<and>
     time_sub (ob_LastSampleAt ob) (ob_FirstSampleAt ob) \<ge> window"

record Store =
  st_options :: Options
  st_series :: "Key \<rightharpoonup> series"

definition NewStore :: "Options \<Rightarrow> Store" where
  "NewStore opts = \<lparr>st_options = withDefaults opts, st_series = Map.empty\<rparr>"

text \<open>\<open>UnixNano\<close>: instants are counted from the zero time, the Unix epoch is 62135596800 seconds later.\<close>

definition UnixNano :: "time \<Rightarrow> int" where
  "UnixNano at' = wrap64 (at' - 62135596800 * second)"

definition ordinalOf :: "Options \<Rightarrow> time \<Rightarrow> int" where
  "ordinalOf opts at' = UnixNano at' sdiv op_Resolution opts"

definition ringIndex :: "int \<Rightarrow> nat \<Rightarrow> nat" where
  "ringIndex ordinal n =
     (let index = ordinal smod int n in nat (if index < 0 then index + int n else index))"

definition empty_slot :: slot where
  "empty_slot = \<lparr>sl_ordinal = -1, sl_hist = no_weights, sl_peak = 0\<rparr>"

definition new_series :: "Options \<Rightarrow> time \<Rightarrow> series" where
  "new_series opts at' =
     \<lparr>sr_slots = replicate (Options_slots opts) empty_slot, sr_current = 0, sr_storageBytes = 0, sr_relations = 0,
      sr_samples = 0, sr_firstSampleAt = at', sr_lastSampleAt = 0\<rparr>"

definition observe_slot :: "fmath \<Rightarrow> int \<Rightarrow> float64 \<Rightarrow> slot \<Rightarrow> slot" where
  "observe_slot fm ordinal value target =
     (let target = (if sl_ordinal target \<noteq> ordinal
                    then \<lparr>sl_ordinal = ordinal, sl_hist = hist_reset (sl_hist target), sl_peak = 0\<rparr> else target) in
      target\<lparr>sl_hist := hist_add fm value 1 (sl_hist target), sl_peak := max (sl_peak target) value\<rparr>)"

definition observe_series :: "fmath \<Rightarrow> Options \<Rightarrow> Sample \<Rightarrow> time \<Rightarrow> series \<Rightarrow> series" where
  "observe_series fm opts sample at' entry =
     (let ordinal = ordinalOf opts at';
          i = ringIndex ordinal (length (sr_slots entry)) in
      \<lparr>sr_slots = (sr_slots entry)[i := observe_slot fm ordinal (sm_BackendConnections sample) (sr_slots entry ! i)],
       sr_current = sm_BackendConnections sample,
       sr_storageBytes = sm_StorageBytes sample,
       sr_relations = sm_Relations sample,
       sr_samples = wrap64 (sr_samples entry + 1),
       sr_firstSampleAt = (if IsZero (sr_firstSampleAt entry) \<or> at' < sr_firstSampleAt entry then at' else sr_firstSampleAt entry),
       sr_lastSampleAt = (if at' > sr_lastSampleAt entry then at' else sr_lastSampleAt entry)\<rparr>)"

definition Store_Observe :: "fmath \<Rightarrow> Key \<Rightarrow> Sample \<Rightarrow> time \<Rightarrow> Store \<Rightarrow> Store" where
  "Store_Observe fm key sample at' s =
     (let entry = (case st_series s key of None \<Rightarrow> new_series (st_options s) at' | Some e \<Rightarrow> e) in
      s\<lparr>st_series := (st_series s)(key \<mapsto> observe_series fm (st_options s) sample at' entry)\<rparr>)"

definition duration_Seconds :: "duration \<Rightarrow> float64" where
  "duration_Seconds d =
     float_add (float_of_int (d sdiv second)) (float_div (float_of_int (d smod second)) (float_of_int second))"

definition decayWeight :: "fmath \<Rightarrow> duration \<Rightarrow> duration \<Rightarrow> float64" where
  "decayWeight fm age halfLife =
     (if halfLife \<le> 0 \<or> age \<le> 0 then 1
      else m_Exp2 fm (float_div (- duration_Seconds age) (duration_Seconds halfLife)))"

fun window_loop :: "fmath \<Rightarrow> Options \<Rightarrow> int \<Rightarrow> int \<Rightarrow> slot list \<Rightarrow> histogram \<times> float64 \<Rightarrow> histogram \<times> float64" where
  "window_loop fm opts oldest newest [] acc = acc"
| "window_loop fm opts oldest newest (sl # sls) (summed, peak) =
     (if sl_ordinal sl < oldest \<or> sl_ordinal sl > newest then window_loop fm opts oldest newest sls (summed, peak)
      else
        let age = wrap64 (wrap64 (newest - sl_ordinal sl) * op_Resolution opts) in
        window_loop fm opts oldest newest sls
          (addScaled (sl_hist sl) (decayWeight fm age (op_HalfLife opts)) summed, max peak (sl_peak sl)))"

definition window :: "fmath \<Rightarrow> Options \<Rightarrow> series \<Rightarrow> time \<Rightarrow> histogram \<times> float64" where
  "window fm opts entry now =
     (let newest = ordinalOf opts now;
          oldest = wrap64 (newest - int (length (sr_slots entry)) + 1) in
      window_loop fm opts oldest newest (sr_slots entry) (no_weights, 0))"

definition observationOf :: "fmath \<Rightarrow> Options \<Rightarrow> series \<Rightarrow> time \<Rightarrow> Observation" where
  "observationOf fm opts entry now =
     (case window fm opts entry now of
        (windowed, peak) \<Rightarrow>
          \<lparr>ob_P95 = quantile (round64 (95 / 100)) windowed, ob_Peak = peak, ob_Current = sr_current entry,
           ob_StorageBytes = sr_storageBytes entry, ob_Relations = sr_relations entry,
           ob_Samples = sr_samples entry, ob_FirstSampleAt = sr_firstSampleAt entry,
           ob_LastSampleAt = sr_lastSampleAt entry\<rparr>)"

definition Store_Observation :: "fmath \<Rightarrow> Store \<Rightarrow> Key \<Rightarrow> time \<Rightarrow> Observation option" where
  "Store_Observation fm s key now =
     (case st_series s key of
        None \<Rightarrow> None
      | Some entry \<Rightarrow> Some (observationOf fm (st_options s) entry now))"

definition Store_Quantile :: "fmath \<Rightarrow> Store \<Rightarrow> Key \<Rightarrow> float64 \<Rightarrow> time \<Rightarrow> float64 option" where
  "Store_Quantile fm s key q now =
     (case st_series s key of
        None \<Rightarrow> None
      | Some entry \<Rightarrow> Some (quantile q (fst (window fm (st_options s) entry now))))"

definition Store_Forget :: "Key \<Rightarrow> Store \<Rightarrow> Store" where
  "Store_Forget key s = s\<lparr>st_series := (st_series s)(key := None)\<rparr>"

text \<open>The series \<open>Prune\<close> drops, and the store it leaves; the count it returns is that of the dropped keys.\<close>

definition expired :: "Options \<Rightarrow> time \<Rightarrow> series \<Rightarrow> bool" where
  "expired opts now entry \<longleftrightarrow> time_sub now (sr_lastSampleAt entry) > op_Window opts"

definition Prune :: "time \<Rightarrow> Store \<Rightarrow> nat \<times> Store" where
  "Prune now s =
     (let gone = {k \<in> dom (st_series s). expired (st_options s) now (the (st_series s k))} in
      (card gone, s\<lparr>st_series := (\<lambda>k. if k \<in> gone then None else st_series s k)\<rparr>))"

section \<open>The ring implements a list of samples\<close>

lemma ringIndex_mod:
  assumes "0 < n"
  shows "ringIndex ordinal n = nat (ordinal mod int n)" and "ringIndex ordinal n < n"
proof -
  show *: "ringIndex ordinal n = nat (ordinal mod int n)"
  proof (cases "0 \<le> ordinal")
    case True
    then show ?thesis
      using assms
      by (simp add: ringIndex_def Let_def signed_modulo_int_def signed_divide_int_def sgn_if minus_div_mult_eq_mod)
        (use assms pos_mod_sign [of "int n" ordinal] in linarith)
  next
    case False
    then have smod: "ordinal smod int n = - ((- ordinal) mod int n)"
      using assms
      by (simp add: signed_modulo_int_def signed_divide_int_def sgn_if minus_div_mult_eq_mod algebra_simps)
    show ?thesis
    proof (cases "int n dvd ordinal")
      case True
      then show ?thesis using smod by (simp add: ringIndex_def Let_def zmod_zminus1_eq_if dvd_eq_mod_eq_0)
    next
      case ndvd: False
      then have "ordinal mod int n = int n - (- ordinal) mod int n"
        by (simp add: zmod_zminus1_eq_if dvd_eq_mod_eq_0)
      moreover have "(- ordinal) mod int n > 0"
        using ndvd assms by (metis dvd_eq_mod_eq_0 dvd_minus_iff less_le of_nat_0_less_iff pos_mod_sign)
      ultimately show ?thesis using smod by (simp add: ringIndex_def Let_def)
    qed
  qed
  show "ringIndex ordinal n < n" using assms by (simp add: * nat_less_iff)
qed

text \<open>Two ordinals of one window that share a place in the ring are the same.\<close>

lemma same_place:
  assumes "ringIndex a n = ringIndex b n" "0 < n" "newest - int n < a" "a \<le> newest" "newest - int n < b" "b \<le> newest"
  shows "a = b"
proof -
  have "a mod int n = b mod int n"
    using assms(1,2) by (simp add: ringIndex_mod(1) eq_nat_nat_iff)
  then have "int n dvd a - b" by (rule mod_eq_dvd_iff [THEN iffD1])
  moreover have "\<bar>a - b\<bar> < int n" using assms(3-6) by linarith
  ultimately show ?thesis using zdvd_imp_le [of "int n" "\<bar>a - b\<bar>"] by force
qed

text \<open>
  The slot a list of samples, each with its ordinal, leaves at a place: the samples of the last ordinal
  that belongs there.
\<close>

type_synonym stamped = "int \<times> float64"

definition slot_of :: "fmath \<Rightarrow> int \<Rightarrow> float64 list \<Rightarrow> slot" where
  "slot_of fm ordinal vs =
     \<lparr>sl_ordinal = ordinal, sl_hist = foldl (\<lambda>h v. hist_add fm v 1 h) no_weights vs, sl_peak = foldl max 0 vs\<rparr>"

definition at_ordinal :: "int \<Rightarrow> stamped list \<Rightarrow> float64 list" where
  "at_ordinal ordinal xs = map snd (filter (\<lambda>x. fst x = ordinal) xs)"

definition at_place :: "nat \<Rightarrow> nat \<Rightarrow> stamped list \<Rightarrow> stamped list" where
  "at_place n i xs = filter (\<lambda>x. ringIndex (fst x) n = i) xs"

definition ring_slot :: "fmath \<Rightarrow> nat \<Rightarrow> stamped list \<Rightarrow> nat \<Rightarrow> slot" where
  "ring_slot fm n xs i =
     (if at_place n i xs = [] then empty_slot
      else slot_of fm (fst (last (at_place n i xs))) (at_ordinal (fst (last (at_place n i xs))) xs))"

definition holds_samples :: "fmath \<Rightarrow> stamped list \<Rightarrow> slot list \<Rightarrow> bool" where
  "holds_samples fm xs slots \<longleftrightarrow> (\<forall>i < length slots. slots ! i = ring_slot fm (length slots) xs i)"

definition in_order :: "stamped list \<Rightarrow> bool" where
  "in_order xs \<longleftrightarrow> sorted (map fst xs)"

lemma observe_slot_of: "observe_slot fm ordinal v (slot_of fm ordinal vs) = slot_of fm ordinal (vs @ [v])"
  by (simp add: observe_slot_def slot_of_def Let_def)

lemma observe_slot_other:
  "sl_ordinal sl \<noteq> ordinal \<or> sl = empty_slot \<Longrightarrow> observe_slot fm ordinal v sl = slot_of fm ordinal [v]"
  by (auto simp: observe_slot_def slot_of_def Let_def hist_reset_def empty_slot_def)

lemma sorted_last: "sorted xs \<Longrightarrow> x \<in> set xs \<Longrightarrow> x \<le> last xs"
  by (induction xs) auto

lemma ring_slot_snoc:
  assumes "in_order (xs @ [(ordinal, v)])" "0 < n"
  shows "ring_slot fm n (xs @ [(ordinal, v)]) i =
     (if i = ringIndex ordinal n then observe_slot fm ordinal v (ring_slot fm n xs i) else ring_slot fm n xs i)"
proof (cases "i = ringIndex ordinal n")
  case here: True
  then have last: "at_place n i (xs @ [(ordinal, v)]) = at_place n i xs @ [(ordinal, v)]" by (simp add: at_place_def)
  have latest: "fst x \<le> ordinal" if "x \<in> set xs" for x
    using assms(1) that by (auto simp: in_order_def sorted_append)
  show ?thesis
  proof (cases "at_place n i xs \<noteq> [] \<and> fst (last (at_place n i xs)) = ordinal")
    case True
    then show ?thesis using here last by (simp add: ring_slot_def at_ordinal_def observe_slot_of)
  next
    case False
    have "at_ordinal ordinal xs = []"
    proof (rule ccontr)
      assume "at_ordinal ordinal xs \<noteq> []"
      then obtain x where x: "x \<in> set xs" "fst x = ordinal" by (auto simp: at_ordinal_def filter_empty_conv)
      then have place: "x \<in> set (at_place n i xs)" using here by (simp add: at_place_def)
      have "sorted (map fst (at_place n i xs))"
        using assms(1) by (simp add: at_place_def in_order_def sorted_append sorted_filter)
      then have "fst x \<le> fst (last (at_place n i xs))"
        using place sorted_last [of "map fst (at_place n i xs)" "fst x"] by (cases "at_place n i xs") (auto simp: last_map)
      moreover have "last (at_place n i xs) \<in> set xs" using place by (metis at_place_def filter_is_subset last_in_set list.set(1) empty_iff subsetD)
      ultimately have "fst (last (at_place n i xs)) = ordinal" using latest [of "last (at_place n i xs)"] x(2) by simp
      with False place show False by auto
    qed
    then have "at_ordinal ordinal (xs @ [(ordinal, v)]) = [v]" by (simp add: at_ordinal_def)
    moreover have "sl_ordinal (ring_slot fm n xs i) \<noteq> ordinal \<or> ring_slot fm n xs i = empty_slot"
      using False by (auto simp: ring_slot_def slot_of_def)
    ultimately show ?thesis using here last by (simp add: ring_slot_def [of fm n "xs @ [(ordinal, v)]"] observe_slot_other)
  qed
next
  case False
  have "ringIndex ordinal n = i" if "ringIndex (fst (last (at_place n i xs))) n = i" "fst (last (at_place n i xs)) = ordinal"
    using that by simp
  moreover have "ringIndex (fst (last (at_place n i xs))) n = i" if "at_place n i xs \<noteq> []"
    using last_in_set [OF that] by (simp add: at_place_def)
  ultimately show ?thesis using False by (auto simp: ring_slot_def at_place_def at_ordinal_def)
qed

lemma holds_samples_observe:
  assumes "holds_samples fm xs slots" "in_order (xs @ [(ordinal, v)])" "0 < length slots"
  shows "holds_samples fm (xs @ [(ordinal, v)])
    (slots[ringIndex ordinal (length slots) := observe_slot fm ordinal v (slots ! ringIndex ordinal (length slots))])"
  using assms ringIndex_mod(2) [OF assms(3)]
  by (auto simp: holds_samples_def ring_slot_snoc nth_list_update)

lemma holds_samples_init: "holds_samples fm [] (replicate n empty_slot)"
  by (simp add: holds_samples_def ring_slot_def at_place_def)

section \<open>Reading the window back\<close>

definition greatest :: "float64 list \<Rightarrow> float64" where
  "greatest vs = foldl max 0 vs"

lemma foldl_max: "foldl max m vs = Max (insert m (set vs))" for m :: float64
  using Max.set_eq_fold [of m vs] by (simp add: foldl_conv_fold max.commute)

lemma greatest_iff:
  "greatest vs = m \<longleftrightarrow> 0 \<le> m \<and> (\<forall>v \<in> set vs. v \<le> m) \<and> (m = 0 \<or> m \<in> set vs)"
  unfolding greatest_def foldl_max by (subst Max_eq_iff) auto

lemma window_loop_peak:
  "snd (window_loop fm opts oldest newest sls (h, m)) =
     foldl max m (map sl_peak (filter (\<lambda>sl. oldest \<le> sl_ordinal sl \<and> sl_ordinal sl \<le> newest) sls))"
  by (induction sls arbitrary: h m) (auto simp: Let_def)

text \<open>The samples a window ending at \<open>newest\<close> covers.\<close>

definition in_window :: "nat \<Rightarrow> int \<Rightarrow> stamped list \<Rightarrow> float64 list" where
  "in_window n newest xs = map snd (filter (\<lambda>x. newest - int n < fst x \<and> fst x \<le> newest) xs)"

lemma window_peak_exact:
  assumes "holds_samples fm xs sls" "in_order xs" "0 < length sls" "\<forall>x \<in> set xs. fst x \<le> newest"
  shows "foldl max 0 (map sl_peak (filter (\<lambda>sl. newest - int (length sls) + 1 \<le> sl_ordinal sl \<and> sl_ordinal sl \<le> newest) sls))
    = greatest (in_window (length sls) newest xs)" (is "foldl max 0 (map sl_peak ?live) = greatest ?vs")
proof -
  let ?n = "length sls"
  have slots: "sl \<in> set sls \<Longrightarrow> \<exists>i < ?n. sl = ring_slot fm ?n xs i" for sl
    using assms(1) by (auto simp: holds_samples_def in_set_conv_nth)
  have last_place: "last (at_place ?n i xs) \<in> set xs \<and> ringIndex (fst (last (at_place ?n i xs))) ?n = i"
    if "at_place ?n i xs \<noteq> []" for i
    using last_in_set [OF that] by (auto simp: at_place_def)
  have upper: "sl_peak sl \<in> set ?vs" if live: "sl \<in> set ?live" and peak: "sl_peak sl \<noteq> 0" for sl
  proof -
    obtain i where i: "i < ?n" "sl = ring_slot fm ?n xs i" using slots [of sl] live by auto
    with peak have place: "at_place ?n i xs \<noteq> []" by (auto simp: ring_slot_def empty_slot_def)
    let ?o = "fst (last (at_place ?n i xs))"
    have sl: "sl_ordinal sl = ?o" "sl_peak sl = greatest (at_ordinal ?o xs)"
      using i(2) place by (simp_all add: ring_slot_def slot_of_def greatest_def)
    with peak have "sl_peak sl \<in> set (at_ordinal ?o xs)" using greatest_iff by metis
    moreover have "newest - int ?n < ?o" "?o \<le> newest" using live sl(1) by auto
    ultimately show ?thesis by (fastforce simp: at_ordinal_def in_window_def)
  qed
  have lower: "\<exists>sl \<in> set ?live. v \<le> sl_peak sl" if seen: "v \<in> set ?vs" for v
  proof -
    obtain a where a: "(a, v) \<in> set xs" "newest - int ?n < a" "a \<le> newest"
      using seen by (auto simp: in_window_def)
    define i where "i = ringIndex a ?n"
    have i: "i < ?n" unfolding i_def using ringIndex_mod(2) [OF assms(3)] .
    have here: "(a, v) \<in> set (at_place ?n i xs)" using a(1) by (simp add: at_place_def i_def)
    then have place: "at_place ?n i xs \<noteq> []" by auto
    let ?o = "fst (last (at_place ?n i xs))"
    have "sorted (map fst (at_place ?n i xs))"
      using assms(2) by (simp add: at_place_def in_order_def sorted_filter)
    then have "a \<le> ?o" using here place sorted_last [of "map fst (at_place ?n i xs)" a] by (force simp: last_map)
    moreover have "?o \<le> newest" using last_place [OF place] assms(4) by auto
    ultimately have "a = ?o"
      using a last_place [OF place] assms(3) by (intro same_place [of a ?n ?o newest]) (auto simp: i_def)
    then have slot: "sls ! i = slot_of fm a (at_ordinal a xs)"
      using assms(1) i place by (simp add: holds_samples_def ring_slot_def)
    have "v \<in> set (at_ordinal a xs)" using a(1) by (force simp: at_ordinal_def)
    then have "v \<le> greatest (at_ordinal a xs)" using greatest_iff [of "at_ordinal a xs"] by blast
    then have "v \<le> sl_peak (sls ! i)" by (simp add: slot slot_of_def greatest_def)
    moreover have "sls ! i \<in> set ?live" using a(2,3) nth_mem [OF i] by (simp add: slot slot_of_def)
    ultimately show ?thesis by blast
  qed
  have "greatest ?vs = greatest (map sl_peak ?live)"
  proof (subst greatest_iff, intro conjI ballI)
    show "0 \<le> greatest (map sl_peak ?live)" using greatest_iff by blast
    fix v assume "v \<in> set ?vs"
    from lower [OF this] obtain sl where "sl \<in> set ?live" "v \<le> sl_peak sl" by blast
    moreover from this(1) have "sl_peak sl \<le> greatest (map sl_peak ?live)" using greatest_iff [of "map sl_peak ?live"] by auto
    ultimately show "v \<le> greatest (map sl_peak ?live)" by simp
  next
    show "greatest (map sl_peak ?live) = 0 \<or> greatest (map sl_peak ?live) \<in> set ?vs"
    proof (cases "greatest (map sl_peak ?live) = 0")
      case False
      then have "greatest (map sl_peak ?live) \<in> set (map sl_peak ?live)"
        using greatest_iff [of "map sl_peak ?live" "greatest (map sl_peak ?live)"] by blast
      then obtain sl where "sl \<in> set ?live" "sl_peak sl = greatest (map sl_peak ?live)" by auto
      with upper [of sl] False show ?thesis by simp
    qed simp
  qed
  then show ?thesis by (simp add: greatest_def)
qed

section \<open>Sequences of observations\<close>

type_synonym observed = "Key \<times> Sample \<times> time"

definition store_run :: "fmath \<Rightarrow> observed list \<Rightarrow> Store \<Rightarrow> Store" where
  "store_run fm obs s = foldl (\<lambda>s (key, sample, at'). Store_Observe fm key sample at' s) s obs"

definition samples_for :: "Key \<Rightarrow> observed list \<Rightarrow> (Sample \<times> time) list" where
  "samples_for key obs = map snd (filter (\<lambda>x. fst x = key) obs)"

definition stamp :: "Options \<Rightarrow> (Sample \<times> time) list \<Rightarrow> stamped list" where
  "stamp opts = map (\<lambda>(sample, at'). (ordinalOf opts at', sm_BackendConnections sample))"

definition tracks :: "fmath \<Rightarrow> Options \<Rightarrow> (Sample \<times> time) list \<Rightarrow> series \<Rightarrow> bool" where
  "tracks fm opts xs entry \<longleftrightarrow>
     length (sr_slots entry) = Options_slots opts \<and> holds_samples fm (stamp opts xs) (sr_slots entry) \<and>
     sr_samples entry = wrap64 (int (length xs)) \<and>
     (xs \<noteq> [] \<longrightarrow>
        sr_current entry = sm_BackendConnections (fst (last xs)) \<and> sr_storageBytes entry = sm_StorageBytes (fst (last xs)) \<and>
        sr_relations entry = sm_Relations (fst (last xs)))"

lemma Options_slots_pos: "0 < Options_slots opts"
  by (simp add: Options_slots_def)

lemma tracks_new: "tracks fm opts [] (new_series opts at')"
  by (simp add: tracks_def new_series_def stamp_def holds_samples_init wrap64_def)

lemma tracks_observe:
  assumes "tracks fm opts xs entry" "in_order (stamp opts (xs @ [(sample, at')]))"
  shows "tracks fm opts (xs @ [(sample, at')]) (observe_series fm opts sample at' entry)"
proof -
  have "holds_samples fm (stamp opts xs @ [(ordinalOf opts at', sm_BackendConnections sample)])
      (sr_slots (observe_series fm opts sample at' entry))"
    unfolding observe_series_def Let_def series.select_convs
    using assms Options_slots_pos [of opts] by (intro holds_samples_observe) (auto simp: tracks_def stamp_def)
  then show ?thesis
    using assms(1) by (simp add: tracks_def observe_series_def Let_def stamp_def wrap64_add add.commute [of 1])
qed

lemma store_run_tracks:
  assumes "in_order (stamp (withDefaults opts) (samples_for key obs))"
  shows "st_options (store_run fm obs (NewStore opts)) = withDefaults opts \<and>
    (case st_series (store_run fm obs (NewStore opts)) key of
       None \<Rightarrow> samples_for key obs = []
     | Some entry \<Rightarrow> samples_for key obs \<noteq> [] \<and> tracks fm (withDefaults opts) (samples_for key obs) entry)"
  using assms
proof (induction obs rule: rev_induct)
  case Nil
  then show ?case by (simp add: store_run_def NewStore_def samples_for_def)
next
  case (snoc x obs)
  obtain k sample at' where x: "x = (k, sample, at')" by (cases x)
  define s where "s = store_run fm obs (NewStore opts)"
  have run: "store_run fm (obs @ [x]) (NewStore opts) = Store_Observe fm k sample at' s"
    by (simp add: store_run_def s_def x)
  show ?case
  proof (cases "k = key")
    case True
    then have new: "samples_for key (obs @ [x]) = samples_for key obs @ [(sample, at')]" by (simp add: samples_for_def x)
    with snoc.prems have order: "in_order (stamp (withDefaults opts) (samples_for key obs))"
      by (simp add: in_order_def stamp_def sorted_append)
    have "\<exists>entry. tracks fm (withDefaults opts) (samples_for key obs) entry \<and>
        st_series (Store_Observe fm k sample at' s) key = Some (observe_series fm (withDefaults opts) sample at' entry)"
      using snoc.IH [OF order] True tracks_new
      by (auto simp: s_def [symmetric] Store_Observe_def Let_def split: option.splits)
    with snoc.IH [OF order] tracks_observe [of fm "withDefaults opts" "samples_for key obs" _ sample at'] snoc.prems
    show ?thesis unfolding run new by (auto simp: s_def [symmetric] Store_Observe_def)
  next
    case False
    then have same: "samples_for key (obs @ [x]) = samples_for key obs" by (simp add: samples_for_def x)
    have "st_options (Store_Observe fm k sample at' s) = st_options s"
      "st_series (Store_Observe fm k sample at' s) key = st_series s key"
      using False by (simp_all add: Store_Observe_def Let_def)
    with snoc show ?thesis unfolding run same s_def by (simp only:)
  qed
qed

lemma withDefaults_pos:
  "0 < op_Window (withDefaults opts)" "0 < op_Resolution (withDefaults opts)"
  "in_int64 (op_Window opts) \<Longrightarrow> in_int64 (op_Window (withDefaults opts))"
  by (auto simp: withDefaults_def Let_def DefaultWindow_def DefaultResolution_def hour_def minute_def second_def in_int64_def)

lemma sdiv_between:
  fixes x r :: int
  assumes "0 < r"
  shows "(0 \<le> x \<longrightarrow> 0 \<le> x sdiv r \<and> x sdiv r \<le> x) \<and> (x < 0 \<longrightarrow> x \<le> x sdiv r \<and> x sdiv r \<le> 0)"
proof (cases "0 \<le> x")
  case True
  then show ?thesis
    using assms sdiv_nonneg [of x r] zdiv_mono2 [of x 1 r] by (simp add: pos_imp_zdiv_nonneg_iff)
next
  case False
  then have "x sdiv r = - ((- x) div r)" using assms by (simp add: signed_divide_int_def sgn_if)
  with False assms zdiv_mono2 [of "- x" 1 r] show ?thesis by (simp add: pos_imp_zdiv_nonneg_iff)
qed

lemma ordinalOf_range: "in_int64 (ordinalOf (withDefaults opts) at')"
proof -
  have "in_int64 (UnixNano at')" by (simp add: UnixNano_def)
  with sdiv_between [OF withDefaults_pos(2), of "UnixNano at'" opts] show ?thesis
    by (cases "0 \<le> UnixNano at'") (auto simp: ordinalOf_def in_int64_def)
qed

lemma Options_slots_range: "in_int64 (op_Window opts) \<Longrightarrow> int (Options_slots (withDefaults opts)) < 9223372036854775808"
  using sdiv_between [OF withDefaults_pos(2), of "op_Window (withDefaults opts)" opts]
    withDefaults_pos(1) [of opts] withDefaults_pos(3) [of opts]
  by (auto simp: Options_slots_def in_int64_def)

text \<open>
  C25. What the store answers for a tenant is what a plain list of its samples says: the peak is the
  largest of exactly the samples whose slot lies in the window ending now, a reused slot contributes
  nothing of its previous lap, and level and count are those of the list. The samples of other tenants
  do not matter. Assumed is that the tenant's samples arrive in the order of their slots, none later
  than now, and that now is not before 1970.
\<close>

theorem window_is_exact:
  assumes "in_order (stamp (withDefaults opts) (samples_for key obs))" "samples_for key obs \<noteq> []"
    and "\<forall>x \<in> set (stamp (withDefaults opts) (samples_for key obs)). fst x \<le> ordinalOf (withDefaults opts) now"
    and "0 \<le> ordinalOf (withDefaults opts) now" "in_int64 (op_Window opts)"
  shows "\<exists>ob. Store_Observation fm (store_run fm obs (NewStore opts)) key now = Some ob \<and>
    ob_Peak ob = greatest (in_window (Options_slots (withDefaults opts)) (ordinalOf (withDefaults opts) now)
                     (stamp (withDefaults opts) (samples_for key obs))) \<and>
    ob_Current ob = sm_BackendConnections (fst (last (samples_for key obs))) \<and>
    ob_StorageBytes ob = sm_StorageBytes (fst (last (samples_for key obs))) \<and>
    ob_Samples ob = wrap64 (int (length (samples_for key obs)))"
proof -
  define o' xs where "o' = withDefaults opts" and "xs = samples_for key obs"
  obtain entry where entry: "st_series (store_run fm obs (NewStore opts)) key = Some entry" "tracks fm o' xs entry"
    and options: "st_options (store_run fm obs (NewStore opts)) = o'"
    using store_run_tracks [OF assms(1), of fm] assms(2) by (auto simp: o'_def xs_def split: option.splits)
  have "in_int64 (ordinalOf o' now)" "int (Options_slots o') < 9223372036854775808"
    using ordinalOf_range Options_slots_range assms(5) by (auto simp: o'_def)
  then have "in_int64 (ordinalOf o' now - int (Options_slots o') + 1)"
    using assms(4) Options_slots_pos [of o'] by (auto simp: in_int64_def o'_def [symmetric])
  then have oldest: "wrap64 (ordinalOf o' now - int (Options_slots o') + 1) = ordinalOf o' now - int (Options_slots o') + 1"
    by (rule wrap64_id)
  have "snd (window fm o' entry now) = greatest (in_window (Options_slots o') (ordinalOf o' now) (stamp o' xs))"
    using entry(2) assms(1,3) window_peak_exact [of fm "stamp o' xs" "sr_slots entry" "ordinalOf o' now"] Options_slots_pos [of o']
    by (simp add: window_def Let_def tracks_def oldest window_loop_peak o'_def [symmetric] xs_def [symmetric])
  with entry options assms(2) show ?thesis
    by (auto simp: Store_Observation_def observationOf_def tracks_def case_prod_beta o'_def [symmetric] xs_def [symmetric])
qed

text \<open>A window of three one-hour slots; the sample of the first hour has left it and its slot is reused.\<close>

definition hourly :: Options where
  "hourly = \<lparr>op_Window = 3 * hour, op_Resolution = hour, op_HalfLife = 0\<rparr>"

definition at_hour :: "int \<Rightarrow> time" where
  "at_hour n = 62135596800 * second + n * hour"

definition held :: "float64 \<Rightarrow> Sample" where
  "held v = \<lparr>sm_BackendConnections = v, sm_StorageBytes = 0, sm_Relations = 0\<rparr>"

definition some_fmath :: fmath where
  "some_fmath = \<lparr>m_Log = (\<lambda>x. x - 1), m_Exp2 = (\<lambda>_. 1)\<rparr>"

definition four_hours :: "observed list" where
  "four_hours = map (\<lambda>(v, n). (tk_Key sample_key, held v, at_hour n)) [(9, 10), (2, 11), (5, 12), (1, 13)]"

theorem window_is_exact_witness:
  "\<exists>ob. Store_Observation some_fmath (store_run some_fmath four_hours (NewStore hourly)) (tk_Key sample_key) (at_hour 13) = Some ob \<and>
     ob_Peak ob = 5"
proof -
  have opts: "withDefaults hourly = hourly" by (simp add: withDefaults_def hourly_def hour_def minute_def second_def)
  have ord: "ordinalOf hourly (at_hour n) = n" if "n \<in> {10, 11, 12, 13}" for n
    using that by (auto simp: ordinalOf_def hourly_def UnixNano_def at_hour_def wrap64_def hour_def minute_def second_def sdiv_nonneg)
  have all: "samples_for (tk_Key sample_key) four_hours = map snd four_hours" by (simp add: samples_for_def four_hours_def)
  have stamp: "stamp hourly (map snd four_hours) = [(10, 9), (11, 2), (12, 5), (13, 1)]"
    by (simp add: stamp_def four_hours_def ord held_def)
  have "four_hours \<noteq> []" by (simp add: four_hours_def)
  moreover have "in_int64 (op_Window hourly)" by (simp add: hourly_def hour_def minute_def second_def in_int64_def)
  moreover have "Options_slots hourly = 3"
    by (simp add: Options_slots_def hourly_def hour_def minute_def second_def sdiv_nonneg)
  ultimately show ?thesis
    using window_is_exact [of hourly "tk_Key sample_key" four_hours "at_hour 13" some_fmath]
    by (auto simp: opts all stamp ord in_order_def in_window_def greatest_def)
qed

end
