(* ===== verification/Metering.thy ===== *)
theory Metering
  imports Metering_Store
begin

text \<open>
  \<open>internal/metering/metrics.go\<close>, \<open>collector.go\<close>, \<open>readings.go\<close> and \<open>transitions.go\<close>: one round of
  readings folded into the store and the totals, the readings that wait for it, and what is exported.
  The Prometheus vectors are not part of the program: an operation on them is a value (\<open>metric_op\<close>), and
  the methods return the operations they perform, in order. Shown: a round touches only a closed set of
  series per pool, whatever the number of tenants; a scrape replaces the one before; a transition is
  counted once; forgetting a pool keeps the totals of its tenants.
\<close>

section \<open>Metrics\<close>

datatype metric_vec =
    VecDatabaseStats | VecTenantDatabaseStats | VecPoolConns | VecTenantConns
  | VecTenants | VecSamples | VecStale | VecTenantSeries

datatype metric_op =
    WithLabelValues metric_vec "string list"
  | SetValue metric_vec "string list" float64
  | AddValue metric_vec "string list" float64
  | DeletePartialMatch metric_vec "(string \<times> string) list"

fun stat_string :: "Stat \<Rightarrow> string" where
  "stat_string StatXactCommit = ''xact_commit''"
| "stat_string StatXactRollback = ''xact_rollback''"
| "stat_string StatBlksRead = ''blks_read''"
| "stat_string StatBlksHit = ''blks_hit''"
| "stat_string StatTupReturned = ''tup_returned''"
| "stat_string StatTupFetched = ''tup_fetched''"
| "stat_string StatTupModified = ''tup_modified''"
| "stat_string StatDeadlocks = ''deadlocks''"

fun role_string :: "Role \<Rightarrow> string" where
  "role_string RolePrimary = ''primary''"
| "role_string RoleReplica = ''replica''"

definition connectionStatistics :: "string list" where
  "connectionStatistics = [''in_use'', ''reserved'', ''allocatable'', ''committed_burst'']"

definition tenantStatistics :: "string list" where
  "tenantStatistics = [''p95_sum'', ''p95_max'', ''peak_sum'', ''peak_max'']"

definition tenantStates :: "string list" where
  "tenantStates = [''total'', ''bound'', ''pending'', ''cold'', ''stale'']"

definition SeriesPerPool :: nat where
  "SeriesPerPool = length Stats * length Roles + 4 + 4 + 5 + 1 + 1 + 1"

definition SeriesPerTenant :: nat where
  "SeriesPerTenant = length Stats * length Roles"

definition RegisterPool :: "string \<Rightarrow> string \<Rightarrow> metric_op list" where
  "RegisterPool ns pool =
     concat (map (\<lambda>stat. map (\<lambda>role. WithLabelValues VecDatabaseStats [ns, pool, stat_string stat, role_string role]) Roles) Stats)
     @ map (\<lambda>s. WithLabelValues VecPoolConns [ns, pool, s]) connectionStatistics
     @ map (\<lambda>s. WithLabelValues VecTenantConns [ns, pool, s]) tenantStatistics
     @ map (\<lambda>s. WithLabelValues VecTenants [ns, pool, s]) tenantStates
     @ [WithLabelValues VecSamples [ns, pool], WithLabelValues VecStale [ns, pool],
        WithLabelValues VecTenantSeries [ns, pool]]"

definition RegisterTenant :: "string \<Rightarrow> string \<Rightarrow> string \<Rightarrow> metric_op list" where
  "RegisterTenant ns pool tenant =
     concat (map (\<lambda>stat. map (\<lambda>role.
       WithLabelValues VecTenantDatabaseStats [ns, pool, tenant, stat_string stat, role_string role]) Roles) Stats)"

text \<open>The loops over a map of deltas, in the order of \<open>Stats\<close>.\<close>

definition AddDatabaseStats :: "string \<Rightarrow> string \<Rightarrow> Role \<Rightarrow> (Stat \<rightharpoonup> int) \<Rightarrow> metric_op list" where
  "AddDatabaseStats ns pool role deltas =
     concat (map (\<lambda>stat.
       case deltas stat of
         None \<Rightarrow> []
       | Some d \<Rightarrow> if d \<le> 0 then []
                  else [AddValue VecDatabaseStats [ns, pool, stat_string stat, role_string role] (float_of_int d)]) Stats)"

definition AddTenantDatabaseStats :: "string \<Rightarrow> string \<Rightarrow> string \<Rightarrow> Role \<Rightarrow> (Stat \<rightharpoonup> int) \<Rightarrow> metric_op list" where
  "AddTenantDatabaseStats ns pool tenant role deltas =
     concat (map (\<lambda>stat.
       case deltas stat of
         None \<Rightarrow> []
       | Some d \<Rightarrow> if d \<le> 0 then []
                  else [AddValue VecTenantDatabaseStats [ns, pool, tenant, stat_string stat, role_string role] (float_of_int d)]) Stats)"

definition ForgetTenant :: "string \<Rightarrow> string \<Rightarrow> string \<Rightarrow> metric_op list" where
  "ForgetTenant ns pool tenant =
     [DeletePartialMatch VecTenantDatabaseStats [(''namespace'', ns), (''pool'', pool), (''tenant'', tenant)]]"

definition ForgetTenantStats :: "string \<Rightarrow> string \<Rightarrow> metric_op list" where
  "ForgetTenantStats ns pool = [DeletePartialMatch VecTenantDatabaseStats [(''namespace'', ns), (''pool'', pool)]]"

definition Metrics_ForgetPool :: "string \<Rightarrow> string \<Rightarrow> metric_op list" where
  "Metrics_ForgetPool ns pool =
     map (\<lambda>v. DeletePartialMatch v [(''namespace'', ns), (''pool'', pool)])
       [VecDatabaseStats, VecTenantDatabaseStats, VecPoolConns, VecTenantConns, VecTenants, VecSamples, VecStale, VecTenantSeries]"

definition SetPoolConnections :: "string \<Rightarrow> string \<Rightarrow> string \<Rightarrow> float64 \<Rightarrow> metric_op list" where
  "SetPoolConnections ns pool statistic value = [SetValue VecPoolConns [ns, pool, statistic] value]"

definition SetTenantConnections :: "string \<Rightarrow> string \<Rightarrow> string \<Rightarrow> float64 \<Rightarrow> metric_op list" where
  "SetTenantConnections ns pool statistic value = [SetValue VecTenantConns [ns, pool, statistic] value]"

definition SetTenants :: "string \<Rightarrow> string \<Rightarrow> string \<Rightarrow> float64 \<Rightarrow> metric_op list" where
  "SetTenants ns pool state value = [SetValue VecTenants [ns, pool, state] value]"

definition AddSamples :: "string \<Rightarrow> string \<Rightarrow> nat \<Rightarrow> metric_op list" where
  "AddSamples ns pool n = (if n > 0 then [AddValue VecSamples [ns, pool] (float_of_int (int n))] else [])"

definition SetStale :: "string \<Rightarrow> string \<Rightarrow> bool \<Rightarrow> metric_op list" where
  "SetStale ns pool stale = [SetValue VecStale [ns, pool] (if stale then 1 else 0)]"

definition SetTenantSeries :: "string \<Rightarrow> string \<Rightarrow> nat \<Rightarrow> metric_op list" where
  "SetTenantSeries ns pool n = [SetValue VecTenantSeries [ns, pool] (float_of_int (int n))]"

section \<open>The collector\<close>

record PoolObservation =
  po_Namespace :: string
  po_Pool :: string
  po_InUse :: int
  po_Reserved :: int
  po_Allocatable :: int
  po_CommittedBurst :: int
  po_Bound :: int
  po_Pending :: int
  po_PerTenantMetrics :: bool

record TenantObservation =
  to_Key :: Key
  to_Database :: string
  to_Instance :: string
  to_Role :: Role
  to_BackendConnections :: float64
  to_PoolObjectFreed :: bool
  to_Stats :: "DatabaseStats option"
  to_Cold :: bool

record poolRound =
  pr_observedAt :: time
  pr_perTenant :: bool

record ReadingKey =
  rk_Namespace :: string
  rk_Instance :: string
  rk_Database :: string

record reading =
  rd_stats :: DatabaseStats
  rd_observedAt :: time

record Collector =
  co_Store :: Store
  co_Accumulator :: Accumulator
  co_Metrics :: bool
  co_pools :: "string \<times> string \<rightharpoonup> poolRound"
  co_readings :: "ReadingKey \<rightharpoonup> reading"

text \<open>\<open>metrics\<close> says whether the collector exports at all.\<close>

definition NewCollector :: "Options \<Rightarrow> bool \<Rightarrow> Collector" where
  "NewCollector options metrics =
     \<lparr>co_Store = NewStore options, co_Accumulator = NewAccumulator, co_Metrics = metrics,
      co_pools = Map.empty, co_readings = Map.empty\<rparr>"

definition seriesFor :: "Store \<Rightarrow> string \<Rightarrow> string \<Rightarrow> nat" where
  "seriesFor store ns pool =
     card {key \<in> dom (st_series store). key_Namespace key = ns \<and> key_Pool key = pool}"

record round_sums =
  rs_p95Sum :: float64
  rs_p95Max :: float64
  rs_peakSum :: float64
  rs_peakMax :: float64
  rs_cold :: nat
  rs_stale :: nat

definition total_key :: "TenantObservation \<Rightarrow> TotalKey" where
  "total_key t = \<lparr>tk_Key = to_Key t, tk_Database = to_Database t, tk_Role = to_Role t\<rparr>"

text \<open>The body of the loop of \<open>Collector.Observe\<close> for one tenant.\<close>

definition observe_tenant :: "fmath \<Rightarrow> PoolObservation \<Rightarrow> time \<Rightarrow> TenantObservation \<Rightarrow>
    Collector \<times> round_sums \<times> metric_op list \<Rightarrow> Collector \<times> round_sums \<times> metric_op list" where
  "observe_tenant fm pool at' t st =
     (let (c, agg, ops) = st;
          ns = po_Namespace pool; p = po_Pool pool;
          acc0 = (if to_PoolObjectFreed t then PoolObjectFreed (total_key t) (co_Accumulator c) else co_Accumulator c);
          ops1 = (if co_Metrics c \<and> po_PerTenantMetrics pool then RegisterTenant ns p (key_Tenant (to_Key t)) else []);
          (sample, acc1, stale, ops2) =
            (case to_Stats t of
               Some stats \<Rightarrow>
                 (case Accumulator_Observe (total_key t) (to_Instance t) stats acc0 of
                    (applied, acc) \<Rightarrow>
                      (\<lparr>sm_BackendConnections = to_BackendConnections t, sm_StorageBytes = ds_SizeBytes stats, sm_Relations = ds_Relations stats\<rparr>,
                       acc, rs_stale agg,
                       if co_Metrics c then
                         AddDatabaseStats ns p (to_Role t) applied @
                         (if po_PerTenantMetrics pool then AddTenantDatabaseStats ns p (key_Tenant (to_Key t)) (to_Role t) applied else [])
                       else []))
             | None \<Rightarrow>
                 (\<lparr>sm_BackendConnections = to_BackendConnections t, sm_StorageBytes = 0, sm_Relations = 0\<rparr>,
                  acc0, rs_stale agg + 1, []));
          store = Store_Observe fm (to_Key t) sample at' (co_Store c);
          agg1 =
            (case Store_Observation fm store (to_Key t) at' of
               None \<Rightarrow> agg
             | Some ob \<Rightarrow>
                 agg\<lparr>rs_p95Sum := float_add (rs_p95Sum agg) (ob_P95 ob), rs_p95Max := max (rs_p95Max agg) (ob_P95 ob),
                      rs_peakSum := float_add (rs_peakSum agg) (ob_Peak ob), rs_peakMax := max (rs_peakMax agg) (ob_Peak ob)\<rparr>) in
      (c\<lparr>co_Store := store, co_Accumulator := acc1\<rparr>,
       agg1\<lparr>rs_stale := stale, rs_cold := rs_cold agg + (if to_Cold t then 1 else 0)\<rparr>,
       ops @ ops1 @ ops2))"

definition no_sums :: round_sums where
  "no_sums = \<lparr>rs_p95Sum = 0, rs_p95Max = 0, rs_peakSum = 0, rs_peakMax = 0, rs_cold = 0, rs_stale = 0\<rparr>"

text \<open>The gauges a round sets once its tenants are folded.\<close>

definition round_gauges :: "PoolObservation \<Rightarrow> nat \<Rightarrow> round_sums \<Rightarrow> Store \<Rightarrow> metric_op list" where
  "round_gauges pool tenants agg store =
     (let ns = po_Namespace pool; p = po_Pool pool in
      SetPoolConnections ns p ''in_use'' (float_of_int (po_InUse pool)) @
      SetPoolConnections ns p ''reserved'' (float_of_int (po_Reserved pool)) @
      SetPoolConnections ns p ''allocatable'' (float_of_int (po_Allocatable pool)) @
      SetPoolConnections ns p ''committed_burst'' (float_of_int (po_CommittedBurst pool)) @
      SetTenantConnections ns p ''p95_sum'' (rs_p95Sum agg) @
      SetTenantConnections ns p ''p95_max'' (rs_p95Max agg) @
      SetTenantConnections ns p ''peak_sum'' (rs_peakSum agg) @
      SetTenantConnections ns p ''peak_max'' (rs_peakMax agg) @
      SetTenants ns p ''total'' (float_of_int (int tenants)) @
      SetTenants ns p ''bound'' (float_of_int (po_Bound pool)) @
      SetTenants ns p ''pending'' (float_of_int (po_Pending pool)) @
      SetTenants ns p ''cold'' (float_of_int (int (rs_cold agg))) @
      SetTenants ns p ''stale'' (float_of_int (int (rs_stale agg))) @
      AddSamples ns p tenants @
      SetTenantSeries ns p (seriesFor store ns p))"

definition Collector_Observe :: "fmath \<Rightarrow> PoolObservation \<Rightarrow> TenantObservation list \<Rightarrow> time \<Rightarrow> Collector
    \<Rightarrow> metric_op list \<times> Collector" where
  "Collector_Observe fm pool tenants at' c =
     (let key = (po_Namespace pool, po_Pool pool);
          labelledLastRound = (case co_pools c key of None \<Rightarrow> False | Some r \<Rightarrow> pr_perTenant r);
          c0 = c\<lparr>co_pools := (co_pools c)(key \<mapsto> \<lparr>pr_observedAt = at', pr_perTenant = po_PerTenantMetrics pool\<rparr>)\<rparr>;
          ops0 = (if co_Metrics c \<and> labelledLastRound \<and> \<not> po_PerTenantMetrics pool
                  then ForgetTenantStats (po_Namespace pool) (po_Pool pool) else []);
          (c1, agg, ops1) = fold (observe_tenant fm pool at') tenants (c0, no_sums, ops0) in
      (if co_Metrics c then ops1 @ round_gauges pool (length tenants) agg (co_Store c1) else ops1, c1))"

definition Age :: "Collector \<Rightarrow> string \<Rightarrow> string \<Rightarrow> time \<Rightarrow> duration option" where
  "Age c ns pool now =
     (let ages =
        (case co_pools c (ns, pool) of None \<Rightarrow> {} | Some r \<Rightarrow> {time_sub now (pr_observedAt r)}) \<union>
        (\<lambda>key. time_sub now (sr_lastSampleAt (the (st_series (co_Store c) key)))) `
          {key \<in> dom (st_series (co_Store c)). key_Namespace key = ns \<and> key_Pool key = pool} in
      if ages = {} then None
      else Some (if co_pools c (ns, pool) = None then max 0 (Max ages) else Max ages))"

definition Collector_ForgetPool :: "string \<Rightarrow> string \<Rightarrow> Collector \<Rightarrow> metric_op list \<times> Collector" where
  "Collector_ForgetPool ns pool c =
     (if co_Metrics c then Metrics_ForgetPool ns pool else [],
      c\<lparr>co_pools := (co_pools c)((ns, pool) := None),
        co_Store := (co_Store c)\<lparr>st_series :=
          (\<lambda>key. if key_Namespace key = ns \<and> key_Pool key = pool then None else st_series (co_Store c) key)\<rparr>\<rparr>)"

definition departed :: "Collector \<Rightarrow> string \<Rightarrow> string \<Rightarrow> Key list \<Rightarrow> Key set" where
  "departed c ns pool present =
     {key \<in> dom (st_series (co_Store c)). key_Namespace key = ns \<and> key_Pool key = pool \<and> key \<notin> set present}"

text \<open>\<open>ForgetDeparted\<close>: the store, and the tenants whose per-tenant series are released, in any order.\<close>

definition ForgetDeparted :: "string \<Rightarrow> string \<Rightarrow> Key list \<Rightarrow> Collector \<Rightarrow> metric_op set \<times> Collector" where
  "ForgetDeparted ns pool present c =
     (if co_Metrics c then \<Union>key \<in> departed c ns pool present. set (ForgetTenant ns pool (key_Tenant key)) else {},
      c\<lparr>co_Store := (co_Store c)\<lparr>st_series :=
          (\<lambda>key. if key \<in> departed c ns pool present then None else st_series (co_Store c) key)\<rparr>\<rparr>)"

definition Collector_Forget :: "Key \<Rightarrow> string \<Rightarrow> Collector \<Rightarrow> metric_op list \<times> Collector" where
  "Collector_Forget key database c =
     (if co_Metrics c then ForgetTenant (key_Namespace key) (key_Pool key) (key_Tenant key) else [],
      c\<lparr>co_Store := Store_Forget key (co_Store c),
        co_Accumulator := fold (\<lambda>role. Accumulator_Forget \<lparr>tk_Key = key, tk_Database = database, tk_Role = role\<rparr>) Roles (co_Accumulator c)\<rparr>)"

section \<open>Readings\<close>

definition ReadingTTL :: duration where "ReadingTTL = 2 * minute"

definition drop_readings :: "string \<Rightarrow> string \<Rightarrow> (ReadingKey \<rightharpoonup> reading) \<Rightarrow> (ReadingKey \<rightharpoonup> reading)" where
  "drop_readings ns inst m = (\<lambda>key. if rk_Namespace key = ns \<and> rk_Instance key = inst then None else m key)"

definition RecordDatabaseStats :: "string \<Rightarrow> string \<Rightarrow> time \<Rightarrow> (string \<times> DatabaseStats) list \<Rightarrow> Collector \<Rightarrow> Collector" where
  "RecordDatabaseStats ns inst at' byDatabase c =
     c\<lparr>co_readings :=
         foldl (\<lambda>m (database, stats).
                  m(\<lparr>rk_Namespace = ns, rk_Instance = inst, rk_Database = database\<rparr> \<mapsto> \<lparr>rd_stats = stats, rd_observedAt = at'\<rparr>))
           (drop_readings ns inst (co_readings c)) byDatabase\<rparr>"

definition DatabaseStatsFor :: "Collector \<Rightarrow> ReadingKey \<Rightarrow> time \<Rightarrow> DatabaseStats option" where
  "DatabaseStatsFor c key now =
     (case co_readings c key of
        None \<Rightarrow> None
      | Some h \<Rightarrow> if time_sub now (rd_observedAt h) > ReadingTTL then None else Some (rd_stats h))"

definition ForgetInstance :: "string \<Rightarrow> string \<Rightarrow> Collector \<Rightarrow> Collector" where
  "ForgetInstance ns inst c = c\<lparr>co_readings := drop_readings ns inst (co_readings c)\<rparr>"

section \<open>Transitions\<close>

datatype transition_vec = VecPhase | VecRoute | VecSince | VecTotal | VecDuration

datatype transition_op =
    TSet transition_vec "string list" float64
  | TInc transition_vec "string list"
  | TObserve transition_vec "string list" float64
  | TDelete transition_vec "string list"
  | TDeletePartial transition_vec "(string \<times> string) list"

record transitionKey =
  trk_kind :: string
  trk_namespace :: string
  trk_name :: string

type_synonym known = "transitionKey \<rightharpoonup> string"

definition time_Unix :: "time \<Rightarrow> int" where
  "time_Unix t = t div second - 62135596800"

definition Transitions_Observe :: "string \<Rightarrow> string \<Rightarrow> string \<Rightarrow> string \<Rightarrow> string list \<Rightarrow> time \<Rightarrow> known
    \<Rightarrow> transition_op list \<times> known" where
  "Transitions_Observe ns kind name phase phases entered known =
     (let key = \<lparr>trk_kind = kind, trk_namespace = ns, trk_name = name\<rparr>;
          previous = known key in
      (map (\<lambda>candidate. TSet VecPhase [ns, kind, name, candidate] (if candidate = phase then 1 else 0)) phases @
       (if previous \<noteq> Some phase then [TSet VecSince [ns, kind, name] (float_of_int (time_Unix entered))] else []),
       known(key \<mapsto> phase)))"

definition dropRoute :: "string \<Rightarrow> string \<Rightarrow> string \<Rightarrow> transition_op list" where
  "dropRoute ns kind name = [TDeletePartial VecRoute [(''namespace'', ns), (''kind'', kind), (''name'', name)]]"

definition Route :: "string \<Rightarrow> string \<Rightarrow> string \<Rightarrow> string \<Rightarrow> string \<Rightarrow> transition_op list" where
  "Route ns kind name source target =
     (if source = [] \<and> target = [] then []
      else dropRoute ns kind name @ [TSet VecRoute [ns, kind, name, source, target] 1])"

definition Transitions_Forget :: "string \<Rightarrow> string \<Rightarrow> string \<Rightarrow> string \<Rightarrow> duration \<Rightarrow> string list \<Rightarrow> known
    \<Rightarrow> transition_op list \<times> known" where
  "Transitions_Forget ns kind name outcome took phases known =
     (let key = \<lparr>trk_kind = kind, trk_namespace = ns, trk_name = name\<rparr>;
          seen = (known key \<noteq> None) in
      (map (\<lambda>candidate. TDelete VecPhase [ns, kind, name, candidate]) phases @
       [TDelete VecSince [ns, kind, name]] @ dropRoute ns kind name @
       (if \<not> seen then []
        else TInc VecTotal [ns, kind, outcome] #
             (if took > 0 then [TObserve VecDuration [ns, kind, outcome] (duration_Seconds took)] else [])),
       known(key := None)))"

definition InFlight :: "known \<Rightarrow> nat" where
  "InFlight known = card (dom known)"

section \<open>A round touches a closed set of series\<close>

fun touched :: "metric_op \<Rightarrow> (metric_vec \<times> string list) set" where
  "touched (WithLabelValues v ls) = {(v, ls)}"
| "touched (SetValue v ls x) = {(v, ls)}"
| "touched (AddValue v ls x) = {(v, ls)}"
| "touched (DeletePartialMatch v ls) = {}"

definition touched_by :: "metric_op list \<Rightarrow> (metric_vec \<times> string list) set" where
  "touched_by ops = (\<Union>op \<in> set ops. touched op)"

lemma touched_by_simps [simp]:
  "touched_by [] = {}" "touched_by (op # ops) = touched op \<union> touched_by ops"
  "touched_by (a @ b) = touched_by a \<union> touched_by b"
  by (auto simp: touched_by_def)

definition pool_series :: "string \<Rightarrow> string \<Rightarrow> (metric_vec \<times> string list) set" where
  "pool_series ns pool = touched_by (RegisterPool ns pool)"

definition tenant_series :: "string \<Rightarrow> string \<Rightarrow> string \<Rightarrow> (metric_vec \<times> string list) set" where
  "tenant_series ns pool tenant = touched_by (RegisterTenant ns pool tenant)"

lemma stat_string_inject [simp]: "stat_string a = stat_string b \<longleftrightarrow> a = b"
  by (cases a; cases b) simp_all

lemma role_string_inject [simp]: "role_string a = role_string b \<longleftrightarrow> a = b"
  by (cases a; cases b) simp_all

lemma pool_series_stats: "(VecDatabaseStats, [ns, pool, stat_string stat, role_string role]) \<in> pool_series ns pool"
  by (cases stat; cases role) (simp_all add: pool_series_def RegisterPool_def Stats_def Roles_def)

lemma AddDatabaseStats_touched: "touched_by (AddDatabaseStats ns pool role deltas) \<subseteq> pool_series ns pool"
  using pool_series_stats by (auto simp: touched_by_def AddDatabaseStats_def split: option.splits if_splits)

lemma AddTenantDatabaseStats_touched:
  "touched_by (AddTenantDatabaseStats ns pool tenant role deltas) \<subseteq> tenant_series ns pool tenant"
proof -
  have "(VecTenantDatabaseStats, [ns, pool, tenant, stat_string stat, role_string role]) \<in> tenant_series ns pool tenant" for stat
    by (cases stat; cases role) (simp_all add: tenant_series_def RegisterTenant_def Stats_def Roles_def)
  then show ?thesis
    by (auto simp: touched_by_def AddTenantDatabaseStats_def split: option.splits if_splits)
qed

lemma round_gauges_touched: "touched_by (round_gauges pool n agg store) \<subseteq> pool_series (po_Namespace pool) (po_Pool pool)"
  by (simp add: round_gauges_def Let_def SetPoolConnections_def SetTenantConnections_def SetTenants_def AddSamples_def
      SetTenantSeries_def pool_series_def RegisterPool_def connectionStatistics_def tenantStatistics_def tenantStates_def)

definition labelled_series :: "PoolObservation \<Rightarrow> TenantObservation list \<Rightarrow> (metric_vec \<times> string list) set" where
  "labelled_series pool tenants =
     (if po_PerTenantMetrics pool
      then \<Union>t \<in> set tenants. tenant_series (po_Namespace pool) (po_Pool pool) (key_Tenant (to_Key t)) else {})"

lemma observe_tenant_touched:
  assumes "observe_tenant fm pool at' t (c, agg, ops) = (c', agg', ops')"
  shows "touched_by ops' \<subseteq> touched_by ops \<union> pool_series (po_Namespace pool) (po_Pool pool) \<union> labelled_series pool [t]"
  using assms AddDatabaseStats_touched AddTenantDatabaseStats_touched
  by (auto simp: observe_tenant_def labelled_series_def tenant_series_def [symmetric] Let_def
      split: prod.splits option.splits if_splits) blast+

lemma observe_tenants_touched:
  "fold (observe_tenant fm pool at') ts (c, agg, ops) = (c', agg', ops') \<Longrightarrow>
   touched_by ops' \<subseteq> touched_by ops \<union> pool_series (po_Namespace pool) (po_Pool pool) \<union> labelled_series pool ts"
proof (induction ts arbitrary: c agg ops)
  case (Cons t ts)
  obtain c1 agg1 ops1 where step: "observe_tenant fm pool at' t (c, agg, ops) = (c1, agg1, ops1)"
    by (cases "observe_tenant fm pool at' t (c, agg, ops)")
  have "labelled_series pool (t # ts) = labelled_series pool [t] \<union> labelled_series pool ts"
    by (simp add: labelled_series_def)
  with Cons.IH [of c1 agg1 ops1] Cons.prems observe_tenant_touched [OF step] show ?case
    by (auto simp: step)
qed auto

lemma Collector_Observe_touched:
  "touched_by (fst (Collector_Observe fm pool tenants at' c)) \<subseteq>
     pool_series (po_Namespace pool) (po_Pool pool) \<union> labelled_series pool tenants"
proof -
  let ?c = "c\<lparr>co_pools := (co_pools c)((po_Namespace pool, po_Pool pool) \<mapsto> \<lparr>pr_observedAt = at', pr_perTenant = po_PerTenantMetrics pool\<rparr>)\<rparr>"
  let ?ops = "if co_Metrics c \<and> (case co_pools c (po_Namespace pool, po_Pool pool) of None \<Rightarrow> False | Some r \<Rightarrow> pr_perTenant r)
                \<and> \<not> po_PerTenantMetrics pool then ForgetTenantStats (po_Namespace pool) (po_Pool pool) else []"
  obtain c1 agg ops where run: "fold (observe_tenant fm pool at') tenants (?c, no_sums, ?ops) = (c1, agg, ops)"
    by (cases "fold (observe_tenant fm pool at') tenants (?c, no_sums, ?ops)")
  have "touched_by ?ops = {}" by (simp add: ForgetTenantStats_def)
  with observe_tenants_touched [OF run] round_gauges_touched [of pool "length tenants" agg "co_Store c1"] run show ?thesis
    by (auto simp: Collector_Observe_def Let_def)
qed

lemma card_pool_series: "finite (pool_series ns pool) \<and> card (pool_series ns pool) = SeriesPerPool"
  by (simp add: pool_series_def RegisterPool_def SeriesPerPool_def Stats_def Roles_def
      connectionStatistics_def tenantStatistics_def tenantStates_def card_insert_if)

lemma card_tenant_series: "finite (tenant_series ns pool tenant) \<and> card (tenant_series ns pool tenant) = SeriesPerTenant"
  by (simp add: tenant_series_def RegisterTenant_def SeriesPerTenant_def Stats_def Roles_def card_insert_if)

text \<open>
  C31. The number of series one round touches does not depend on how many tenants the pool has: it is at
  most the documented 32 per pool, and 16 more per tenant only while the pool asks for metrics per
  tenant. Registering the pool creates exactly those 32.
\<close>

theorem series_are_bounded:
  "card (touched_by (fst (Collector_Observe fm pool tenants at' c))) \<le>
     SeriesPerPool + (if po_PerTenantMetrics pool then SeriesPerTenant * length tenants else 0) \<and>
   touched_by (fst (Collector_Observe fm pool tenants at' c)) \<subseteq>
     touched_by (RegisterPool (po_Namespace pool) (po_Pool pool)) \<union>
     (if po_PerTenantMetrics pool
      then \<Union>t \<in> set tenants. touched_by (RegisterTenant (po_Namespace pool) (po_Pool pool) (key_Tenant (to_Key t))) else {}) \<and>
   card (touched_by (RegisterPool (po_Namespace pool) (po_Pool pool))) = 32 \<and> SeriesPerPool = 32 \<and> SeriesPerTenant = 16"
proof -
  let ?P = "pool_series (po_Namespace pool) (po_Pool pool)" and ?L = "labelled_series pool tenants"
  have "card ?L \<le> (if po_PerTenantMetrics pool then SeriesPerTenant * length tenants else 0) \<and> finite ?L"
  proof -
    have "card (\<Union>t \<in> set tenants. tenant_series (po_Namespace pool) (po_Pool pool) (key_Tenant (to_Key t)))
        \<le> (\<Sum>t \<in> set tenants. SeriesPerTenant)"
      using card_UN_le [of "set tenants" "\<lambda>t. tenant_series (po_Namespace pool) (po_Pool pool) (key_Tenant (to_Key t))"]
      by (simp add: card_tenant_series)
    also have "\<dots> \<le> SeriesPerTenant * length tenants" by (simp add: card_length)
    finally show ?thesis by (auto simp: labelled_series_def card_tenant_series)
  qed
  moreover have "card (touched_by (fst (Collector_Observe fm pool tenants at' c))) \<le> card (?P \<union> ?L)"
    using Collector_Observe_touched [of fm pool tenants at' c] calculation card_pool_series by (intro card_mono) auto
  moreover have "card (?P \<union> ?L) \<le> card ?P + card ?L" by (rule card_Un_le)
  moreover have "SeriesPerPool = 32" "SeriesPerTenant = 16"
    by (simp_all add: SeriesPerPool_def SeriesPerTenant_def Stats_def Roles_def)
  ultimately show ?thesis
    using Collector_Observe_touched [of fm pool tenants at' c] card_pool_series [of "po_Namespace pool" "po_Pool pool"]
    unfolding labelled_series_def pool_series_def tenant_series_def by auto
qed

section \<open>A scrape replaces the one before\<close>

text \<open>
  After a scrape of an instance, a reading of one of its databases is found exactly when the scrape
  listed the database and is not older than the limit; a database that has gone is not reported any
  more, and other instances are not affected.
\<close>

theorem scrape_replaces_the_last:
  assumes "distinct (map fst byDatabase)"
  shows "DatabaseStatsFor (RecordDatabaseStats ns inst at' byDatabase c) key now =
    (if rk_Namespace key = ns \<and> rk_Instance key = inst then
       (if time_sub now at' > ReadingTTL then None else map_of byDatabase (rk_Database key))
     else DatabaseStatsFor c key now)"
proof -
  have "co_readings (RecordDatabaseStats ns inst at' byDatabase c) key =
      (if rk_Namespace key = ns \<and> rk_Instance key = inst
       then map_option (\<lambda>stats. \<lparr>rd_stats = stats, rd_observedAt = at'\<rparr>) (map_of byDatabase (rk_Database key))
       else co_readings c key)"
    using assms unfolding RecordDatabaseStats_def
  proof (induction byDatabase rule: rev_induct)
    case Nil
    then show ?case by (simp add: drop_readings_def)
  next
    case (snoc x xs)
    obtain d stats where x: "x = (d, stats)" by (cases x)
    with snoc have "map_of xs d = None" by (auto simp: map_of_eq_None_iff)
    with snoc x show ?case by (cases key) (auto simp: map_add_def split: option.splits)
  qed
  then show ?thesis by (cases "map_of byDatabase (rk_Database key)") (auto simp: DatabaseStatsFor_def)
qed

theorem scrape_replaces_the_last_witness:
  "DatabaseStatsFor (RecordDatabaseStats ''ns'' ''i'' 0 [(''db'', sample_reading 7)] (NewCollector hourly True))
     \<lparr>rk_Namespace = ''ns'', rk_Instance = ''i'', rk_Database = ''db''\<rparr> ReadingTTL = Some (sample_reading 7)"
  by (subst scrape_replaces_the_last) (simp_all add: ReadingTTL_def minute_def second_def time_sub_def)

section \<open>A transition is counted once\<close>

datatype transition_call =
    CallObserve string string string string "string list" time
  | CallForget string string string string duration "string list"

fun transition_step :: "transition_call \<Rightarrow> known \<Rightarrow> transition_op list \<times> known" where
  "transition_step (CallObserve ns kind name phase phases entered) known =
     Transitions_Observe ns kind name phase phases entered known"
| "transition_step (CallForget ns kind name outcome took phases) known =
     Transitions_Forget ns kind name outcome took phases known"

fun is_count :: "transition_op \<Rightarrow> bool" where
  "is_count (TInc v ls) \<longleftrightarrow> True"
| "is_count _ \<longleftrightarrow> False"

text \<open>The calls that find their object not in flight yet.\<close>

fun starts :: "transition_call \<Rightarrow> known \<Rightarrow> bool" where
  "starts (CallObserve ns kind name phase phases entered) known \<longleftrightarrow>
     known \<lparr>trk_kind = kind, trk_namespace = ns, trk_name = name\<rparr> = None"
| "starts (CallForget ns kind name outcome took phases) known \<longleftrightarrow> False"

fun transition_run :: "transition_call list \<Rightarrow> known \<Rightarrow> nat \<times> nat \<times> known" where
  "transition_run [] known = (0, 0, known)"
| "transition_run (call # calls) known =
     (case transition_step call known of
        (ops, known') \<Rightarrow>
          (case transition_run calls known' of
             (counted, started, known'') \<Rightarrow>
               (length (filter is_count ops) + counted, (if starts call known then 1 else 0) + started, known'')))"

lemma transition_step_balance:
  assumes "finite (dom known)" "transition_step call known = (ops, known')"
  shows "finite (dom known') \<and>
    length (filter is_count ops) + InFlight known' = (if starts call known then 1 else 0) + InFlight known"
proof (cases call)
  case (CallObserve ns kind name phase phases entered)
  have "filter is_count (map (\<lambda>c. TSet VecPhase [ns, kind, name, c] (if c = phase then 1 else 0)) phases) = []"
    by (simp add: filter_empty_conv)
  with CallObserve assms show ?thesis
    by (auto simp: Transitions_Observe_def Let_def InFlight_def card_insert_if insert_absorb domIff)
next
  case (CallForget ns kind name outcome took phases)
  let ?key = "\<lparr>trk_kind = kind, trk_namespace = ns, trk_name = name\<rparr>"
  have "filter is_count (map (\<lambda>c. TDelete VecPhase [ns, kind, name, c]) phases) = []"
    by (simp add: filter_empty_conv)
  moreover have "known ?key \<noteq> None \<Longrightarrow> card (dom known) = Suc (card (dom known - {?key}))"
    using assms(1) by (intro card.remove) auto
  ultimately show ?thesis
    using CallForget assms
    by (cases "known ?key") (auto simp: Transitions_Forget_def Let_def InFlight_def dropRoute_def domIff)
qed

text \<open>
  However often a finished transition is forgotten again, it is counted once: over any sequence of
  calls the number of counts plus the objects still in flight is the number of objects that started.
\<close>

theorem transitions_are_counted_once:
  "case transition_run calls Map.empty of
     (counted, started, known) \<Rightarrow> counted + InFlight known = started"
proof -
  have "case transition_run calls known of
      (counted, started, known') \<Rightarrow> counted + InFlight known' = started + InFlight known" if "finite (dom known)" for known
    using that
  proof (induction calls arbitrary: known)
    case (Cons call calls)
    obtain ops known1 where step: "transition_step call known = (ops, known1)" by fastforce
    from transition_step_balance [OF Cons.prems step] Cons.IH [of known1] step show ?case
      by (auto split: prod.splits)
  qed simp
  from this [of Map.empty] show ?thesis by (simp add: InFlight_def)
qed

end
