(* ===== verification/Instance_Roll.thy ===== *)
theory Instance_Roll
  imports HA_Controller Go_Effects Pgconf
begin

text \<open>
  \<open>internal/controller/pginstance_roll.go\<close> and \<open>internal/instance/provision/roll.go\<close>: the rolling
  restart of an instance. One pass is an effect over the object it works on and the calls it makes
  (\<open>pass\<close>); what the API server, the nodes and the proxy fleet answer is the environment \<open>roll_env\<close>,
  and the several readings of the clock in one pass are one instant. Shown: a member is deleted only
  when every other one is there and serving and the commits of the instance can go on without it; the
  primary is never deleted, and is named for maintenance only with its clients drained; what the roll
  waits for without end.
\<close>

section \<open>State\<close>

datatype roll_reason = RollReasonConfigChanged | RollReasonRestartRequested | RollReasonNodeDraining

datatype roll_step =
    RollStepQuiescing | RollStepSwitchingOver | RollStepRestarting | RollStepBlocked | RollStepStalled

record InstanceDrain =
  dr_Known :: bool
  dr_Quiesced :: bool
  dr_InFlight :: int
  dr_Queued :: int
  dr_Drained :: bool

datatype blocked =
    TwoOutOfRecovery
  | NoPrimaryYet
  | FailoverInFlight
  | MembersMissing nat int
  | StillTerminating string
  | MembersNotReady nat int
  | Rebuilding string
  | CommitsStalling
  | EvidenceTooOld
  | LastStreaming string

datatype roll_message =
    WaitingForService string
  | BeingRecreated string
  | Blocked blocked
  | HandingTo string string
  | HandingAway string
  | HoldingClients string int int
  | GaveUp string int duration
  | NoMessage

record roll_status =
  rt_Member :: string
  rt_Reason :: "roll_reason option"
  rt_Step :: roll_step
  rt_Pending :: int
  rt_StartedAt :: "time option"
  rt_Message :: roll_message

record roll_target =
  tg_member :: string
  tg_reason :: roll_reason

record roll_state =
  rs_active :: bool
  rs_member :: string
  rs_reason :: "roll_reason option"
  rs_step :: "roll_step option"
  rs_pending :: int
  rs_startedAt :: "time option"
  rs_message :: roll_message

definition no_roll :: roll_state where
  "no_roll = \<lparr>rs_active = False, rs_member = [], rs_reason = None, rs_step = None, rs_pending = 0,
              rs_startedAt = None, rs_message = NoMessage\<rparr>"

text \<open>The instance, with the parts of its spec and status that only the roll reads.\<close>

record roll_instance =
  ri_object :: instance_object
  ri_Replicas :: "int option"
  ri_SwitchoverTimeout :: "duration option"
  ri_Rejoining :: "(string \<times> string) list"
  ri_Roll :: "roll_status option"

record roll_pod =
  rp_pod :: pod
  rp_Annotations :: "string \<rightharpoonup> string"
  rp_Labels :: "string \<rightharpoonup> string"
  rp_NodeName :: string

abbreviation rp_Name :: "roll_pod \<Rightarrow> string" where
  "rp_Name p \<equiv> pod_Name (rp_pod p)"

definition rollRequeue :: duration where "rollRequeue = second"
definition rollEvidenceMaxAge :: duration where "rollEvidenceMaxAge = 30 * second"
definition rollStalledBackoff :: duration where "rollStalledBackoff = 10 * minute"

definition replicasOf :: "roll_instance \<Rightarrow> int" where
  "replicasOf inst = (case ri_Replicas inst of None \<Rightarrow> 3 | Some n \<Rightarrow> n)"

definition SwitchoverTimeout :: "roll_instance \<Rightarrow> duration" where
  "SwitchoverTimeout inst =
     (case ri_SwitchoverTimeout inst of None \<Rightarrow> 60 * second | Some d \<Rightarrow> if d > 0 then d else 60 * second)"

text \<open>The first member that reports that it is rebuilding itself.\<close>

fun rejoiningMember :: "(string \<times> string) list \<Rightarrow> string option" where
  "rejoiningMember [] = None"
| "rejoiningMember ((name, rejoining) # rest) = (if rejoining \<noteq> [] then Some name else rejoiningMember rest)"

section \<open>Stamps\<close>

record RollStamp =
  sp_ConfigHash :: string
  sp_RestartedAt :: string

definition AnnotationConfigHash :: string where "AnnotationConfigHash = ''pgelastic.io/configHash''"
definition AnnotationRestartedAt :: string where "AnnotationRestartedAt = ''pgelastic.io/restartedAt''"

definition empty_or :: "string option \<Rightarrow> string" where
  "empty_or v = (case v of None \<Rightarrow> [] | Some s \<Rightarrow> s)"

definition RollStamp_Annotations :: "RollStamp \<Rightarrow> (string \<rightharpoonup> string)" where
  "RollStamp_Annotations s =
     (if sp_RestartedAt s \<noteq> [] then [AnnotationConfigHash \<mapsto> sp_ConfigHash s, AnnotationRestartedAt \<mapsto> sp_RestartedAt s]
      else [AnnotationConfigHash \<mapsto> sp_ConfigHash s])"

definition StampOf :: "roll_pod \<Rightarrow> RollStamp" where
  "StampOf p =
     \<lparr>sp_ConfigHash = empty_or (rp_Annotations p AnnotationConfigHash),
      sp_RestartedAt = empty_or (rp_Annotations p AnnotationRestartedAt)\<rparr>"

text \<open>\<open>pgconf.Hash\<close> is a SHA-256 and stays a parameter.\<close>

definition ConfigHash :: "(string list \<Rightarrow> string) \<Rightarrow> instance_config \<Rightarrow> hba_config \<Rightarrow> string" where
  "ConfigHash hash postgres hba =
     hash [FormatSettings ''custom'' (RenderCustomConf (postgres\<lparr>ic_PrimaryEpoch := 0\<rparr>)), RenderHBA hba]"

definition DesiredStamp :: "(string list \<Rightarrow> string) \<Rightarrow> instance_config \<Rightarrow> hba_config \<Rightarrow> instance_object \<Rightarrow> RollStamp" where
  "DesiredStamp hash postgres hba inst =
     \<lparr>sp_ConfigHash = ConfigHash hash postgres hba,
      sp_RestartedAt = empty_or (io_Annotations inst AnnotationRestartedAt)\<rparr>"

section \<open>What a pass can do\<close>

datatype roll_call =
    DeletePod string
  | QuiesceInstance
  | InstanceDrainStatus
  | ResumeInstance
  | ReleaseInstance
  | PatchMaintenance string

datatype delete_result = PodDeleted | PodNotFound | DeleteFailed error

record node =
  nd_Unschedulable :: bool
  nd_Taints :: "(string \<times> string) list"

record endpoint =
  ep_Ready :: "bool option"
  ep_Addresses :: "string list"

record roll_env =
  re_now :: time
  re_desired :: RollStamp
  re_members :: "member list"
  re_node :: "string \<Rightarrow> node option"
  re_endpoints :: "error + endpoint list list"
  re_quiescer :: bool
  re_quiesce :: "error + unit"
  re_drain :: "error + InstanceDrain"
  re_resume :: "error + unit"
  re_release :: "error + unit"
  re_patch :: "error + unit"
  re_delete :: "string \<Rightarrow> delete_result"

record pass =
  ps_inst :: roll_instance
  ps_calls :: "roll_call list"

definition calls :: "roll_call \<Rightarrow> error + 'a \<Rightarrow> (pass, 'a) eff" where
  "calls c r = (\<lambda>w. (r, w\<lparr>ps_calls := ps_calls w @ [c]\<rparr>))"

text \<open>Reading the object as the pass has left it so far.\<close>

definition with_inst :: "(roll_instance \<Rightarrow> (pass, 'a) eff) \<Rightarrow> (pass, 'a) eff" where
  "with_inst f = (\<lambda>w. f (ps_inst w) w)"

fun podNamed :: "roll_pod list \<Rightarrow> string \<Rightarrow> roll_pod option" where
  "podNamed [] name = None"
| "podNamed (p # pods) name = (if rp_Name p = name then Some p else podNamed pods name)"

definition join_names :: "string list \<Rightarrow> string" where
  "join_names names = (case names of [] \<Rightarrow> [] | n # ns \<Rightarrow> n @ concat (map (\<lambda>s. CHR '','' # s) ns))"

definition set_annotation :: "string \<Rightarrow> roll_instance \<Rightarrow> roll_instance" where
  "set_annotation desired inst =
     inst\<lparr>ri_object := (ri_object inst)\<lparr>io_Annotations :=
        (io_Annotations (ri_object inst))(AnnotationMaintenance := (if desired = [] then None else Some desired))\<rparr>\<rparr>"

definition setMaintenance :: "roll_env \<Rightarrow> string list \<Rightarrow> (pass, unit) eff" where
  "setMaintenance env members =
     with_inst (\<lambda>inst.
       let desired = join_names members in
       if empty_or (io_Annotations (ri_object inst) AnnotationMaintenance) = desired then eff_return ()
       else (\<lambda>w. calls (PatchMaintenance desired) (re_patch env) (w\<lparr>ps_inst := set_annotation desired inst\<rparr>)))"

definition holdClients :: "roll_env \<Rightarrow> (pass, InstanceDrain) eff" where
  "holdClients env =
     (if \<not> re_quiescer env
      then eff_return \<lparr>dr_Known = False, dr_Quiesced = False, dr_InFlight = 0, dr_Queued = 0, dr_Drained = False\<rparr>
      else eff_then (calls QuiesceInstance (re_quiesce env)) (calls InstanceDrainStatus (re_drain env)))"

definition resumeClients :: "roll_env \<Rightarrow> (pass, unit) eff" where
  "resumeClients env = (if \<not> re_quiescer env then eff_return () else calls ResumeInstance (re_resume env))"

definition releaseClients :: "roll_env \<Rightarrow> (pass, unit) eff" where
  "releaseClients env = (if \<not> re_quiescer env then eff_return () else calls ReleaseInstance (re_release env))"

section \<open>The decision of one pass\<close>

definition stepping :: "roll_env \<Rightarrow> roll_instance \<Rightarrow> roll_state \<Rightarrow> roll_step \<Rightarrow> roll_message \<Rightarrow> roll_state" where
  "stepping env inst state step message =
     (let startedAt =
        (case ri_Roll inst of
           Some previous \<Rightarrow>
             if rt_Member previous = rs_member state \<and> rt_Step previous = step \<and> rt_StartedAt previous \<noteq> None
             then rt_StartedAt previous else Some (re_now env)
         | None \<Rightarrow> Some (re_now env)) in
      state\<lparr>rs_step := Some step, rs_message := message, rs_startedAt := startedAt\<rparr>)"

definition rollReasonOf :: "roll_instance \<Rightarrow> roll_reason" where
  "rollReasonOf inst =
     (case ri_Roll inst of
        Some roll \<Rightarrow> (case rt_Reason roll of Some r \<Rightarrow> r | None \<Rightarrow> RollReasonConfigChanged)
      | None \<Rightarrow> RollReasonConfigChanged)"

definition pendingOf :: "roll_instance \<Rightarrow> int" where
  "pendingOf inst = (case ri_Roll inst of Some roll \<Rightarrow> rt_Pending roll | None \<Rightarrow> 1)"

definition holdingClients :: "roll_instance \<Rightarrow> bool" where
  "holdingClients inst =
     (case ri_Roll inst of
        None \<Rightarrow> False
      | Some roll \<Rightarrow> rt_Step roll = RollStepQuiescing \<or> rt_Step roll = RollStepSwitchingOver)"

fun endpoints_loop :: "string \<Rightarrow> endpoint list \<Rightarrow> nat \<Rightarrow> nat option" where
  "endpoints_loop ip [] selected = Some selected"
| "endpoints_loop ip (e # es) selected =
     (if ep_Ready e = Some False then endpoints_loop ip es selected
      else if ip \<notin> set (ep_Addresses e) then None
      else endpoints_loop ip es (selected + 1))"

definition LabelRole :: string where "LabelRole = ''pgelastic.io/role''"

definition readWriteEndpointsSettled :: "roll_env \<Rightarrow> roll_instance \<Rightarrow> roll_pod list \<Rightarrow> bool" where
  "readWriteEndpointsSettled env inst pods =
     (case podNamed pods (io_CurrentPrimary (ri_object inst)) of
        None \<Rightarrow> False
      | Some primary \<Rightarrow>
          if pod_IP (rp_pod primary) = [] then False
          else case re_endpoints env of
            Inl _ \<Rightarrow> rp_Labels primary LabelRole = Some ''primary''
          | Inr slices \<Rightarrow>
              (case endpoints_loop (pod_IP (rp_pod primary)) (concat slices) 0 of
                 None \<Rightarrow> False
               | Some selected \<Rightarrow> selected > 0))"

definition nodeUnschedulable :: "roll_env \<Rightarrow> string \<Rightarrow> bool" where
  "nodeUnschedulable env name =
     (case re_node env name of
        None \<Rightarrow> False
      | Some n \<Rightarrow>
          nd_Unschedulable n \<or>
          list_ex (\<lambda>(key, effect). key = ''node.kubernetes.io/unschedulable'' \<or> effect = ''NoExecute'') (nd_Taints n))"

definition primaryNodeGoingAway :: "roll_env \<Rightarrow> roll_pod list \<Rightarrow> string \<Rightarrow> bool" where
  "primaryNodeGoingAway env pods primary =
     (case podNamed pods primary of
        None \<Rightarrow> False
      | Some p \<Rightarrow>
          if rp_NodeName p = [] \<or> \<not> nodeUnschedulable env (rp_NodeName p) then False
          else list_ex (\<lambda>other.
                 \<not> (rp_Name other = primary \<or> rp_NodeName other = [] \<or> \<not> podReady (rp_pod other)) \<and>
                 \<not> nodeUnschedulable env (rp_NodeName other)) pods)"

text \<open>The replay position a member reported, zero when it did not.\<close>

definition replayed :: "member list \<Rightarrow> string \<Rightarrow> LSN" where
  "replayed members name = foldl (\<lambda>pos m. if m_Name m = name then m_ReplayLSN m else pos) 0 members"

definition target_cmp :: "roll_env \<Rightarrow> string \<Rightarrow> roll_target \<Rightarrow> roll_target \<Rightarrow> int" where
  "target_cmp env primary a b =
     (if (tg_member a = primary) \<noteq> (tg_member b = primary) then (if tg_member a = primary then 1 else -1)
      else if replayed (re_members env) (tg_member a) \<noteq> replayed (re_members env) (tg_member b)
      then (if replayed (re_members env) (tg_member a) < replayed (re_members env) (tg_member b) then -1 else 1)
      else go_compare (tg_member a) (tg_member b))"

definition rankTargets :: "roll_env \<Rightarrow> roll_instance \<Rightarrow> roll_target list \<Rightarrow> roll_target list" where
  "rankTargets env inst targets = sort_func (target_cmp env (io_CurrentPrimary (ri_object inst))) targets"

definition prependRecreating :: "roll_instance \<Rightarrow> roll_pod list \<Rightarrow> roll_target list \<Rightarrow> roll_target list" where
  "prependRecreating inst pods targets =
     (case ri_Roll inst of
        None \<Rightarrow> targets
      | Some roll \<Rightarrow>
          if rt_Member roll = [] \<or> podNamed pods (rt_Member roll) \<noteq> None then targets
          else if list_ex (\<lambda>t. tg_member t = rt_Member roll) targets then targets
          else \<lparr>tg_member = rt_Member roll, tg_reason = rollReasonOf inst\<rparr> # targets)"

fun pod_target :: "roll_env \<Rightarrow> roll_pod list \<Rightarrow> string \<Rightarrow> roll_pod \<Rightarrow> roll_target list" where
  "pod_target env pods primary p =
     (let stamp = StampOf p; desired = re_desired env in
      if sp_ConfigHash stamp \<noteq> sp_ConfigHash desired then [\<lparr>tg_member = rp_Name p, tg_reason = RollReasonConfigChanged\<rparr>]
      else if sp_RestartedAt stamp \<noteq> sp_RestartedAt desired then [\<lparr>tg_member = rp_Name p, tg_reason = RollReasonRestartRequested\<rparr>]
      else if rp_Name p = primary \<and> primaryNodeGoingAway env pods primary then [\<lparr>tg_member = rp_Name p, tg_reason = RollReasonNodeDraining\<rparr>]
      else [])"

definition outstandingMembers :: "roll_env \<Rightarrow> roll_instance \<Rightarrow> roll_pod list \<Rightarrow> roll_target list" where
  "outstandingMembers env inst pods =
     (let primary = io_CurrentPrimary (ri_object inst) in
      prependRecreating inst pods (rankTargets env inst (concat (map (pod_target env pods primary) pods))))"

definition chooseTarget :: "roll_status option \<Rightarrow> roll_target list \<Rightarrow> roll_target" where
  "chooseTarget current outstanding =
     (case current of
        None \<Rightarrow> hd outstanding
      | Some c \<Rightarrow>
          (case find (\<lambda>t. tg_member t = rt_Member c) outstanding of
             Some t \<Rightarrow> t
           | None \<Rightarrow> hd outstanding))"

definition otherTerminating :: "roll_pod list \<Rightarrow> string \<Rightarrow> string" where
  "otherTerminating pods target =
     (case find (\<lambda>p. rp_Name p \<noteq> target \<and> pod_Deleting (rp_pod p)) pods of None \<Rightarrow> [] | Some p \<Rightarrow> rp_Name p)"

definition otherNotReady :: "roll_pod list \<Rightarrow> string \<Rightarrow> string" where
  "otherNotReady pods target =
     (case find (\<lambda>p. rp_Name p \<noteq> target \<and> \<not> podReady (rp_pod p)) pods of None \<Rightarrow> [] | Some p \<Rightarrow> rp_Name p)"

definition readyMembers :: "roll_pod list \<Rightarrow> nat" where
  "readyMembers pods = length (filter (\<lambda>p. podReady (rp_pod p)) pods)"

text \<open>\<open>None\<close> is fit, otherwise why not.\<close>

definition fitToRoll :: "roll_env \<Rightarrow> roll_instance \<Rightarrow> roll_pod list \<Rightarrow> decision \<Rightarrow> string \<Rightarrow> blocked option" where
  "fitToRoll env inst pods d target =
     (let obj = ri_object inst;
          replicas = replicasOf inst;
          evidence = EvidenceFrom (io_QuorumEvidence obj);
          rejoining = rejoiningMember (ri_Rejoining inst) in
      if d_SplitBrain d then Some TwoOutOfRecovery
      else if io_CurrentPrimary obj = [] then Some NoPrimaryYet
      else if FailoverInProgress (io_CurrentPrimary obj) (targetPrimaryAfter obj d) then Some FailoverInFlight
      else if int (length pods) < replicas then Some (MembersMissing (length pods) replicas)
      else if otherTerminating pods target \<noteq> [] then Some (StillTerminating (otherTerminating pods target))
      else if otherNotReady pods target \<noteq> [] then Some (MembersNotReady (readyMembers pods) replicas)
      else if (case rejoining of Some m \<Rightarrow> m \<noteq> target | None \<Rightarrow> False) then Some (Rebuilding (the rejoining))
      else if WriteStalled evidence then Some CommitsStalling
      else if EvidenceStale evidence (re_now env) rollEvidenceMaxAge then Some EvidenceTooOld
      else if WouldStall evidence target then Some (LastStreaming target)
      else None)"

definition stillStalled :: "roll_env \<Rightarrow> roll_instance \<Rightarrow> string \<Rightarrow> roll_state option" where
  "stillStalled env inst member =
     (case ri_Roll inst of
        None \<Rightarrow> None
      | Some previous \<Rightarrow>
          if rt_Member previous \<noteq> member \<or> rt_Step previous \<noteq> RollStepStalled then None
          else case rt_StartedAt previous of
            None \<Rightarrow> None
          | Some t \<Rightarrow>
              if time_sub (re_now env) t \<ge> rollStalledBackoff then None
              else Some \<lparr>rs_active = True, rs_member = member, rs_reason = rt_Reason previous,
                         rs_step = Some RollStepStalled, rs_pending = rt_Pending previous,
                         rs_startedAt = Some t, rs_message = rt_Message previous\<rparr>)"

definition abandonIfStuck :: "roll_env \<Rightarrow> roll_state \<Rightarrow> InstanceDrain \<Rightarrow> (pass, roll_state) eff" where
  "abandonIfStuck env state drain =
     with_inst (\<lambda>inst.
       let budget = SwitchoverTimeout inst in
       if (case rs_startedAt state of None \<Rightarrow> True | Some t \<Rightarrow> time_sub (re_now env) t < budget) then eff_return state
       else eff_then (releaseClients env)
              (eff_return (state\<lparr>rs_step := Some RollStepStalled,
                                 rs_message := GaveUp (rs_member state) (dr_InFlight drain) budget,
                                 rs_startedAt := Some (re_now env)\<rparr>)))"

definition rollPrimary :: "roll_env \<Rightarrow> roll_pod list \<Rightarrow> decision \<Rightarrow> roll_state \<Rightarrow> (pass, roll_state) eff" where
  "rollPrimary env pods d state =
     with_inst (\<lambda>inst.
       if UnderMaintenance (io_Annotations (ri_object inst)) (rs_member state) then
         eff_return (stepping env inst state RollStepSwitchingOver
           (HandingTo (rs_member state) (targetPrimaryAfter (ri_object inst) d)))
       else case stillStalled env inst (rs_member state) of
         Some stalled \<Rightarrow> eff_return stalled
       | None \<Rightarrow>
           (case fitToRoll env inst pods d (rs_member state) of
              Some why \<Rightarrow> eff_return (stepping env inst state RollStepBlocked (Blocked why))
            | None \<Rightarrow>
                eff_bind (holdClients env) (\<lambda>drain.
                  if dr_Known drain \<and> \<not> dr_Drained drain then
                    abandonIfStuck env
                      (stepping env inst state RollStepQuiescing
                        (HoldingClients (rs_member state) (dr_Queued drain) (dr_InFlight drain))) drain
                  else
                    eff_then (setMaintenance env [rs_member state])
                      (eff_return (stepping env inst state RollStepSwitchingOver (HandingAway (rs_member state)))))))"

definition rollMember :: "roll_env \<Rightarrow> roll_pod list \<Rightarrow> decision \<Rightarrow> roll_state \<Rightarrow> (pass, roll_state) eff" where
  "rollMember env pods d state =
     with_inst (\<lambda>inst.
       let restarting = stepping env inst state RollStepRestarting (BeingRecreated (rs_member state)) in
       case podNamed pods (rs_member state) of
         None \<Rightarrow> eff_return restarting
       | Some p \<Rightarrow>
           if pod_Deleting (rp_pod p) then eff_return restarting
           else (case fitToRoll env inst pods d (rs_member state) of
                   Some why \<Rightarrow> eff_return (stepping env inst state RollStepBlocked (Blocked why))
                 | None \<Rightarrow>
                     eff_then (calls (DeletePod (rp_Name p))
                                 (case re_delete env (rp_Name p) of DeleteFailed e \<Rightarrow> Inl e | _ \<Rightarrow> Inr ()))
                       (eff_return restarting)))"

text \<open>Whether the pass is still waiting for the read-write Service.\<close>

definition completeHandover :: "roll_env \<Rightarrow> roll_pod list \<Rightarrow> (pass, bool) eff" where
  "completeHandover env pods =
     with_inst (\<lambda>inst.
       let named = MaintenanceMembers (io_Annotations (ri_object inst));
           primary = io_CurrentPrimary (ri_object inst) in
       if named = [] \<or> primary = [] \<or> primary \<in> set named then eff_return False
       else if \<not> readWriteEndpointsSettled env inst pods then eff_return True
       else eff_then (resumeClients env) (eff_then (setMaintenance env []) (eff_return False)))"

definition finishRoll :: "roll_env \<Rightarrow> (pass, unit) eff" where
  "finishRoll env =
     with_inst (\<lambda>inst.
       eff_then (if holdingClients inst then resumeClients env else eff_return ()) (setMaintenance env []))"

definition reconcileRoll :: "roll_env \<Rightarrow> roll_pod list \<Rightarrow> decision \<Rightarrow> (pass, roll_state) eff" where
  "reconcileRoll env pods d =
     eff_bind (completeHandover env pods) (\<lambda>settling. with_inst (\<lambda>inst.
       let primary = io_CurrentPrimary (ri_object inst) in
       if settling then
         eff_return (stepping env inst
           (no_roll\<lparr>rs_active := True, rs_member := primary, rs_reason := Some (rollReasonOf inst), rs_pending := pendingOf inst\<rparr>)
           RollStepSwitchingOver (WaitingForService primary))
       else
         let outstanding = outstandingMembers env inst pods in
         if outstanding = [] then eff_then (finishRoll env) (eff_return no_roll)
         else
           let target = chooseTarget (ri_Roll inst) outstanding;
               state = no_roll\<lparr>rs_active := True, rs_member := tg_member target,
                               rs_reason := Some (tg_reason target), rs_pending := int (length outstanding)\<rparr> in
           if tg_member target = primary then rollPrimary env pods d state
           else rollMember env pods d state))"

text \<open>What the status publishes of the roll, with the instant in RFC 3339 form.\<close>

definition rollStatus :: "roll_state \<Rightarrow> roll_status option" where
  "rollStatus state =
     (if \<not> rs_active state then None
      else Some \<lparr>rt_Member = rs_member state, rt_Reason = rs_reason state, rt_Step = the (rs_step state),
                 rt_Pending = rs_pending state, rt_StartedAt = map_option rfc3339 (rs_startedAt state),
                 rt_Message = rs_message state\<rparr>)"

section \<open>What fitness means\<close>

lemma find_name:
  assumes "\<forall>p \<in> set pods. rp_Name p \<noteq> []"
  shows "(case find P pods of None \<Rightarrow> [] | Some p \<Rightarrow> rp_Name p) = [] \<longleftrightarrow> (\<forall>p \<in> set pods. \<not> P p)"
  using assms by (auto simp: find_None_iff find_Some_iff split: option.split)

lemma remaining_loop_count: "remaining_loop member n xs = n + int (length (filter (\<lambda>x. x \<noteq> member) xs))"
  by (induction xs arbitrary: n) auto

text \<open>
  That an instance can afford to lose a member: every other member is there, serving and staying, no
  role change is under way, and the last word of the primary, not older than half a minute, is that
  enough other standbys are streaming for its commits.
\<close>

definition affordable :: "time \<Rightarrow> roll_instance \<Rightarrow> roll_pod list \<Rightarrow> decision \<Rightarrow> string \<Rightarrow> bool" where
  "affordable now inst pods d target \<longleftrightarrow>
     \<not> d_SplitBrain d \<and> io_CurrentPrimary (ri_object inst) \<noteq> [] \<and>
     targetPrimaryAfter (ri_object inst) d = io_CurrentPrimary (ri_object inst) \<and>
     replicasOf inst \<le> int (length pods) \<and>
     (\<forall>p \<in> set pods. rp_Name p \<noteq> target \<longrightarrow> podReady (rp_pod p) \<and> \<not> pod_Deleting (rp_pod p)) \<and>
     (\<forall>m. rejoiningMember (ri_Rejoining inst) = Some m \<longrightarrow> m = target) \<and>
     (let ev = EvidenceFrom (io_QuorumEvidence (ri_object inst)) in
      ev_ObservedAt ev \<noteq> 0 \<and> now - ev_ObservedAt ev \<le> rollEvidenceMaxAge \<and>
      ev_NumSync ev \<le> int (length (filter (\<lambda>m. m \<noteq> target) (ev_StreamingMembers ev))))"

lemma targetPrimaryAfter_nonempty: "targetPrimaryAfter inst d \<noteq> []"
  by (auto simp: targetPrimaryAfter_def targetPrimaryOf_def MemberName_def)

lemma fitToRoll_affordable:
  assumes "fitToRoll env inst pods d target = None" "\<forall>p \<in> set pods. rp_Name p \<noteq> []"
  shows "affordable (re_now env) inst pods d target"
proof -
  have "rollEvidenceMaxAge < time_sub (re_now env) t \<longleftrightarrow> rollEvidenceMaxAge < re_now env - t" for t
    by (auto simp: time_sub_def rollEvidenceMaxAge_def second_def)
  with assms show ?thesis
    unfolding affordable_def fitToRoll_def otherTerminating_def otherNotReady_def Let_def
    by (auto simp: find_name [OF assms(2)] FailoverInProgress_def targetPrimaryAfter_nonempty EvidenceStale_def IsZero_def
        WouldStall_def remaining_loop_count split: if_splits option.splits)
qed

section \<open>The calls of a pass\<close>

text \<open>An effect that adds only calls of a kind and changes nothing of the object but its annotations.\<close>

definition same_but_annotations :: "roll_instance \<Rightarrow> roll_instance \<Rightarrow> bool" where
  "same_but_annotations a b \<longleftrightarrow>
     (\<exists>ann. b = a\<lparr>ri_object := (ri_object a)\<lparr>io_Annotations := ann\<rparr>\<rparr>)"

definition only_calls :: "(roll_call \<Rightarrow> bool) \<Rightarrow> (pass, 'a) eff \<Rightarrow> bool" where
  "only_calls P m \<longleftrightarrow>
     (\<forall>w. (\<exists>cs. ps_calls (snd (m w)) = ps_calls w @ cs \<and> list_all P cs) \<and>
          same_but_annotations (ps_inst w) (ps_inst (snd (m w))))"

named_theorems roll_calls

lemma same_refl [simp]: "same_but_annotations a a"
proof -
  have "a = a\<lparr>ri_object := (ri_object a)\<lparr>io_Annotations := io_Annotations (ri_object a)\<rparr>\<rparr>" by simp
  then show ?thesis unfolding same_but_annotations_def by blast
qed

lemma same_trans: "same_but_annotations a b \<Longrightarrow> same_but_annotations b c \<Longrightarrow> same_but_annotations a c"
  by (auto simp: same_but_annotations_def)

lemma only_return [roll_calls]: "only_calls P (eff_return x)"
  by (simp add: only_calls_def eff_return_def)

lemma only_calls_call [roll_calls]: "P c \<Longrightarrow> only_calls P (calls c r)"
  by (simp add: only_calls_def calls_def)

lemma only_bind [roll_calls]:
  assumes "only_calls P m" "\<And>x. only_calls P (f x)"
  shows "only_calls P (eff_bind m f)"
  unfolding only_calls_def
proof
  fix w
  obtain r w1 where step: "m w = (r, w1)" by fastforce
  from assms(1) step obtain cs where 1: "ps_calls w1 = ps_calls w @ cs" "list_all P cs" "same_but_annotations (ps_inst w) (ps_inst w1)"
    unfolding only_calls_def by (metis snd_conv)
  show "(\<exists>cs. ps_calls (snd (eff_bind m f w)) = ps_calls w @ cs \<and> list_all P cs) \<and>
      same_but_annotations (ps_inst w) (ps_inst (snd (eff_bind m f w)))"
  proof (cases r)
    case (Inl e)
    with step 1 show ?thesis by (auto simp: eff_bind_def)
  next
    case (Inr x)
    from assms(2) [of x] obtain ds where "ps_calls (snd (f x w1)) = ps_calls w1 @ ds" "list_all P ds"
      "same_but_annotations (ps_inst w1) (ps_inst (snd (f x w1)))"
      unfolding only_calls_def by metis
    with step 1 Inr show ?thesis by (auto simp: eff_bind_def intro: same_trans)
  qed
qed

lemma only_then [roll_calls]: "only_calls P m \<Longrightarrow> only_calls P n \<Longrightarrow> only_calls P (eff_then m n)"
  by (simp add: eff_then_def only_bind)

lemma only_with_inst [roll_calls]: "(\<And>inst. only_calls P (f inst)) \<Longrightarrow> only_calls P (with_inst f)"
  by (simp add: only_calls_def with_inst_def)

lemma only_if [roll_calls]: "only_calls P m \<Longrightarrow> only_calls P n \<Longrightarrow> only_calls P (if b then m else n)"
  by simp

lemma only_option [roll_calls]:
  "only_calls P m \<Longrightarrow> (\<And>x. only_calls P (f x)) \<Longrightarrow> only_calls P (case r of None \<Rightarrow> m | Some x \<Rightarrow> f x)"
  by (cases r) simp_all

lemma same_set_annotation [simp]: "same_but_annotations inst (set_annotation desired inst)"
  unfolding same_but_annotations_def set_annotation_def by blast

lemma setMaintenance_calls [roll_calls]: "P (PatchMaintenance (join_names ms)) \<Longrightarrow> only_calls P (setMaintenance env ms)"
  unfolding setMaintenance_def only_calls_def with_inst_def Let_def calls_def
  by (auto simp: eff_return_def)

lemma resumeClients_calls [roll_calls]: "P ResumeInstance \<Longrightarrow> only_calls P (resumeClients env)"
  unfolding resumeClients_def by (intro roll_calls)

lemma releaseClients_calls [roll_calls]: "P ReleaseInstance \<Longrightarrow> only_calls P (releaseClients env)"
  unfolding releaseClients_def by (intro roll_calls)

lemma holdClients_calls [roll_calls]: "P QuiesceInstance \<Longrightarrow> P InstanceDrainStatus \<Longrightarrow> only_calls P (holdClients env)"
  unfolding holdClients_def by (intro roll_calls)

definition gives_back :: "roll_call \<Rightarrow> bool" where
  "gives_back c \<longleftrightarrow> c = ResumeInstance \<or> c = PatchMaintenance []"

lemma completeHandover_calls: "only_calls gives_back (completeHandover env pods)"
  unfolding completeHandover_def Let_def by (intro roll_calls) (simp_all add: gives_back_def join_names_def)

lemma finishRoll_calls: "only_calls gives_back (finishRoll env)"
  unfolding finishRoll_def by (intro roll_calls) (simp_all add: gives_back_def join_names_def)

lemma only_callsD:
  assumes "only_calls P m" "m w = (r, w')"
  obtains cs where "ps_calls w' = ps_calls w @ cs" "list_all P cs" "same_but_annotations (ps_inst w) (ps_inst w')"
  using assms unfolding only_calls_def by (metis snd_conv)

lemma same_but_annotationsD:
  assumes "same_but_annotations a b"
  shows "affordable now b pods d m = affordable now a pods d m"
    and "io_CurrentPrimary (ri_object b) = io_CurrentPrimary (ri_object a)" and "ri_Roll b = ri_Roll a"
    and "outstandingMembers env b pods = outstandingMembers env a pods"
proof -
  obtain ann where b: "b = a\<lparr>ri_object := (ri_object a)\<lparr>io_Annotations := ann\<rparr>\<rparr>"
    using assms by (auto simp: same_but_annotations_def)
  show primary: "io_CurrentPrimary (ri_object b) = io_CurrentPrimary (ri_object a)" and roll: "ri_Roll b = ri_Roll a"
    by (simp_all add: b)
  show "outstandingMembers env b pods = outstandingMembers env a pods"
    unfolding outstandingMembers_def rankTargets_def prependRecreating_def rollReasonOf_def Let_def primary roll ..
  show "affordable now b pods d m = affordable now a pods d m"
    by (simp add: b affordable_def targetPrimaryAfter_def targetPrimaryOf_def replicasOf_def)
qed

definition not_delete :: "roll_call \<Rightarrow> bool" where
  "not_delete c \<longleftrightarrow> (\<forall>m. c \<noteq> DeletePod m)"

lemma rollPrimary_calls: "only_calls not_delete (rollPrimary env pods d state)"
  unfolding rollPrimary_def abandonIfStuck_def Let_def by (intro roll_calls) (simp_all add: not_delete_def)

lemma podNamed_Some: "podNamed pods name = Some p \<Longrightarrow> p \<in> set pods \<and> rp_Name p = name"
  by (induction pods) (auto split: if_splits)

text \<open>What one step on a replica may do: nothing, or delete its Pod when it is fit.\<close>

lemma rollMember_cases:
  assumes "rollMember env pods d state w = (r, w')"
  obtains (waits) "w' = w"
  | (deletes) p where "podNamed pods (rs_member state) = Some p" "\<not> pod_Deleting (rp_pod p)"
      "fitToRoll env (ps_inst w) pods d (rs_member state) = None"
      "w' = w\<lparr>ps_calls := ps_calls w @ [DeletePod (rs_member state)]\<rparr>"
proof (cases "podNamed pods (rs_member state)")
  case None
  with assms waits show ?thesis by (auto simp: rollMember_def with_inst_def Let_def eff_return_def)
next
  case (Some p)
  show ?thesis
  proof (cases "pod_Deleting (rp_pod p) \<or> fitToRoll env (ps_inst w) pods d (rs_member state) \<noteq> None")
    case True
    with assms Some waits show ?thesis
      by (auto simp: rollMember_def with_inst_def Let_def eff_return_def split: option.splits if_splits)
  next
    case False
    with assms Some podNamed_Some [OF Some] have "w' = w\<lparr>ps_calls := ps_calls w @ [DeletePod (rs_member state)]\<rparr>"
      by (auto simp: rollMember_def with_inst_def Let_def eff_then_def eff_bind_def eff_return_def calls_def
          split: option.splits sum.splits delete_result.splits)
    with False Some deletes show ?thesis by auto
  qed
qed

text \<open>The ways a pass can end, as the calls it made.\<close>

lemma reconcileRoll_cases:
  assumes "reconcileRoll env pods d \<lparr>ps_inst = inst, ps_calls = []\<rparr> = (r, w')"
  obtains (hands_back) cs where "ps_calls w' = cs" "list_all gives_back cs"
  | (primary) w1 cs state where "list_all gives_back cs" "ps_calls w1 = cs" "same_but_annotations inst (ps_inst w1)"
      "rs_member state = io_CurrentPrimary (ri_object inst)" "rollPrimary env pods d state w1 = (r, w')"
      "outstandingMembers env inst pods \<noteq> []"
      "tg_member (chooseTarget (ri_Roll inst) (outstandingMembers env inst pods)) = io_CurrentPrimary (ri_object inst)"
  | (member) w1 cs state where "list_all gives_back cs" "ps_calls w1 = cs" "same_but_annotations inst (ps_inst w1)"
      "rs_member state \<noteq> io_CurrentPrimary (ri_object inst)" "rollMember env pods d state w1 = (r, w')"
proof -
  let ?w = "\<lparr>ps_inst = inst, ps_calls = []\<rparr>"
  obtain settling w1 where first: "completeHandover env pods ?w = (settling, w1)" by fastforce
  from only_callsD [OF completeHandover_calls first]
  obtain cs where cs: "ps_calls w1 = cs" "list_all gives_back cs" "same_but_annotations inst (ps_inst w1)" by auto
  note same = same_but_annotationsD [OF cs(3)]
  show ?thesis
  proof (cases "settling = Inr False")
    case False
    with assms first cs hands_back show ?thesis
      by (cases settling) (auto simp: reconcileRoll_def eff_bind_def with_inst_def Let_def eff_return_def split: if_splits)
  next
    case True
    let ?out = "outstandingMembers env inst pods"
    let ?t = "chooseTarget (ri_Roll inst) ?out"
    let ?state = "no_roll\<lparr>rs_active := True, rs_member := tg_member ?t, rs_reason := Some (tg_reason ?t), rs_pending := int (length ?out)\<rparr>"
    have rest: "(r, w') = (if ?out = [] then eff_then (finishRoll env) (eff_return no_roll)
        else if tg_member ?t = io_CurrentPrimary (ri_object inst) then rollPrimary env pods d ?state
        else rollMember env pods d ?state) w1"
      using assms first True by (simp add: reconcileRoll_def eff_bind_def with_inst_def Let_def same split: if_splits)
    consider "?out = []" | "?out \<noteq> []" "tg_member ?t = io_CurrentPrimary (ri_object inst)"
      | "?out \<noteq> []" "tg_member ?t \<noteq> io_CurrentPrimary (ri_object inst)" by blast
    then show ?thesis
    proof cases
      case 1
      have "only_calls gives_back (eff_then (finishRoll env) (eff_return no_roll))"
        by (intro roll_calls finishRoll_calls)
      from only_callsD [OF this, of w1 r w'] rest 1 cs obtain ds where "ps_calls w' = cs @ ds" "list_all gives_back ds" by auto
      with cs hands_back show ?thesis by auto
    next
      case 2
      with rest cs primary [of cs w1 ?state] show ?thesis by simp
    next
      case 3
      with rest cs member [of cs w1 ?state] show ?thesis by simp
    qed
  qed
qed

text \<open>
  C7. A rolling restart never takes away what the instance cannot spare. A pass deletes at most one Pod;
  the member is not the primary; every other member exists, is Ready and is not terminating; no role
  change is under way; and by evidence of the primary not older than thirty seconds enough other
  standbys are streaming for its commits to go on.
\<close>

theorem roll_spares_the_quorum:
  assumes "reconcileRoll env pods d \<lparr>ps_inst = inst, ps_calls = []\<rparr> = (r, w')"
    and "DeletePod m \<in> set (ps_calls w')" "\<forall>p \<in> set pods. rp_Name p \<noteq> []"
  shows "m \<noteq> io_CurrentPrimary (ri_object inst) \<and> affordable (re_now env) inst pods d m \<and>
    (\<exists>p \<in> set pods. rp_Name p = m \<and> \<not> pod_Deleting (rp_pod p)) \<and>
    filter (\<lambda>c. \<not> gives_back c) (ps_calls w') = [DeletePod m]"
  using assms(1)
proof (cases rule: reconcileRoll_cases)
  case (hands_back cs)
  with assms(2) show ?thesis by (auto simp: list_all_iff gives_back_def)
next
  case (primary w1 cs state)
  from only_callsD [OF rollPrimary_calls primary(5)] obtain ds where "ps_calls w' = cs @ ds" "list_all not_delete ds"
    using primary(2) by auto
  with primary(1) assms(2) show ?thesis by (auto simp: list_all_iff gives_back_def not_delete_def)
next
  case (member w1 cs state)
  have none: "DeletePod m \<notin> set cs" "filter (\<lambda>c. \<not> gives_back c) cs = []"
    using member(1) by (auto simp: list_all_iff gives_back_def filter_empty_conv)
  from member(5) show ?thesis
  proof (cases rule: rollMember_cases)
    case waits
    with none member(2) assms(2) show ?thesis by simp
  next
    case (deletes p)
    then have m: "m = rs_member state" using none(1) member(2) assms(2) by auto
    have "affordable (re_now env) inst pods d m"
      using fitToRoll_affordable [OF deletes(3) assms(3)] same_but_annotationsD(1) [OF member(3)] m by simp
    with deletes none member(2,4) m podNamed_Some [OF deletes(1)] show ?thesis by (auto simp: gives_back_def)
  qed
qed

section \<open>Handing the primary role away\<close>

definition drained :: "roll_env \<Rightarrow> bool" where
  "drained env \<longleftrightarrow>
     (re_quiescer env \<longrightarrow>
       re_quiesce env = Inr () \<and> (\<exists>drain. re_drain env = Inr drain \<and> (dr_Known drain \<longrightarrow> dr_Drained drain)))"

lemma holdClients_eq:
  "holdClients env w =
     (if \<not> re_quiescer env
      then (Inr \<lparr>dr_Known = False, dr_Quiesced = False, dr_InFlight = 0, dr_Queued = 0, dr_Drained = False\<rparr>, w)
      else case re_quiesce env of
             Inl e \<Rightarrow> (Inl e, w\<lparr>ps_calls := ps_calls w @ [QuiesceInstance]\<rparr>)
           | Inr _ \<Rightarrow> (re_drain env, w\<lparr>ps_calls := ps_calls w @ [QuiesceInstance, InstanceDrainStatus]\<rparr>))"
  by (auto simp: holdClients_def eff_then_def eff_bind_def eff_return_def calls_def split: sum.split)

definition not_patch :: "roll_call \<Rightarrow> bool" where
  "not_patch c \<longleftrightarrow> (\<forall>s. c \<noteq> PatchMaintenance s)"

lemma abandonIfStuck_calls: "only_calls not_patch (abandonIfStuck env state drain)"
  unfolding abandonIfStuck_def Let_def by (intro roll_calls) (simp_all add: not_patch_def)

lemma holdClients_no_patch: "only_calls not_patch (holdClients env)"
  by (intro roll_calls) (simp_all add: not_patch_def)

lemma rollPrimary_names:
  assumes "rollPrimary env pods d state w = (r, w')"
    and "PatchMaintenance s \<in> set (ps_calls w')" "PatchMaintenance s \<notin> set (ps_calls w)"
  shows "s = rs_member state \<and> fitToRoll env (ps_inst w) pods d (rs_member state) = None \<and> drained env \<and>
    ps_calls w' = ps_calls w @ (if re_quiescer env then [QuiesceInstance, InstanceDrainStatus] else []) @ [PatchMaintenance s]"
proof -
  let ?m = "rs_member state"
  have unnamed: "\<not> UnderMaintenance (io_Annotations (ri_object (ps_inst w))) ?m" "stillStalled env (ps_inst w) ?m = None"
    and fit: "fitToRoll env (ps_inst w) pods d ?m = None"
    using assms by (auto simp: rollPrimary_def with_inst_def eff_return_def split: if_splits option.splits)
  obtain res w1 where hold: "holdClients env w = (res, w1)" by fastforce
  from only_callsD [OF holdClients_no_patch hold] obtain cs where cs: "ps_calls w1 = ps_calls w @ cs" "list_all not_patch cs"
    by auto
  then have w1: "PatchMaintenance s \<notin> set (ps_calls w1)" using assms(3) by (auto simp: list_all_iff not_patch_def)
  let ?held = "\<lambda>drain. stepping env (ps_inst w) state RollStepQuiescing (HoldingClients ?m (dr_Queued drain) (dr_InFlight drain))"
  have step: "(r, w') = (case res of Inl e \<Rightarrow> (Inl e, w1)
      | Inr drain \<Rightarrow> (if dr_Known drain \<and> \<not> dr_Drained drain then abandonIfStuck env (?held drain) drain
          else eff_then (setMaintenance env [?m])
            (eff_return (stepping env (ps_inst w) state RollStepSwitchingOver (HandingAway ?m)))) w1)"
    using assms(1) unnamed fit hold by (simp add: rollPrimary_def with_inst_def eff_bind_def split: sum.splits)
  then obtain drain where drain: "res = Inr drain" using w1 assms(2) by (cases res) auto
  have "\<not> (dr_Known drain \<and> \<not> dr_Drained drain)"
  proof
    assume "dr_Known drain \<and> \<not> dr_Drained drain"
    with step drain have "abandonIfStuck env (?held drain) drain w1 = (r, w')" by simp
    from only_callsD [OF abandonIfStuck_calls this] obtain ds where "ps_calls w' = ps_calls w1 @ ds" "list_all not_patch ds" .
    with w1 assms(2) show False by (auto simp: list_all_iff not_patch_def)
  qed
  moreover from this step drain w1 assms(2)
  have "s = ?m" "ps_calls w' = ps_calls w1 @ [PatchMaintenance ?m]"
    by (auto simp: setMaintenance_def with_inst_def eff_then_def eff_bind_def eff_return_def calls_def Let_def join_names_def
        split: if_splits sum.splits)
  ultimately show ?thesis
    using fit hold drain by (auto simp: holdClients_eq drained_def split: if_splits sum.splits)
qed

text \<open>
  The role is handed away only behind a held and drained fleet. A pass names a member for
  maintenance, which is what starts the handover, only when the member is the primary, the instance can
  afford to lose it, and, where a fleet fronts the pool, every client was held in this very pass and
  nothing was in flight any more.
\<close>

theorem handover_waits_for_the_drain:
  assumes "reconcileRoll env pods d \<lparr>ps_inst = inst, ps_calls = []\<rparr> = (r, w')"
    and "PatchMaintenance s \<in> set (ps_calls w')" "s \<noteq> []" "\<forall>p \<in> set pods. rp_Name p \<noteq> []"
  shows "s = io_CurrentPrimary (ri_object inst) \<and> affordable (re_now env) inst pods d s \<and> drained env \<and>
    filter (\<lambda>c. \<not> gives_back c) (ps_calls w') =
      (if re_quiescer env then [QuiesceInstance, InstanceDrainStatus] else []) @ [PatchMaintenance s]"
  using assms(1)
proof (cases rule: reconcileRoll_cases)
  case (hands_back cs)
  with assms(2,3) show ?thesis by (auto simp: list_all_iff gives_back_def)
next
  case (primary w1 cs state)
  have none: "PatchMaintenance s \<notin> set cs" "filter (\<lambda>c. \<not> gives_back c) cs = []"
    using primary(1) assms(3) by (auto simp: list_all_iff gives_back_def filter_empty_conv)
  with primary(2) rollPrimary_names [OF primary(5) assms(2)]
  have names: "s = rs_member state" "fitToRoll env (ps_inst w1) pods d (rs_member state) = None" "drained env"
    "ps_calls w' = cs @ (if re_quiescer env then [QuiesceInstance, InstanceDrainStatus] else []) @ [PatchMaintenance s]"
    by auto
  have "affordable (re_now env) inst pods d s"
    using fitToRoll_affordable [OF names(2) assms(4)] same_but_annotationsD(1) [OF primary(3)] names(1) by simp
  with names primary(4) none(2) assms(3) show ?thesis by (auto simp: gives_back_def)
next
  case (member w1 cs state)
  from member(5) show ?thesis
    by (cases rule: rollMember_cases) (use member(1,2) assms(2,3) in \<open>auto simp: list_all_iff gives_back_def\<close>)
qed

section \<open>Replicas before the primary\<close>

definition target_key :: "roll_env \<Rightarrow> string \<Rightarrow> roll_target \<Rightarrow> int \<times> int \<times> string" where
  "target_key env primary t =
     (if tg_member t = primary then 1 else 0, uint (replayed (re_members env) (tg_member t)), tg_member t)"

interpretation target_order: go_comparator "target_cmp env primary" "target_key env primary" for env primary
  by unfold_locales
    (auto simp: target_cmp_def target_key_def uint_le_iff uint_eq_lsn less_eq_prod_def word_less_def order_less_le)

declare pod_target.simps [simp del]

lemma pod_target_facts:
  "t \<in> set (pod_target env pods primary p) \<Longrightarrow> tg_member t = rp_Name p"
  "pod_target env pods primary p = [] \<Longrightarrow> StampOf p = re_desired env"
  by (auto simp: pod_target.simps Let_def split: if_splits)

lemma chosen_primary_is_last:
  assumes "outstandingMembers env inst pods \<noteq> []"
    and "tg_member (chooseTarget (ri_Roll inst) (outstandingMembers env inst pods)) = io_CurrentPrimary (ri_object inst)"
    and "\<forall>roll. ri_Roll inst = Some roll \<longrightarrow> rt_Member roll \<noteq> io_CurrentPrimary (ri_object inst)"
  shows "\<forall>p \<in> set pods. rp_Name p \<noteq> io_CurrentPrimary (ri_object inst) \<longrightarrow> StampOf p = re_desired env"
proof -
  let ?primary = "io_CurrentPrimary (ri_object inst)"
  let ?ranked = "rankTargets env inst (concat (map (pod_target env pods ?primary) pods))"
  let ?out = "outstandingMembers env inst pods"
  have out: "?out = prependRecreating inst pods ?ranked" by (simp add: outstandingMembers_def Let_def)
  have hd: "tg_member (hd ?out) = ?primary"
  proof (cases "ri_Roll inst")
    case (Some roll)
    show ?thesis
    proof (cases "find (\<lambda>t. tg_member t = rt_Member roll) ?out")
      case (Some t)
      then have "tg_member t = rt_Member roll" by (auto simp: find_Some_iff)
      with Some \<open>ri_Roll inst = Some roll\<close> assms(2,3) show ?thesis by (simp add: chooseTarget_def)
    qed (use assms(2) Some in \<open>simp add: chooseTarget_def\<close>)
  qed (use assms(2) in \<open>simp add: chooseTarget_def\<close>)
  have ranked: "?out = ?ranked"
    using out hd assms(3) by (auto simp: prependRecreating_def split: option.splits if_splits)
  then have nonempty: "concat (map (pod_target env pods ?primary) pods) \<noteq> []"
    using assms(1) by (auto simp: rankTargets_def)
  have all: "tg_member t = ?primary" if "t \<in> set (concat (map (pod_target env pods ?primary) pods))" for t
    using target_order.hd_least [OF nonempty that, of env ?primary] hd ranked
    by (simp add: rankTargets_def target_key_def less_eq_prod_def split: if_splits)
  show ?thesis
  proof (intro ballI impI)
    fix p assume "p \<in> set pods" "rp_Name p \<noteq> ?primary"
    have "pod_target env pods ?primary p = []"
    proof (rule ccontr)
      assume "pod_target env pods ?primary p \<noteq> []"
      then obtain t where t: "t \<in> set (pod_target env pods ?primary p)" by (meson last_in_set)
      with \<open>p \<in> set pods\<close> have "tg_member t = ?primary" by (intro all) auto
      with pod_target_facts(1) [OF t] \<open>rp_Name p \<noteq> ?primary\<close> show False by simp
    qed
    then show "StampOf p = re_desired env" by (rule pod_target_facts(2))
  qed
qed

text \<open>
  The primary goes last: unless the roll had turned to it before, its handover starts only when every
  other Pod of the instance was created for the desired configuration and restart request.
\<close>

theorem replicas_before_the_primary:
  assumes "reconcileRoll env pods d \<lparr>ps_inst = inst, ps_calls = []\<rparr> = (r, w')"
    and "PatchMaintenance s \<in> set (ps_calls w')" "s \<noteq> []"
    and "\<forall>roll. ri_Roll inst = Some roll \<longrightarrow> rt_Member roll \<noteq> io_CurrentPrimary (ri_object inst)"
  shows "\<forall>p \<in> set pods. rp_Name p \<noteq> io_CurrentPrimary (ri_object inst) \<longrightarrow> StampOf p = re_desired env"
  using assms(1)
proof (cases rule: reconcileRoll_cases)
  case (hands_back cs)
  with assms(2,3) show ?thesis by (auto simp: list_all_iff gives_back_def)
next
  case (primary w1 cs state)
  from chosen_primary_is_last [OF primary(6,7) assms(4)] show ?thesis .
next
  case (member w1 cs state)
  from member(5) show ?thesis
    by (cases rule: rollMember_cases) (use member(1,2) assms(2,3) in \<open>auto simp: list_all_iff gives_back_def\<close>)
qed

text \<open>The desired stamp does not depend on the epoch a promotion raises, so a roll does not cause the next.\<close>

lemma ConfigHash_epoch: "ConfigHash hash (postgres\<lparr>ic_PrimaryEpoch := e\<rparr>) hba = ConfigHash hash postgres hba"
  by (simp add: ConfigHash_def)

section \<open>Waiting without end\<close>

text \<open>
  A handover that no member takes up is waited for without a deadline. Once the primary is named
  for maintenance and still holds the role, every pass, whatever the clock says and whatever the
  failover decided, makes no call at all: the clients stay held and the name stays, although the
  switchover timeout is documented to bound a planned role change end to end.
\<close>

theorem handover_has_no_deadline:
  assumes "ri_Roll inst = Some roll" "rt_Member roll = primary" "io_CurrentPrimary (ri_object inst) = primary"
    and "UnderMaintenance (io_Annotations (ri_object inst)) primary" "primary \<noteq> []"
    and "podNamed pods primary = Some p" "sp_ConfigHash (StampOf p) \<noteq> sp_ConfigHash (re_desired env)"
  shows "\<exists>state. reconcileRoll env pods d \<lparr>ps_inst = inst, ps_calls = []\<rparr> = (Inr state, \<lparr>ps_inst = inst, ps_calls = []\<rparr>) \<and>
    rs_step state = Some RollStepSwitchingOver"
proof -
  let ?out = "outstandingMembers env inst pods"
  have settled: "completeHandover env pods \<lparr>ps_inst = inst, ps_calls = []\<rparr> = (Inr False, \<lparr>ps_inst = inst, ps_calls = []\<rparr>)"
    using assms(3,4,5) by (simp add: completeHandover_def with_inst_def Let_def eff_return_def UnderMaintenance_def)
  have p: "p \<in> set pods" "rp_Name p = primary" using podNamed_Some [OF assms(6)] by auto
  have "\<lparr>tg_member = primary, tg_reason = RollReasonConfigChanged\<rparr> \<in> set (concat (map (pod_target env pods primary) pods))"
    using p assms(7) by (auto simp: pod_target.simps Let_def intro!: bexI [of _ p])
  then have mem: "\<lparr>tg_member = primary, tg_reason = RollReasonConfigChanged\<rparr> \<in> set ?out"
    using assms(1-3,6) by (simp add: outstandingMembers_def Let_def prependRecreating_def rankTargets_def)
  have "tg_member (chooseTarget (ri_Roll inst) ?out) = primary"
  proof (cases "find (\<lambda>t. tg_member t = primary) ?out")
    case None
    with mem show ?thesis by (auto simp: find_None_iff)
  next
    case (Some t)
    then have "tg_member t = primary" by (auto simp: find_Some_iff)
    with Some assms(1,2) show ?thesis by (simp add: chooseTarget_def)
  qed
  moreover have "?out \<noteq> []" using mem by auto
  ultimately show ?thesis
    using settled assms(3,4)
    by (simp add: reconcileRoll_def eff_bind_def with_inst_def Let_def rollPrimary_def eff_return_def stepping_def)
qed

section \<open>A concrete roll\<close>

text \<open>Three members, the first of them primary, with the hashes their Pods were created for.\<close>

definition sample_pod :: "string \<Rightarrow> string \<Rightarrow> roll_pod" where
  "sample_pod name hash =
     \<lparr>rp_pod = \<lparr>pod_Name = name, pod_Conditions = [(''Ready'', ''True'')], pod_IP = ''10.0.0.1'', pod_Deleting = False\<rparr>,
      rp_Annotations = [AnnotationConfigHash \<mapsto> hash], rp_Labels = Map.empty, rp_NodeName = ''n''\<rparr>"

definition sample_instance :: "roll_status option \<Rightarrow> (string \<rightharpoonup> string) \<Rightarrow> roll_instance" where
  "sample_instance roll annotations =
     \<lparr>ri_object =
        \<lparr>io_Name = ''db'', io_Annotations = annotations, io_Generation = 1, io_HighAvailability = None,
         io_CurrentPrimary = ''db-1'', io_TargetPrimary = ''db-1'',
         io_QuorumEvidence = Some \<lparr>qr_SynchronousStandbyNames = ''ANY 1 (db-2, db-3)'', qr_NumSync = 1,
           qr_VotingMembers = [''db-2'', ''db-3''], qr_StreamingMembers = [''db-2'', ''db-3''], qr_ReportedBy = ''db-1'',
           qr_ObservedAt = Some second\<rparr>,
         io_CurrentPrimaryFailingSince = None, io_Conditions = []\<rparr>,
      ri_Replicas = None, ri_SwitchoverTimeout = None, ri_Rejoining = [], ri_Roll = roll\<rparr>"

definition sample_env :: "time \<Rightarrow> roll_env" where
  "sample_env now =
     \<lparr>re_now = now, re_desired = \<lparr>sp_ConfigHash = ''new'', sp_RestartedAt = []\<rparr>, re_members = [], re_node = (\<lambda>_. None),
      re_endpoints = Inr [], re_quiescer = True, re_quiesce = Inr (),
      re_drain = Inr \<lparr>dr_Known = True, dr_Quiesced = True, dr_InFlight = 0, dr_Queued = 4, dr_Drained = True\<rparr>,
      re_resume = Inr (), re_release = Inr (), re_patch = Inr (), re_delete = (\<lambda>_. PodDeleted)\<rparr>"

definition sample_decision :: decision where
  "sample_decision = Decision PhaseSteady PrimaryHealthy (IsServing ''db-1'') second"

definition sample_pods :: "string \<Rightarrow> string \<Rightarrow> roll_pod list" where
  "sample_pods primary replica = [sample_pod ''db-1'' primary, sample_pod ''db-2'' replica, sample_pod ''db-3'' ''new'']"

definition sample_pass :: "roll_instance \<Rightarrow> string \<Rightarrow> string \<Rightarrow> (error + roll_state) \<times> pass" where
  "sample_pass inst primary replica =
     reconcileRoll (sample_env (2 * second)) (sample_pods primary replica) sample_decision \<lparr>ps_inst = inst, ps_calls = []\<rparr>"

lemma sample_pass_calls:
  "ps_calls (snd (sample_pass (sample_instance None Map.empty) ''new'' ''old'')) = [DeletePod ''db-2'']"
  "ps_calls (snd (sample_pass (sample_instance None Map.empty) ''old'' ''new'')) =
     [QuiesceInstance, InstanceDrainStatus, PatchMaintenance ''db-1'']"
  by code_simp+

lemma sample_pods_named: "\<forall>p \<in> set (sample_pods a b). rp_Name p \<noteq> []"
  by (simp add: sample_pods_def sample_pod_def)

lemma sample_run:
  "reconcileRoll (sample_env (2 * second)) (sample_pods a b) sample_decision \<lparr>ps_inst = inst, ps_calls = []\<rparr> =
     (fst (sample_pass inst a b), snd (sample_pass inst a b))"
  by (simp add: sample_pass_def)

lemma sample_env_now: "re_now (sample_env now) = now" by (simp add: sample_env_def)

theorem roll_spares_the_quorum_witness:
  "affordable (2 * second) (sample_instance None Map.empty) (sample_pods ''new'' ''old'') sample_decision ''db-2''"
  using roll_spares_the_quorum [OF sample_run, of "''db-2''" "sample_instance None Map.empty" "''new''" "''old''"]
    sample_pods_named
  by (simp add: sample_pass_calls sample_env_now)

theorem handover_waits_for_the_drain_witness:
  "affordable (2 * second) (sample_instance None Map.empty) (sample_pods ''old'' ''new'') sample_decision ''db-1''"
  using handover_waits_for_the_drain [OF sample_run, of "''db-1''" "sample_instance None Map.empty" "''old''" "''new''"]
    sample_pods_named [of "''old''" "''new''"]
  unfolding sample_pass_calls sample_env_now by (simp add: sample_instance_def)

theorem replicas_before_the_primary_witness:
  "StampOf (sample_pod ''db-2'' ''new'') = re_desired (sample_env (2 * second))"
  using replicas_before_the_primary [OF sample_run, of "''db-1''" "sample_instance None Map.empty" "''old''" "''new''"]
  by (simp add: sample_pass_calls) (simp add: sample_pods_def sample_pod_def sample_instance_def)

definition handing_over :: roll_status where
  "handing_over =
     \<lparr>rt_Member = ''db-1'', rt_Reason = Some RollReasonConfigChanged, rt_Step = RollStepSwitchingOver, rt_Pending = 1,
      rt_StartedAt = Some second, rt_Message = HandingAway ''db-1''\<rparr>"

theorem handover_has_no_deadline_witness:
  "\<exists>state. sample_pass (sample_instance (Some handing_over) [AnnotationMaintenance \<mapsto> ''db-1'']) ''old'' ''new'' =
     (Inr state, \<lparr>ps_inst = sample_instance (Some handing_over) [AnnotationMaintenance \<mapsto> ''db-1''], ps_calls = []\<rparr>) \<and>
     rs_step state = Some RollStepSwitchingOver"
  unfolding sample_pass_def
proof (rule handover_has_no_deadline)
  show "ri_Roll (sample_instance (Some handing_over) [AnnotationMaintenance \<mapsto> ''db-1'']) = Some handing_over"
    "rt_Member handing_over = ''db-1''"
    "io_CurrentPrimary (ri_object (sample_instance (Some handing_over) [AnnotationMaintenance \<mapsto> ''db-1''])) = ''db-1''"
    by (simp_all add: sample_instance_def handing_over_def)
  show "UnderMaintenance (io_Annotations (ri_object (sample_instance (Some handing_over) [AnnotationMaintenance \<mapsto> ''db-1'']))) ''db-1''"
    by code_simp
  show "podNamed (sample_pods ''old'' ''new'') ''db-1'' = Some (sample_pod ''db-1'' ''old'')"
    by (simp add: sample_pods_def sample_pod_def)
  show "sp_ConfigHash (StampOf (sample_pod ''db-1'' ''old'')) \<noteq> sp_ConfigHash (re_desired (sample_env (2 * second)))"
    by (simp add: StampOf_def sample_pod_def sample_env_def empty_or_def)
qed simp

end
