(* ===== verification/Migration_Controller.thy ===== *)
theory Migration_Controller
  imports Migration_Router
begin

text \<open>
  The migration controller (\<open>internal/controller/pgtenantmigration_controller.go\<close> and
  \<open>pgtenantmigration_resolve.go\<close>): how the object and what it references become a run of the engine,
  how one step is recorded in the status, and the whole reconcile. The lookups of other objects, the
  derived object names (digests) and the preflight gate are arguments. Metrics, logging, the client
  pause the router may report, the text of the preflight condition and the refusal of an operator
  started without ports are left out.
\<close>

section \<open>Objects\<close>

record migration_condition =
  mc_Type :: string
  mc_Status :: bool
  mc_Reason :: string
  mc_Message :: string
  mc_ObservedGeneration :: int
  mc_LastTransitionTime :: time

record migration_status =
  ms_ObservedGeneration :: int
  ms_Phase :: "migration_phase option"
  ms_StartedAt :: "time option"
  ms_CompletedAt :: "time option"
  ms_SourceInstanceRef :: "string option"
  ms_ReplicationSlotName :: string
  ms_PublicationName :: string
  ms_SubscriptionName :: string
  ms_LagBytes :: "int option"
  ms_CopiedTables :: "int option"
  ms_TotalTables :: "int option"
  ms_PauseDurationMillis :: "int option"
  ms_QueuedClients :: "int option"
  ms_Verification :: "(bool option \<times> bool option \<times> bool option \<times> time) option"
  ms_RollbackDeadline :: "time option"
  ms_Conditions :: "migration_condition list"

record sequence_handling =
  sh_Mode :: "sequence_mode option"
  sh_SafetyGap :: "int option"

record migration_object =
  mig_Namespace :: string
  mig_Name :: string
  mig_Generation :: int
  mig_Deleting :: bool
  mig_Annotations :: "string \<rightharpoonup> string"
  mig_Strategy :: migration_strategy
  mig_TenantRef :: string
  mig_TargetInstanceRef :: string
  mig_DrainTimeout :: "duration option"
  mig_CutoverTimeout :: "duration option"
  mig_RollbackWindow :: "duration option"
  mig_MaxSourceLagBytes :: "int option"
  mig_SequenceHandling :: "sequence_handling option"
  mig_Status :: migration_status

record tenant_view =
  tv_Namespace :: string
  tv_Name :: string
  tv_PoolRef :: string
  tv_DatabaseName :: string
  tv_Binding :: "string option"

record instance_view =
  iv_Name :: string
  iv_PoolRef :: string
  iv_CurrentPrimary :: string
  iv_ConcurrentDumps :: int
  iv_ConnInfo :: "string \<Rightarrow> string \<Rightarrow> string"

datatype pool_strategy = MigrationOnline | MigrationOffline
datatype pool_verification = MigrationVerifySchema | MigrationVerifyRowCounts | MigrationVerifyChecksums

record pool_migration =
  pm_DefaultStrategy :: pool_strategy
  pm_RollbackWindow :: "duration option"
  pm_Verification :: pool_verification

record pool_view =
  pv_Migration :: "pool_migration option"

datatype pool_read = PoolFound pool_view | PoolNotFound | PoolFailed error

text \<open>What a reconcile reads besides the migration itself.\<close>

record migration_reads =
  rd_Tenant :: "string \<Rightarrow> error + tenant_view"
  rd_Instance :: "string \<Rightarrow> error + instance_view"
  rd_Pool :: "string \<Rightarrow> pool_read"
  rd_Password :: "string \<Rightarrow> error + string"

text \<open>Names derived from a namespaced object.\<close>

record migration_names =
  nm_Publication :: "string \<Rightarrow> string \<Rightarrow> string"
  nm_Slot :: "string \<Rightarrow> string \<Rightarrow> string"
  nm_Subscription :: "string \<Rightarrow> string \<Rightarrow> string"
  nm_DumpDir :: "string \<Rightarrow> string \<Rightarrow> string"
  nm_BackendRole :: "string \<Rightarrow> string \<Rightarrow> string"

section \<open>Conditions\<close>

definition ConditionQuiesced :: string where "ConditionQuiesced = ''Quiesced''"
definition ConditionRetrying :: string where "ConditionRetrying = ''Retrying''"
definition ConditionSucceeded :: string where "ConditionSucceeded = ''Succeeded''"
definition ConditionVerified :: string where "ConditionVerified = ''Verified''"
definition ConditionOnline :: string where "ConditionOnline = ''Online''"
definition ConditionAccepted :: string where "ConditionAccepted = ''Accepted''"
definition ConditionProgressing :: string where "ConditionProgressing = ''Progressing''"

fun reason_string :: "migration_reason \<Rightarrow> string" where
  "reason_string ReasonPreflightPassed = ''PreflightPassed''"
| "reason_string ReasonPreflightRefused = ''PreflightRefused''"
| "reason_string ReasonProgressing = ''Progressing''"
| "reason_string ReasonWaiting = ''Waiting''"
| "reason_string ReasonCutoverComplete = ''CutoverComplete''"
| "reason_string ReasonAbortRequested = ''AbortRequested''"
| "reason_string ReasonFaulted = ''Faulted''"
| "reason_string ReasonRetrying = ''Retrying''"
| "reason_string ReasonDrainTimedOut = ''DrainTimedOut''"
| "reason_string ReasonCutoverTimedOut = ''CutoverTimedOut''"
| "reason_string ReasonRolledBack = ''RolledBack''"
| "reason_string ReasonSourceRetained = ''SourceRetained''"
| "reason_string ReasonSourceDropped = ''SourceDropped''"
| "reason_string ReasonOnlineChosen = ''OnlineChosen''"
| "reason_string ReasonOfflineChosen = ''OfflineChosen''"
| "reason_string ReasonVerified = ''Verified''"
| "reason_string ReasonNotEquivalent = ''NotEquivalent''"
| "reason_string ReasonUnresolved = ''Unresolved''"
| "reason_string ReasonInvalidSpec = ''InvalidSpec''"

definition findCondition :: "migration_condition list \<Rightarrow> string \<Rightarrow> migration_condition option" where
  "findCondition conditions type = find (\<lambda>c. mc_Type c = type) conditions"

text \<open>
  \<open>meta.SetStatusCondition\<close>: the transition time is the new one (or the clock's, when it is zero) if
  the condition is new or its status changed, and the old one otherwise.
\<close>

definition transition_time :: "time \<Rightarrow> migration_condition \<Rightarrow> time" where
  "transition_time clock new = (if IsZero (mc_LastTransitionTime new) then clock else mc_LastTransitionTime new)"

fun SetStatusCondition ::
  "time \<Rightarrow> migration_condition \<Rightarrow> migration_condition list \<Rightarrow> migration_condition list" where
  "SetStatusCondition clock new [] = [new\<lparr>mc_LastTransitionTime := transition_time clock new\<rparr>]"
| "SetStatusCondition clock new (c # cs) =
     (if mc_Type c = mc_Type new then
        new\<lparr>mc_LastTransitionTime :=
              (if mc_Status c \<noteq> mc_Status new then transition_time clock new
               else mc_LastTransitionTime c)\<rparr> # cs
      else c # SetStatusCondition clock new cs)"

definition stamped_condition ::
  "time \<Rightarrow> time \<Rightarrow> int \<Rightarrow> string \<Rightarrow> bool \<Rightarrow> string \<Rightarrow> string \<Rightarrow> migration_condition list \<Rightarrow>
   migration_condition list" where
  "stamped_condition clock at generation type status reason message =
     SetStatusCondition clock
       \<lparr>mc_Type = type, mc_Status = status, mc_Reason = reason, mc_Message = message,
        mc_ObservedGeneration = generation, mc_LastTransitionTime = at\<rparr>"

definition setCondition ::
  "time \<Rightarrow> int \<Rightarrow> string \<Rightarrow> bool \<Rightarrow> string \<Rightarrow> string \<Rightarrow> migration_condition list \<Rightarrow>
   migration_condition list" where
  "setCondition clock generation type status reason message =
     stamped_condition clock 0 generation type status reason message"

section \<open>Reading the status back\<close>

definition condition_since :: "migration_condition list \<Rightarrow> string \<Rightarrow> time option" where
  "condition_since conditions type =
     (case findCondition conditions type of
        None \<Rightarrow> None
      | Some c \<Rightarrow> if mc_Status c then Some (mc_LastTransitionTime c) else None)"

definition quiesceStart :: "migration_status \<Rightarrow> time option" where
  "quiesceStart status = condition_since (ms_Conditions status) ConditionQuiesced"

definition faultingSince :: "migration_status \<Rightarrow> time option" where
  "faultingSince status = condition_since (ms_Conditions status) ConditionRetrying"

definition sourceDropped :: "migration_status \<Rightarrow> bool" where
  "sourceDropped status =
     (case findCondition (ms_Conditions status) ConditionSucceeded of
        None \<Rightarrow> False
      | Some c \<Rightarrow> mc_Reason c = reason_string ReasonSourceDropped)"

definition rollbackWindowClosed :: "migration_status \<Rightarrow> time \<Rightarrow> bool" where
  "rollbackWindowClosed status now =
     (case ms_RollbackDeadline status of None \<Rightarrow> False | Some deadline \<Rightarrow> deadline \<le> now)"

section \<open>Resolving the spec\<close>

definition resolveStrategy :: "migration_strategy \<Rightarrow> pool_view option \<Rightarrow> migration_strategy" where
  "resolveStrategy requested pool =
     (if requested \<in> {TenantMigrationOnline, TenantMigrationOffline} then requested
      else case pool of
        None \<Rightarrow> TenantMigrationOnline
      | Some p \<Rightarrow>
          (case pv_Migration p of
             None \<Rightarrow> TenantMigrationOnline
           | Some m \<Rightarrow>
               if pm_DefaultStrategy m = MigrationOffline then TenantMigrationOffline
               else TenantMigrationOnline))"

definition rollbackWindow :: "duration option \<Rightarrow> pool_view option \<Rightarrow> duration" where
  "rollbackWindow requested pool =
     (let window = (case pool of
            None \<Rightarrow> hour
          | Some p \<Rightarrow> (case pv_Migration p of
              None \<Rightarrow> hour
            | Some m \<Rightarrow> (case pm_RollbackWindow m of None \<Rightarrow> hour | Some d \<Rightarrow> d)))
      in case requested of
           None \<Rightarrow> window
         | Some d \<Rightarrow> if d < window then d else window)"

definition poolVerification :: "pool_view option \<Rightarrow> pool_verification" where
  "poolVerification pool =
     (case pool of
        None \<Rightarrow> MigrationVerifyRowCounts
      | Some p \<Rightarrow> (case pv_Migration p of None \<Rightarrow> MigrationVerifyRowCounts | Some m \<Rightarrow> pm_Verification m))"

fun VerificationLevelFor :: "pool_verification \<Rightarrow> verification_level" where
  "VerificationLevelFor MigrationVerifySchema = VerifySchema"
| "VerificationLevelFor MigrationVerifyChecksums = VerifyChecksums"
| "VerificationLevelFor MigrationVerifyRowCounts = VerifyRowCounts"

definition sequencePlan :: "sequence_handling option \<Rightarrow> sequence_plan" where
  "sequencePlan spec =
     (case spec of
        None \<Rightarrow> \<lparr>sp_Mode = SequenceHandlingSetvalWithGap, sp_SafetyGap = DefaultSafetyGap\<rparr>
      | Some s \<Rightarrow>
          \<lparr>sp_Mode = (case sh_Mode s of None \<Rightarrow> SequenceHandlingSetvalWithGap | Some m \<Rightarrow> m),
           sp_SafetyGap = (case sh_SafetyGap s of None \<Rightarrow> DefaultSafetyGap | Some g \<Rightarrow> g)\<rparr>)"

definition durationOr :: "duration option \<Rightarrow> duration \<Rightarrow> duration" where
  "durationOr v fallback = (case v of None \<Rightarrow> fallback | Some d \<Rightarrow> d)"

definition AnnotationAbort :: string where "AnnotationAbort = ''pgelastic.io/abort''"
definition AnnotationRollback :: string where "AnnotationRollback = ''pgelastic.io/rollback''"

definition annotation_value :: "(string \<rightharpoonup> string) \<Rightarrow> string \<Rightarrow> string" where
  "annotation_value annotations key = (case annotations key of None \<Rightarrow> [] | Some v \<Rightarrow> v)"

definition migrationRetryBudget :: duration where "migrationRetryBudget = 2 * minute"

definition resolve_instance :: "migration_reads \<Rightarrow> string \<Rightarrow> error + instance_view" where
  "resolve_instance reads name =
     (case rd_Instance reads name of
        Inl e \<Rightarrow> Inl (''PgInstance '' @ name @ '': '' @ e)
      | Inr inst \<Rightarrow>
          if iv_CurrentPrimary inst = [] then Inl (''PgInstance '' @ name @ '' has no current primary'')
          else Inr inst)"

text \<open>The source is resolved once and then treated as fixed.\<close>

definition resolve_source :: "tenant_view \<Rightarrow> migration_status \<Rightarrow> error + string" where
  "resolve_source tenant status =
     (case ms_SourceInstanceRef status of
        Some source \<Rightarrow> Inr source
      | None \<Rightarrow>
          (case tv_Binding tenant of
             None \<Rightarrow> Inl (''PgTenant '' @ tv_Name tenant @ '' is not bound to an instance yet'')
           | Some inst \<Rightarrow> Inr inst))"

definition run_of ::
  "migration_names \<Rightarrow> migration_object \<Rightarrow> migration_status \<Rightarrow> migration_phase \<Rightarrow> tenant_view \<Rightarrow>
   instance_view \<Rightarrow> instance_view \<Rightarrow> pool_view option \<Rightarrow> string \<Rightarrow> time \<Rightarrow> run" where
  "run_of names object status phase tenant source target pool password now =
     (let ns = mig_Namespace object; name = mig_Name object in
      \<lparr>run_Migration = \<lparr>tr_Namespace = ns, tr_Name = name\<rparr>,
       run_Tenant = \<lparr>tr_Namespace = tv_Namespace tenant, tr_Name = tv_Name tenant\<rparr>,
       run_Phase = phase,
       run_Strategy = resolveStrategy (mig_Strategy object) pool,
       run_Plan =
         \<lparr>pl_Source = \<lparr>ep_Namespace = ns, ep_Instance = iv_Name source, ep_Member = [],
                       ep_Database = tv_DatabaseName tenant\<rparr>,
          pl_Target = \<lparr>ep_Namespace = ns, ep_Instance = iv_Name target, ep_Member = [],
                       ep_Database = tv_DatabaseName tenant\<rparr>,
          pl_Publication = nm_Publication names ns name, pl_Slot = nm_Slot names ns name,
          pl_Subscription = nm_Subscription names ns name,
          pl_SchemaStamp = SchemaStampPrefix @ ns @ ''/'' @ name,
          pl_SourceConnInfo = iv_ConnInfo source (tv_DatabaseName tenant) password,
          pl_Concurrency = iv_ConcurrentDumps source, pl_DumpDir = nm_DumpDir names ns name\<rparr>,
       run_Sequences = sequencePlan (mig_SequenceHandling object),
       run_Verification = VerificationLevelFor (poolVerification pool),
       run_ReplicationRole = ReplicationRole,
       run_Owner = nm_BackendRole names (tv_Namespace tenant) (tv_Name tenant),
       run_AbortRequested = (annotation_value (mig_Annotations object) AnnotationAbort \<noteq> []),
       run_AbortMessage = annotation_value (mig_Annotations object) AnnotationAbort,
       run_RollbackRequested = (annotation_value (mig_Annotations object) AnnotationRollback \<noteq> []),
       run_RollbackWindowClosed = rollbackWindowClosed status now,
       run_SourceDropped = sourceDropped status,
       run_QuiesceStartedAt = quiesceStart status,
       run_DrainTimeout = durationOr (mig_DrainTimeout object) (30 * second),
       run_CutoverTimeout = durationOr (mig_CutoverTimeout object) (60 * second),
       run_FaultingSince = faultingSince status,
       run_RetryBudget = migrationRetryBudget,
       run_RollbackWindow = rollbackWindow (mig_RollbackWindow object) pool,
       run_MaxLagBytes = mig_MaxSourceLagBytes object\<rparr>)"

text \<open>
  \<open>resolve\<close> returns the status beside its result, because the source it captured is kept even when a
  later lookup fails.
\<close>

definition resolve ::
  "migration_names \<Rightarrow> migration_reads \<Rightarrow> migration_object \<Rightarrow> migration_status \<Rightarrow> migration_phase \<Rightarrow> time \<Rightarrow>
   migration_status \<times> (error + run)" where
  "resolve names reads object status phase now =
     (case rd_Tenant reads (mig_TenantRef object) of
        Inl e \<Rightarrow> (status, Inl (''PgTenant '' @ mig_TenantRef object @ '': '' @ e))
      | Inr tenant \<Rightarrow>
          (case resolve_source tenant status of
             Inl e \<Rightarrow> (status, Inl e)
           | Inr sourceName \<Rightarrow>
               let status = status\<lparr>ms_SourceInstanceRef := Some sourceName\<rparr> in
               (status,
                if sourceName = mig_TargetInstanceRef object then
                  Inl (''the tenant is already bound to '' @ sourceName)
                else case resolve_instance reads sourceName of
                  Inl e \<Rightarrow> Inl e
                | Inr source \<Rightarrow>
                    (case resolve_instance reads (mig_TargetInstanceRef object) of
                       Inl e \<Rightarrow> Inl e
                     | Inr target \<Rightarrow>
                         if iv_PoolRef target \<noteq> tv_PoolRef tenant then
                           Inl (''PgInstance '' @ iv_Name target @ '' belongs to pool '' @ iv_PoolRef target @
                                '', and PgTenant '' @ tv_Name tenant @ '' to pool '' @ tv_PoolRef tenant @
                                ''; a migration may only move a tenant within its own pool'')
                         else
                           let go = (\<lambda>pool. case rd_Password reads (iv_Name source) of
                                 Inl e \<Rightarrow> Inl e
                               | Inr password \<Rightarrow>
                                   Inr (run_of names object status phase tenant source target pool password now)) in
                           case rd_Pool reads (tv_PoolRef tenant) of
                             PoolFailed e \<Rightarrow> Inl (''PgElasticPool '' @ tv_PoolRef tenant @ '': '' @ e)
                           | PoolNotFound \<Rightarrow> go None
                           | PoolFound pool \<Rightarrow> go (Some pool)))))"

section \<open>Recording a step\<close>

definition servingMessage :: "migration_decision \<Rightarrow> run \<Rightarrow> string" where
  "servingMessage d run =
     md_Message d @ ''; the tenant is serving from '' @
     (if md_Serving d = ServingTarget then ''Target ('' @ run_target run else ''Source ('' @ run_source run) @ '')''"

definition conditions_of ::
  "time \<Rightarrow> int \<Rightarrow> run \<Rightarrow> step_result \<Rightarrow> migration_condition list \<Rightarrow> migration_condition list" where
  "conditions_of now generation run step conditions =
     (let online = (run_Strategy run = TenantMigrationOnline);
          fault = mo_Fault (sr_Observation step);
          conditions = setCondition now generation ConditionOnline online
            (reason_string (if online then ReasonOnlineChosen else ReasonOfflineChosen))
            (if online then ''moving by logical replication, whose cutover pause is a queued sub-second stall''
             else ''moving by pg_dump and pg_restore, whose pause is measured in tens of seconds'') conditions;
          conditions = stamped_condition now now generation ConditionRetrying (fault \<noteq> None)
            (reason_string (if fault \<noteq> None then ReasonRetrying else ReasonProgressing))
            (case fault of Some e \<Rightarrow> e | None \<Rightarrow> ''the current phase is not failing'') conditions
      in case sr_Verification step of
           None \<Rightarrow> conditions
         | Some v \<Rightarrow> setCondition now generation ConditionVerified (Equivalent v)
             (reason_string (if Equivalent v then ReasonVerified else ReasonNotEquivalent))
             (Verification_Message v) conditions)"

definition quiesce_condition ::
  "time \<Rightarrow> int \<Rightarrow> migration_decision \<Rightarrow> migration_condition list \<Rightarrow> migration_condition list" where
  "quiesce_condition now generation d conditions =
     (if md_Phase d = TenantMigrationPhaseQuiescing \<and> condition_since conditions ConditionQuiesced = None then
        stamped_condition now now generation ConditionQuiesced True (reason_string ReasonProgressing)
          ''the tenant's clients are queued at the proxy with their sockets held open'' conditions
      else conditions)"

definition outcome_conditions ::
  "time \<Rightarrow> int \<Rightarrow> run \<Rightarrow> migration_decision \<Rightarrow> migration_condition list \<Rightarrow> migration_condition list" where
  "outcome_conditions now generation run d conditions =
     (if md_Settled d then conditions
      else setCondition now generation ConditionSucceeded (md_Phase d = TenantMigrationPhaseCompleted)
             (reason_string (md_Reason d)) (servingMessage d run)
             (setCondition now generation ConditionProgressing (\<not> migration_Terminal (md_Phase d))
                (reason_string (md_Reason d)) (md_Message d) conditions))"

definition or_else :: "'a option \<Rightarrow> 'a option \<Rightarrow> 'a option" where
  "or_else new old = (case new of None \<Rightarrow> old | Some _ \<Rightarrow> new)"

definition record_step ::
  "time \<Rightarrow> int \<Rightarrow> run \<Rightarrow> step_result \<Rightarrow> migration_decision \<Rightarrow> migration_status \<Rightarrow> migration_status" where
  "record_step now generation run step d status =
     status\<lparr>ms_ReplicationSlotName := pl_Slot (run_Plan run),
            ms_PublicationName := pl_Publication (run_Plan run),
            ms_SubscriptionName := pl_Subscription (run_Plan run),
            ms_Verification :=
              (case sr_Verification step of
                 None \<Rightarrow> ms_Verification status
               | Some v \<Rightarrow> Some (vr_SchemaFingerprintMatch v, vr_RowCountsMatch v, vr_ChecksumsMatch v, now)),
            ms_LagBytes := or_else (sr_LagBytes step) (ms_LagBytes status),
            ms_CopiedTables := (if sr_Copied step \<noteq> None then sr_Copied step else ms_CopiedTables status),
            ms_TotalTables := (if sr_Copied step \<noteq> None then sr_Total step else ms_TotalTables status),
            ms_PauseDurationMillis := or_else (sr_PauseMillis step) (ms_PauseDurationMillis status),
            ms_QueuedClients := or_else (sr_Queued step) (ms_QueuedClients status),
            ms_RollbackDeadline :=
              (if md_Phase d = TenantMigrationPhaseCompleted \<and> ms_RollbackDeadline status = None
               then Some (now + run_RollbackWindow run) else ms_RollbackDeadline status),
            ms_CompletedAt :=
              (if migration_Terminal (md_Phase d) \<and> ms_CompletedAt status = None then Some now
               else ms_CompletedAt status),
            ms_Phase := Some (md_Phase d),
            ms_Conditions :=
              outcome_conditions now generation run d
                (quiesce_condition now generation d
                  (conditions_of now generation run step (ms_Conditions status)))\<rparr>"

section \<open>Reconcile\<close>

definition migrationPollInterval :: duration where "migrationPollInterval = 5 * second"
definition migrationPausePollInterval :: duration where "migrationPausePollInterval = 250000000"
definition migrationSettledInterval :: duration where "migrationSettledInterval = 30 * second"

definition requeueFor :: "migration_phase \<Rightarrow> migration_strategy \<Rightarrow> duration" where
  "requeueFor p strategy =
     (if migration_Terminal p then migrationSettledInterval
      else if Quiesced p strategy then migrationPausePollInterval
      else migrationPollInterval)"

definition current_phase :: "migration_status \<Rightarrow> migration_phase" where
  "current_phase status = (case ms_Phase status of None \<Rightarrow> TenantMigrationPhasePreflight | Some p \<Rightarrow> p)"

text \<open>The status to publish, the delay until the next look, and the world afterwards.\<close>

definition reconcile_migration ::
  "migration_names \<Rightarrow> migration_reads \<Rightarrow> time \<Rightarrow> 'w preflight_gate \<Rightarrow> 'w engine \<Rightarrow> migration_object \<Rightarrow> 'w \<Rightarrow>
   (migration_status \<times> duration) \<times> 'w" where
  "reconcile_migration names reads now gate e object w =
     (if mig_Deleting object then ((mig_Status object, 0), w)
      else
        let status = (mig_Status object)\<lparr>ms_ObservedGeneration := mig_Generation object,
              ms_Phase := Some (current_phase (mig_Status object)),
              ms_StartedAt := or_else (ms_StartedAt (mig_Status object)) (Some now)\<rparr>;
            generation = mig_Generation object in
        case resolve names reads object status (current_phase (mig_Status object)) now of
          (status, Inl e) \<Rightarrow>
            ((status\<lparr>ms_Conditions := setCondition now generation ConditionAccepted False
                 (reason_string ReasonUnresolved) e (ms_Conditions status)\<rparr>, migrationPollInterval), w)
        | (status, Inr run) \<Rightarrow>
            let status = status\<lparr>ms_Conditions := setCondition now generation ConditionAccepted True
                   ''Accepted'' (''moving tenant '' @ tr_Name (run_Tenant run) @ '' from '' @ run_source run @
                      '' to '' @ run_target run) (ms_Conditions status)\<rparr> in
            case engine_round now gate e run w of
              ((step, d, _), w') \<Rightarrow>
                ((record_step now generation run step d status, requeueFor (md_Phase d) (run_Strategy run)), w'))"

text \<open>The decision a reconcile takes, when the object resolves.\<close>

definition reconcile_decision ::
  "migration_names \<Rightarrow> migration_reads \<Rightarrow> time \<Rightarrow> 'w preflight_gate \<Rightarrow> 'w engine \<Rightarrow> migration_object \<Rightarrow> 'w \<Rightarrow>
   migration_decision option" where
  "reconcile_decision names reads now gate e object w =
     (if mig_Deleting object then None
      else case resolve names reads object
             ((mig_Status object)\<lparr>ms_ObservedGeneration := mig_Generation object,
                ms_Phase := Some (current_phase (mig_Status object)),
                ms_StartedAt := or_else (ms_StartedAt (mig_Status object)) (Some now)\<rparr>)
             (current_phase (mig_Status object)) now of
          (_, Inl _) \<Rightarrow> None
        | (_, Inr run) \<Rightarrow> Some (fst (snd (fst (engine_round now gate e run w)))))"

section \<open>Conditions after an update\<close>

lemma findCondition_Set [simp]:
  "findCondition (SetStatusCondition clock new cs) type =
     (if type = mc_Type new then
        Some (case findCondition cs type of
                None \<Rightarrow> new\<lparr>mc_LastTransitionTime := transition_time clock new\<rparr>
              | Some c \<Rightarrow> new\<lparr>mc_LastTransitionTime :=
                    (if mc_Status c \<noteq> mc_Status new then transition_time clock new
                     else mc_LastTransitionTime c)\<rparr>)
      else findCondition cs type)"
  by (induction cs) (auto simp: findCondition_def)

lemma condition_types [simp]:
  "ConditionSucceeded \<noteq> ConditionQuiesced" "ConditionSucceeded \<noteq> ConditionRetrying"
  "ConditionSucceeded \<noteq> ConditionVerified" "ConditionSucceeded \<noteq> ConditionOnline"
  "ConditionSucceeded \<noteq> ConditionAccepted" "ConditionSucceeded \<noteq> ConditionProgressing"
  "ConditionQuiesced \<noteq> ConditionSucceeded" "ConditionQuiesced \<noteq> ConditionRetrying"
  "ConditionQuiesced \<noteq> ConditionVerified" "ConditionQuiesced \<noteq> ConditionOnline"
  "ConditionQuiesced \<noteq> ConditionAccepted" "ConditionQuiesced \<noteq> ConditionProgressing"
  by (simp_all add: ConditionSucceeded_def ConditionQuiesced_def ConditionRetrying_def
      ConditionVerified_def ConditionOnline_def ConditionAccepted_def ConditionProgressing_def)

lemma findCondition_setCondition [simp]:
  "type \<noteq> type' \<Longrightarrow> findCondition (setCondition clock generation type' st r msg cs) type = findCondition cs type"
  "type \<noteq> type' \<Longrightarrow> findCondition (stamped_condition clock at generation type' st r msg cs) type = findCondition cs type"
  by (simp_all add: setCondition_def stamped_condition_def)

lemma succeeded_before_outcome:
  "findCondition (quiesce_condition now generation d (conditions_of now generation run step cs)) ConditionSucceeded
     = findCondition cs ConditionSucceeded"
  by (simp add: quiesce_condition_def conditions_of_def Let_def split: option.split)

lemma reason_string_dropped [simp]: "reason_string r = ''SourceDropped'' \<longleftrightarrow> r = ReasonSourceDropped"
  by (cases r) auto

lemma sourceDropped_record:
  "sourceDropped (record_step now generation run step d status) \<longleftrightarrow>
     (if md_Settled d then sourceDropped status else md_Reason d = ReasonSourceDropped)"
proof (cases "md_Settled d")
  case True
  then show ?thesis
    by (simp add: sourceDropped_def record_step_def outcome_conditions_def succeeded_before_outcome)
next
  case False
  then show ?thesis
    by (auto simp: sourceDropped_def record_step_def outcome_conditions_def setCondition_def
        stamped_condition_def split: option.split)
qed

lemma sourceDropped_accepted [simp]:
  "sourceDropped (status\<lparr>ms_Conditions := setCondition now generation ConditionAccepted ok r msg (ms_Conditions status)\<rparr>)
     = sourceDropped status"
  by (simp add: sourceDropped_def)

section \<open>What a resolved reconcile is\<close>

lemma resolve_status:
  assumes "resolve names reads object status p now = (status', result)"
  shows "status' = status\<lparr>ms_SourceInstanceRef := ms_SourceInstanceRef status'\<rparr>"
    and "ms_SourceInstanceRef status = Some source \<Longrightarrow> ms_SourceInstanceRef status' = Some source"
  using assms
  by (auto simp: resolve_def resolve_source_def Let_def split: sum.splits option.splits)

lemma resolve_run:
  assumes "resolve names reads object status p now = (status', Inr run)"
  shows "run_Phase run = p" "run_SourceDropped run = sourceDropped status"
    "run_RollbackWindowClosed run = rollbackWindowClosed status now"
proof -
  obtain tenant source target pool password where
    "run = run_of names object status' p tenant source target pool password now"
    using assms
    by (auto simp: resolve_def Let_def split: sum.splits option.splits if_splits pool_read.splits)
  moreover have "sourceDropped status' = sourceDropped status"
    "rollbackWindowClosed status' now = rollbackWindowClosed status now"
    using resolve_status(1) [OF assms] by (metis (no_types, lifting) migration_status.select_convs migration_status.surjective
        migration_status.update_convs(5) sourceDropped_def rollbackWindowClosed_def)+
  ultimately show "run_Phase run = p" "run_SourceDropped run = sourceDropped status"
    "run_RollbackWindowClosed run = rollbackWindowClosed status now"
    by (simp_all add: run_of_def Let_def)
qed

lemma Decide_DropSource:
  "md_DropSource (migration_Decide p obs) \<longleftrightarrow>
     p = TenantMigrationPhaseCompleted \<and> mo_RollbackWindowClosed obs \<and> \<not> mo_SourceDropped obs"
  by (cases p obs rule: migration_Decide_cases) auto

lemma Decide_reason_dropped:
  assumes "\<not> md_Settled (migration_Decide p obs)"
  shows "md_Reason (migration_Decide p obs) = ReasonSourceDropped \<longleftrightarrow> md_DropSource (migration_Decide p obs)"
proof (cases "p = TenantMigrationPhaseCompleted")
  case True
  with assms show ?thesis
    by (auto simp: migration_Decide_def decideCompleted_def split: if_splits)
next
  case False
  then show ?thesis
    unfolding Decide_DropSource
    by (cases p) (auto simp: migration_Decide_def decide_running_def Let_def split: option.split)
qed

lemma Step_completed:
  "run_Phase run = TenantMigrationPhaseCompleted \<Longrightarrow>
   mo_RollbackWindowClosed (sr_Observation (fst (Step now gate e run w))) = run_RollbackWindowClosed run \<and>
   mo_SourceDropped (sr_Observation (fst (Step now gate e run w))) = run_SourceDropped run"
  by (simp add: Step_def applyPauseBudget_def initial_result_def initial_observation_def Let_def
      split: option.split)

lemma round_decision:
  obtains obs where "fst (snd (fst (engine_round now gate e run w))) = migration_Decide (run_Phase run) obs"
    "run_Phase run = TenantMigrationPhaseCompleted \<Longrightarrow>
       mo_RollbackWindowClosed obs = run_RollbackWindowClosed run \<and> mo_SourceDropped obs = run_SourceDropped run"
proof -
  obtain r w1 where step: "Step now gate e run w = (r, w1)" by fastforce
  then have "fst (snd (fst (engine_round now gate e run w))) = migration_Decide (run_Phase run) (sr_Observation r)"
    by (simp add: engine_round_def Let_def split: prod.split)
  with step Step_completed [of run now gate e w] that show ?thesis by auto
qed

text \<open>What one reconcile does to the parts of the status that outlive it.\<close>

lemma reconcile_cases [case_names Skipped Decided]:
  assumes "fst (fst (reconcile_migration names reads now gate e object w)) = status'"
  obtains "reconcile_decision names reads now gate e object w = None"
      "ms_RollbackDeadline status' = ms_RollbackDeadline (mig_Status object)"
      "sourceDropped status' = sourceDropped (mig_Status object)"
      "current_phase status' = current_phase (mig_Status object)"
      "\<And>source. ms_SourceInstanceRef (mig_Status object) = Some source \<Longrightarrow> ms_SourceInstanceRef status' = Some source"
    | d obs where "reconcile_decision names reads now gate e object w = Some d"
      "d = migration_Decide (current_phase (mig_Status object)) obs"
      "current_phase (mig_Status object) = TenantMigrationPhaseCompleted \<Longrightarrow>
         mo_RollbackWindowClosed obs = rollbackWindowClosed (mig_Status object) now \<and>
         mo_SourceDropped obs = sourceDropped (mig_Status object)"
      "ms_Phase status' = Some (md_Phase d)"
      "sourceDropped status' = (if md_Settled d then sourceDropped (mig_Status object)
         else md_Reason d = ReasonSourceDropped)"
      "\<And>deadline. ms_RollbackDeadline (mig_Status object) = Some deadline \<Longrightarrow> ms_RollbackDeadline status' = Some deadline"
      "\<And>source. ms_SourceInstanceRef (mig_Status object) = Some source \<Longrightarrow> ms_SourceInstanceRef status' = Some source"
proof (cases "mig_Deleting object")
  case True
  then show ?thesis
    using assms by (intro that(1)) (auto simp: reconcile_migration_def reconcile_decision_def)
next
  case False
  let ?base = "(mig_Status object)\<lparr>ms_ObservedGeneration := mig_Generation object,
    ms_Phase := Some (current_phase (mig_Status object)),
    ms_StartedAt := or_else (ms_StartedAt (mig_Status object)) (Some now)\<rparr>"
  obtain resolved result where res: "resolve names reads object ?base (current_phase (mig_Status object)) now
    = (resolved, result)" by fastforce
  note kept = resolve_status [OF res]
  have same: "sourceDropped resolved = sourceDropped (mig_Status object)"
    "ms_RollbackDeadline resolved = ms_RollbackDeadline (mig_Status object)"
    "ms_Phase resolved = Some (current_phase (mig_Status object))"
    "rollbackWindowClosed ?base now = rollbackWindowClosed (mig_Status object) now"
    "sourceDropped ?base = sourceDropped (mig_Status object)"
    by (subst kept(1); simp add: sourceDropped_def)+ (simp_all add: rollbackWindowClosed_def sourceDropped_def)
  show ?thesis
  proof (cases result)
    case (Inl err)
    with False res assms same kept(2) show ?thesis
      by (intro that(1))
        (auto simp: reconcile_migration_def reconcile_decision_def Let_def current_phase_def [of status'])
  next
    case (Inr run)
    note run = resolve_run [OF res [unfolded Inr]]
    obtain obs where obs: "fst (snd (fst (engine_round now gate e run w))) = migration_Decide (run_Phase run) obs"
      "run_Phase run = TenantMigrationPhaseCompleted \<Longrightarrow>
        mo_RollbackWindowClosed obs = run_RollbackWindowClosed run \<and> mo_SourceDropped obs = run_SourceDropped run"
      using round_decision [of now gate e run w] by blast
    obtain step d app w' where round: "engine_round now gate e run w = ((step, d, app), w')"
      by (metis surj_pair)
    let ?accepted = "resolved\<lparr>ms_Conditions := setCondition now (mig_Generation object) ConditionAccepted True
      ''Accepted'' (''moving tenant '' @ tr_Name (run_Tenant run) @ '' from '' @ run_source run @
        '' to '' @ run_target run) (ms_Conditions resolved)\<rparr>"
    have status': "status' = record_step now (mig_Generation object) run step d ?accepted"
      using False res assms Inr round by (simp add: reconcile_migration_def Let_def)
    have decided: "reconcile_decision names reads now gate e object w = Some d"
      using False res Inr round by (simp add: reconcile_decision_def)
    show ?thesis
    proof (rule that(2) [of d obs])
      show "d = migration_Decide (current_phase (mig_Status object)) obs" using obs(1) round run(1) by simp
      show "mo_RollbackWindowClosed obs = rollbackWindowClosed (mig_Status object) now \<and>
          mo_SourceDropped obs = sourceDropped (mig_Status object)"
        if "current_phase (mig_Status object) = TenantMigrationPhaseCompleted"
        using obs(2) run same that by simp
      show "sourceDropped status' = (if md_Settled d then sourceDropped (mig_Status object)
          else md_Reason d = ReasonSourceDropped)"
        unfolding status' sourceDropped_record sourceDropped_accepted same(1) ..
    qed (use status' decided same kept(2) in \<open>simp_all add: record_step_def\<close>)
  qed
qed

section \<open>The life of one migration\<close>

definition decides_drop :: "migration_decision option \<Rightarrow> bool" where
  "decides_drop d = (case d of None \<Rightarrow> False | Some d \<Rightarrow> md_DropSource d)"

text \<open>
  The published status after each reconcile from any point of a migration's life, with the clock of the
  last one and how many reconciles since that point decided to drop the source. The spec, the annotations, the objects read, the engine and the whole
  world may be different every time; only the status is carried over, and the clock does not go back.
\<close>

inductive migration_history :: "migration_status \<Rightarrow> nat \<Rightarrow> time \<Rightarrow> bool" where
  start: "migration_history st 0 t"
| reconcile: "migration_history (mig_Status object) n t \<Longrightarrow> t \<le> now \<Longrightarrow>
    migration_history (fst (fst (reconcile_migration names reads now gate e object (w :: unit world))))
      (n + (if decides_drop (reconcile_decision names reads now gate e object w) then 1 else 0)) now"

lemma current_phase_Some [simp]: "ms_Phase st = Some p \<Longrightarrow> current_phase st = p"
  by (simp add: current_phase_def)

lemma migration_history_invariant:
  assumes "migration_history st n t"
  shows "n = 0 \<or> n = 1 \<and> current_phase st = TenantMigrationPhaseCompleted \<and> sourceDropped st \<and>
    (\<exists>deadline. ms_RollbackDeadline st = Some deadline \<and> deadline \<le> t)"
  using assms
proof (induction rule: migration_history.induct)
  case (reconcile object n t now names reads gate e w)
  show ?case
  proof (cases rule: reconcile_cases [OF refl, of names reads now gate e object w])
    case 1
    with reconcile show ?thesis by (fastforce simp: decides_drop_def)
  next
    case (2 d obs)
    show ?thesis
    proof (cases "n = 0")
      case True
      show ?thesis
      proof (cases "md_DropSource d")
        case drop: True
        then have closed: "current_phase (mig_Status object) = TenantMigrationPhaseCompleted"
          "mo_RollbackWindowClosed obs" "\<not> mo_SourceDropped obs"
          using 2(2) by (simp_all add: Decide_DropSource)
        then have "md_Phase d = TenantMigrationPhaseCompleted" "\<not> md_Settled d"
          "md_Reason d = ReasonSourceDropped"
          using 2(2) by (simp_all add: migration_Decide_def decideCompleted_def)
        moreover obtain deadline where "ms_RollbackDeadline (mig_Status object) = Some deadline" "deadline \<le> now"
          using 2(3) closed by (auto simp: rollbackWindowClosed_def split: option.splits)
        ultimately show ?thesis using 2(1,4,5,6) True drop by (simp add: decides_drop_def)
      qed (use 2(1) True in \<open>simp add: decides_drop_def\<close>)
    next
      case False
      with reconcile.IH obtain deadline where old: "n = 1" "current_phase (mig_Status object) = TenantMigrationPhaseCompleted"
        "sourceDropped (mig_Status object)" "ms_RollbackDeadline (mig_Status object) = Some deadline" "deadline \<le> t"
        by auto
      with 2(3) reconcile.hyps have "mo_RollbackWindowClosed obs" "mo_SourceDropped obs"
        by (auto simp: rollbackWindowClosed_def)
      with 2 old reconcile.hyps show ?thesis
        by (auto simp: decides_drop_def migration_Decide_def decideCompleted_def)
    qed
  qed
qed simp

section \<open>What is written once\<close>

lemma quiesceStart_update [simp]:
  "ConditionQuiesced \<noteq> type \<Longrightarrow>
   condition_since (setCondition clock generation type st r msg cs) ConditionQuiesced
     = condition_since cs ConditionQuiesced"
  "ConditionQuiesced \<noteq> type \<Longrightarrow>
   condition_since (stamped_condition clock at generation type st r msg cs) ConditionQuiesced
     = condition_since cs ConditionQuiesced"
  by (simp_all add: condition_since_def)

lemma quiesce_clock_record:
  "quiesceStart status = Some t \<Longrightarrow> quiesceStart (record_step now generation run step d status) = Some t"
  by (simp add: quiesceStart_def record_step_def outcome_conditions_def quiesce_condition_def
      conditions_of_def Let_def split: option.split)

lemma quiesce_clock_kept:
  assumes "quiesceStart (mig_Status object) = Some t"
  shows "quiesceStart (fst (fst (reconcile_migration names reads now gate e object w))) = Some t"
proof (cases "mig_Deleting object")
  case True
  with assms show ?thesis by (simp add: reconcile_migration_def)
next
  case False
  let ?base = "(mig_Status object)\<lparr>ms_ObservedGeneration := mig_Generation object,
    ms_Phase := Some (current_phase (mig_Status object)),
    ms_StartedAt := or_else (ms_StartedAt (mig_Status object)) (Some now)\<rparr>"
  obtain resolved result where res: "resolve names reads object ?base (current_phase (mig_Status object)) now
    = (resolved, result)" by fastforce
  have "ms_Conditions resolved = ms_Conditions (mig_Status object)"
    by (subst resolve_status(1) [OF res]) simp
  with assms have kept: "quiesceStart (resolved\<lparr>ms_Conditions := setCondition now (mig_Generation object)
      ConditionAccepted ok r msg (ms_Conditions resolved)\<rparr>) = Some t" for ok r msg
    by (simp add: quiesceStart_def)
  show ?thesis
  proof (cases result)
    case (Inl err)
    with False res kept show ?thesis by (simp add: reconcile_migration_def Let_def)
  next
    case (Inr run)
    obtain step d app w' where "engine_round now gate e run w = ((step, d, app), w')"
      by (metis surj_pair)
    with False res Inr kept show ?thesis
      by (simp add: reconcile_migration_def Let_def quiesce_clock_record)
  qed
qed

section \<open>Properties\<close>


text \<open>
  Three entries of the status are written once and never again by a reconcile: the source instance a
  migration captured, the deadline of its rollback window, and the start of its pause, from which the
  drain and cutover timeouts are measured.
\<close>

theorem captured_once:
  assumes "fst (fst (reconcile_migration names reads now gate e object w)) = status'"
  shows "(ms_SourceInstanceRef (mig_Status object) = Some source \<longrightarrow> ms_SourceInstanceRef status' = Some source) \<and>
    (ms_RollbackDeadline (mig_Status object) = Some deadline \<longrightarrow> ms_RollbackDeadline status' = Some deadline) \<and>
    (quiesceStart (mig_Status object) = Some paused \<longrightarrow> quiesceStart status' = Some paused)"
proof -
  have "quiesceStart status' = Some paused" if "quiesceStart (mig_Status object) = Some paused"
    unfolding assms [symmetric] using that by (rule quiesce_clock_kept)
  then show ?thesis by (cases rule: reconcile_cases [OF assms]) auto
qed

text \<open>
  A drop that fails is recorded as done: whatever the engine's ports answer, the status published by
  the reconcile that decides the drop says the source was dropped, and no later reconcile of that status
  decides it again, so a drop that failed is never retried.
\<close>

theorem failed_drop_is_never_retried:
  assumes "reconcile_decision names reads now gate e object w = Some d" "md_DropSource d"
    and "fst (fst (reconcile_migration names reads now gate e object w)) = status'"
    and "mig_Status object' = status'" "now \<le> now'"
  shows "sourceDropped status' \<and> \<not> decides_drop (reconcile_decision names' reads' now' gate' e' object' w')"
proof (cases rule: reconcile_cases [OF assms(3)])
  case 1
  with assms(1) show ?thesis by simp
next
  case (2 d' obs)
  with assms(1) have d: "d' = d" by simp
  with 2 assms(2) have closed: "current_phase (mig_Status object) = TenantMigrationPhaseCompleted"
    "rollbackWindowClosed (mig_Status object) now" "\<not> mo_SourceDropped obs" "mo_RollbackWindowClosed obs"
    by (auto simp: Decide_DropSource)
  then have decided: "md_Reason d = ReasonSourceDropped" "\<not> md_Settled d" "md_Phase d = TenantMigrationPhaseCompleted"
    using 2(2) d by (simp_all add: migration_Decide_def decideCompleted_def)
  have dropped: "sourceDropped status'" using 2(5) d decided by simp
  moreover have "\<not> decides_drop (reconcile_decision names' reads' now' gate' e' object' w')"
  proof (cases rule: reconcile_cases [OF refl, of names' reads' now' gate' e' object' w'])
    case 1
    then show ?thesis by (simp add: decides_drop_def)
  next
    case (2 d2 obs2)
    with assms(4) dropped show ?thesis by (auto simp: decides_drop_def Decide_DropSource)
  qed
  ultimately show ?thesis by blast
qed

text \<open>
  A strategy of Auto is resolved from the pool again on every reconcile, so it can change half way:
  with a pool whose default is Offline the tenant's clients are already queued while the copy runs, and
  when that default is gone by the time the copy is aborted, the abort does not release them.
\<close>

theorem auto_strategy_strands_queued_clients:
  assumes "pv_Migration pool = Some m" "pm_DefaultStrategy m = MigrationOffline"
    and "mo_Strategy obs = resolveStrategy TenantMigrationAuto None" "mo_AbortRequested obs"
  shows "Quiesced TenantMigrationPhaseCopying (resolveStrategy TenantMigrationAuto (Some pool)) \<and>
    md_Phase (migration_Decide TenantMigrationPhaseCopying obs) = TenantMigrationPhaseAborted \<and>
    \<not> md_ReleaseQuiesce (migration_Decide TenantMigrationPhaseCopying obs)"
proof -
  have "Quiesced TenantMigrationPhaseCopying TenantMigrationOffline"
    "\<not> Quiesced TenantMigrationPhaseCopying TenantMigrationOnline" by code_simp+
  with assms show ?thesis by (simp add: resolveStrategy_def migration_Decide_def decide_running_def abort_def)
qed

section \<open>Examples\<close>

definition example_status :: "migration_phase \<Rightarrow> migration_status" where
  "example_status p =
     \<lparr>ms_ObservedGeneration = 1, ms_Phase = Some p, ms_StartedAt = Some 1, ms_CompletedAt = None,
      ms_SourceInstanceRef = Some ''A'', ms_ReplicationSlotName = [], ms_PublicationName = [],
      ms_SubscriptionName = [], ms_LagBytes = None, ms_CopiedTables = None, ms_TotalTables = None,
      ms_PauseDurationMillis = None, ms_QueuedClients = None, ms_Verification = None,
      ms_RollbackDeadline = Some 5,
      ms_Conditions = [\<lparr>mc_Type = ConditionQuiesced, mc_Status = True, mc_Reason = ''Progressing'',
        mc_Message = [], mc_ObservedGeneration = 1, mc_LastTransitionTime = 3\<rparr>]\<rparr>"

definition example_object :: "migration_status \<Rightarrow> migration_object" where
  "example_object status =
     \<lparr>mig_Namespace = ''ns'', mig_Name = ''first'', mig_Generation = 1, mig_Deleting = False,
      mig_Annotations = (\<lambda>_. None), mig_Strategy = TenantMigrationAuto, mig_TenantRef = ''shop'',
      mig_TargetInstanceRef = ''B'', mig_DrainTimeout = None, mig_CutoverTimeout = None,
      mig_RollbackWindow = None, mig_MaxSourceLagBytes = None, mig_SequenceHandling = None,
      mig_Status = status\<rparr>"

definition example_reads :: migration_reads where
  "example_reads =
     \<lparr>rd_Tenant = (\<lambda>name. Inr \<lparr>tv_Namespace = ''ns'', tv_Name = name, tv_PoolRef = ''pool'',
        tv_DatabaseName = ''shop'', tv_Binding = Some ''B''\<rparr>),
      rd_Instance = (\<lambda>name. Inr \<lparr>iv_Name = name, iv_PoolRef = ''pool'', iv_CurrentPrimary = name @ ''-1'',
        iv_ConcurrentDumps = 1, iv_ConnInfo = (\<lambda>database password. ''host='' @ name)\<rparr>),
      rd_Pool = (\<lambda>_. PoolNotFound), rd_Password = (\<lambda>_. Inr ''secret'')\<rparr>"

definition example_names :: migration_names where
  "example_names =
     \<lparr>nm_Publication = (\<lambda>_ name. name), nm_Slot = (\<lambda>_ name. name), nm_Subscription = (\<lambda>_ name. name),
      nm_DumpDir = (\<lambda>_ name. ''/'' @ name), nm_BackendRole = (\<lambda>_ name. name)\<rparr>"

text \<open>A PostgreSQL that refuses every statement.\<close>

definition refusing_sql :: "unit sql_port" where
  "refusing_sql = \<lparr>Exec = (\<lambda>at st. eff_fail ''connection refused''), Query = (\<lambda>at st. eff_fail ''connection refused'')\<rparr>"

abbreviation refusing_engine :: "unit world engine" where
  "refusing_engine \<equiv> binding_engine refusing_sql None"

abbreviation example_gate :: "unit world preflight_gate" where
  "example_gate \<equiv> pg_gate (\<lambda>_ d. (True, d))"

abbreviation completed_object :: migration_object where
  "completed_object \<equiv> example_object (example_status TenantMigrationPhaseCompleted)"

lemma example_decision:
  "\<exists>d. reconcile_decision example_names example_reads 10 example_gate refusing_engine completed_object
     (example_world ''B'') = Some d \<and> md_DropSource d"
proof -
  have "\<exists>st run. resolve example_names example_reads completed_object
      ((mig_Status completed_object)\<lparr>ms_ObservedGeneration := mig_Generation completed_object,
         ms_Phase := Some (current_phase (mig_Status completed_object)),
         ms_StartedAt := or_else (ms_StartedAt (mig_Status completed_object)) (Some 10)\<rparr>)
      (current_phase (mig_Status completed_object)) 10 = (st, Inr run)"
    by (simp add: resolve_def resolve_source_def resolve_instance_def example_object_def example_status_def
        example_reads_def Let_def)
  then obtain st run where res: "resolve example_names example_reads completed_object
      ((mig_Status completed_object)\<lparr>ms_ObservedGeneration := mig_Generation completed_object,
         ms_Phase := Some (current_phase (mig_Status completed_object)),
         ms_StartedAt := or_else (ms_StartedAt (mig_Status completed_object)) (Some 10)\<rparr>)
      (current_phase (mig_Status completed_object)) 10 = (st, Inr run)"
    by blast
  note run = resolve_run [OF res]
  obtain obs where obs: "fst (snd (fst (engine_round 10 example_gate refusing_engine run (example_world ''B''))))
      = migration_Decide (run_Phase run) obs"
    "run_Phase run = TenantMigrationPhaseCompleted \<Longrightarrow>
       mo_RollbackWindowClosed obs = run_RollbackWindowClosed run \<and> mo_SourceDropped obs = run_SourceDropped run"
    using round_decision [of 10 example_gate refusing_engine run "example_world ''B''"] by blast
  have "mig_Deleting completed_object = False" "run_Phase run = TenantMigrationPhaseCompleted"
    "run_RollbackWindowClosed run" "\<not> run_SourceDropped run"
    using run by (simp_all add: example_object_def example_status_def current_phase_def rollbackWindowClosed_def
        sourceDropped_def findCondition_def ConditionSucceeded_def ConditionQuiesced_def)
  with res obs show ?thesis
    by (simp add: reconcile_decision_def Decide_DropSource)
qed


theorem captured_once_witness:
  "quiesceStart (example_status TenantMigrationPhaseCompleted) = Some 3 \<and>
   quiesceStart (fst (fst (reconcile_migration example_names example_reads 10 example_gate refusing_engine
     completed_object (example_world ''B'')))) = Some 3 \<and>
   ms_SourceInstanceRef (fst (fst (reconcile_migration example_names example_reads 10 example_gate refusing_engine
     completed_object (example_world ''B'')))) = Some ''A'' \<and>
   ms_RollbackDeadline (fst (fst (reconcile_migration example_names example_reads 10 example_gate refusing_engine
     completed_object (example_world ''B'')))) = Some 5"
proof -
  have "quiesceStart (mig_Status completed_object) = Some 3"
    "ms_SourceInstanceRef (mig_Status completed_object) = Some ''A''"
    "ms_RollbackDeadline (mig_Status completed_object) = Some 5"
    by (simp_all add: example_object_def example_status_def quiesceStart_def condition_since_def findCondition_def)
  with captured_once [OF refl, of completed_object "''A''" example_names example_reads 10 example_gate
      refusing_engine "example_world ''B''" 5 3]
  show ?thesis by (simp add: example_object_def)
qed

theorem failed_drop_is_never_retried_witness:
  "sourceDropped (fst (fst (reconcile_migration example_names example_reads 10 example_gate refusing_engine
     completed_object (example_world ''B'')))) \<and>
   fst (DropSourceDatabase (pg_sql refusing_sql) (example_endpoint ''A'') ''shop'' (example_world ''B''))
     = Inl ''connection refused''"
proof -
  let ?status = "fst (fst (reconcile_migration example_names example_reads 10 example_gate refusing_engine
    completed_object (example_world ''B'')))"
  obtain d where "reconcile_decision example_names example_reads 10 example_gate refusing_engine completed_object
      (example_world ''B'') = Some d" "md_DropSource d"
    using example_decision by blast
  from failed_drop_is_never_retried [OF this refl, of "example_object ?status" 10 example_names example_reads
      example_gate refusing_engine "example_world ''B''", THEN conjunct1]
  have "sourceDropped ?status" by (simp add: example_object_def)
  moreover have "fst (DropSourceDatabase (pg_sql refusing_sql) (example_endpoint ''A'') ''shop'' (example_world ''B''))
      = Inl ''connection refused''"
    by (simp add: DropSourceDatabase_def dropOwnedDatabase_def ownedBy_def effect_defs scalarInt64_def scalar_def
        pg_sql_def refusing_sql_def on_pg_def)
  ultimately show ?thesis by blast
qed

theorem auto_strategy_strands_queued_clients_witness:
  "\<not> md_ReleaseQuiesce (migration_Decide TenantMigrationPhaseCopying
     ((initial_observation (example_run ''first'' TenantMigrationPhaseCopying))
       \<lparr>mo_Strategy := TenantMigrationOnline, mo_AbortRequested := True\<rparr>))"
  using auto_strategy_strands_queued_clients [of
      "\<lparr>pv_Migration = Some \<lparr>pm_DefaultStrategy = MigrationOffline, pm_RollbackWindow = None,
          pm_Verification = MigrationVerifySchema\<rparr>\<rparr>" _
      "(initial_observation (example_run ''first'' TenantMigrationPhaseCopying))
        \<lparr>mo_Strategy := TenantMigrationOnline, mo_AbortRequested := True\<rparr>"]
  by (simp add: resolveStrategy_def)

end
