(* ===== verification/Placement.thy ===== *)
theory Placement
  imports Go_Float
begin

text \<open>
  Which instance a tenant's database lives on (\<open>internal/placement/placement.go\<close>): packing a whole
  pool Best-Fit-Decreasing (\<open>Pack\<close>) and admitting one tenant by two random choices (\<open>Admit\<close>).

  Instances being packed are a list of bins sorted by name; a pointer to a bin is its position in
  that list. A Go map that is only looked up is a HOL map; the map of a tenant's anti-affinity labels,
  which is iterated over, is a list in the order of the iteration.
\<close>

section \<open>Data\<close>

datatype placement_reason =
    ReasonNoCapacity
  | ReasonAntiAffinity
  | ReasonVersionUnsupported
  | ReasonPinnedUnavailable
  | ReasonNoInstances
  | ReasonInstanceUnavailable
  | ReasonOverCommitted

fun placement_reason_string :: "placement_reason \<Rightarrow> string" where
  "placement_reason_string ReasonNoCapacity = ''NoCapacity''"
| "placement_reason_string ReasonAntiAffinity = ''AntiAffinityConflict''"
| "placement_reason_string ReasonVersionUnsupported = ''VersionUnsupported''"
| "placement_reason_string ReasonPinnedUnavailable = ''PinnedInstanceUnavailable''"
| "placement_reason_string ReasonNoInstances = ''NoSchedulableInstance''"
| "placement_reason_string ReasonInstanceUnavailable = ''InstanceUnavailable''"
| "placement_reason_string ReasonOverCommitted = ''PoolOverCommitted''"

record demand =
  dm_GuaranteedConnections :: int
  dm_ObservedConnections :: int
  dm_StorageBytes :: int
  dm_Relations :: int

definition Connections :: "demand \<Rightarrow> int" where
  "Connections d = max (dm_GuaranteedConnections d) (dm_ObservedConnections d)"

record capacity =
  cp_Connections :: int
  cp_StorageBytes :: int
  cp_Relations :: int

definition zero_capacity :: capacity where
  "zero_capacity = \<lparr>cp_Connections = 0, cp_StorageBytes = 0, cp_Relations = 0\<rparr>"

definition Capacity_add :: "capacity \<Rightarrow> capacity \<Rightarrow> capacity" where
  "Capacity_add c other =
     \<lparr>cp_Connections = wrap32 (cp_Connections c + cp_Connections other),
      cp_StorageBytes = wrap64 (cp_StorageBytes c + cp_StorageBytes other),
      cp_Relations = wrap32 (cp_Relations c + cp_Relations other)\<rparr>"

definition asCapacity :: "demand \<Rightarrow> capacity" where
  "asCapacity d =
     \<lparr>cp_Connections = Connections d, cp_StorageBytes = dm_StorageBytes d, cp_Relations = dm_Relations d\<rparr>"

record tenant =
  tn_Name :: string
  tn_Demand :: demand
  tn_AntiAffinity :: "(string \<times> string) list"
  tn_PinnedInstance :: string
  tn_BoundInstance :: string
  tn_BoundMajor :: int

type_synonym label_values = "string \<rightharpoonup> string set"

record placement_instance =
  in_Name :: string
  in_Capacity :: capacity
  in_Reserved :: capacity
  in_Schedulable :: bool
  in_Major :: int
  in_Ready :: bool
  in_Occupied :: label_values
  in_Tenants :: int

datatype percentile = PercentileP50 | PercentileP75 | PercentileP90 | PercentileP95 | PercentileP99

record placement_policy =
  po_PackOn :: percentile
  po_MaxSkewTenants :: int

record assignment =
  as_Tenant :: string
  as_Instance :: string
  as_Moved :: bool
  as_From :: string

record refusal =
  rf_Tenant :: string
  rf_Reason :: placement_reason
  rf_Message :: string

record placement_result =
  rs_Assignments :: "assignment list"
  rs_Refusals :: "refusal list"
  rs_PerInstance :: "string \<rightharpoonup> capacity"
  rs_TenantsPerInstance :: "string \<rightharpoonup> int"

definition AssignmentFor :: "placement_result \<Rightarrow> string \<Rightarrow> assignment option" where
  "AssignmentFor r tenant = find (\<lambda>a. as_Tenant a = tenant) (rs_Assignments r)"

definition RefusalFor :: "placement_result \<Rightarrow> string \<Rightarrow> refusal option" where
  "RefusalFor r tenant = find (\<lambda>a. rf_Tenant a = tenant) (rs_Refusals r)"

definition Moves :: "placement_result \<Rightarrow> assignment list" where
  "Moves r = filter as_Moved (rs_Assignments r)"

section \<open>Bins\<close>

record bin =
  bn_instance :: placement_instance
  bn_used :: capacity
  bn_tenants :: int
  bn_labels :: label_values

abbreviation bin_name :: "bin \<Rightarrow> string" where "bin_name b \<equiv> in_Name (bn_instance b)"

definition newBin :: "placement_instance \<Rightarrow> bin" where
  "newBin inst =
     \<lparr>bn_instance = inst, bn_used = in_Reserved inst, bn_tenants = in_Tenants inst,
      bn_labels = in_Occupied inst\<rparr>"

definition free :: "bin \<Rightarrow> capacity" where
  "free b =
     (let c = in_Capacity (bn_instance b); u = bn_used b in
      \<lparr>cp_Connections = wrap32 (cp_Connections c - cp_Connections u),
       cp_StorageBytes = wrap64 (cp_StorageBytes c - cp_StorageBytes u),
       cp_Relations = wrap32 (cp_Relations c - cp_Relations u)\<rparr>)"

definition clashes :: "label_values \<Rightarrow> string \<times> string \<Rightarrow> bool" where
  "clashes labels kv = (case labels (fst kv) of None \<Rightarrow> False | Some values \<Rightarrow> snd kv \<in> values)"

text \<open>\<open>fits\<close> returns nothing when the tenant can go here, and otherwise the reason and the message.\<close>

definition fits :: "bin \<Rightarrow> tenant \<Rightarrow> (placement_reason \<times> string) option" where
  "fits b t =
     (let inst = bn_instance b; c = in_Capacity inst; f = free b; d = tn_Demand t in
      if \<not> in_Ready inst then Some (ReasonInstanceUnavailable, ''is not ready to serve tenant traffic'')
      else if \<not> in_Schedulable inst then Some (ReasonInstanceUnavailable, ''is cordoned'')
      else if tn_BoundMajor t > 0 \<and> in_Major inst > 0 \<and> in_Major inst < tn_BoundMajor t then
        Some (ReasonVersionUnsupported,
          ''runs PostgreSQL '' @ Itoa (in_Major inst) @ '' and the tenant is on '' @ Itoa (tn_BoundMajor t) @
          ''; a dump runs in the target and cannot read a newer server'')
      else if tn_BoundMajor t > 0 \<and> in_Major inst > 0 \<and> in_Major inst > wrap64 (tn_BoundMajor t + 1) then
        Some (ReasonVersionUnsupported,
          ''runs PostgreSQL '' @ Itoa (in_Major inst) @ '' and the tenant is on '' @ Itoa (tn_BoundMajor t) @
          ''; majors are crossed one at a time'')
      else case find (clashes (bn_labels b)) (tn_AntiAffinity t) of
        Some (key, value) \<Rightarrow>
          Some (ReasonAntiAffinity, ''already hosts a tenant with '' @ key @ ''='' @ value)
      | None \<Rightarrow>
          if cp_Connections c > 0 \<and> Connections d > cp_Connections f then
            Some (ReasonNoCapacity, ''has '' @ Itoa (max (cp_Connections f) 0) @
              '' connections free for a tenant needing '' @ Itoa (Connections d))
          else if cp_StorageBytes c > 0 \<and> dm_StorageBytes d > cp_StorageBytes f then
            Some (ReasonNoCapacity, ''has '' @ Itoa (max (cp_StorageBytes f) 0) @
              '' storage bytes free for a tenant needing '' @ Itoa (dm_StorageBytes d))
          else if cp_Relations c > 0 \<and> dm_Relations d > cp_Relations f then
            Some (ReasonNoCapacity, ''has room for '' @ Itoa (max (cp_Relations f) 0) @
              '' more relations, tenant has '' @ Itoa (dm_Relations d))
          else None)"

definition add_label :: "label_values \<Rightarrow> string \<times> string \<Rightarrow> label_values" where
  "add_label labels kv =
     labels(fst kv \<mapsto> insert (snd kv) (case labels (fst kv) of None \<Rightarrow> {} | Some values \<Rightarrow> values))"

definition place :: "bin \<Rightarrow> tenant \<Rightarrow> bin" where
  "place b t =
     b\<lparr>bn_used := Capacity_add (bn_used b) (asCapacity (tn_Demand t)),
       bn_tenants := wrap32 (bn_tenants b + 1),
       bn_labels := foldl add_label (bn_labels b) (tn_AntiAffinity t)\<rparr>"

text \<open>One dimension of \<open>residual\<close> and of \<open>size\<close>, folded into the worst seen so far.\<close>

definition residual :: "bin \<Rightarrow> tenant \<Rightarrow> float64" where
  "residual b t =
     (let f = free b; c = in_Capacity (bn_instance b); d = tn_Demand t in
      foldl (\<lambda>worst (free, demand, whole).
          if whole \<le> 0 then worst else max worst (float_div (float_sub free demand) whole)) 0
        [(float_of_int (cp_Connections f), float_of_int (Connections d), float_of_int (cp_Connections c)),
         (float_of_int (cp_StorageBytes f), float_of_int (dm_StorageBytes d), float_of_int (cp_StorageBytes c)),
         (float_of_int (cp_Relations f), float_of_int (dm_Relations d), float_of_int (cp_Relations c))])"

definition size_of :: "capacity \<Rightarrow> tenant \<Rightarrow> float64" where
  "size_of largest t =
     (let d = tn_Demand t in
      foldl (\<lambda>worst (demand, whole). if whole \<le> 0 then worst else max worst (float_div demand whole)) 0
        [(float_of_int (Connections d), float_of_int (cp_Connections largest)),
         (float_of_int (dm_StorageBytes d), float_of_int (cp_StorageBytes largest)),
         (float_of_int (dm_Relations d), float_of_int (cp_Relations largest))])"

section \<open>Choosing a bin\<close>

definition bin_cmp :: "bin \<Rightarrow> bin \<Rightarrow> int" where
  "bin_cmp a b = go_compare (bin_name a) (bin_name b)"

definition binsOf :: "placement_instance list \<Rightarrow> bin list" where
  "binsOf instances = sort_func bin_cmp (map newBin instances)"

text \<open>The map from names to bins \<open>binsOf\<close> returns beside the list; names are unique in a namespace.\<close>

definition byName :: "bin list \<Rightarrow> string \<Rightarrow> nat option" where
  "byName bins name = find (\<lambda>i. bin_name (bins ! i) = name) (rev [0..<length bins])"

definition better :: "tenant \<Rightarrow> bin list \<Rightarrow> nat \<Rightarrow> nat \<Rightarrow> nat" where
  "better t bins a b =
     (if residual (bins ! a) t < residual (bins ! b) t then a
      else if residual (bins ! b) t < residual (bins ! a) t then b
      else if tn_BoundInstance t = bin_name (bins ! a) then a
      else if tn_BoundInstance t = bin_name (bins ! b) then b
      else if bin_name (bins ! a) \<le> bin_name (bins ! b) then a
      else b)"

definition candidates_of :: "tenant \<Rightarrow> bin list \<Rightarrow> nat list" where
  "candidates_of t bins = filter (\<lambda>i. fits (bins ! i) t = None) [0..<length bins]"

fun emptiest_of :: "bin list \<Rightarrow> nat list \<Rightarrow> int" where
  "emptiest_of bins [] = 0"
| "emptiest_of bins (i # js) =
     foldl (\<lambda>emptiest i. if bn_tenants (bins ! i) < emptiest then bn_tenants (bins ! i) else emptiest)
       (bn_tenants (bins ! i)) js"

definition feasible :: "tenant \<Rightarrow> bin list \<Rightarrow> placement_policy \<Rightarrow> nat list" where
  "feasible t bins policy =
     (let candidates = candidates_of t bins in
      if po_MaxSkewTenants policy \<le> 0 \<or> length candidates < 2 then candidates
      else
        let emptiest = emptiest_of bins candidates;
            level = filter (\<lambda>i. wrap32 (wrap32 (bn_tenants (bins ! i) + 1) - emptiest) \<le> po_MaxSkewTenants policy)
                      candidates in
        if level = [] then candidates else level)"

definition bestFit :: "tenant \<Rightarrow> bin list \<Rightarrow> placement_policy \<Rightarrow> nat option" where
  "bestFit t bins policy =
     foldl (\<lambda>chosen i. case chosen of None \<Rightarrow> Some i | Some c \<Rightarrow> Some (better t bins c i)) None
       (feasible t bins policy)"

section \<open>Refusing\<close>

text \<open>
  The counts per reason, in the order in which the reasons were first met. The loop over them picks
  the largest count and, among equal counts, the first reason, so the order does not matter.
\<close>

fun count_reason :: "placement_reason \<Rightarrow> (placement_reason \<times> int) list \<Rightarrow> (placement_reason \<times> int) list" where
  "count_reason r [] = [(r, 1)]"
| "count_reason r ((r', n) # rest) = (if r = r' then (r', n + 1) # rest else (r', n) # count_reason r rest)"

fun refuse_loop :: "tenant \<Rightarrow> bin list \<Rightarrow> (placement_reason \<times> int) list \<Rightarrow> (placement_reason \<rightharpoonup> string) \<Rightarrow>
    (placement_reason \<times> int) list \<times> (placement_reason \<rightharpoonup> string)" where
  "refuse_loop t [] counts messages = (counts, messages)"
| "refuse_loop t (b # bins) counts messages =
     (case fits b t of
        None \<Rightarrow> refuse_loop t bins counts messages
      | Some (reason, why) \<Rightarrow>
          refuse_loop t bins (count_reason reason counts)
            (messages(reason \<mapsto> ''PgInstance '' @ bin_name b @ '' '' @ why)))"

definition pick_reason :: "(placement_reason \<times> int) list \<Rightarrow> placement_reason \<times> int" where
  "pick_reason counts =
     foldl (\<lambda>(reason, best) (candidate, count).
         if count > best \<or>
            count = best \<and> placement_reason_string candidate < placement_reason_string reason
         then (candidate, count) else (reason, best))
       (ReasonNoCapacity, -1) counts"

definition refuse :: "tenant \<Rightarrow> bin list \<Rightarrow> refusal" where
  "refuse t bins =
     (if bins = [] then
        \<lparr>rf_Tenant = tn_Name t, rf_Reason = ReasonNoInstances,
         rf_Message = ''the pool has no instance that can accept tenants''\<rparr>
      else case refuse_loop t bins [] (\<lambda>_. None) of
        (counts, messages) \<Rightarrow>
          let reason = fst (pick_reason counts) in
          \<lparr>rf_Tenant = tn_Name t, rf_Reason = reason,
           rf_Message = (case messages reason of None \<Rightarrow> [] | Some m \<Rightarrow> m)\<rparr>)"

section \<open>Packing a pool\<close>

definition assignmentOf :: "tenant \<Rightarrow> string \<Rightarrow> assignment" where
  "assignmentOf t inst =
     \<lparr>as_Tenant = tn_Name t, as_Instance = inst,
      as_Moved = (tn_BoundInstance t \<noteq> [] \<and> tn_BoundInstance t \<noteq> inst), as_From = tn_BoundInstance t\<rparr>"

text \<open>\<open>checkCommitment\<close>: the error text when more is guaranteed than the ready instances hold.\<close>

definition guaranteed_total :: "tenant list \<Rightarrow> int" where
  "guaranteed_total tenants =
     foldl (\<lambda>total t. wrap64 (total + dm_GuaranteedConnections (tn_Demand t))) 0 tenants"

definition allocatable_total :: "placement_instance list \<Rightarrow> int" where
  "allocatable_total instances =
     foldl (\<lambda>total i.
         if in_Ready i
         then wrap64 (total + wrap32 (cp_Connections (in_Capacity i) - cp_Connections (in_Reserved i)))
         else total) 0 instances"

definition ErrOverCommitted :: string where
  "ErrOverCommitted = ''pool is over-committed: the sum of guaranteed connections exceeds the instances' allocatable capacity''"

definition checkCommitment :: "tenant list \<Rightarrow> placement_instance list \<Rightarrow> string option" where
  "checkCommitment tenants instances =
     (let guaranteed = guaranteed_total tenants; allocatable = allocatable_total instances in
      if guaranteed > allocatable then
        Some (ErrOverCommitted @ '': '' @ Itoa guaranteed @ '' guaranteed against '' @ Itoa allocatable @
              '' allocatable'')
      else None)"

definition largest_of :: "placement_instance list \<Rightarrow> capacity" where
  "largest_of instances =
     foldl (\<lambda>largest i.
         \<lparr>cp_Connections = max (cp_Connections largest) (cp_Connections (in_Capacity i)),
          cp_StorageBytes = max (cp_StorageBytes largest) (cp_StorageBytes (in_Capacity i)),
          cp_Relations = max (cp_Relations largest) (cp_Relations (in_Capacity i))\<rparr>)
       zero_capacity instances"

definition size_cmp :: "capacity \<Rightarrow> tenant \<Rightarrow> tenant \<Rightarrow> int" where
  "size_cmp largest a b =
     (if size_of largest a > size_of largest b then -1
      else if size_of largest b > size_of largest a then 1
      else go_compare (tn_Name a) (tn_Name b))"

definition orderedByDecreasingSize :: "tenant list \<Rightarrow> placement_instance list \<Rightarrow> tenant list" where
  "orderedByDecreasingSize tenants instances = sort_func (size_cmp (largest_of instances)) tenants"

definition pin_refusal :: "tenant \<Rightarrow> bin list \<Rightarrow> nat option \<Rightarrow> refusal option" where
  "pin_refusal t bins target =
     (case target of
        None \<Rightarrow>
          Some \<lparr>rf_Tenant = tn_Name t, rf_Reason = ReasonPinnedUnavailable,
                rf_Message = ''PgInstance \"'' @ tn_PinnedInstance t @ ''\" is not a member of this pool''\<rparr>
      | Some i \<Rightarrow>
          (case fits (bins ! i) t of
             None \<Rightarrow> None
           | Some (_, why) \<Rightarrow>
               Some \<lparr>rf_Tenant = tn_Name t, rf_Reason = ReasonPinnedUnavailable,
                     rf_Message = ''pinned to PgInstance \"'' @ tn_PinnedInstance t @ ''\", which '' @ why\<rparr>))"

text \<open>
  The two loops of \<open>Pack\<close>. The first honours the pins and returns the tenants that have none; both
  return the bins afterwards, the assignments and the refusals.
\<close>

fun pack_pins :: "bin list \<Rightarrow> tenant list \<Rightarrow> tenant list \<times> bin list \<times> assignment list \<times> refusal list" where
  "pack_pins bins [] = ([], bins, [], [])"
| "pack_pins bins (t # ts) =
     (if tn_PinnedInstance t = [] then
        (case pack_pins bins ts of (remaining, bins', as, rs) \<Rightarrow> (t # remaining, bins', as, rs))
      else
        let target = byName bins (tn_PinnedInstance t) in
        case pin_refusal t bins target of
          Some refusal \<Rightarrow>
            (case pack_pins bins ts of (remaining, bins', as, rs) \<Rightarrow> (remaining, bins', as, refusal # rs))
        | None \<Rightarrow>
            let i = the target in
            (case pack_pins (bins[i := place (bins ! i) t]) ts of
               (remaining, bins', as, rs) \<Rightarrow>
                 (remaining, bins', assignmentOf t (bin_name (bins ! i)) # as, rs)))"

fun pack_rest :: "placement_policy \<Rightarrow> bin list \<Rightarrow> tenant list \<Rightarrow> bin list \<times> assignment list \<times> refusal list" where
  "pack_rest policy bins [] = (bins, [], [])"
| "pack_rest policy bins (t # ts) =
     (case bestFit t bins policy of
        None \<Rightarrow>
          (case pack_rest policy bins ts of (bins', as, rs) \<Rightarrow> (bins', as, refuse t bins # rs))
      | Some i \<Rightarrow>
          (case pack_rest policy (bins[i := place (bins ! i) t]) ts of
             (bins', as, rs) \<Rightarrow> (bins', assignmentOf t (bin_name (bins ! i)) # as, rs)))"

definition publish :: "assignment list \<Rightarrow> refusal list \<Rightarrow> bin list \<Rightarrow> placement_result" where
  "publish as rs bins =
     \<lparr>rs_Assignments = as, rs_Refusals = rs,
      rs_PerInstance = foldl (\<lambda>m b. m(bin_name b \<mapsto> bn_used b)) (\<lambda>_. None) bins,
      rs_TenantsPerInstance = foldl (\<lambda>m b. m(bin_name b \<mapsto> bn_tenants b)) (\<lambda>_. None) bins\<rparr>"

definition assignment_cmp :: "assignment \<Rightarrow> assignment \<Rightarrow> int" where
  "assignment_cmp a b = go_compare (as_Tenant a) (as_Tenant b)"

definition refusal_cmp :: "refusal \<Rightarrow> refusal \<Rightarrow> int" where
  "refusal_cmp a b = go_compare (rf_Tenant a) (rf_Tenant b)"

definition Pack :: "tenant list \<Rightarrow> placement_instance list \<Rightarrow> placement_policy \<Rightarrow> placement_result \<times> string option" where
  "Pack tenants instances policy =
     (let bins = binsOf instances in
      case checkCommitment tenants instances of
        Some err \<Rightarrow>
          (publish []
             (map (\<lambda>t. \<lparr>rf_Tenant = tn_Name t, rf_Reason = ReasonOverCommitted, rf_Message = err\<rparr>) tenants)
             bins, Some err)
      | None \<Rightarrow>
          (case pack_pins bins (orderedByDecreasingSize tenants instances) of
             (remaining, bins1, as1, rs1) \<Rightarrow>
               (case pack_rest policy bins1 remaining of
                  (bins2, as2, rs2) \<Rightarrow>
                    (publish (sort_func assignment_cmp (as1 @ as2)) (sort_func refusal_cmp (rs1 @ rs2)) bins2,
                     None))))"

section \<open>Admitting one tenant\<close>

text \<open>
  The random generator is the list of the draws it will return, each already below the number of
  candidates; \<open>None\<close> is a loop still waiting for a second draw that differs from the first.
\<close>

fun draw_other :: "nat \<Rightarrow> nat list \<Rightarrow> nat option" where
  "draw_other first [] = None"
| "draw_other first (d # ds) = (if d = first then draw_other first ds else Some d)"

definition Admit ::
  "tenant \<Rightarrow> placement_instance list \<Rightarrow> placement_policy \<Rightarrow> nat list \<Rightarrow> (refusal + assignment) option" where
  "Admit t instances policy draws =
     (let bins = binsOf instances in
      if tn_PinnedInstance t \<noteq> [] then
        let target = byName bins (tn_PinnedInstance t) in
        case pin_refusal t bins target of
          Some refusal \<Rightarrow> Some (Inl refusal)
        | None \<Rightarrow> Some (Inr (assignmentOf t (bin_name (bins ! the target))))
      else
        let candidates = feasible t bins policy in
        case candidates of
          [] \<Rightarrow> Some (Inl (refuse t bins))
        | [i] \<Rightarrow> Some (Inr (assignmentOf t (bin_name (bins ! i))))
        | _ \<Rightarrow>
            (case draws of
               [] \<Rightarrow> None
             | first # rest \<Rightarrow>
                 (case draw_other first rest of
                    None \<Rightarrow> None
                  | Some other \<Rightarrow>
                      Some (Inr (assignmentOf t
                        (bin_name (bins ! better t bins (candidates ! first) (candidates ! other))))))))"

section \<open>Tenants that stay\<close>

definition seed_tenant :: "placement_instance \<Rightarrow> tenant \<Rightarrow> placement_instance" where
  "seed_tenant inst t =
     inst\<lparr>in_Reserved := Capacity_add (in_Reserved inst) (asCapacity (tn_Demand t)),
          in_Tenants := wrap32 (in_Tenants inst + 1),
          in_Occupied := foldl add_label (in_Occupied inst) (tn_AntiAffinity t)\<rparr>"

definition SeedBinsWithBoundTenants :: "placement_instance list \<Rightarrow> tenant list \<Rightarrow> placement_instance list" where
  "SeedBinsWithBoundTenants instances bound =
     foldl (\<lambda>seeded t.
         case find (\<lambda>i. in_Name (seeded ! i) = tn_BoundInstance t) (rev [0..<length seeded]) of
           None \<Rightarrow> seeded
         | Some i \<Rightarrow> seeded[i := seed_tenant (seeded ! i) t]) instances bound"

section \<open>Packings\<close>

text \<open>
  A run of placements: each tenant goes onto a bin it fits when it is placed. Both loops of \<open>Pack\<close>
  are such a run, and what a run keeps is shown once, by induction over it.
\<close>

inductive packing :: "bin list \<Rightarrow> (tenant \<times> nat) list \<Rightarrow> bin list \<Rightarrow> bool" where
  finished: "packing bins [] bins"
| put: "i < length bins \<Longrightarrow> fits (bins ! i) t = None \<Longrightarrow> packing (bins[i := place (bins ! i) t]) trail bins' \<Longrightarrow>
    packing bins ((t, i) # trail) bins'"

lemma place_instance [simp]: "bn_instance (place b t) = bn_instance b"
  by (simp add: place_def)

lemma instances_place [simp]: "map bn_instance (bins[i := place (bins ! i) t]) = map bn_instance bins"
  by (cases "i < length bins") (simp_all add: map_update list_update_same_conv list_update_beyond)

lemma bin_name_place [simp]: "bin_name (bins[i := place (bins ! i) t] ! j) = bin_name (bins ! j)"
  by (cases "i = j"; cases "i < length bins") (auto simp: list_update_beyond)

lemma packing_instances: "packing bins trail bins' \<Longrightarrow> map bn_instance bins' = map bn_instance bins"
proof (induction rule: packing.induct)
  case (put i bins t trail bins')
  then show ?case by simp
qed simp

lemma packing_length: "packing bins trail bins' \<Longrightarrow> length bins' = length bins"
  using packing_instances map_eq_imp_length_eq by blast

lemma packing_name: "packing bins trail bins' \<Longrightarrow> i < length bins \<Longrightarrow> bn_instance (bins' ! i) = bn_instance (bins ! i)"
  using packing_instances [of bins trail bins'] packing_length [of bins trail bins'] nth_map by metis

lemma packing_range: "packing bins trail bins' \<Longrightarrow> (t, i) \<in> set trail \<Longrightarrow> i < length bins"
  by (induction rule: packing.induct) auto

lemma packing_append:
  "packing bins trail bins' \<Longrightarrow> packing bins' trail' bins'' \<Longrightarrow> packing bins (trail @ trail') bins''"
  by (induction rule: packing.induct) (auto intro: packing.put)

lemma byName_Some: "byName bins name = Some i \<Longrightarrow> i < length bins \<and> bin_name (bins ! i) = name"
proof -
  assume "byName bins name = Some i"
  then have "i \<in> set (rev [0..<length bins])" "bin_name (bins ! i) = name"
    unfolding byName_def find_Some_iff by (metis nth_mem)+
  then show ?thesis by simp
qed

lemma better_cases: "better t bins a b = a \<or> better t bins a b = b"
  by (simp add: better_def)

lemma feasible_subset: "i \<in> set (feasible t bins policy) \<Longrightarrow> i < length bins \<and> fits (bins ! i) t = None"
  by (auto simp: feasible_def candidates_of_def Let_def split: if_splits)

lemma feasible_Nil: "feasible t bins policy = [] \<longleftrightarrow> (\<forall>b \<in> set bins. fits b t \<noteq> None)"
proof -
  have "feasible t bins policy = [] \<longleftrightarrow> candidates_of t bins = []"
    by (auto simp: feasible_def Let_def filter_empty_conv)
  then show ?thesis
    by (auto simp: candidates_of_def filter_empty_conv all_set_conv_all_nth)
qed

text \<open>The winner of a scan with \<open>better\<close> is one of the candidates and none of them is tighter.\<close>

lemma better_least: "residual (bins ! better t bins a b) t \<le> residual (bins ! a) t"
  "residual (bins ! better t bins a b) t \<le> residual (bins ! b) t"
  by (auto simp: better_def)

lemma bestFit_scan:
  "\<exists>c. foldl (\<lambda>chosen i. case chosen of None \<Rightarrow> Some i | Some c \<Rightarrow> Some (better t bins c i)) (Some a) js = Some c \<and>
     c \<in> insert a (set js) \<and> (\<forall>i \<in> insert a (set js). residual (bins ! c) t \<le> residual (bins ! i) t)"
proof (induction js arbitrary: a)
  case (Cons j js)
  obtain c where c: "foldl (\<lambda>chosen i. case chosen of None \<Rightarrow> Some i | Some c \<Rightarrow> Some (better t bins c i))
      (Some (better t bins a j)) js = Some c" "c \<in> insert (better t bins a j) (set js)"
    "\<forall>i \<in> insert (better t bins a j) (set js). residual (bins ! c) t \<le> residual (bins ! i) t"
    using Cons.IH [of "better t bins a j"] by blast
  have "residual (bins ! c) t \<le> residual (bins ! a) t" "residual (bins ! c) t \<le> residual (bins ! j) t"
    using c(3) better_least [of bins t a j] by (auto intro: order_trans)
  with c better_cases [of t bins a j] show ?case by auto
qed auto

lemma bestFit_None: "bestFit t bins policy = None \<longleftrightarrow> feasible t bins policy = []"
proof (cases "feasible t bins policy")
  case (Cons a js)
  with bestFit_scan [of t bins a js] show ?thesis by (auto simp: bestFit_def)
qed (simp add: bestFit_def)

lemma bestFit_Some:
  assumes "bestFit t bins policy = Some c"
  shows "c \<in> set (feasible t bins policy)"
    and "i \<in> set (feasible t bins policy) \<Longrightarrow> residual (bins ! c) t \<le> residual (bins ! i) t"
proof -
  obtain a js where f: "feasible t bins policy = a # js"
    using assms bestFit_None [of t bins policy] by (cases "feasible t bins policy") auto
  then show "c \<in> set (feasible t bins policy)"
    "i \<in> set (feasible t bins policy) \<Longrightarrow> residual (bins ! c) t \<le> residual (bins ! i) t"
    using bestFit_scan [of t bins a js] assms by (auto simp: bestFit_def)
qed

section \<open>Both loops are packings\<close>

abbreviation log_assignments :: "bin list \<Rightarrow> (tenant \<times> nat) list \<Rightarrow> assignment list" where
  "log_assignments bins trail \<equiv> map (\<lambda>(t, i). assignmentOf t (bin_name (bins ! i))) trail"

lemma pack_pins_packing:
  assumes "pack_pins bins ts = (remaining, bins', as, rs)"
  shows "\<exists>trail refused. packing bins trail bins' \<and> as = log_assignments bins trail \<and>
    map rf_Tenant rs = map tn_Name refused \<and> mset ts = mset (map fst trail) + mset refused + mset remaining \<and>
    (\<forall>(t, i) \<in> set trail. tn_PinnedInstance t = bin_name (bins ! i)) \<and>
    (\<forall>t \<in> set remaining. tn_PinnedInstance t = [])"
  using assms
proof (induction bins ts arbitrary: remaining bins' as rs rule: pack_pins.induct)
  case (1 bins)
  then show ?case by (auto intro!: exI [of _ "[]"] packing.finished)
next
  case (2 bins t ts)
  let ?target = "byName bins (tn_PinnedInstance t)"
  show ?case
  proof (cases "tn_PinnedInstance t = []")
    case True
    with "2.prems" obtain rest where rest: "pack_pins bins ts = (rest, bins', as, rs)" "remaining = t # rest"
      by (auto split: prod.splits)
    from "2.IH"(1) [OF True rest(1)] rest(2) True show ?thesis by (elim exE) (intro exI, auto)
  next
    case pinned: False
    show ?thesis
    proof (cases "pin_refusal t bins ?target")
      case (Some refusal)
      with "2.prems" pinned obtain rest where rest: "pack_pins bins ts = (remaining, bins', as, rest)" "rs = refusal # rest"
        by (auto simp: Let_def split: prod.splits)
      from "2.IH"(3) [OF pinned refl Some rest(1)] obtain trail refused where IH:
        "packing bins trail bins'" "as = log_assignments bins trail" "map rf_Tenant rest = map tn_Name refused"
        "mset ts = mset (map fst trail) + mset refused + mset remaining"
        "\<forall>(t, i) \<in> set trail. tn_PinnedInstance t = bin_name (bins ! i)" "\<forall>t \<in> set remaining. tn_PinnedInstance t = []"
        by blast
      moreover have "rf_Tenant refusal = tn_Name t"
        using Some by (auto simp: pin_refusal_def split: option.splits)
      ultimately show ?thesis
        using rest(2) by (intro exI [of _ trail] exI [of _ "t # refused"]) simp
    next
      case None
      then obtain i where i: "?target = Some i" "fits (bins ! i) t = None"
        by (auto simp: pin_refusal_def split: option.splits)
      note name = byName_Some [OF i(1)]
      let ?bins = "bins[i := place (bins ! i) t]"
      from "2.prems" pinned None i obtain rest where
        rest: "pack_pins ?bins ts = (remaining, bins', rest, rs)" "as = assignmentOf t (bin_name (bins ! i)) # rest"
        by (auto simp: Let_def split: prod.splits)
      from "2.IH"(2) [OF pinned refl None, of i remaining bins' rest rs] rest(1) i(1) obtain trail refused where IH:
        "packing ?bins trail bins'" "rest = log_assignments ?bins trail" "map rf_Tenant rs = map tn_Name refused"
        "mset ts = mset (map fst trail) + mset refused + mset remaining"
        "\<forall>(t, i) \<in> set trail. tn_PinnedInstance t = bin_name (?bins ! i)" "\<forall>t \<in> set remaining. tn_PinnedInstance t = []"
        by auto
      show ?thesis
        using IH rest(2) name i(2)
        by (intro exI [of _ "(t, i) # trail"] exI [of _ refused])
          (auto intro!: packing.put)
    qed
  qed
qed

lemma pack_rest_packing:
  assumes "pack_rest policy bins ts = (bins', as, rs)"
  shows "\<exists>trail refused. packing bins trail bins' \<and> as = log_assignments bins trail \<and>
    map rf_Tenant rs = map tn_Name refused \<and> mset ts = mset (map fst trail) + mset refused"
  using assms
proof (induction policy bins ts arbitrary: bins' as rs rule: pack_rest.induct)
  case (1 policy bins)
  then show ?case by (auto intro!: exI [of _ "[]"] packing.finished)
next
  case (2 policy bins t ts)
  show ?case
  proof (cases "bestFit t bins policy")
    case None
    with "2.prems" obtain rest where rest: "pack_rest policy bins ts = (bins', as, rest)" "rs = refuse t bins # rest"
      by (auto split: prod.splits)
    have "rf_Tenant (refuse t bins) = tn_Name t" by (simp add: refuse_def Let_def split: prod.split)
    moreover from "2.IH"(1) [OF None rest(1)] obtain trail refused where
      "packing bins trail bins'" "as = log_assignments bins trail" "map rf_Tenant rest = map tn_Name refused"
      "mset ts = mset (map fst trail) + mset refused" by blast
    ultimately show ?thesis
      using rest(2) by (intro exI [of _ trail] exI [of _ "t # refused"]) simp
  next
    case (Some i)
    note i = feasible_subset [OF bestFit_Some(1) [OF Some]]
    let ?bins = "bins[i := place (bins ! i) t]"
    from "2.prems" Some obtain rest where
      rest: "pack_rest policy ?bins ts = (bins', rest, rs)" "as = assignmentOf t (bin_name (bins ! i)) # rest"
      by (auto split: prod.splits)
    from "2.IH"(2) [OF Some rest(1)] obtain trail refused where IH:
      "packing ?bins trail bins'" "rest = log_assignments ?bins trail" "map rf_Tenant rs = map tn_Name refused"
      "mset ts = mset (map fst trail) + mset refused" by blast
    show ?thesis
      using IH rest(2) i
      by (intro exI [of _ "(t, i) # trail"] exI [of _ refused]) (auto intro!: packing.put)
  qed
qed

section \<open>What a packing keeps in one dimension\<close>

text \<open>
  Connections, storage and relations are counted the same way. A dimension is a selector of a
  capacity with the demand of a tenant in it; what is asked of it is that a tenant that fits leaves the
  remaining room non-negative, and that placing it adds its demand as long as nothing wraps around.
\<close>

definition sane_demand :: "tenant \<Rightarrow> bool" where
  "sane_demand t \<longleftrightarrow>
     (let c = asCapacity (tn_Demand t) in
      0 \<le> cp_Connections c \<and> in_int32 (cp_Connections c) \<and> 0 \<le> cp_StorageBytes c \<and>
      in_int64 (cp_StorageBytes c) \<and> 0 \<le> cp_Relations c \<and> in_int32 (cp_Relations c))"

definition sane_capacity :: "capacity \<Rightarrow> bool" where
  "sane_capacity c \<longleftrightarrow>
     0 \<le> cp_Connections c \<and> in_int32 (cp_Connections c) \<and> 0 \<le> cp_StorageBytes c \<and>
     in_int64 (cp_StorageBytes c) \<and> 0 \<le> cp_Relations c \<and> in_int32 (cp_Relations c)"

locale dimension =
  fixes part :: "capacity \<Rightarrow> int" and in_width :: "int \<Rightarrow> bool"
  assumes in_width_mono: "0 \<le> x \<Longrightarrow> x \<le> y \<Longrightarrow> in_width y \<Longrightarrow> in_width x"
    and part_add: "in_width (part c + part d) \<Longrightarrow> part (Capacity_add c d) = part c + part d"
    and sane: "sane_capacity c \<Longrightarrow> 0 \<le> part c \<and> in_width (part c)"
    and fits_part: "fits b t = None \<Longrightarrow> 0 < part (in_Capacity (bn_instance b)) \<Longrightarrow>
      0 \<le> part (bn_used b) \<Longrightarrow> in_width (part (bn_used b)) \<Longrightarrow>
      sane_capacity (in_Capacity (bn_instance b)) \<Longrightarrow>
      part (bn_used b) + part (asCapacity (tn_Demand t)) \<le> part (in_Capacity (bn_instance b))"
begin

definition load :: "(tenant \<times> nat) list \<Rightarrow> nat \<Rightarrow> int" where
  "load trail i = sum_list (map (\<lambda>(t, j). if j = i then part (asCapacity (tn_Demand t)) else 0) trail)"

lemma load_filter:
  "load trail i = sum_list (map (\<lambda>t. part (asCapacity (tn_Demand t))) (map fst (filter (\<lambda>(t, j). j = i) trail)))"
  by (induction trail) (auto simp: load_def)

text \<open>
  The bin ends with what it started with plus what was put on it, exactly, and if anything was put on
  it that is within its capacity.
\<close>

lemma packing_load:
  assumes "packing bins trail bins'" "i < length bins"
    and "0 < part (in_Capacity (bn_instance (bins ! i)))" "sane_capacity (in_Capacity (bn_instance (bins ! i)))"
    and "0 \<le> part (bn_used (bins ! i))" "in_width (part (bn_used (bins ! i)))"
    and "\<forall>(t, j) \<in> set trail. sane_demand t"
  shows "part (bn_used (bins' ! i)) = part (bn_used (bins ! i)) + load trail i \<and>
    (i \<in> snd ` set trail \<longrightarrow> part (bn_used (bins' ! i)) \<le> part (in_Capacity (bn_instance (bins ! i))))"
  using assms
proof (induction rule: packing.induct)
  case (put j bins t trail bins')
  let ?bins = "bins[j := place (bins ! j) t]"
  show ?case
  proof (cases "j = i")
    case False
    with put show ?thesis by (auto simp: load_def)
  next
    case True
    let ?d = "part (asCapacity (tn_Demand t))" and ?u = "part (bn_used (bins ! i))"
      and ?c = "part (in_Capacity (bn_instance (bins ! i)))"
    have demand: "0 \<le> ?d"
      using put.prems(6) sane by (auto simp: sane_demand_def sane_capacity_def Let_def)
    have room: "?u + ?d \<le> ?c"
      using fits_part put.hyps(2) put.prems True by blast
    then have width: "in_width (?u + ?d)"
      using in_width_mono [of "?u + ?d" ?c] sane put.prems(3,4) demand by simp
    then have used: "part (bn_used (?bins ! i)) = ?u + ?d"
      using True put.hyps(1) by (simp add: place_def part_add)
    have IH: "part (bn_used (bins' ! i)) = part (bn_used (?bins ! i)) + load trail i \<and>
        (i \<in> snd ` set trail \<longrightarrow> part (bn_used (bins' ! i)) \<le> ?c)"
      using put.IH put.prems True put.hyps(1) used width demand by auto
    have "load trail i = 0" if "i \<notin> snd ` set trail"
      using that by (induction trail) (auto simp: load_def)
    with IH used room True show ?thesis
      by (cases "i \<in> snd ` set trail") (auto simp: load_def)
  qed
qed (simp add: load_def)

end

lemma fits_None:
  assumes "fits b t = None"
  shows "in_Ready (bn_instance b)" "in_Schedulable (bn_instance b)"
    "kv \<in> set (tn_AntiAffinity t) \<Longrightarrow> \<not> clashes (bn_labels b) kv"
    "0 < cp_Connections (in_Capacity (bn_instance b)) \<Longrightarrow> Connections (tn_Demand t) \<le> cp_Connections (free b)"
    "0 < cp_StorageBytes (in_Capacity (bn_instance b)) \<Longrightarrow> dm_StorageBytes (tn_Demand t) \<le> cp_StorageBytes (free b)"
    "0 < cp_Relations (in_Capacity (bn_instance b)) \<Longrightarrow> dm_Relations (tn_Demand t) \<le> cp_Relations (free b)"
proof -
  have "find (clashes (bn_labels b)) (tn_AntiAffinity t) = None"
    using assms by (simp add: fits_def Let_def split: if_splits option.splits prod.splits)
  then show "\<not> clashes (bn_labels b) kv" if "kv \<in> set (tn_AntiAffinity t)"
    using that unfolding find_None_iff by blast
qed (use assms in \<open>auto simp: fits_def Let_def split: if_splits option.splits\<close>)

lemmas sane_defs = sane_capacity_def in_int32_def in_int64_def

interpretation connections: dimension cp_Connections in_int32
proof
  fix b t
  assume a: "fits b t = None" "0 < cp_Connections (in_Capacity (bn_instance b))" "0 \<le> cp_Connections (bn_used b)"
    "in_int32 (cp_Connections (bn_used b))" "sane_capacity (in_Capacity (bn_instance b))"
  then have "cp_Connections (free b) = cp_Connections (in_Capacity (bn_instance b)) - cp_Connections (bn_used b)"
    by (auto simp: free_def Let_def sane_defs intro!: wrap32_id)
  with fits_None(4) [OF a(1,2)] show "cp_Connections (bn_used b) + cp_Connections (asCapacity (tn_Demand t))
      \<le> cp_Connections (in_Capacity (bn_instance b))"
    by (simp add: asCapacity_def)
qed (auto simp: sane_defs Capacity_add_def intro!: wrap32_id)

interpretation storage: dimension cp_StorageBytes in_int64
proof
  fix b t
  assume a: "fits b t = None" "0 < cp_StorageBytes (in_Capacity (bn_instance b))" "0 \<le> cp_StorageBytes (bn_used b)"
    "in_int64 (cp_StorageBytes (bn_used b))" "sane_capacity (in_Capacity (bn_instance b))"
  then have "cp_StorageBytes (free b) = cp_StorageBytes (in_Capacity (bn_instance b)) - cp_StorageBytes (bn_used b)"
    by (auto simp: free_def Let_def sane_defs intro!: wrap64_id)
  with fits_None(5) [OF a(1,2)] show "cp_StorageBytes (bn_used b) + cp_StorageBytes (asCapacity (tn_Demand t))
      \<le> cp_StorageBytes (in_Capacity (bn_instance b))"
    by (simp add: asCapacity_def)
qed (auto simp: sane_defs Capacity_add_def intro!: wrap64_id)

interpretation relations: dimension cp_Relations in_int32
proof
  fix b t
  assume a: "fits b t = None" "0 < cp_Relations (in_Capacity (bn_instance b))" "0 \<le> cp_Relations (bn_used b)"
    "in_int32 (cp_Relations (bn_used b))" "sane_capacity (in_Capacity (bn_instance b))"
  then have "cp_Relations (free b) = cp_Relations (in_Capacity (bn_instance b)) - cp_Relations (bn_used b)"
    by (auto simp: free_def Let_def sane_defs intro!: wrap32_id)
  with fits_None(6) [OF a(1,2)] show "cp_Relations (bn_used b) + cp_Relations (asCapacity (tn_Demand t))
      \<le> cp_Relations (in_Capacity (bn_instance b))"
    by (simp add: asCapacity_def)
qed (auto simp: sane_defs Capacity_add_def intro!: wrap32_id)

section \<open>Anti-affinity\<close>

lemma clashes_add_label [simp]: "clashes (add_label labels kv) kv' \<longleftrightarrow> kv' = kv \<or> clashes labels kv'"
  by (cases kv; cases kv') (auto simp: clashes_def add_label_def split: option.split)

lemma clashes_foldl [simp]:
  "clashes (foldl add_label labels kvs) kv \<longleftrightarrow> kv \<in> set kvs \<or> clashes labels kv"
  by (induction kvs arbitrary: labels) auto

lemma clashes_place [simp]:
  "clashes (bn_labels (place b t)) kv \<longleftrightarrow> kv \<in> set (tn_AntiAffinity t) \<or> clashes (bn_labels b) kv"
  by (simp add: place_def)

text \<open>No tenant of a run shares a label with what its bin hosted before it was placed.\<close>

lemma packing_labels:
  assumes "packing bins trail bins'" "(u, i) \<in> set trail" "kv \<in> set (tn_AntiAffinity u)"
  shows "\<not> clashes (bn_labels (bins ! i)) kv"
  using assms
proof (induction rule: packing.induct)
  case (put j bins t trail bins')
  then show ?case
    by (cases "j = i") (auto dest: fits_None(3) split: if_splits)
qed simp

lemma packing_available:
  "packing bins trail bins' \<Longrightarrow> (t, i) \<in> set trail \<Longrightarrow>
   in_Ready (bn_instance (bins ! i)) \<and> in_Schedulable (bn_instance (bins ! i))"
proof (induction rule: packing.induct)
  case (put j bins u trail bins')
  then show ?case by (cases "j = i") (auto dest: fits_None(1,2))
qed simp

lemma packing_apart:
  assumes "packing bins trail bins'" "distinct (map fst trail)"
    and "(t, i) \<in> set trail" "(u, i) \<in> set trail" "t \<noteq> u"
  shows "set (tn_AntiAffinity t) \<inter> set (tn_AntiAffinity u) = {}"
  using assms
proof (induction rule: packing.induct)
  case (put j bins v trail bins')
  have later: "set (tn_AntiAffinity v) \<inter> set (tn_AntiAffinity w) = {}" if "(w, j) \<in> set trail" for w
    using packing_labels [OF put.hyps(3) that] put.hyps(1) by auto
  show ?case
    using put.prems later put.IH by (auto simp: Int_commute)
qed simp

section \<open>A whole packing\<close>

lemma binsOf_instances: "mset (map bn_instance (binsOf instances)) = mset instances"
proof -
  have "mset (map bn_instance (binsOf instances)) = image_mset bn_instance (mset (map newBin instances))"
    by (simp add: binsOf_def)
  also have "\<dots> = mset instances" by (simp add: newBin_def comp_def multiset.map_comp)
  finally show ?thesis .
qed

lemma binsOf_new: "b \<in> set (binsOf instances) \<Longrightarrow> b = newBin (bn_instance b) \<and> bn_instance b \<in> set instances"
  by (auto simp: binsOf_def newBin_def)

lemma binsOf_distinct:
  assumes "distinct (map in_Name instances)"
  shows "distinct (map bin_name (binsOf instances))"
proof -
  have "mset (map bin_name (binsOf instances)) = mset (map in_Name instances)"
    using arg_cong [OF binsOf_instances, of "image_mset in_Name" instances] by (simp add: multiset.map_comp comp_def)
  with assms show ?thesis by (metis mset_eq_imp_distinct_iff)
qed

lemma Pack_packing:
  assumes "Pack tenants instances policy = (res, None)"
  obtains trail refused bins' where "packing (binsOf instances) trail bins'"
    "mset (rs_Assignments res) = mset (log_assignments (binsOf instances) trail)"
    "mset (map rf_Tenant (rs_Refusals res)) = mset (map tn_Name refused)"
    "mset tenants = mset (map fst trail) + mset refused"
    "\<And>t i. (t, i) \<in> set trail \<Longrightarrow> tn_PinnedInstance t = [] \<or> tn_PinnedInstance t = bin_name (binsOf instances ! i)"
    "rs_PerInstance res = foldl (\<lambda>m b. m(bin_name b \<mapsto> bn_used b)) (\<lambda>_. None) bins'"
proof -
  let ?bins = "binsOf instances"
  obtain remaining bins1 as1 rs1 where pins:
    "pack_pins ?bins (orderedByDecreasingSize tenants instances) = (remaining, bins1, as1, rs1)" by (metis surj_pair)
  obtain bins2 as2 rs2 where rest: "pack_rest policy bins1 remaining = (bins2, as2, rs2)" by (metis surj_pair)
  have res: "res = publish (sort_func assignment_cmp (as1 @ as2)) (sort_func refusal_cmp (rs1 @ rs2)) bins2"
    using assms pins rest by (auto simp: Pack_def Let_def split: option.splits)
  from pack_pins_packing [OF pins] obtain trail1 refused1 where p1: "packing ?bins trail1 bins1"
    "as1 = log_assignments ?bins trail1" "map rf_Tenant rs1 = map tn_Name refused1"
    "mset (orderedByDecreasingSize tenants instances) = mset (map fst trail1) + mset refused1 + mset remaining"
    "\<forall>(t, i) \<in> set trail1. tn_PinnedInstance t = bin_name (?bins ! i)" "\<forall>t \<in> set remaining. tn_PinnedInstance t = []"
    by blast
  from pack_rest_packing [OF rest] obtain trail2 refused2 where p2: "packing bins1 trail2 bins2"
    "as2 = log_assignments bins1 trail2" "map rf_Tenant rs2 = map tn_Name refused2"
    "mset remaining = mset (map fst trail2) + mset refused2" by blast
  have free2: "tn_PinnedInstance t = []" if "(t, i) \<in> set trail2" for t i
  proof -
    have "t \<in># mset remaining" unfolding p2(4) using that by (auto intro: image_eqI [of _ _ "(t, i)"])
    with p1(6) show ?thesis by simp
  qed
  have same: "log_assignments bins1 trail2 = log_assignments ?bins trail2"
    using packing_range [OF p2(1)] packing_length [OF p1(1)] packing_name [OF p1(1)]
    by (auto simp: split_def)
  show thesis
  proof (rule that [of "trail1 @ trail2" bins2 "refused1 @ refused2"])
    show "packing ?bins (trail1 @ trail2) bins2" using p1(1) p2(1) by (rule packing_append)
    show "mset (rs_Assignments res) = mset (log_assignments ?bins (trail1 @ trail2))"
      using p1(2) p2(2) same by (simp add: res publish_def)
    show "mset (map rf_Tenant (rs_Refusals res)) = mset (map tn_Name (refused1 @ refused2))"
      using arg_cong [OF p1(3), of mset] arg_cong [OF p2(3), of mset] by (simp add: res publish_def)
    show "mset tenants = mset (map fst (trail1 @ trail2)) + mset (refused1 @ refused2)"
      using p1(4) p2(4) by (simp add: orderedByDecreasingSize_def)
    show "tn_PinnedInstance t = [] \<or> tn_PinnedInstance t = bin_name (?bins ! i)"
      if "(t, i) \<in> set (trail1 @ trail2)" for t i
      using that p1(5) free2 by auto
    show "rs_PerInstance res = foldl (\<lambda>m b. m(bin_name b \<mapsto> bn_used b)) (\<lambda>_. None) bins2"
      by (simp add: res publish_def)
  qed
qed

text \<open>The tenants of a pool that a packing puts on one instance.\<close>

definition hosted :: "placement_result \<Rightarrow> tenant list \<Rightarrow> string \<Rightarrow> tenant list" where
  "hosted res tenants name =
     filter (\<lambda>t. \<exists>a \<in> set (rs_Assignments res). as_Tenant a = tn_Name t \<and> as_Instance a = name) tenants"

lemma hosted_trail:
  assumes "distinct (map tn_Name tenants)" "distinct (map in_Name instances)"
    and "packing (binsOf instances) trail bins'"
    and "mset (rs_Assignments res) = mset (log_assignments (binsOf instances) trail)"
    and "mset tenants = mset (map fst trail) + mset refused"
    and "i < length (binsOf instances)"
  shows "distinct (map fst trail)"
    and "mset (hosted res tenants (bin_name (binsOf instances ! i))) = mset (map fst (filter (\<lambda>(t, j). j = i) trail))"
proof -
  let ?bins = "binsOf instances"
  have "distinct tenants" using assms(1) by (simp add: distinct_map)
  then show dist: "distinct (map fst trail)"
    using assms(5) by (metis distinct_append mset_append mset_eq_imp_distinct_iff)
  have sub: "fst ` set trail \<subseteq> set tenants"
    using arg_cong [OF assms(5), of set_mset] by auto
  have names: "t = u" if "t \<in> set tenants" "u \<in> set tenants" "tn_Name t = tn_Name u" for t u
    using that assms(1) by (auto simp: distinct_map inj_on_def)
  have index: "j = i" if "(t, j) \<in> set trail" "bin_name (?bins ! j) = bin_name (?bins ! i)" for t j
    using that packing_range [OF assms(3) that(1)] binsOf_distinct [OF assms(2)] assms(6)
    by (metis length_map nth_eq_iff_index_eq nth_map)
  have assigned: "set (rs_Assignments res) = set (log_assignments ?bins trail)"
    using assms(4) by (metis set_mset_mset)
  have "set (hosted res tenants (bin_name (?bins ! i))) = fst ` (set trail \<inter> {(t, j). j = i})"
  proof (intro equalityI subsetI)
    fix t assume "t \<in> set (hosted res tenants (bin_name (?bins ! i)))"
    then obtain u j where "t \<in> set tenants" "(u, j) \<in> set trail" "tn_Name u = tn_Name t"
      "bin_name (?bins ! j) = bin_name (?bins ! i)"
      by (auto simp: hosted_def assigned assignmentOf_def)
    moreover from this have "u = t" "j = i" using names [of u t] sub index by force+
    ultimately show "t \<in> fst ` (set trail \<inter> {(t, j). j = i})" by force
  next
    fix t assume "t \<in> fst ` (set trail \<inter> {(t, j). j = i})"
    then have "(t, i) \<in> set trail" by force
    with sub show "t \<in> set (hosted res tenants (bin_name (?bins ! i)))"
      by (force simp: hosted_def assigned assignmentOf_def)
  qed
  moreover have "distinct (map fst (filter (\<lambda>(t, j). j = i) trail))"
    using dist by (simp add: distinct_map_filter)
  moreover have "distinct (hosted res tenants (bin_name (?bins ! i)))"
    using \<open>distinct tenants\<close> by (simp add: hosted_def)
  ultimately show "mset (hosted res tenants (bin_name (?bins ! i))) = mset (map fst (filter (\<lambda>(t, j). j = i) trail))"
    by (intro set_eq_iff_mset_eq_distinct [THEN iffD1]) auto
qed

lemma published: 
  assumes "distinct (map bin_name bins)" "i < length bins"
  shows "foldl (\<lambda>m b. m(bin_name b \<mapsto> bn_used b)) m bins (bin_name (bins ! i)) = Some (bn_used (bins ! i))"
proof -
  have other: "foldl (\<lambda>m b. m(bin_name b \<mapsto> bn_used b)) m bs n = m n" if "n \<notin> bin_name ` set bs" for m bs n
    using that by (induction bs arbitrary: m) auto
  show ?thesis
    using assms
  proof (induction bins arbitrary: m i)
    case (Cons b bs)
    then show ?case by (cases i) (auto simp: other simp del: fun_upd_apply intro: fun_upd_same)
  qed simp
qed

context dimension
begin

text \<open>
  What a packing publishes for an instance in one dimension is what was reserved there plus the
  demands of the tenants it hosts, and with at least one of them that is within the capacity.
\<close>

lemma Pack_load:
  assumes "Pack tenants instances policy = (res, None)"
    and "distinct (map tn_Name tenants)" "distinct (map in_Name instances)" "inst \<in> set instances"
    and "\<forall>t \<in> set tenants. sane_demand t" "sane_capacity (in_Capacity inst)" "sane_capacity (in_Reserved inst)"
    and "0 < part (in_Capacity inst)"
  shows "\<exists>used. rs_PerInstance res (in_Name inst) = Some used \<and>
    part used = part (in_Reserved inst) +
      sum_list (map (\<lambda>t. part (asCapacity (tn_Demand t))) (hosted res tenants (in_Name inst))) \<and>
    (hosted res tenants (in_Name inst) \<noteq> [] \<longrightarrow> part used \<le> part (in_Capacity inst))"
proof -
  let ?bins = "binsOf instances"
  obtain trail refused bins' where trail: "packing ?bins trail bins'"
    "mset (rs_Assignments res) = mset (log_assignments ?bins trail)"
    "mset (map rf_Tenant (rs_Refusals res)) = mset (map tn_Name refused)"
    "mset tenants = mset (map fst trail) + mset refused"
    "\<And>t i. (t, i) \<in> set trail \<Longrightarrow> tn_PinnedInstance t = [] \<or> tn_PinnedInstance t = bin_name (?bins ! i)"
    "rs_PerInstance res = foldl (\<lambda>m b. m(bin_name b \<mapsto> bn_used b)) (\<lambda>_. None) bins'"
    by (rule Pack_packing [OF assms(1)]) (rule that)
  have "inst \<in> set (map bn_instance ?bins)"
    using assms(4) binsOf_instances [of instances] by (metis set_mset_mset)
  then obtain i where i: "i < length ?bins" "bn_instance (?bins ! i) = inst"
    by (auto simp: in_set_conv_nth)
  then have bin: "?bins ! i = newBin inst"
    using binsOf_new [of "?bins ! i" instances] by simp
  note same = hosted_trail [OF assms(2,3) trail(1,2,4) i(1), unfolded i(2)]
  have "\<forall>(t, j) \<in> set trail. sane_demand t"
    using assms(5) arg_cong [OF trail(4), of set_mset] by force
  from packing_load [OF trail(1) i(1) _ _ _ _ this] assms(6-8) bin sane
  have load: "part (bn_used (bins' ! i)) = part (in_Reserved inst) + load trail i"
    "i \<in> snd ` set trail \<Longrightarrow> part (bn_used (bins' ! i)) \<le> part (in_Capacity inst)"
    by (auto simp: newBin_def)
  have sum: "load trail i = sum_list (map (\<lambda>t. part (asCapacity (tn_Demand t))) (hosted res tenants (in_Name inst)))"
    unfolding load_filter sum_mset_sum_list [symmetric] mset_map same(2) ..
  have some: "i \<in> snd ` set trail" if "hosted res tenants (in_Name inst) \<noteq> []"
  proof -
    have "filter (\<lambda>(t, j). j = i) trail \<noteq> []" using that mset_eq_length [OF same(2)] by (cases "filter (\<lambda>(t, j). j = i) trail") simp_all
    then show ?thesis by (force simp: filter_empty_conv)
  qed
  have "map bin_name bins' = map bin_name ?bins"
    using arg_cong [OF packing_instances [OF trail(1)], of "map in_Name"] by (simp add: comp_def)
  then have "rs_PerInstance res (bin_name (bins' ! i)) = Some (bn_used (bins' ! i))"
    unfolding trail(6) using binsOf_distinct [OF assms(3)] i(1) packing_length [OF trail(1)]
    by (intro published) simp_all
  then have "rs_PerInstance res (in_Name inst) = Some (bn_used (bins' ! i))"
    using packing_name [OF trail(1) i(1)] i(2) by simp
  with load sum some show ?thesis by auto
qed

end

section \<open>Skew\<close>

lemma emptiest_scan:
  "let e' = foldl (\<lambda>emptiest i. if bn_tenants (bins ! i) < emptiest then bn_tenants (bins ! i) else emptiest) e js in
   e' \<le> e \<and> (\<forall>i \<in> set js. e' \<le> bn_tenants (bins ! i)) \<and> (e' = e \<or> (\<exists>i \<in> set js. e' = bn_tenants (bins ! i)))"
proof (induction js arbitrary: e)
  case (Cons j js)
  from Cons [of "min e (bn_tenants (bins ! j))"] show ?case
    by (cases "bn_tenants (bins ! j) < e") (auto simp: Let_def min_def split: if_splits)
qed simp

lemma emptiest_le: "i \<in> set js \<Longrightarrow> emptiest_of bins js \<le> bn_tenants (bins ! i)"
  and emptiest_attained: "js \<noteq> [] \<Longrightarrow> \<exists>i \<in> set js. emptiest_of bins js = bn_tenants (bins ! i)"
  using emptiest_scan by (cases js; force simp: Let_def)+

lemma feasible_skew:
  assumes "0 < po_MaxSkewTenants policy" "2 \<le> length (candidates_of t bins)"
    and "\<forall>b \<in> set bins. 0 \<le> bn_tenants b \<and> bn_tenants b < 2147483647"
    and "i \<in> set (feasible t bins policy)" "j \<in> set (candidates_of t bins)"
  shows "bn_tenants (bins ! i) + 1 - bn_tenants (bins ! j) \<le> po_MaxSkewTenants policy"
proof -
  let ?cs = "candidates_of t bins"
  let ?e = "emptiest_of bins ?cs"
  have range: "0 \<le> bn_tenants (bins ! k) \<and> bn_tenants (bins ! k) < 2147483647" if "k \<in> set ?cs" for k
    using that assms(3) by (auto simp: candidates_of_def)
  obtain k where k: "k \<in> set ?cs" "?e = bn_tenants (bins ! k)"
    using emptiest_attained [of ?cs bins] assms(2) by force
  have exact: "wrap32 (wrap32 (bn_tenants (bins ! l) + 1) - ?e) = bn_tenants (bins ! l) + 1 - ?e" if "l \<in> set ?cs" for l
    using range [OF that] range [OF k(1)] k(2) by (simp add: go_int in_int32_def)
  have "k \<in> set (filter (\<lambda>i. wrap32 (wrap32 (bn_tenants (bins ! i) + 1) - ?e) \<le> po_MaxSkewTenants policy) ?cs)"
    using k exact assms(1) by simp
  then have "i \<in> set (filter (\<lambda>i. wrap32 (wrap32 (bn_tenants (bins ! i) + 1) - ?e) \<le> po_MaxSkewTenants policy) ?cs)"
    using assms(1,2,4) by (auto simp: feasible_def Let_def filter_empty_conv split: if_splits)
  with exact emptiest_le [OF assms(5), of bins] show ?thesis by auto
qed

section \<open>Admission\<close>

lemma draw_other_replicate: "other \<noteq> first \<Longrightarrow> draw_other first (replicate k first @ other # rest) = Some other"
  by (induction k) auto

lemma distinct_feasible: "distinct (feasible t bins policy)"
  by (simp add: feasible_def candidates_of_def Let_def)

lemma pin_refusal_None: "pin_refusal t bins target = None \<longleftrightarrow> (\<exists>i. target = Some i \<and> fits (bins ! i) t = None)"
  by (auto simp: pin_refusal_def split: option.splits)

section \<open>Properties\<close>


text \<open>
  Every tenant gets exactly one answer: the names of the assignments and of the refusals together are
  the names of the tenants that were packed, each as often as it was given, also when the whole pool
  is refused as over-committed.
\<close>

theorem pack_answers_every_tenant:
  "mset (map as_Tenant (rs_Assignments (fst (Pack tenants instances policy)))) +
   mset (map rf_Tenant (rs_Refusals (fst (Pack tenants instances policy)))) = mset (map tn_Name tenants)"
proof (cases "checkCommitment tenants instances")
  case (Some err)
  then show ?thesis by (simp add: Pack_def publish_def comp_def Let_def)
next
  case None
  then have "snd (Pack tenants instances policy) = None"
    by (simp add: Pack_def Let_def split: prod.split)
  then obtain res where res: "Pack tenants instances policy = (res, None)"
    by (metis prod.collapse)
  obtain trail refused bins' where trail: "packing (binsOf instances) trail bins'"
    "mset (rs_Assignments res) = mset (log_assignments (binsOf instances) trail)"
    "mset (map rf_Tenant (rs_Refusals res)) = mset (map tn_Name refused)"
    "mset tenants = mset (map fst trail) + mset refused"
    by (rule Pack_packing [OF res]) (rule that)
  have "mset (map as_Tenant (rs_Assignments res)) = mset (map tn_Name (map fst trail))"
    using arg_cong [OF trail(2), of "image_mset as_Tenant"]
    by (simp add: multiset.map_comp comp_def split_def assignmentOf_def)
  then show ?thesis
    using res trail(3) arg_cong [OF trail(4), of "image_mset tn_Name"] by (simp add: multiset.map_comp)
qed


text \<open>
  Best fit is what it says: the bin it returns takes the tenant and no feasible bin would be left with
  less room, and it returns none exactly when no bin takes the tenant.
\<close>

theorem bestFit_is_the_tightest:
  "case bestFit t bins policy of
     None \<Rightarrow> (\<forall>b \<in> set bins. fits b t \<noteq> None)
   | Some i \<Rightarrow> i < length bins \<and> fits (bins ! i) t = None \<and>
       (\<forall>j \<in> set (feasible t bins policy). residual (bins ! i) t \<le> residual (bins ! j) t)"
proof (cases "bestFit t bins policy")
  case None
  then show ?thesis using bestFit_None [of t bins policy] feasible_Nil [of t bins policy] by simp
next
  case (Some i)
  then show ?thesis using bestFit_Some [OF Some] feasible_subset by auto
qed

text \<open>
  The skew bound holds for whatever is chosen: as soon as two instances can take the tenant, placing it
  on any feasible one leaves that one at most \<open>MaxSkewTenants\<close> tenants above every instance that could
  have taken it.
\<close>

theorem skew_bound_holds:
  assumes "0 < po_MaxSkewTenants policy" "2 \<le> length (candidates_of t bins)"
    and "\<forall>b \<in> set bins. 0 \<le> bn_tenants b \<and> bn_tenants b < 2147483647"
    and "i \<in> set (feasible t bins policy)" "j \<in> set (candidates_of t bins)"
  shows "bn_tenants (place (bins ! i) t) - bn_tenants (bins ! j) \<le> po_MaxSkewTenants policy"
proof -
  have "i < length bins" using feasible_subset [OF assms(4)] by simp
  then have "wrap32 (bn_tenants (bins ! i) + 1) = bn_tenants (bins ! i) + 1"
    using assms(3) by (intro wrap32_id) (auto simp: in_int32_def)
  with feasible_skew [OF assms] show ?thesis by (simp add: place_def)
qed

text \<open>
  Admission by two choices. An unpinned tenant is refused exactly when no instance takes it; with at
  least two feasible instances the admission ends as soon as the generator has drawn two different
  ones, and takes an instance that some other feasible one does not beat.
\<close>

theorem Admit_two_choices:
  assumes "tn_PinnedInstance t = []" "binsOf instances = bins" "feasible t bins policy = candidates"
  shows "(candidates = [] \<longrightarrow> (\<forall>b \<in> set bins. fits b t \<noteq> None) \<and> Admit t instances policy draws = Some (Inl (refuse t bins))) \<and>
    (length candidates = 1 \<longrightarrow> Admit t instances policy draws = Some (Inr (assignmentOf t (bin_name (bins ! hd candidates))))) \<and>
    (2 \<le> length candidates \<longrightarrow> draws = first # replicate k first @ other # rest \<longrightarrow> other \<noteq> first \<longrightarrow>
       first < length candidates \<longrightarrow> other < length candidates \<longrightarrow>
       (\<exists>i \<in> set candidates. Admit t instances policy draws = Some (Inr (assignmentOf t (bin_name (bins ! i)))) \<and>
          (\<exists>j \<in> set candidates. j \<noteq> i \<and> residual (bins ! i) t \<le> residual (bins ! j) t)))"
proof -
  have one: "length candidates = 1 \<Longrightarrow> candidates = [hd candidates]" by (cases candidates) auto
  let ?i = "better t bins (candidates ! first) (candidates ! other)"
  let ?j = "if ?i = candidates ! first then candidates ! other else candidates ! first"
  have two: "\<exists>i \<in> set candidates. Admit t instances policy draws = Some (Inr (assignmentOf t (bin_name (bins ! i)))) \<and>
      (\<exists>j \<in> set candidates. j \<noteq> i \<and> residual (bins ! i) t \<le> residual (bins ! j) t)"
    if two: "2 \<le> length candidates" and draws: "draws = first # replicate k first @ other # rest" "other \<noteq> first"
      "first < length candidates" "other < length candidates"
  proof -
    obtain a b cs where "candidates = a # b # cs"
      using two by (cases candidates; cases "drop 1 candidates") auto
    then have "Admit t instances policy draws = Some (Inr (assignmentOf t (bin_name (bins ! ?i))))"
      using assms draws(1) draw_other_replicate [OF draws(2)] by (simp add: Admit_def Let_def)
    moreover have "candidates ! first \<noteq> candidates ! other"
      using draws distinct_feasible [of t bins policy] assms(3) by (simp add: nth_eq_iff_index_eq)
    then have "?j \<noteq> ?i" "?i \<in> set candidates" "?j \<in> set candidates"
      using better_cases [of t bins "candidates ! first" "candidates ! other"] draws by auto
    moreover have "residual (bins ! ?i) t \<le> residual (bins ! ?j) t"
      using better_least(1,2) [of bins t "candidates ! first" "candidates ! other"] by auto
    ultimately show ?thesis by blast
  qed
  show ?thesis
    using two one assms feasible_Nil [of t bins policy] by (auto simp: Admit_def Let_def split: list.split)
qed

section \<open>An example pool\<close>

definition example_tenant_of :: "string \<Rightarrow> int \<Rightarrow> (string \<times> string) list \<Rightarrow> string \<Rightarrow> tenant" where
  "example_tenant_of name connections labels pin =
     \<lparr>tn_Name = name,
      tn_Demand = \<lparr>dm_GuaranteedConnections = connections, dm_ObservedConnections = 1, dm_StorageBytes = 0,
        dm_Relations = 0\<rparr>,
      tn_AntiAffinity = labels, tn_PinnedInstance = pin, tn_BoundInstance = [], tn_BoundMajor = 0\<rparr>"

definition example_instance_of :: "string \<Rightarrow> int \<Rightarrow> placement_instance" where
  "example_instance_of name connections =
     \<lparr>in_Name = name, in_Capacity = \<lparr>cp_Connections = connections, cp_StorageBytes = 0, cp_Relations = 0\<rparr>,
      in_Reserved = zero_capacity, in_Schedulable = True, in_Major = 17, in_Ready = True,
      in_Occupied = (\<lambda>_. None), in_Tenants = 0\<rparr>"

definition example_tenants :: "tenant list" where
  "example_tenants =
     [example_tenant_of ''web-1'' 4 [(''app'', ''web'')] [], example_tenant_of ''web-2'' 3 [(''app'', ''web'')] [],
      example_tenant_of ''batch'' 2 [] ''B'']"

definition example_instances :: "placement_instance list" where
  "example_instances = [example_instance_of ''A'' 10, example_instance_of ''B'' 20]"

definition example_policy :: placement_policy where
  "example_policy = \<lparr>po_PackOn = PercentileP95, po_MaxSkewTenants = 15\<rparr>"

abbreviation example_result :: placement_result where
  "example_result \<equiv> fst (Pack example_tenants example_instances example_policy)"

lemma example_Pack:
  "Pack example_tenants example_instances example_policy = (example_result, None)"
  "map tn_Name (hosted example_result example_tenants ''A'') = [''web-1'']"
  "map tn_Name (hosted example_result example_tenants ''B'') = [''web-2'', ''batch'']"
proof -
  have "snd (Pack example_tenants example_instances example_policy) = None" by code_simp
  then show "Pack example_tenants example_instances example_policy = (example_result, None)"
    by (metis prod.collapse)
  show "map tn_Name (hosted example_result example_tenants ''A'') = [''web-1'']"
    "map tn_Name (hosted example_result example_tenants ''B'') = [''web-2'', ''batch'']"
    by code_simp+
qed

lemma example_sane:
  "distinct (map tn_Name example_tenants)" "distinct (map in_Name example_instances)"
  "\<forall>t \<in> set example_tenants. sane_demand t"
  by code_simp+



theorem bestFit_is_the_tightest_witness:
  "bestFit (hd example_tenants) (binsOf example_instances) example_policy = Some 0 \<and>
   residual (binsOf example_instances ! 0) (hd example_tenants) \<le>
   residual (binsOf example_instances ! 1) (hd example_tenants)"
proof -
  have best: "bestFit (hd example_tenants) (binsOf example_instances) example_policy = Some 0"
    and feasible: "feasible (hd example_tenants) (binsOf example_instances) example_policy = [0, 1]"
    by code_simp+
  show ?thesis
    using bestFit_is_the_tightest [where t = "hd example_tenants" and bins = "binsOf example_instances"
        and policy = example_policy] best feasible
    by simp
qed

theorem skew_bound_holds_witness:
  "bn_tenants (place (binsOf example_instances ! 0) (hd example_tenants)) -
     bn_tenants (binsOf example_instances ! 1) \<le> 15"
proof -
  have "0 < po_MaxSkewTenants example_policy" "2 \<le> length (candidates_of (hd example_tenants) (binsOf example_instances))"
    "\<forall>b \<in> set (binsOf example_instances). 0 \<le> bn_tenants b \<and> bn_tenants b < 2147483647"
    "0 \<in> set (feasible (hd example_tenants) (binsOf example_instances) example_policy)"
    "1 \<in> set (candidates_of (hd example_tenants) (binsOf example_instances))"
    by code_simp+
  from skew_bound_holds [OF this] show ?thesis by (simp add: example_policy_def)
qed

theorem Admit_two_choices_witness:
  "\<exists>i \<in> {0, 1}. Admit (hd example_tenants) example_instances example_policy [1, 1, 0] =
     Some (Inr (assignmentOf (hd example_tenants) (bin_name (binsOf example_instances ! i))))"
proof -
  have "tn_PinnedInstance (hd example_tenants) = []"
    and "feasible (hd example_tenants) (binsOf example_instances) example_policy = [0, 1]"
    by code_simp+
  from Admit_two_choices [OF this(1) refl this(2), of "[1, 1, 0]" 1 1 0 "[]"] show ?thesis by auto
qed

end
