(* ===== verification/Placement_Policy.thy ===== *)
theory Placement_Policy
  imports Placement
begin

text \<open>
  What placement reads off the API objects (\<open>internal/placement/policy.go\<close>): the pool's placement
  policy with its defaults, the labels, pin and binding of a tenant, and the target an instance is.
\<close>

definition DefaultPackOnPercentile :: percentile where "DefaultPackOnPercentile = PercentileP95"
definition DefaultObservationWindow :: duration where "DefaultObservationWindow = 168 * hour"
definition DefaultMaxSkewTenants :: int where "DefaultMaxSkewTenants = 15"

fun QuantileFor :: "percentile \<Rightarrow> float64" where
  "QuantileFor PercentileP50 = round64 (50 / 100)"
| "QuantileFor PercentileP75 = round64 (75 / 100)"
| "QuantileFor PercentileP90 = round64 (90 / 100)"
| "QuantileFor PercentileP99 = round64 (99 / 100)"
| "QuantileFor PercentileP95 = round64 (95 / 100)"

record pool_placement =
  pp_PackOnPercentile :: "percentile option"
  pp_MaxSkewTenants :: "int option"
  pp_ObservationWindow :: "duration option"

definition placement_PolicyFor :: "pool_placement option \<Rightarrow> placement_policy" where
  "placement_PolicyFor pool =
     (case pool of
        None \<Rightarrow> \<lparr>po_PackOn = DefaultPackOnPercentile, po_MaxSkewTenants = DefaultMaxSkewTenants\<rparr>
      | Some p \<Rightarrow>
          \<lparr>po_PackOn = (case pp_PackOnPercentile p of None \<Rightarrow> DefaultPackOnPercentile | Some q \<Rightarrow> q),
           po_MaxSkewTenants = (case pp_MaxSkewTenants p of None \<Rightarrow> DefaultMaxSkewTenants | Some n \<Rightarrow> n)\<rparr>)"

definition ObservationWindowFor :: "pool_placement option \<Rightarrow> duration" where
  "ObservationWindowFor pool =
     (case pool of
        None \<Rightarrow> DefaultObservationWindow
      | Some p \<Rightarrow>
          (case pp_ObservationWindow p of
             None \<Rightarrow> DefaultObservationWindow
           | Some window \<Rightarrow> if window > 0 then window else DefaultObservationWindow))"

record tenant_object_view =
  to_Labels :: "string \<rightharpoonup> string"
  to_Placement :: "(string list \<times> string option) option"
  to_BindingRef :: "string option"

text \<open>The keys in the order declared, without repetitions; a map cannot hold a key twice.\<close>

definition AntiAffinityFor :: "tenant_object_view \<Rightarrow> (string \<times> string) list" where
  "AntiAffinityFor t =
     (case to_Placement t of
        None \<Rightarrow> []
      | Some (keys, _) \<Rightarrow>
          List.map_filter (\<lambda>key. case to_Labels t key of
              None \<Rightarrow> None
            | Some value \<Rightarrow> if value = [] then None else Some (key, value)) (remdups keys))"

definition PinnedInstanceFor :: "tenant_object_view \<Rightarrow> string" where
  "PinnedInstanceFor t =
     (case to_Placement t of None \<Rightarrow> [] | Some (_, ref) \<Rightarrow> (case ref of None \<Rightarrow> [] | Some name \<Rightarrow> name))"

definition BoundInstanceFor :: "tenant_object_view \<Rightarrow> string" where
  "BoundInstanceFor t = (case to_BindingRef t of None \<Rightarrow> [] | Some name \<Rightarrow> name)"

record instance_object_view =
  io_Name :: string
  io_PhaseReady :: bool
  io_PostgresVersion :: "string option"
  io_Schedulable :: "bool option"
  io_Cordoned :: "bool option"
  io_DrainRequested :: bool
  io_Allocatable :: "int option"
  io_StorageAllocated :: "int option"

definition MajorOf :: "instance_object_view \<Rightarrow> int" where
  "MajorOf i =
     (case io_PostgresVersion i of
        None \<Rightarrow> 0
      | Some version \<Rightarrow>
          (case ParseInt (TrimSpace version) of
             Inl _ \<Rightarrow> 0
           | Inr major \<Rightarrow> if major \<le> 0 then 0 else major))"

definition InstanceFrom :: "instance_object_view \<Rightarrow> placement_instance" where
  "InstanceFrom i =
     \<lparr>in_Name = io_Name i,
      in_Capacity =
        \<lparr>cp_Connections = (case io_Allocatable i of None \<Rightarrow> 0 | Some n \<Rightarrow> n),
         cp_StorageBytes = (case io_StorageAllocated i of None \<Rightarrow> 0 | Some n \<Rightarrow> n),
         cp_Relations = 0\<rparr>,
      in_Reserved = zero_capacity,
      in_Schedulable =
        (io_Schedulable i \<noteq> Some False \<and> io_Cordoned i \<noteq> Some True \<and> \<not> io_DrainRequested i),
      in_Major = MajorOf i,
      in_Ready = io_PhaseReady i,
      in_Occupied = (\<lambda>_. None),
      in_Tenants = 0\<rparr>"

text \<open>
  An instance that is ready but has not published its capacity takes any tenant: with no allocatable
  connections and no allocated storage published, every unbound tenant fits whatever it demands.
\<close>

theorem unpublished_capacity_is_unlimited:
  assumes "io_PhaseReady i" "in_Schedulable (InstanceFrom i)" "io_Allocatable i = None" "io_StorageAllocated i = None"
    and "tn_BoundMajor t = 0"
  shows "fits (newBin (InstanceFrom i)) t = None"
proof -
  have "find (clashes (\<lambda>_. None)) (tn_AntiAffinity t) = None"
    by (simp add: find_None_iff clashes_def)
  with assms show ?thesis by (simp add: fits_def newBin_def InstanceFrom_def Let_def)
qed

theorem unpublished_capacity_is_unlimited_witness:
  "fits (newBin (InstanceFrom \<lparr>io_Name = ''A'', io_PhaseReady = True, io_PostgresVersion = None,
       io_Schedulable = None, io_Cordoned = None, io_DrainRequested = False, io_Allocatable = None,
       io_StorageAllocated = None\<rparr>)) (example_tenant_of ''huge'' 1000000 [] []) = None"
  by (rule unpublished_capacity_is_unlimited) (simp_all add: InstanceFrom_def example_tenant_of_def)

end
