(* ===== verification/Autoscale.thy ===== *)
theory Autoscale
  imports Placement_Policy
begin

text \<open>
  The autoscaler (\<open>internal/autoscale\<close>): the resolved policy, the cron windows, the guardrails one
  action class has to clear, and the plan computed over a whole pool. The cron library and the time
  zone database are arguments. The sentences of the guardrails are constructors over the values the
  source interpolates; those of the plan, which interpolate only names and integers, are strings.
\<close>

section \<open>Policy\<close>

datatype auto_action =
    AutoActionTenantGucTune
  | AutoActionStorageExpand
  | AutoActionScaleOut
  | AutoActionRebalance
  | AutoActionVerticalResize
  | AutoActionScaleIn
  | AutoActionOther string

fun action_string :: "auto_action \<Rightarrow> string" where
  "action_string AutoActionTenantGucTune = ''TenantGucTune''"
| "action_string AutoActionStorageExpand = ''StorageExpand''"
| "action_string AutoActionScaleOut = ''ScaleOut''"
| "action_string AutoActionRebalance = ''Rebalance''"
| "action_string AutoActionVerticalResize = ''VerticalResize''"
| "action_string AutoActionScaleIn = ''ScaleIn''"
| "action_string (AutoActionOther s) = s"

datatype autoscaling_mode = AutoscalingRecommend | AutoscalingAuto

datatype stale_metric_policy = StaleMetricDoNothing | StaleMetricScaleToMinimum

record time_window =
  tw_Schedule :: string
  tw_TimeZone :: string
  tw_Duration :: duration

record migration_budget =
  mb_MaxConcurrent :: int
  mb_MaxPerWindow :: int
  mb_Windows :: "time_window list"

record autoscale_policy =
  ap_Mode :: autoscaling_mode
  ap_AutoActions :: "auto_action list"
  ap_MinInstances :: int
  ap_MaxInstances :: int
  ap_TargetUtilizationPercent :: int
  ap_TolerancePercent :: int
  ap_ScaleUpStabilization :: duration
  ap_ScaleDownStabilization :: duration
  ap_StaleThreshold :: duration
  ap_StaleFallback :: stale_metric_policy
  ap_ConsolidationDwell :: duration
  ap_ScaleInEvidenceWindow :: duration
  ap_MigrationBudget :: migration_budget
  ap_BlackoutWindows :: "time_window list"
  ap_StorageExpandAtPercent :: int
  ap_StorageExpandToPercent :: int
  ap_StorageMaxBytes :: int
  ap_RebalanceEnabled :: bool
  ap_RebalanceColdOnly :: bool
  ap_MinImbalancePercent :: int
  ap_HotTenantPercent :: int
  ap_ForbidMoveAboveSourcePercent :: int
  ap_Placement :: placement_policy

definition Allows :: "autoscale_policy \<Rightarrow> auto_action \<Rightarrow> bool" where
  "Allows p class = (class \<in> set (ap_AutoActions p))"

definition DefaultStorageExpandToPercent :: int where "DefaultStorageExpandToPercent = 60"

record budget_spec =
  bs_MaxConcurrent :: "int option"
  bs_MaxPerWindow :: "int option"
  bs_Windows :: "time_window list"

record storage_spec =
  st_ExpandAtPercent :: "int option"
  st_ExpandToPercent :: "int option"
  st_MaxSize :: "int option"

record autoscaling_spec =
  au_Mode :: "autoscaling_mode option"
  au_AutoActions :: "auto_action list"
  au_MinInstances :: "int option"
  au_MaxInstances :: "int option"
  au_TargetUtilizationPercent :: "int option"
  au_TolerancePercent :: "int option"
  au_ScaleUp :: "duration option"
  au_ScaleDown :: "duration option"
  au_StaleMetricThreshold :: "duration option"
  au_StaleMetricPolicy :: "stale_metric_policy option"
  au_ConsolidationDwellTime :: "duration option"
  au_ScaleInEvidenceWindow :: "duration option"
  au_BlackoutWindows :: "time_window list"
  au_MigrationBudget :: "budget_spec option"
  au_Storage :: "storage_spec option"

record rebalancing_spec =
  rb_Enabled :: "bool option"
  rb_ColdTenantsOnly :: "bool option"
  rb_MinImbalancePercent :: "int option"
  rb_HotTenantPercent :: "int option"
  rb_ForbidMoveAbovePercent :: "int option"
  rb_MaxConcurrentMigrations :: "int option"
  rb_BlackoutWindows :: "time_window list"

definition override :: "'a \<Rightarrow> 'a option \<Rightarrow> 'a" where
  "override old new = (case new of None \<Rightarrow> old | Some v \<Rightarrow> v)"

definition applyAutoscalingSpec :: "autoscale_policy \<Rightarrow> autoscaling_spec option \<Rightarrow> autoscale_policy" where
  "applyAutoscalingSpec p spec =
     (case spec of
        None \<Rightarrow> p
      | Some s \<Rightarrow>
          p\<lparr>ap_Mode := override (ap_Mode p) (au_Mode s),
            ap_AutoActions := au_AutoActions s,
            ap_MinInstances := override (ap_MinInstances p) (au_MinInstances s),
            ap_MaxInstances := override (ap_MaxInstances p) (au_MaxInstances s),
            ap_TargetUtilizationPercent := override (ap_TargetUtilizationPercent p) (au_TargetUtilizationPercent s),
            ap_TolerancePercent := override (ap_TolerancePercent p) (au_TolerancePercent s),
            ap_ScaleUpStabilization := override (ap_ScaleUpStabilization p) (au_ScaleUp s),
            ap_ScaleDownStabilization := override (ap_ScaleDownStabilization p) (au_ScaleDown s),
            ap_StaleThreshold := override (ap_StaleThreshold p) (au_StaleMetricThreshold s),
            ap_StaleFallback := override (ap_StaleFallback p) (au_StaleMetricPolicy s),
            ap_ConsolidationDwell := override (ap_ConsolidationDwell p) (au_ConsolidationDwellTime s),
            ap_ScaleInEvidenceWindow := override (ap_ScaleInEvidenceWindow p) (au_ScaleInEvidenceWindow s),
            ap_BlackoutWindows := au_BlackoutWindows s,
            ap_MigrationBudget :=
              (case au_MigrationBudget s of
                 None \<Rightarrow> ap_MigrationBudget p
               | Some b \<Rightarrow>
                   \<lparr>mb_MaxConcurrent = override (mb_MaxConcurrent (ap_MigrationBudget p)) (bs_MaxConcurrent b),
                    mb_MaxPerWindow = override (mb_MaxPerWindow (ap_MigrationBudget p)) (bs_MaxPerWindow b),
                    mb_Windows = bs_Windows b\<rparr>),
            ap_StorageExpandAtPercent :=
              override (ap_StorageExpandAtPercent p) (Option.bind (au_Storage s) st_ExpandAtPercent),
            ap_StorageExpandToPercent :=
              override (ap_StorageExpandToPercent p) (Option.bind (au_Storage s) st_ExpandToPercent),
            ap_StorageMaxBytes := override (ap_StorageMaxBytes p) (Option.bind (au_Storage s) st_MaxSize)\<rparr>)"

definition applyRebalancingSpec :: "autoscale_policy \<Rightarrow> rebalancing_spec option \<Rightarrow> autoscale_policy" where
  "applyRebalancingSpec p spec =
     (case spec of
        None \<Rightarrow> p
      | Some s \<Rightarrow>
          p\<lparr>ap_RebalanceEnabled := override (ap_RebalanceEnabled p) (rb_Enabled s),
            ap_RebalanceColdOnly := override (ap_RebalanceColdOnly p) (rb_ColdTenantsOnly s),
            ap_MinImbalancePercent := override (ap_MinImbalancePercent p) (rb_MinImbalancePercent s),
            ap_HotTenantPercent := override (ap_HotTenantPercent p) (rb_HotTenantPercent s),
            ap_ForbidMoveAboveSourcePercent :=
              override (ap_ForbidMoveAboveSourcePercent p) (rb_ForbidMoveAbovePercent s),
            ap_MigrationBudget :=
              (case rb_MaxConcurrentMigrations s of
                 None \<Rightarrow> ap_MigrationBudget p
               | Some n \<Rightarrow>
                   (ap_MigrationBudget p)\<lparr>mb_MaxConcurrent := min (mb_MaxConcurrent (ap_MigrationBudget p)) n\<rparr>),
            ap_BlackoutWindows := ap_BlackoutWindows p @ rb_BlackoutWindows s\<rparr>)"

record pool_spec =
  ps_Autoscaling :: "autoscaling_spec option"
  ps_Rebalancing :: "rebalancing_spec option"
  ps_Placement :: "pool_placement option"

definition default_policy :: "placement_policy \<Rightarrow> autoscale_policy" where
  "default_policy placement =
     \<lparr>ap_Mode = AutoscalingRecommend, ap_AutoActions = [], ap_MinInstances = 1, ap_MaxInstances = 64,
      ap_TargetUtilizationPercent = 70, ap_TolerancePercent = 10, ap_ScaleUpStabilization = 3 * minute,
      ap_ScaleDownStabilization = 30 * minute, ap_StaleThreshold = 5 * minute,
      ap_StaleFallback = StaleMetricDoNothing, ap_ConsolidationDwell = 24 * hour,
      ap_ScaleInEvidenceWindow = 168 * hour,
      ap_MigrationBudget = \<lparr>mb_MaxConcurrent = 1, mb_MaxPerWindow = 4, mb_Windows = []\<rparr>,
      ap_BlackoutWindows = [], ap_StorageExpandAtPercent = 80,
      ap_StorageExpandToPercent = DefaultStorageExpandToPercent, ap_StorageMaxBytes = 0,
      ap_RebalanceEnabled = False, ap_RebalanceColdOnly = True, ap_MinImbalancePercent = 20,
      ap_HotTenantPercent = 15, ap_ForbidMoveAboveSourcePercent = 65, ap_Placement = placement\<rparr>"

definition autoscale_PolicyFor :: "pool_spec option \<Rightarrow> autoscale_policy" where
  "autoscale_PolicyFor pool =
     (case pool of
        None \<Rightarrow> default_policy (placement_PolicyFor None)
      | Some p \<Rightarrow>
          applyRebalancingSpec
            (applyAutoscalingSpec (default_policy (placement_PolicyFor (ps_Placement p))) (ps_Autoscaling p))
            (ps_Rebalancing p))"

section \<open>Windows\<close>

text \<open>
  The cron library parses an expression into a schedule, which for a location and an instant gives the
  next activation after it, or the zero instant when it finds none.
\<close>

record 'location cron =
  cr_Parse :: "string \<Rightarrow> string + ('location \<Rightarrow> time \<Rightarrow> time)"
  cr_LoadLocation :: "string \<Rightarrow> string + 'location"
  cr_UTC :: 'location

datatype window_error =
    ParsingSchedule string string
  | LoadingTimeZone string string
  | NonPositiveDuration string

definition oneWindowOpen :: "'l cron \<Rightarrow> time \<Rightarrow> time_window \<Rightarrow> window_error + bool" where
  "oneWindowOpen cron now window =
     (case cr_Parse cron (tw_Schedule window) of
        Inl e \<Rightarrow> Inl (ParsingSchedule (tw_Schedule window) e)
      | Inr schedule \<Rightarrow>
          let go = (\<lambda>location.
                if tw_Duration window \<le> 0 then Inl (NonPositiveDuration (tw_Schedule window))
                else
                  let activation = schedule location (now - tw_Duration window) in
                  Inr (\<not> activation > now)) in
          if tw_TimeZone window = [] then go (cr_UTC cron)
          else case cr_LoadLocation cron (tw_TimeZone window) of
            Inl e \<Rightarrow> Inl (LoadingTimeZone (tw_TimeZone window) e)
          | Inr location \<Rightarrow> go location)"

fun WindowOpen :: "'l cron \<Rightarrow> time \<Rightarrow> time_window list \<Rightarrow> window_error + bool" where
  "WindowOpen cron now [] = Inr False"
| "WindowOpen cron now (window # windows) =
     (case oneWindowOpen cron now window of
        Inl e \<Rightarrow> Inl e
      | Inr opened \<Rightarrow> if opened then Inr True else WindowOpen cron now windows)"

fun next_window_loop :: "'l cron \<Rightarrow> time \<Rightarrow> time \<Rightarrow> time_window list \<Rightarrow> time" where
  "next_window_loop cron now next [] = next"
| "next_window_loop cron now next (window # windows) =
     (case cr_Parse cron (tw_Schedule window) of
        Inl _ \<Rightarrow> next_window_loop cron now next windows
      | Inr schedule \<Rightarrow>
          let location =
                (if tw_TimeZone window = [] then cr_UTC cron
                 else case cr_LoadLocation cron (tw_TimeZone window) of Inl _ \<Rightarrow> cr_UTC cron | Inr l \<Rightarrow> l);
              activation = schedule location now in
          next_window_loop cron now (if IsZero next \<or> activation < next then activation else next) windows)"

definition NextWindow :: "'l cron \<Rightarrow> time \<Rightarrow> time_window list \<Rightarrow> time option" where
  "NextWindow cron now windows =
     (let next = next_window_loop cron now 0 windows in if IsZero next then None else Some next)"

section \<open>Signals\<close>

record instance_signal =
  is_Name :: string
  is_Major :: int
  is_Ready :: bool
  is_Schedulable :: bool
  is_Progressing :: bool
  is_AllocatableConnections :: int
  is_InUseConnections :: int
  is_ReservedConnections :: int
  is_Tenants :: int
  is_StorageAllocatedBytes :: int
  is_StorageUsedBytes :: int

definition zero_instance_signal :: instance_signal where
  "zero_instance_signal =
     \<lparr>is_Name = [], is_Major = 0, is_Ready = False, is_Schedulable = False, is_Progressing = False,
      is_AllocatableConnections = 0, is_InUseConnections = 0, is_ReservedConnections = 0, is_Tenants = 0,
      is_StorageAllocatedBytes = 0, is_StorageUsedBytes = 0\<rparr>"

definition Measurable :: "instance_signal \<Rightarrow> bool" where
  "Measurable i = (is_Ready i \<and> is_Schedulable i)"

definition UtilizationPercent :: "instance_signal \<Rightarrow> int" where
  "UtilizationPercent i =
     (if is_AllocatableConnections i \<le> 0 then 0
      else wrap32 ((is_InUseConnections i * 100) sdiv is_AllocatableConnections i))"

definition StorageUsedPercent :: "instance_signal \<Rightarrow> int" where
  "StorageUsedPercent i =
     (if is_StorageAllocatedBytes i \<le> 0 then 0
      else wrap32 (wrap64 (is_StorageUsedBytes i * 100) sdiv is_StorageAllocatedBytes i))"

record tenant_signal =
  ts_Name :: string
  ts_Instance :: string
  ts_GuaranteedConnections :: int
  ts_BurstableConnections :: int
  ts_PackedConnections :: int
  ts_PeakConnections :: int
  ts_StorageBytes :: int
  ts_Relations :: int
  ts_Cold :: bool
  ts_MigrationAllowed :: bool
  ts_AntiAffinity :: "(string \<times> string) list"
  ts_PinnedInstance :: string
  ts_EvidenceSpan :: duration

definition zero_tenant_signal :: tenant_signal where
  "zero_tenant_signal =
     \<lparr>ts_Name = [], ts_Instance = [], ts_GuaranteedConnections = 0, ts_BurstableConnections = 0,
      ts_PackedConnections = 0, ts_PeakConnections = 0, ts_StorageBytes = 0, ts_Relations = 0,
      ts_Cold = False, ts_MigrationAllowed = False, ts_AntiAffinity = [], ts_PinnedInstance = [],
      ts_EvidenceSpan = 0\<rparr>"

record signals =
  sg_Now :: time
  sg_Namespace :: string
  sg_Pool :: string
  sg_Paused :: bool
  sg_Instances :: "instance_signal list"
  sg_Tenants :: "tenant_signal list"
  sg_DeclaredInstances :: int
  sg_MetricsSeen :: bool
  sg_MetricsAge :: duration
  sg_EvidenceSpan :: duration
  sg_RolloutInProgress :: bool
  sg_InFlightMigrations :: int
  sg_MigrationsStartedInWindow :: int
  sg_MigrationsFromSource :: "string \<rightharpoonup> int"
  sg_LastScaleUpAt :: "time option"
  sg_LastScaleDownAt :: "time option"
  sg_ConsolidatableSince :: "string \<rightharpoonup> time"

definition InstanceCount :: "signals \<Rightarrow> int" where
  "InstanceCount s = wrap32 (int (length (sg_Instances s)))"

definition ServingInstances :: "signals \<Rightarrow> int" where
  "ServingInstances s =
     foldl (\<lambda>n i. if is_Ready i \<and> \<not> is_Schedulable i then n else wrap32 (n + 1)) 0 (sg_Instances s)"

definition ReadyInstances :: "signals \<Rightarrow> int" where
  "ReadyInstances s = foldl (\<lambda>n i. if is_Ready i then wrap32 (n + 1) else n) 0 (sg_Instances s)"

section \<open>Guardrails\<close>

datatype guard_reason =
    ReasonAllowed | ReasonStaleMetrics | ReasonRolloutInProgress | ReasonBlackoutWindow
  | ReasonRecommendMode | ReasonNotOptedIn | ReasonStabilizing | ReasonMigrationBudget
  | ReasonMigrationWindow | ReasonDwellTime | ReasonInsufficientEvidence | ReasonAtInstanceBound
  | ReasonScaleOutUnrealised | ReasonHumanGated | ReasonPoolPaused | ReasonScheduleInvalid
  | ReasonRebalancingDisabled | ReasonNoExecutor | ReasonNotProposed

datatype guard_message =
    NoMessage
  | ThePoolIsPaused
  | NeverMetered
  | NewestSampleOld duration duration
  | InstanceRollingOut
  | InvalidSchedule window_error
  | BlackoutOpen
  | ModeIs autoscaling_mode
  | NotInAutoActions auto_action
  | RestartsAPostmaster
  | UnknownActionClass auto_action
  | AtMaxInstances int
  | DeclaredAndHas int int
  | NotComeUp int int
  | ScaledUpAgo duration duration
  | RebalancingOff
  | NextMigrationWindow time
  | NoMigrationWindow
  | MaxConcurrentZero
  | InFlightAgainst int int
  | StartedAgainst int int
  | AtMinInstances int
  | ScaledDownAgo duration duration
  | HistoryAgainst duration duration
  | NotObservedConsolidatable string
  | ConsolidatableFor string duration duration

record verdict =
  vd_permitted :: bool
  vd_reason :: guard_reason
  vd_message :: guard_message

definition allow :: verdict where
  "allow = \<lparr>vd_permitted = True, vd_reason = ReasonAllowed, vd_message = NoMessage\<rparr>"

definition guard_refuse :: "guard_reason \<Rightarrow> guard_message \<Rightarrow> verdict" where
  "guard_refuse reason message = \<lparr>vd_permitted = False, vd_reason = reason, vd_message = message\<rparr>"

definition ActionOrder :: "auto_action list" where
  "ActionOrder =
     [AutoActionTenantGucTune, AutoActionStorageExpand, AutoActionScaleOut, AutoActionRebalance,
      AutoActionVerticalResize, AutoActionScaleIn]"

record 'l guard =
  gd_Policy :: autoscale_policy
  gd_Signals :: signals
  gd_ConsolidationTarget :: string
  gd_cron :: "'l cron"

definition staleness :: "'l guard \<Rightarrow> verdict" where
  "staleness g =
     (if \<not> sg_MetricsSeen (gd_Signals g) then guard_refuse ReasonStaleMetrics NeverMetered
      else if ap_StaleThreshold (gd_Policy g) > 0 \<and>
              sg_MetricsAge (gd_Signals g) > ap_StaleThreshold (gd_Policy g) then
        guard_refuse ReasonStaleMetrics
          (NewestSampleOld (sg_MetricsAge (gd_Signals g)) (ap_StaleThreshold (gd_Policy g)))
      else allow)"

definition blackout :: "'l guard \<Rightarrow> verdict" where
  "blackout g =
     (case WindowOpen (gd_cron g) (sg_Now (gd_Signals g)) (ap_BlackoutWindows (gd_Policy g)) of
        Inl e \<Rightarrow> guard_refuse ReasonScheduleInvalid (InvalidSchedule e)
      | Inr opened \<Rightarrow> if opened then guard_refuse ReasonBlackoutWindow BlackoutOpen else allow)"

definition mode_verdict :: "'l guard \<Rightarrow> auto_action \<Rightarrow> verdict" where
  "mode_verdict g class =
     (if ap_Mode (gd_Policy g) \<noteq> AutoscalingAuto then
        if class = AutoActionStorageExpand then allow
        else guard_refuse ReasonRecommendMode (ModeIs (ap_Mode (gd_Policy g)))
      else if \<not> Allows (gd_Policy g) class then guard_refuse ReasonNotOptedIn (NotInAutoActions class)
      else allow)"

definition since :: "time \<Rightarrow> time option \<Rightarrow> duration option" where
  "since now moment =
     (case moment of None \<Rightarrow> None | Some t \<Rightarrow> if IsZero t then None else Some (time_sub now t))"

definition scaleOut :: "'l guard \<Rightarrow> verdict" where
  "scaleOut g =
     (let s = gd_Signals g; p = gd_Policy g in
      if InstanceCount s \<ge> ap_MaxInstances p then
        guard_refuse ReasonAtInstanceBound (AtMaxInstances (ap_MaxInstances p))
      else if sg_DeclaredInstances s > InstanceCount s then
        guard_refuse ReasonScaleOutUnrealised (DeclaredAndHas (sg_DeclaredInstances s) (InstanceCount s))
      else
        let pending = wrap32 (InstanceCount s - ReadyInstances s) in
        if pending > 0 then guard_refuse ReasonScaleOutUnrealised (NotComeUp pending (InstanceCount s))
        else case since (sg_Now s) (sg_LastScaleUpAt s) of
          Some elapsed \<Rightarrow>
            if elapsed < ap_ScaleUpStabilization p
            then guard_refuse ReasonStabilizing (ScaledUpAgo elapsed (ap_ScaleUpStabilization p))
            else allow
        | None \<Rightarrow> allow)"

definition migrationBudget :: "'l guard \<Rightarrow> verdict" where
  "migrationBudget g =
     (let s = gd_Signals g; budget = ap_MigrationBudget (gd_Policy g);
          caps =
            (if mb_MaxConcurrent budget \<le> 0 then guard_refuse ReasonMigrationBudget MaxConcurrentZero
             else if sg_InFlightMigrations s \<ge> mb_MaxConcurrent budget then
               guard_refuse ReasonMigrationBudget (InFlightAgainst (sg_InFlightMigrations s) (mb_MaxConcurrent budget))
             else if mb_MaxPerWindow budget > 0 \<and> sg_MigrationsStartedInWindow s \<ge> mb_MaxPerWindow budget then
               guard_refuse ReasonMigrationBudget
                 (StartedAgainst (sg_MigrationsStartedInWindow s) (mb_MaxPerWindow budget))
             else allow) in
      if mb_Windows budget = [] then caps
      else case WindowOpen (gd_cron g) (sg_Now s) (mb_Windows budget) of
        Inl e \<Rightarrow> guard_refuse ReasonScheduleInvalid (InvalidSchedule e)
      | Inr opened \<Rightarrow>
          if opened then caps
          else case NextWindow (gd_cron g) (sg_Now s) (mb_Windows budget) of
            Some next \<Rightarrow> guard_refuse ReasonMigrationWindow (NextMigrationWindow next)
          | None \<Rightarrow> guard_refuse ReasonMigrationWindow NoMigrationWindow)"

definition rebalance :: "'l guard \<Rightarrow> verdict" where
  "rebalance g =
     (if \<not> ap_RebalanceEnabled (gd_Policy g) then guard_refuse ReasonRebalancingDisabled RebalancingOff
      else migrationBudget g)"

definition evacuation :: "'l guard \<Rightarrow> verdict" where
  "evacuation g =
     (if sg_Paused (gd_Signals g) then guard_refuse ReasonPoolPaused ThePoolIsPaused
      else let v = blackout g in if \<not> vd_permitted v then v else migrationBudget g)"

definition consolidationDwell :: "'l guard \<Rightarrow> duration option" where
  "consolidationDwell g =
     (if gd_ConsolidationTarget g = [] then None
      else case sg_ConsolidatableSince (gd_Signals g) (gd_ConsolidationTarget g) of
        None \<Rightarrow> None
      | Some moment \<Rightarrow> since (sg_Now (gd_Signals g)) (Some moment))"

definition scaleIn :: "'l guard \<Rightarrow> verdict" where
  "scaleIn g =
     (let s = gd_Signals g; p = gd_Policy g;
          rest =
            (if sg_EvidenceSpan s < ap_ScaleInEvidenceWindow p then
               guard_refuse ReasonInsufficientEvidence (HistoryAgainst (sg_EvidenceSpan s) (ap_ScaleInEvidenceWindow p))
             else case consolidationDwell g of
               None \<Rightarrow> guard_refuse ReasonDwellTime (NotObservedConsolidatable (gd_ConsolidationTarget g))
             | Some elapsed \<Rightarrow>
                 if elapsed < ap_ConsolidationDwell p then
                   guard_refuse ReasonDwellTime
                     (ConsolidatableFor (gd_ConsolidationTarget g) elapsed (ap_ConsolidationDwell p))
                 else migrationBudget g) in
      if InstanceCount s \<le> ap_MinInstances p then
        guard_refuse ReasonAtInstanceBound (AtMinInstances (ap_MinInstances p))
      else case since (sg_Now s) (sg_LastScaleDownAt s) of
        Some elapsed \<Rightarrow>
          if elapsed < ap_ScaleDownStabilization p
          then guard_refuse ReasonStabilizing (ScaledDownAgo elapsed (ap_ScaleDownStabilization p))
          else rest
      | None \<Rightarrow> rest)"

fun perClass :: "'l guard \<Rightarrow> auto_action \<Rightarrow> verdict" where
  "perClass g AutoActionStorageExpand = allow"
| "perClass g AutoActionTenantGucTune = allow"
| "perClass g AutoActionScaleOut = scaleOut g"
| "perClass g AutoActionRebalance = rebalance g"
| "perClass g AutoActionVerticalResize = guard_refuse ReasonHumanGated RestartsAPostmaster"
| "perClass g AutoActionScaleIn = scaleIn g"
| "perClass g (AutoActionOther s) = guard_refuse ReasonNotOptedIn (UnknownActionClass (AutoActionOther s))"

definition Evaluate :: "'l guard \<Rightarrow> auto_action \<Rightarrow> verdict" where
  "Evaluate g class =
     (if sg_Paused (gd_Signals g) then guard_refuse ReasonPoolPaused ThePoolIsPaused
      else if \<not> vd_permitted (staleness g) then staleness g
      else if sg_RolloutInProgress (gd_Signals g) then guard_refuse ReasonRolloutInProgress InstanceRollingOut
      else if \<not> vd_permitted (blackout g) then blackout g
      else if \<not> vd_permitted (mode_verdict g class) then mode_verdict g class
      else perClass g class)"

datatype blocker = NotBlocked | BlockedByWorkloadClass | BlockedByHeat | BlockedBySourceLoad | BlockedByInFlight

definition MoveEligible :: "'l guard \<Rightarrow> tenant_signal \<Rightarrow> instance_signal \<Rightarrow> bool \<times> blocker \<times> string" where
  "MoveEligible g t source =
     (let p = gd_Policy g in
      if \<not> ts_MigrationAllowed t then
        (False, BlockedByWorkloadClass, ''the tenant's workload class does not permit automatic migration'')
      else if ap_RebalanceColdOnly p \<and> \<not> ts_Cold t then
        (False, BlockedByHeat,
         ''the tenant is hot: moving it would consume exactly the capacity the move is meant to relieve (threshold '' @
         Itoa (ap_HotTenantPercent p) @ ''%)'')
      else if UtilizationPercent source > ap_ForbidMoveAboveSourcePercent p then
        (False, BlockedBySourceLoad,
         ''source '' @ is_Name source @ '' is at '' @ Itoa (UtilizationPercent source) @
         ''% utilization, above the '' @ Itoa (ap_ForbidMoveAboveSourcePercent p) @
         ''% ceiling for decoding a move'')
      else if (case sg_MigrationsFromSource (gd_Signals g) (is_Name source) of None \<Rightarrow> 0 | Some n \<Rightarrow> n) > 0 then
        (False, BlockedByInFlight, ''a migration from '' @ is_Name source @ '' is already in flight'')
      else (True, NotBlocked, []))"

definition EvacuationEligible :: "'l guard \<Rightarrow> tenant_signal \<Rightarrow> instance_signal \<Rightarrow> bool \<times> blocker \<times> string" where
  "EvacuationEligible g t source =
     MoveEligible (g\<lparr>gd_Policy := (gd_Policy g)\<lparr>ap_RebalanceColdOnly := False\<rparr>\<rparr>) t source"

section \<open>The plan\<close>

record action =
  ac_Class :: auto_action
  ac_Target :: string
  ac_Detail :: string
  ac_Permitted :: bool
  ac_Reason :: guard_reason
  ac_Message :: guard_message

record move =
  mv_Tenant :: string
  mv_From :: string
  mv_To :: string
  mv_ExpectedImprovementPercent :: int
  mv_Reason :: string
  mv_Eligible :: bool
  mv_Blocker :: blocker
  mv_BlockedBy :: string

record instance_target =
  it_Name :: string
  it_UtilizationPercent :: int
  it_PackedConnections :: int
  it_AllocatableConnections :: int
  it_Tenants :: int
  it_StorageUsedPercent :: int
  it_RecommendedStorageBytes :: int
  it_Consolidatable :: bool

record plan =
  pn_ComputedAt :: time
  pn_Mode :: autoscaling_mode
  pn_MetricsStale :: bool
  pn_ObservedInstances :: int
  pn_RecommendedInstances :: int
  pn_ObservedUtilizationPercent :: int
  pn_TargetUtilizationPercent :: int
  pn_MeasuredInstances :: int
  pn_ServingInstances :: int
  pn_MigrationsPermitted :: bool
  pn_MigrationsRefusedBecause :: guard_message
  pn_EvacuationPermitted :: bool
  pn_EvacuationRefusedBecause :: guard_message
  pn_policy :: autoscale_policy
  pn_Summary :: string
  pn_InstanceTargets :: "instance_target list"
  pn_Moves :: "move list"
  pn_Actions :: "action list"
  pn_ConsolidationTarget :: string

definition ActionFor :: "plan \<Rightarrow> auto_action \<Rightarrow> action option" where
  "ActionFor p class = find (\<lambda>a. ac_Class a = class) (pn_Actions p)"

fun select_action :: "action list \<Rightarrow> auto_action list \<Rightarrow> action option" where
  "select_action actions [] = None"
| "select_action actions (class # classes) =
     (case find (\<lambda>a. ac_Class a = class) actions of
        Some a \<Rightarrow> if ac_Permitted a then Some a else select_action actions classes
      | None \<Rightarrow> select_action actions classes)"

definition Selected :: "plan \<Rightarrow> action option" where
  "Selected p = select_action (pn_Actions p) ActionOrder"

definition move_cmp :: "move \<Rightarrow> move \<Rightarrow> int" where
  "move_cmp a b =
     (if mv_ExpectedImprovementPercent a > mv_ExpectedImprovementPercent b then -1
      else if mv_ExpectedImprovementPercent b > mv_ExpectedImprovementPercent a then 1
      else go_compare (mv_Tenant a) (mv_Tenant b))"

definition EligibleMoves :: "plan \<Rightarrow> move list" where
  "EligibleMoves p = sort_func move_cmp (filter mv_Eligible (pn_Moves p))"

definition clamp :: "int \<Rightarrow> int \<Rightarrow> int \<Rightarrow> int" where
  "clamp value low high = (let high = (if high < low then low else high) in min (max value low) high)"

definition measured :: "signals \<Rightarrow> int \<times> int \<times> int" where
  "measured s =
     foldl (\<lambda>(count, inUse, allocatable) i.
         if \<not> Measurable i then (count, inUse, allocatable)
         else (wrap32 (count + 1), wrap64 (inUse + is_InUseConnections i),
               wrap64 (allocatable + is_AllocatableConnections i)))
       (0, 0, 0) (sg_Instances s)"

definition observed_utilization :: "int \<Rightarrow> int \<Rightarrow> int" where
  "observed_utilization inUse allocatable =
     (if allocatable > 0 then wrap32 (wrap64 (inUse * 100) sdiv allocatable) else 0)"

definition recommendedInstances :: "int \<Rightarrow> int \<Rightarrow> signals \<Rightarrow> autoscale_policy \<Rightarrow> int" where
  "recommendedInstances measuredInstances observed s p =
     (let current = ServingInstances s; target = ap_TargetUtilizationPercent p in
      if measuredInstances = 0 \<or> target \<le> 0 then max current (ap_MinInstances p)
      else
        let deviation = wrap32 (observed - target);
            deviation = (if deviation < 0 then wrap32 (- deviation) else deviation) in
        if deviation \<le> ap_TolerancePercent p then clamp current (ap_MinInstances p) (ap_MaxInstances p)
        else
          let desired = (measuredInstances * observed + target - 1) sdiv target in
          clamp (wrap32 desired) (ap_MinInstances p) (ap_MaxInstances p))"

definition majorOfInstance :: "signals \<Rightarrow> string \<Rightarrow> int" where
  "majorOfInstance s name =
     (if name = [] then 0
      else case find (\<lambda>i. is_Name i = name) (sg_Instances s) of None \<Rightarrow> 0 | Some i \<Rightarrow> is_Major i)"

definition repack_tenant :: "signals \<Rightarrow> tenant_signal \<Rightarrow> tenant" where
  "repack_tenant s t =
     \<lparr>tn_Name = ts_Name t,
      tn_Demand = \<lparr>dm_GuaranteedConnections = ts_GuaranteedConnections t,
        dm_ObservedConnections = ts_PackedConnections t, dm_StorageBytes = ts_StorageBytes t,
        dm_Relations = ts_Relations t\<rparr>,
      tn_AntiAffinity = ts_AntiAffinity t, tn_PinnedInstance = ts_PinnedInstance t,
      tn_BoundInstance = ts_Instance t, tn_BoundMajor = majorOfInstance s (ts_Instance t)\<rparr>"

definition repack_instance :: "instance_signal \<Rightarrow> placement_instance" where
  "repack_instance i =
     \<lparr>in_Name = is_Name i, in_Capacity = zero_capacity\<lparr>cp_Connections := is_AllocatableConnections i\<rparr>,
      in_Reserved = zero_capacity, in_Schedulable = is_Schedulable i, in_Major = is_Major i,
      in_Ready = is_Ready i, in_Occupied = (\<lambda>_. None), in_Tenants = 0\<rparr>"

definition repack :: "signals \<Rightarrow> autoscale_policy \<Rightarrow> placement_result" where
  "repack s p =
     fst (Pack (map (repack_tenant s) (sg_Tenants s)) (map repack_instance (sg_Instances s)) (ap_Placement p))"

definition gibibyte :: int where "gibibyte = 1073741824"

definition roundUpToGiB :: "int \<Rightarrow> int" where
  "roundUpToGiB bytes = wrap64 (wrap64 (wrap64 (bytes + gibibyte) - 1) sdiv gibibyte * gibibyte)"

definition storageTarget :: "instance_signal \<Rightarrow> autoscale_policy \<Rightarrow> int option" where
  "storageTarget i p =
     (if is_StorageAllocatedBytes i \<le> 0 \<or> is_StorageUsedBytes i \<le> 0 then None
      else if StorageUsedPercent i < ap_StorageExpandAtPercent p then None
      else
        let target = (if ap_StorageExpandToPercent p \<le> 0 then DefaultStorageExpandToPercent
                      else ap_StorageExpandToPercent p);
            wanted = roundUpToGiB (wrap64 (is_StorageUsedBytes i * 100) sdiv target);
            wanted = (if ap_StorageMaxBytes p > 0 then min wanted (ap_StorageMaxBytes p) else wanted) in
        if wanted \<le> is_StorageAllocatedBytes i then None else Some wanted)"

definition instance_target_of :: "autoscale_policy \<Rightarrow> placement_result \<Rightarrow> instance_signal \<Rightarrow> instance_target" where
  "instance_target_of p packed i =
     (let tenants = (case rs_TenantsPerInstance packed (is_Name i) of None \<Rightarrow> 0 | Some n \<Rightarrow> n) in
      \<lparr>it_Name = is_Name i, it_UtilizationPercent = UtilizationPercent i,
       it_PackedConnections =
         (case rs_PerInstance packed (is_Name i) of None \<Rightarrow> 0 | Some c \<Rightarrow> cp_Connections c),
       it_AllocatableConnections = is_AllocatableConnections i, it_Tenants = tenants,
       it_StorageUsedPercent = StorageUsedPercent i,
       it_RecommendedStorageBytes = (case storageTarget i p of None \<Rightarrow> 0 | Some expanded \<Rightarrow> expanded),
       it_Consolidatable = (tenants = 0)\<rparr>)"

definition target_cmp :: "instance_target \<Rightarrow> instance_target \<Rightarrow> int" where
  "target_cmp a b = go_compare (it_Name a) (it_Name b)"

definition instanceTargets :: "signals \<Rightarrow> autoscale_policy \<Rightarrow> placement_result \<Rightarrow> instance_target list" where
  "instanceTargets s p packed = sort_func target_cmp (map (instance_target_of p packed) (sg_Instances s))"

definition consolidationTarget :: "instance_target list \<Rightarrow> autoscale_policy \<Rightarrow> string" where
  "consolidationTarget targets p =
     (if wrap32 (int (length targets)) \<le> ap_MinInstances p then []
      else case find it_Consolidatable targets of None \<Rightarrow> [] | Some target \<Rightarrow> it_Name target)"

definition improvement :: "tenant_signal \<Rightarrow> instance_signal \<Rightarrow> int" where
  "improvement t source =
     (if is_AllocatableConnections source \<le> 0 then 0
      else wrap32 ((max (ts_GuaranteedConnections t) (ts_PackedConnections t) * 100)
             sdiv is_AllocatableConnections source))"

text \<open>A map filled from a slice keeps the last element under a key and gives the zero value for none.\<close>

definition tenant_named :: "signals \<Rightarrow> string \<Rightarrow> tenant_signal" where
  "tenant_named s name =
     (case find (\<lambda>t. ts_Name t = name) (rev (sg_Tenants s)) of None \<Rightarrow> zero_tenant_signal | Some t \<Rightarrow> t)"

definition instance_named :: "signals \<Rightarrow> string \<Rightarrow> instance_signal" where
  "instance_named s name =
     (case find (\<lambda>i. is_Name i = name) (rev (sg_Instances s)) of None \<Rightarrow> zero_instance_signal | Some i \<Rightarrow> i)"

fun percentile_string :: "percentile \<Rightarrow> string" where
  "percentile_string PercentileP50 = ''P50''"
| "percentile_string PercentileP75 = ''P75''"
| "percentile_string PercentileP90 = ''P90''"
| "percentile_string PercentileP95 = ''P95''"
| "percentile_string PercentileP99 = ''P99''"

definition move_of :: "'l guard \<Rightarrow> assignment \<Rightarrow> move" where
  "move_of g a =
     (let s = gd_Signals g; t = tenant_named s (as_Tenant a); source = instance_named s (as_From a) in
      case MoveEligible g t source of
        (eligible, blocker, why) \<Rightarrow>
          \<lparr>mv_Tenant = as_Tenant a, mv_From = as_From a, mv_To = as_Instance a,
           mv_ExpectedImprovementPercent = improvement t source,
           mv_Reason = ''packing on '' @ percentile_string (po_PackOn (ap_Placement (gd_Policy g))) @ '' puts '' @
             as_Tenant a @ '' on '' @ as_Instance a,
           mv_Eligible = eligible, mv_Blocker = blocker, mv_BlockedBy = why\<rparr>)"

definition plan_moves :: "'l guard \<Rightarrow> placement_result \<Rightarrow> move list" where
  "plan_moves g packed = map (move_of g) (Moves packed)"

definition packedUtilization :: "instance_target \<Rightarrow> int" where
  "packedUtilization target =
     (if it_AllocatableConnections target \<le> 0 then 0
      else wrap32 ((it_PackedConnections target * 100) sdiv it_AllocatableConnections target))"

definition imbalancePercent :: "instance_target list \<Rightarrow> int" where
  "imbalancePercent targets =
     (if length targets < 2 then 0
      else
        let (lowest, highest) =
          foldl (\<lambda>(lowest, highest) target.
              let utilization = packedUtilization target in
              (if lowest < 0 \<or> utilization < lowest then utilization else lowest, max highest utilization))
            (-1, 0) targets
        in wrap32 (highest - lowest))"

definition propose :: "auto_action \<Rightarrow> string \<Rightarrow> string \<Rightarrow> action" where
  "propose class target detail =
     \<lparr>ac_Class = class, ac_Target = target, ac_Detail = detail, ac_Permitted = False,
      ac_Reason = ReasonNotProposed, ac_Message = NoMessage\<rparr>"

definition proposals :: "signals \<Rightarrow> autoscale_policy \<Rightarrow> plan \<Rightarrow> action list" where
  "proposals s p plan =
     (case find (\<lambda>target. it_RecommendedStorageBytes target > 0) (pn_InstanceTargets plan) of
        None \<Rightarrow> []
      | Some target \<Rightarrow>
          [propose AutoActionStorageExpand (it_Name target)
             (''grow the data volume of '' @ it_Name target @ '' to '' @ Itoa (it_RecommendedStorageBytes target) @
              '' bytes; it is '' @ Itoa (it_StorageUsedPercent target) @ ''% full'')]) @
     (if pn_MeasuredInstances plan > 0 \<and> pn_RecommendedInstances plan > pn_ServingInstances plan then
        [propose AutoActionScaleOut (sg_Pool s)
           (Itoa (pn_ServingInstances plan) @ '' of the pool's '' @ Itoa (pn_ObservedInstances plan) @
            '' members are serving and it needs '' @ Itoa (pn_RecommendedInstances plan) @ ''; it is at '' @
            Itoa (pn_ObservedUtilizationPercent plan) @ ''% of a '' @ Itoa (ap_TargetUtilizationPercent p) @
            ''% target'')]
      else []) @
     (let imbalance = imbalancePercent (pn_InstanceTargets plan) in
      if pn_Moves plan \<noteq> [] \<and> imbalance \<ge> ap_MinImbalancePercent p then
        [propose AutoActionRebalance (sg_Pool s)
           (Itoa (int (length (pn_Moves plan))) @ '' tenant moves close a '' @ Itoa imbalance @
            ''% spread between the fullest and emptiest instance'')]
      else []) @
     (if pn_ConsolidationTarget plan \<noteq> [] \<and> pn_RecommendedInstances plan < pn_ServingInstances plan then
        [propose AutoActionScaleIn (pn_ConsolidationTarget plan)
           (''evacuate and reclaim '' @ pn_ConsolidationTarget plan @ '', taking the pool from '' @
            Itoa (pn_ServingInstances plan) @ '' serving members to '' @ Itoa (pn_RecommendedInstances plan))]
      else [])"

definition judge :: "'l guard \<Rightarrow> action \<Rightarrow> action" where
  "judge g a =
     (let v = Evaluate g (ac_Class a) in
      a\<lparr>ac_Permitted := vd_permitted v, ac_Reason := vd_reason v, ac_Message := vd_message v\<rparr>)"

fun action_index :: "auto_action list \<Rightarrow> auto_action \<Rightarrow> int" where
  "action_index [] class = 0"
| "action_index (c # cs) class = (if c = class then 0 else 1 + action_index cs class)"

definition action_rank :: "auto_action \<Rightarrow> int" where
  "action_rank class = (if class \<in> set ActionOrder then action_index ActionOrder class else -1)"

definition action_cmp :: "action \<Rightarrow> action \<Rightarrow> int" where
  "action_cmp a b = action_rank (ac_Class a) - action_rank (ac_Class b)"

definition plan_actions :: "'l guard \<Rightarrow> plan \<Rightarrow> action list" where
  "plan_actions g plan = sort_func action_cmp (map (judge g) (proposals (gd_Signals g) (gd_Policy g) plan))"

fun join_commas :: "string list \<Rightarrow> string" where
  "join_commas [] = []"
| "join_commas [x] = x"
| "join_commas (x # xs) = x @ '', '' @ join_commas xs"

definition summarise :: "plan \<Rightarrow> string" where
  "summarise plan =
     (if pn_MetricsStale plan then ''metrics are stale; no action will be taken''
      else if pn_MeasuredInstances plan = 0 \<and> pn_ObservedInstances plan > 0 then
        ''nothing may be placed on any of the pool's '' @ Itoa (pn_ObservedInstances plan) @
        '' instances; utilization is unknown and no action will be taken''
      else if pn_Actions plan = [] then
        Itoa (pn_ObservedInstances plan) @ '' instances at '' @ Itoa (pn_ObservedUtilizationPercent plan) @
        ''% of a '' @ Itoa (pn_TargetUtilizationPercent plan) @ ''% target; nothing to change''
      else
        ''proposing '' @ join_commas (map (\<lambda>a. action_string (ac_Class a)) (pn_Actions plan)) @
        (case Selected plan of
           Some a \<Rightarrow> ''; executing '' @ action_string (ac_Class a)
         | None \<Rightarrow> ''; executing nothing''))"

text \<open>\<open>Recommend\<close> up to the point where the actions are judged: the guard and the plan so far.\<close>

definition guard_of :: "'l cron \<Rightarrow> signals \<Rightarrow> autoscale_policy \<Rightarrow> 'l guard" where
  "guard_of cron s p =
     \<lparr>gd_Policy = p, gd_Signals = s,
      gd_ConsolidationTarget = consolidationTarget (instanceTargets s p (repack s p)) p, gd_cron = cron\<rparr>"

definition draft_plan :: "'l cron \<Rightarrow> signals \<Rightarrow> autoscale_policy \<Rightarrow> plan" where
  "draft_plan cron s p =
     (let (count, inUse, allocatable) = measured s;
          observed = observed_utilization inUse allocatable;
          packed = repack s p;
          targets = instanceTargets s p packed;
          g = guard_of cron s p in
      \<lparr>pn_ComputedAt = sg_Now s, pn_Mode = ap_Mode p, pn_MetricsStale = (\<not> vd_permitted (staleness g)),
       pn_ObservedInstances = InstanceCount s,
       pn_RecommendedInstances = recommendedInstances count observed s p,
       pn_ObservedUtilizationPercent = observed,
       pn_TargetUtilizationPercent = ap_TargetUtilizationPercent p,
       pn_MeasuredInstances = count, pn_ServingInstances = ServingInstances s,
       pn_MigrationsPermitted = vd_permitted (migrationBudget g),
       pn_MigrationsRefusedBecause = vd_message (migrationBudget g),
       pn_EvacuationPermitted = vd_permitted (evacuation g),
       pn_EvacuationRefusedBecause = vd_message (evacuation g),
       pn_policy = p, pn_Summary = [], pn_InstanceTargets = targets, pn_Moves = plan_moves g packed,
       pn_Actions = [], pn_ConsolidationTarget = consolidationTarget targets p\<rparr>)"

definition Recommend :: "'l cron \<Rightarrow> signals \<Rightarrow> autoscale_policy \<Rightarrow> plan" where
  "Recommend cron s p =
     (let plan = draft_plan cron s p;
          plan = plan\<lparr>pn_Actions := plan_actions (guard_of cron s p) plan\<rparr>
      in plan\<lparr>pn_Summary := summarise plan\<rparr>)"

definition signalsFor :: "signals \<Rightarrow> move \<Rightarrow> tenant_signal \<times> instance_signal" where
  "signalsFor s m =
     (case find (\<lambda>t. ts_Name t = mv_Tenant m) (sg_Tenants s) of None \<Rightarrow> zero_tenant_signal | Some t \<Rightarrow> t,
      case find (\<lambda>i. is_Name i = mv_From m) (sg_Instances s) of None \<Rightarrow> zero_instance_signal | Some i \<Rightarrow> i)"

definition EvacuationMoves :: "'l cron \<Rightarrow> plan \<Rightarrow> signals \<Rightarrow> move list" where
  "EvacuationMoves cron plan s =
     (let g = \<lparr>gd_Policy = pn_policy plan, gd_Signals = s,
               gd_ConsolidationTarget = pn_ConsolidationTarget plan, gd_cron = cron\<rparr> in
      map (\<lambda>m. m\<lparr>mv_Eligible := True, mv_Blocker := NotBlocked, mv_BlockedBy := []\<rparr>)
        (filter (\<lambda>m. case signalsFor s m of (t, source) \<Rightarrow> fst (EvacuationEligible g t source)) (pn_Moves plan)))"

section \<open>What a plan is made of\<close>

lemma guard_of_simps [simp]:
  "gd_Policy (guard_of cron s p) = p" "gd_Signals (guard_of cron s p) = s" "gd_cron (guard_of cron s p) = cron"
  "gd_ConsolidationTarget (guard_of cron s p) = consolidationTarget (instanceTargets s p (repack s p)) p"
  by (simp_all add: guard_of_def)

lemma draft_fields:
  "pn_InstanceTargets (draft_plan cron s p) = instanceTargets s p (repack s p)"
  "pn_ConsolidationTarget (draft_plan cron s p) = consolidationTarget (instanceTargets s p (repack s p)) p"
  "pn_MeasuredInstances (draft_plan cron s p) = fst (measured s)"
  "pn_ServingInstances (draft_plan cron s p) = ServingInstances s"
  "pn_RecommendedInstances (draft_plan cron s p) =
     recommendedInstances (fst (measured s)) (pn_ObservedUtilizationPercent (draft_plan cron s p)) s p"
  by (simp_all add: draft_plan_def Let_def split: prod.split)

lemma Recommend_fields [simp]:
  "pn_RecommendedInstances (Recommend cron s p) = pn_RecommendedInstances (draft_plan cron s p)"
  "pn_ObservedUtilizationPercent (Recommend cron s p) = pn_ObservedUtilizationPercent (draft_plan cron s p)"
  "pn_Actions (Recommend cron s p) =
     sort_func action_cmp (map (judge (guard_of cron s p)) (proposals s p (draft_plan cron s p)))"
  by (simp_all add: Recommend_def Let_def plan_actions_def)

text \<open>Every action of a plan is one of the four proposals, judged by the guard.\<close>

lemma Recommend_action:
  assumes "a \<in> set (pn_Actions (Recommend cron s p))"
  shows "ac_Permitted a = vd_permitted (Evaluate (guard_of cron s p) (ac_Class a))"
    and "ac_Class a = AutoActionScaleIn \<Longrightarrow>
      ac_Target a = consolidationTarget (instanceTargets s p (repack s p)) p \<and> ac_Target a \<noteq> [] \<and>
      pn_RecommendedInstances (Recommend cron s p) < ServingInstances s"
    and "ac_Class a = AutoActionScaleOut \<Longrightarrow> fst (measured s) > 0 \<and>
      pn_RecommendedInstances (Recommend cron s p) > ServingInstances s"
    and "ac_Class a \<in> {AutoActionStorageExpand, AutoActionScaleOut, AutoActionRebalance, AutoActionScaleIn}"
proof -
  obtain b where b: "b \<in> set (proposals s p (draft_plan cron s p))" "a = judge (guard_of cron s p) b"
    using assms by auto
  have same: "ac_Class a = ac_Class b" "ac_Target a = ac_Target b"
    "ac_Permitted a = vd_permitted (Evaluate (guard_of cron s p) (ac_Class b))"
    using b(2) by (simp_all add: judge_def Let_def)
  then show "ac_Permitted a = vd_permitted (Evaluate (guard_of cron s p) (ac_Class a))" by simp
  show "ac_Class a = AutoActionScaleIn \<Longrightarrow>
      ac_Target a = consolidationTarget (instanceTargets s p (repack s p)) p \<and> ac_Target a \<noteq> [] \<and>
      pn_RecommendedInstances (Recommend cron s p) < ServingInstances s"
    "ac_Class a = AutoActionScaleOut \<Longrightarrow> fst (measured s) > 0 \<and>
      pn_RecommendedInstances (Recommend cron s p) > ServingInstances s"
    "ac_Class a \<in> {AutoActionStorageExpand, AutoActionScaleOut, AutoActionRebalance, AutoActionScaleIn}"
    using b(1) same(1,2)
    by (auto simp: proposals_def propose_def Let_def draft_fields(1-4) split: option.splits if_splits)
qed

lemma select_action_Some:
  assumes "select_action actions classes = Some a"
  shows "a \<in> set actions \<and> ac_Permitted a \<and> ac_Class a \<in> set classes"
  using assms by (induction classes) (auto simp: find_Some_iff split: option.splits if_splits)

lemma judge_distinct: "distinct (map ac_Class (proposals s p plan))"
  by (auto simp: proposals_def propose_def Let_def split: option.splits)

lemma Recommend_distinct: "distinct (map ac_Class (pn_Actions (Recommend cron s p)))"
proof -
  have "mset (map ac_Class (pn_Actions (Recommend cron s p))) = mset (map ac_Class (proposals s p (draft_plan cron s p)))"
    by (simp add: multiset.map_comp comp_def judge_def Let_def)
  then show ?thesis using judge_distinct by (metis mset_eq_imp_distinct_iff)
qed

lemma find_class:
  "distinct (map ac_Class actions) \<Longrightarrow> b \<in> set actions \<Longrightarrow> find (\<lambda>a. ac_Class a = ac_Class b) actions = Some b"
  by (induction actions) (auto simp: rev_image_eqI)

text \<open>The selected action is the earliest permitted one.\<close>

lemma select_action_earliest:
  assumes "select_action actions classes = Some a" "distinct (map ac_Class actions)" "distinct classes"
    and "b \<in> set actions" "ac_Permitted b" "ac_Class b \<in> set classes"
  shows "action_index classes (ac_Class a) \<le> action_index classes (ac_Class b)"
  using assms
proof (induction classes)
  case (Cons c cs)
  have nonneg: "0 \<le> action_index ds d" for ds d by (induction ds) auto
  show ?case
  proof (cases "ac_Class b = c")
    case True
    with Cons.prems find_class [OF Cons.prems(2,4)] show ?thesis by auto
  next
    case False
    then have IH: "select_action actions cs = Some a \<Longrightarrow>
        action_index cs (ac_Class a) \<le> action_index cs (ac_Class b)"
      using Cons by auto
    have "a \<in> set actions \<and> (ac_Class a = c \<or> select_action actions cs = Some a)"
      using Cons.prems(1) by (auto simp: find_Some_iff dest: select_action_Some split: option.splits if_splits)
    with IH False nonneg show ?thesis
      using Cons.prems(1) select_action_Some [of actions cs a] Cons.prems(3)
      by (auto simp: find_Some_iff split: option.splits if_splits)
  qed
qed simp

lemma published_empty:
  "\<forall>b \<in> set bs. bn_tenants b = 0 \<Longrightarrow> foldl (\<lambda>m b. m(bin_name b \<mapsto> bn_tenants b)) m bs n \<in> {m n, Some 0}"
proof (induction bs arbitrary: m)
  case (Cons b bs)
  have "(m(bin_name b \<mapsto> bn_tenants b)) n \<in> {m n, Some 0}" using Cons.prems by simp
  with Cons.IH [of "m(bin_name b \<mapsto> bn_tenants b)"] Cons.prems show ?case
    by (auto simp del: fun_upd_apply)
qed simp

section \<open>Properties\<close>

text \<open>
  C14. Nothing runs behind a guardrail's back. An action a plan selects is permitted while the pool is
  neither paused nor rolling out, its metrics are fresh and no blackout window is open; it is in the
  opt-in list of a pool in Auto mode, or it is a storage expansion; it is never a vertical resize; and
  no permitted action of the plan comes before it in the order of classes.
\<close>

theorem selected_action_cleared_every_guard:
  assumes "Selected (Recommend cron s p) = Some a"
  shows "a \<in> set (pn_Actions (Recommend cron s p)) \<and> \<not> sg_Paused s \<and> sg_MetricsSeen s \<and>
    (ap_StaleThreshold p > 0 \<longrightarrow> sg_MetricsAge s \<le> ap_StaleThreshold p) \<and> \<not> sg_RolloutInProgress s \<and>
    WindowOpen cron (sg_Now s) (ap_BlackoutWindows p) = Inr False \<and>
    (ac_Class a = AutoActionStorageExpand \<or> ap_Mode p = AutoscalingAuto \<and> Allows p (ac_Class a)) \<and>
    ac_Class a \<noteq> AutoActionVerticalResize \<and>
    (\<forall>b \<in> set (pn_Actions (Recommend cron s p)). ac_Permitted b \<longrightarrow>
       action_rank (ac_Class a) \<le> action_rank (ac_Class b))"
proof -
  let ?plan = "Recommend cron s p"
  note sel = select_action_Some [OF assms [unfolded Selected_def]]
  note act = Recommend_action [of a cron s p]
  have "vd_permitted (Evaluate (guard_of cron s p) (ac_Class a))" using sel act(1) by simp
  then have guards: "\<not> sg_Paused s" "vd_permitted (staleness (guard_of cron s p))" "\<not> sg_RolloutInProgress s"
    "vd_permitted (blackout (guard_of cron s p))" "vd_permitted (mode_verdict (guard_of cron s p) (ac_Class a))"
    by (auto simp: Evaluate_def guard_refuse_def split: if_splits)
  have "action_rank (ac_Class a) \<le> action_rank (ac_Class b)" if "b \<in> set (pn_Actions ?plan)" "ac_Permitted b" for b
  proof -
    have "ac_Class b \<in> set ActionOrder"
      using Recommend_action(4) [OF that(1)] by (auto simp: ActionOrder_def)
    moreover have "distinct ActionOrder" by (simp add: ActionOrder_def)
    ultimately show ?thesis
      using select_action_earliest [OF assms [unfolded Selected_def] Recommend_distinct _ that] sel
      by (simp add: action_rank_def)
  qed
  then show ?thesis
    using sel act(4) guards
    by (auto simp: staleness_def blackout_def mode_verdict_def guard_refuse_def allow_def
        split: if_splits sum.splits)
qed

text \<open>
  Scale-in is the most guarded action: when a plan selects it, the pool is above its minimum, the last
  scale-down lies outside its window, a full evidence window of history exists, the very instance to be
  reclaimed has been consolidatable for the dwell time, the migration budget has room, and the packing
  of the whole pool put no tenant on that instance.
\<close>

theorem scale_in_clears_its_gates:
  assumes "Selected (Recommend cron s p) = Some a" "ac_Class a = AutoActionScaleIn"
  shows "InstanceCount s > ap_MinInstances p \<and>
    (\<forall>moment. sg_LastScaleDownAt s = Some moment \<longrightarrow> \<not> IsZero moment \<longrightarrow> ap_ScaleDownStabilization p \<le> time_sub (sg_Now s) moment) \<and>
    ap_ScaleInEvidenceWindow p \<le> sg_EvidenceSpan s \<and>
    (\<exists>moment. sg_ConsolidatableSince s (ac_Target a) = Some moment \<and> ap_ConsolidationDwell p \<le> time_sub (sg_Now s) moment) \<and>
    sg_InFlightMigrations s < mb_MaxConcurrent (ap_MigrationBudget p) \<and>
    (\<exists>i \<in> set (sg_Instances s). is_Name i = ac_Target a \<and>
       it_Tenants (instance_target_of p (repack s p) i) = 0)"
proof -
  note sel = select_action_Some [OF assms(1) [unfolded Selected_def]]
  note act = Recommend_action [of a cron s p]
  have target: "ac_Target a = consolidationTarget (instanceTargets s p (repack s p)) p" "ac_Target a \<noteq> []"
    using sel act(2) assms(2) by auto
  have "vd_permitted (Evaluate (guard_of cron s p) AutoActionScaleIn)" using sel act(1) assms(2) by simp
  then have scale: "vd_permitted (scaleIn (guard_of cron s p))"
    by (auto simp: Evaluate_def guard_refuse_def split: if_splits)
  have victim: "\<exists>i \<in> set (sg_Instances s). is_Name i = ac_Target a \<and> it_Tenants (instance_target_of p (repack s p) i) = 0"
  proof -
    obtain target where found: "find it_Consolidatable (instanceTargets s p (repack s p)) = Some target"
      "it_Name target = ac_Target a"
      using target by (auto simp: consolidationTarget_def split: if_splits option.splits)
    then have "it_Consolidatable target" "target \<in> set (instanceTargets s p (repack s p))"
      unfolding find_Some_iff by auto
    then show ?thesis
      using found(2) by (auto simp: instanceTargets_def instance_target_of_def Let_def)
  qed
  have "vd_permitted (migrationBudget (guard_of cron s p))" "InstanceCount s > ap_MinInstances p"
    "ap_ScaleInEvidenceWindow p \<le> sg_EvidenceSpan s"
    "\<exists>elapsed. consolidationDwell (guard_of cron s p) = Some elapsed \<and> ap_ConsolidationDwell p \<le> elapsed"
    "\<forall>elapsed. since (sg_Now s) (sg_LastScaleDownAt s) = Some elapsed \<longrightarrow> ap_ScaleDownStabilization p \<le> elapsed"
    using scale by (auto simp: scaleIn_def Let_def guard_refuse_def split: if_splits option.splits)
  moreover from this(1) have "sg_InFlightMigrations s < mb_MaxConcurrent (ap_MigrationBudget p)"
    by (auto simp: migrationBudget_def Let_def guard_refuse_def split: if_splits option.splits sum.splits)
  ultimately show ?thesis
    using victim target by (auto simp: consolidationDwell_def since_def split: if_splits option.splits)
qed

text \<open>
  The recommendation stays within the pool's bounds, and a pool close enough to its target is left
  alone: within the tolerance, with a serving count inside the bounds, the plan proposes neither to
  scale out nor to scale in.
\<close>

theorem steady_pool_is_left_alone:
  assumes "fst (measured s) \<noteq> 0" "0 < ap_TargetUtilizationPercent p" "ap_TargetUtilizationPercent p \<le> 100"
    and "ap_MinInstances p \<le> ap_MaxInstances p" "plan = Recommend cron s p"
  shows "ap_MinInstances p \<le> pn_RecommendedInstances plan \<and> pn_RecommendedInstances plan \<le> ap_MaxInstances p \<and>
    (0 \<le> pn_ObservedUtilizationPercent plan \<longrightarrow>
     \<bar>pn_ObservedUtilizationPercent plan - ap_TargetUtilizationPercent p\<bar> \<le> ap_TolerancePercent p \<longrightarrow>
     ap_MinInstances p \<le> ServingInstances s \<longrightarrow> ServingInstances s \<le> ap_MaxInstances p \<longrightarrow>
     (\<forall>a \<in> set (pn_Actions plan). ac_Class a \<notin> {AutoActionScaleOut, AutoActionScaleIn}))"
proof -
  let ?o = "pn_ObservedUtilizationPercent plan"
  have rec: "pn_RecommendedInstances plan = recommendedInstances (fst (measured s)) ?o s p"
    using assms(5) by (simp add: draft_fields(5))
  have "ap_MinInstances p \<le> pn_RecommendedInstances plan \<and> pn_RecommendedInstances plan \<le> ap_MaxInstances p"
    using assms(1,2,4) by (auto simp: rec recommendedInstances_def clamp_def Let_def)
  moreover have "ac_Class a \<notin> {AutoActionScaleOut, AutoActionScaleIn}"
    if steady: "0 \<le> ?o" "\<bar>?o - ap_TargetUtilizationPercent p\<bar> \<le> ap_TolerancePercent p"
      "ap_MinInstances p \<le> ServingInstances s" "ServingInstances s \<le> ap_MaxInstances p"
      and a: "a \<in> set (pn_Actions plan)" for a
  proof -
    have "in_int32 ?o"
      using assms(5) by (auto simp: draft_plan_def observed_utilization_def Let_def in_int32_def [of 0] split: prod.split)
    then have "wrap32 (?o - ap_TargetUtilizationPercent p) = ?o - ap_TargetUtilizationPercent p"
      "wrap32 (ap_TargetUtilizationPercent p - ?o) = ap_TargetUtilizationPercent p - ?o"
      using steady(1) assms(2,3) by (auto simp: in_int32_def intro!: wrap32_id)
    then have "pn_RecommendedInstances plan = ServingInstances s"
      using steady assms(1,2) by (auto simp: rec recommendedInstances_def clamp_def Let_def abs_if split: if_splits)
    then show ?thesis
      using Recommend_action(2,3) [of a cron s p] a assms(5) by auto
  qed
  ultimately show ?thesis by blast
qed

text \<open>
  A volume only ever grows, never past the configured maximum, and by enough: below the maximum the
  recommended size brings the used share down to the target percentage or lower.
\<close>

theorem storage_only_grows:
  assumes "storageTarget i p = Some wanted"
    and "is_StorageUsedBytes i * 100 < 9223372036854775808 - gibibyte" "ap_StorageExpandToPercent p = target" "0 < target"
  shows "is_StorageAllocatedBytes i < wanted \<and> (ap_StorageMaxBytes p > 0 \<longrightarrow> wanted \<le> ap_StorageMaxBytes p) \<and>
    (ap_StorageMaxBytes p \<le> 0 \<or> wanted < ap_StorageMaxBytes p \<longrightarrow> is_StorageUsedBytes i * 100 < (wanted + 1) * target)"
proof -
  let ?used = "is_StorageUsedBytes i" and ?share = "(is_StorageUsedBytes i * 100) div target"
  have used: "0 < ?used" using assms(1) by (auto simp: storageTarget_def split: if_splits)
  then have wrap: "wrap64 (?used * 100) = ?used * 100"
    using assms(2) by (intro wrap64_id) (simp add: in_int64_def gibibyte_def)
  have share: "0 \<le> ?share" using used assms(4) by (simp add: pos_imp_zdiv_nonneg_iff)
  moreover have "?share * target \<le> ?used * 100"
    using div_mult_mod_eq [of "?used * 100" target] pos_mod_sign [OF assms(4), of "?used * 100"] by linarith
  moreover have "?share * 1 \<le> ?share * target" using share assms(4) by (intro mult_left_mono) simp_all
  ultimately have share: "0 \<le> ?share" "?share \<le> ?used * 100" by linarith+
  have rounded: "roundUpToGiB ?share = (?share + gibibyte - 1) div gibibyte * gibibyte \<and> ?share \<le> roundUpToGiB ?share"
  proof -
    have up: "?share \<le> (?share + gibibyte - 1) div gibibyte * gibibyte"
      using div_mult_mod_eq [of "?share + gibibyte - 1" gibibyte] pos_mod_bound [of gibibyte "?share + gibibyte - 1"]
      by (simp add: gibibyte_def)
    have low: "(?share + gibibyte - 1) div gibibyte * gibibyte \<le> ?share + gibibyte - 1"
      using div_mult_mod_eq [of "?share + gibibyte - 1" gibibyte] pos_mod_sign [of gibibyte "?share + gibibyte - 1"]
      by (simp add: gibibyte_def)
    have inner: "wrap64 (wrap64 (?share + gibibyte) - 1) = ?share + gibibyte - 1"
      using share assms(2) by (simp add: wrap64_id in_int64_def gibibyte_def)
    have "(?share + gibibyte - 1) sdiv gibibyte = (?share + gibibyte - 1) div gibibyte"
      using share by (intro sdiv_nonneg) (simp_all add: gibibyte_def)
    moreover have "wrap64 ((?share + gibibyte - 1) div gibibyte * gibibyte) = (?share + gibibyte - 1) div gibibyte * gibibyte"
      using up low share assms(2) by (intro wrap64_id) (simp add: in_int64_def gibibyte_def)
    ultimately show ?thesis using up by (simp add: roundUpToGiB_def inner)
  qed
  have "?used * 100 sdiv target = ?share" using used assms(4) by (intro sdiv_nonneg) simp_all
  then have wanted: "wanted = (if ap_StorageMaxBytes p > 0 then min (roundUpToGiB ?share) (ap_StorageMaxBytes p)
      else roundUpToGiB ?share)" "is_StorageAllocatedBytes i < wanted"
    using assms(1,3,4) wrap by (auto simp: storageTarget_def Let_def split: if_splits)
  have "?used * 100 < (roundUpToGiB ?share + 1) * target"
  proof -
    have "?used * 100 < (?share + 1) * target"
      using div_mult_mod_eq [of "?used * 100" target] pos_mod_bound [OF assms(4), of "?used * 100"]
      unfolding distrib_right by linarith
    also have "\<dots> \<le> (roundUpToGiB ?share + 1) * target" using rounded assms(4) by simp
    finally show ?thesis .
  qed
  with wanted show ?thesis by (auto simp: min_def split: if_splits)
qed

text \<open>
  An over-committed pool looks empty to scale-in. The planner drops the error of the packer, and the
  load that is published with it carries no tenant, so every instance of the pool, however full, is
  reported as consolidatable, and the first of them is the one scale-in would reclaim.
\<close>

theorem overcommitted_pool_looks_empty:
  assumes "checkCommitment (map (repack_tenant s) (sg_Tenants s)) (map repack_instance (sg_Instances s)) \<noteq> None"
    and "i \<in> set (sg_Instances s)"
    and "ap_MinInstances p < wrap32 (int (length (sg_Instances s)))"
  shows "it_Consolidatable (instance_target_of p (repack s p) i) \<and>
    consolidationTarget (instanceTargets s p (repack s p)) p = it_Name (hd (instanceTargets s p (repack s p)))"
proof -
  obtain err where "checkCommitment (map (repack_tenant s) (sg_Tenants s)) (map repack_instance (sg_Instances s)) = Some err"
    using assms(1) by auto
  then have "rs_TenantsPerInstance (repack s p) =
      foldl (\<lambda>m b. m(bin_name b \<mapsto> bn_tenants b)) (\<lambda>_. None) (binsOf (map repack_instance (sg_Instances s)))"
    by (simp add: repack_def Pack_def publish_def Let_def)
  moreover have "\<forall>b \<in> set (binsOf (map repack_instance (sg_Instances s))). bn_tenants b = 0"
    by (auto simp: binsOf_def newBin_def repack_instance_def)
  ultimately have none: "rs_TenantsPerInstance (repack s p) n \<in> {None, Some 0}" for n
    using published_empty [of "binsOf (map repack_instance (sg_Instances s))" "\<lambda>_. None" n] by simp
  have all: "it_Consolidatable (instance_target_of p (repack s p) j)" for j
    using none [of "is_Name j"] by (auto simp: instance_target_of_def Let_def)
  let ?targets = "instanceTargets s p (repack s p)"
  have "?targets \<noteq> []" using assms(2) by (auto simp: instanceTargets_def)
  moreover from this have "it_Consolidatable (hd ?targets)"
    using hd_in_set [of ?targets] all by (auto simp: instanceTargets_def)
  ultimately have "find it_Consolidatable ?targets = Some (hd ?targets)" by (cases ?targets) auto
  moreover have "length ?targets = length (sg_Instances s)" by (simp add: instanceTargets_def)
  ultimately show ?thesis using all assms(3) by (simp add: consolidationTarget_def)
qed

text \<open>
  A window whose schedule never fires is open all the time: for an expression the cron library accepts
  but finds no activation of, it returns the zero instant, which is not after now.
\<close>

theorem never_firing_window_is_open:
  assumes "cr_Parse cron (tw_Schedule window) = Inr schedule" "tw_TimeZone window = []" "0 < tw_Duration window"
    and "schedule (cr_UTC cron) (now - tw_Duration window) = 0" "0 \<le> now"
  shows "oneWindowOpen cron now window = Inr True"
  using assms by (simp add: oneWindowOpen_def Let_def)

section \<open>An example pool\<close>

definition example_cron :: "unit cron" where
  "example_cron = \<lparr>cr_Parse = (\<lambda>_. Inr (\<lambda>_ _. 0)), cr_LoadLocation = (\<lambda>_. Inr ()), cr_UTC = ()\<rparr>"

definition example_signal :: "string \<Rightarrow> int \<Rightarrow> instance_signal" where
  "example_signal name used =
     \<lparr>is_Name = name, is_Major = 17, is_Ready = True, is_Schedulable = True, is_Progressing = False,
      is_AllocatableConnections = 10, is_InUseConnections = used, is_ReservedConnections = 0, is_Tenants = 1,
      is_StorageAllocatedBytes = 10 * gibibyte, is_StorageUsedBytes = gibibyte\<rparr>"

definition example_claim :: "int \<Rightarrow> tenant_signal" where
  "example_claim guaranteed =
     zero_tenant_signal\<lparr>ts_Name := ''shop'', ts_Instance := ''A'', ts_GuaranteedConnections := guaranteed\<rparr>"

definition example_signals :: "int \<Rightarrow> int \<Rightarrow> signals" where
  "example_signals used guaranteed =
     \<lparr>sg_Now = 1000000 * hour, sg_Namespace = ''ns'', sg_Pool = ''pool'', sg_Paused = False,
      sg_Instances = [example_signal ''A'' used, example_signal ''B'' used],
      sg_Tenants = [example_claim guaranteed], sg_DeclaredInstances = 2, sg_MetricsSeen = True, sg_MetricsAge = second,
      sg_EvidenceSpan = 200 * hour, sg_RolloutInProgress = False, sg_InFlightMigrations = 0,
      sg_MigrationsStartedInWindow = 0, sg_MigrationsFromSource = (\<lambda>_. None), sg_LastScaleUpAt = None,
      sg_LastScaleDownAt = None, sg_ConsolidatableSince = (\<lambda>_. Some (999900 * hour))\<rparr>"

definition scale_in_policy :: autoscale_policy where
  "scale_in_policy =
     (default_policy example_policy)\<lparr>ap_Mode := AutoscalingAuto, ap_AutoActions := [AutoActionScaleIn]\<rparr>"

lemma example_selected:
  "map_option (\<lambda>a. (ac_Class a, ac_Target a)) (Selected (Recommend example_cron (example_signals 1 30) scale_in_policy))
     = Some (AutoActionScaleIn, ''A'')"
  by code_simp

theorem selected_action_cleared_every_guard_witness:
  "\<exists>a. Selected (Recommend example_cron (example_signals 1 30) scale_in_policy) = Some a \<and>
     WindowOpen example_cron (sg_Now (example_signals 1 30)) (ap_BlackoutWindows scale_in_policy) = Inr False \<and>
     Allows scale_in_policy (ac_Class a)"
proof -
  obtain a where a: "Selected (Recommend example_cron (example_signals 1 30) scale_in_policy) = Some a"
    "ac_Class a = AutoActionScaleIn"
    using example_selected by auto
  from selected_action_cleared_every_guard [OF a(1)] a show ?thesis by auto
qed

theorem scale_in_clears_its_gates_witness:
  "\<exists>a. Selected (Recommend example_cron (example_signals 1 30) scale_in_policy) = Some a \<and>
     2 > ap_MinInstances scale_in_policy \<and> 168 * hour \<le> sg_EvidenceSpan (example_signals 1 30)"
proof -
  obtain a where a: "Selected (Recommend example_cron (example_signals 1 30) scale_in_policy) = Some a"
    "ac_Class a = AutoActionScaleIn"
    using example_selected by auto
  from scale_in_clears_its_gates [OF a] a(1) show ?thesis
    by (auto simp: scale_in_policy_def default_policy_def InstanceCount_def example_signals_def wrap32_def)
qed

theorem steady_pool_is_left_alone_witness:
  "pn_ObservedUtilizationPercent (Recommend example_cron (example_signals 7 5) scale_in_policy) = 70 \<and>
   list_all (\<lambda>a. ac_Class a \<notin> {AutoActionScaleOut, AutoActionScaleIn})
     (pn_Actions (Recommend example_cron (example_signals 7 5) scale_in_policy))"
proof -
  have eval: "fst (measured (example_signals 7 5)) \<noteq> 0" "0 < ap_TargetUtilizationPercent scale_in_policy"
    "ap_TargetUtilizationPercent scale_in_policy \<le> 100" "ap_MinInstances scale_in_policy \<le> ap_MaxInstances scale_in_policy"
    "pn_ObservedUtilizationPercent (Recommend example_cron (example_signals 7 5) scale_in_policy) = 70"
    "ap_TargetUtilizationPercent scale_in_policy = 70" "ap_TolerancePercent scale_in_policy = 10"
    "ServingInstances (example_signals 7 5) = 2" "ap_MinInstances scale_in_policy = 1" "ap_MaxInstances scale_in_policy = 64"
    by code_simp+
  from steady_pool_is_left_alone [OF eval(1-4) refl, of example_cron] eval(5-) show ?thesis
    by (simp add: list_all_iff del: Recommend_fields)
qed

definition full_signal :: instance_signal where
  "full_signal = (example_signal ''A'' 1)\<lparr>is_StorageUsedBytes := 9 * gibibyte\<rparr>"

theorem storage_only_grows_witness:
  "storageTarget full_signal scale_in_policy = Some (15 * gibibyte) \<and>
   is_StorageAllocatedBytes full_signal < 15 * gibibyte \<and>
   is_StorageUsedBytes full_signal * 100 < (15 * gibibyte + 1) * 60"
proof -
  have eval: "storageTarget full_signal scale_in_policy = Some (15 * gibibyte)"
    "is_StorageUsedBytes full_signal * 100 < 9223372036854775808 - gibibyte"
    "ap_StorageExpandToPercent scale_in_policy = 60" "ap_StorageMaxBytes scale_in_policy = 0"
    by code_simp+
  from storage_only_grows [OF eval(1-3)] eval show ?thesis by simp
qed

theorem overcommitted_pool_looks_empty_witness:
  "it_Consolidatable (instance_target_of scale_in_policy (repack (example_signals 1 30) scale_in_policy) (example_signal ''A'' 1)) \<and>
   ts_Instance (example_claim 30) = ''A'' \<and>
   map_option (\<lambda>a. (ac_Class a, ac_Target a)) (Selected (Recommend example_cron (example_signals 1 30) scale_in_policy))
     = Some (AutoActionScaleIn, ''A'')"
proof -
  have "checkCommitment (map (repack_tenant (example_signals 1 30)) (sg_Tenants (example_signals 1 30)))
      (map repack_instance (sg_Instances (example_signals 1 30))) \<noteq> None"
    "ap_MinInstances scale_in_policy < wrap32 (int (length (sg_Instances (example_signals 1 30))))"
    by code_simp+
  moreover have "example_signal ''A'' 1 \<in> set (sg_Instances (example_signals 1 30))"
    by (simp add: example_signals_def)
  ultimately show ?thesis
    using overcommitted_pool_looks_empty [of "example_signals 1 30" "example_signal ''A'' 1" scale_in_policy] example_selected
    by (simp add: example_claim_def)
qed

theorem never_firing_window_is_open_witness:
  "oneWindowOpen example_cron hour \<lparr>tw_Schedule = ''0 0 30 2 *'', tw_TimeZone = [], tw_Duration = minute\<rparr> = Inr True"
  by (rule never_firing_window_is_open [where schedule = "\<lambda>_ _. 0"])
    (simp_all add: example_cron_def hour_def minute_def second_def)

end
