(* ===== verification/Policy.thy ===== *)
theory Policy
  imports Go_Prelude
begin

text \<open>
  The capacity policy (\<open>internal/policy\<close>): the limits in force for a tenant, the reservation ledger of
  a pool, the ladder that resolves a tenant's workload class, namespace consent, and the ways a class
  contradicts itself. Reads of the cluster are functions of a record; a quantity is its value.
\<close>

section \<open>Objects\<close>

datatype 'a read = Found 'a | NotFound | ReadFailed string

datatype qos_class = QoSBestEffort | QoSBurstable | QoSGuaranteed

record tenant_limits =
  tl_StatementTimeout :: "duration option"
  tl_IdleInTransactionSessionTimeout :: "duration option"
  tl_IdleSessionTimeout :: "duration option"
  tl_LockTimeout :: "duration option"
  tl_TempFileLimit :: "int option"
  tl_MaxResultBytes :: "int option"
  tl_BytesPerSecond :: "int option"

datatype budget_exhaustion = BudgetExhaustionThrottle | BudgetExhaustionReject | BudgetExhaustionEvict

record workload_class =
  wc_Name :: string
  wc_Global :: "bool option"
  wc_Priority :: int
  wc_Guaranteed :: "int option"
  wc_Burstable :: int
  wc_Weight :: "int option"
  wc_Limits :: "tenant_limits option"
  wc_AllowAutomatic :: "bool option"
  wc_Quarantine :: "(bool option \<times> duration option) option"
  wc_OnBudgetExhaustion :: "budget_exhaustion option"

record capacity_override =
  co_Guaranteed :: "int option"
  co_Burstable :: "int option"

record pg_tenant =
  pt_Namespace :: string
  pt_Name :: string
  pt_Deleting :: bool
  pt_PoolRef :: string
  pt_DatabaseName :: string
  pt_WorkloadClassName :: "string option"
  pt_Capacity :: "capacity_override option"

datatype namespace_from = NamespaceFromAll | NamespaceFromSame | NamespaceFromSelector | NamespaceFromOther string

text \<open>
  A label selector is what \<open>metav1.LabelSelectorAsSelector\<close> makes of it: an error, or a predicate on
  the labels of a namespace.
\<close>

record namespace_admission =
  na_From :: "namespace_from option"
  na_Selector :: "(string + ((string \<rightharpoonup> string) \<Rightarrow> bool)) option"

record pool_admission =
  pa_AdmittedNamespaces :: "namespace_admission option"
  pa_AllowedWorkloadClassNames :: "string list"
  pa_DefaultWorkloadClassName :: string

text \<open>
  The Pod template of the proxy, as far as admission reads it. A container is its name, for every
  environment variable whether it takes its value from elsewhere, and what \<open>json.Marshal\<close> makes of
  it: an error, or the keys of the object, in any order.
\<close>

record proxy_container =
  ct_Name :: string
  ct_EnvValueFrom :: "bool list"
  ct_Encoded :: "string + string list"

record proxy_pod_spec =
  ps_Containers :: "proxy_container list"
  ps_InitContainers :: nat
  ps_EphemeralContainers :: nat
  ps_Volumes :: nat
  ps_ServiceAccountName :: string
  ps_DeprecatedServiceAccount :: string
  ps_HostNetwork :: bool
  ps_HostPID :: bool
  ps_HostIPC :: bool
  ps_SecurityContext :: bool

record pool_proxy =
  px_Replicas :: "int option"
  px_Template :: "proxy_pod_spec option"

record elastic_pool =
  ep_PoolNamespace :: string
  ep_PoolName :: string
  ep_Deleting :: bool
  ep_ClassRef :: string
  ep_BackendConnections :: int
  ep_HeadroomPercent :: "int option"
  ep_MaxOversubscriptionRatio :: string
  ep_Admission :: "pool_admission option"
  ep_Proxy :: "pool_proxy option"
  ep_TemplateParameters :: "(string \<times> string) list"

record class_admission =
  ca_AllowedWorkloadClassNames :: "string list"
  ca_DefaultWorkloadClassName :: "string option"

record class_defaults =
  cd_HeadroomPercent :: "int option"
  cd_MigrationHeadroomPercent :: "int option"
  cd_Admission :: "class_admission option"

record elastic_class =
  ec_Name :: string
  ec_Defaults :: "class_defaults option"
  ec_AdmittedNamespaces :: "namespace_admission option"

record cluster =
  cl_Pool :: "string \<Rightarrow> string \<Rightarrow> elastic_pool read"
  cl_ElasticClass :: "string \<Rightarrow> elastic_class read"
  cl_WorkloadClass :: "string \<Rightarrow> workload_class read"
  cl_WorkloadClasses :: "string + workload_class list"
  cl_Tenants :: "string \<Rightarrow> string + pg_tenant list"
  cl_NamespaceLabels :: "string \<Rightarrow> (string \<rightharpoonup> string) read"

section \<open>Effective capacity\<close>

definition defaultWeight :: int where "defaultWeight = 100"
definition DefaultHeadroomPercent :: int where "DefaultHeadroomPercent = 25"

definition DeriveQoS :: "int \<Rightarrow> int \<Rightarrow> qos_class" where
  "DeriveQoS guaranteed burstable =
     (if guaranteed \<le> 0 then QoSBestEffort
      else if guaranteed \<ge> burstable then QoSGuaranteed
      else QoSBurstable)"

record effective =
  ef_WorkloadClassName :: string
  ef_Guaranteed :: int
  ef_Burstable :: int
  ef_Weight :: int
  ef_Priority :: int
  ef_QoSClass :: qos_class
  ef_StatementTimeout :: "duration option"
  ef_TempFileLimit :: "int option"
  ef_AutomaticMigrationAllowed :: bool

definition option_or :: "'a option \<Rightarrow> 'a \<Rightarrow> 'a" where
  "option_or v fallback = (case v of None \<Rightarrow> fallback | Some x \<Rightarrow> x)"

definition EffectiveFor :: "pg_tenant \<Rightarrow> workload_class \<Rightarrow> effective" where
  "EffectiveFor tenant class =
     (let guaranteed = option_or (Option.bind (pt_Capacity tenant) co_Guaranteed) (option_or (wc_Guaranteed class) 0);
          burstable = option_or (Option.bind (pt_Capacity tenant) co_Burstable) (wc_Burstable class) in
      \<lparr>ef_WorkloadClassName = wc_Name class, ef_Guaranteed = guaranteed, ef_Burstable = burstable,
       ef_Weight = option_or (wc_Weight class) defaultWeight, ef_Priority = wc_Priority class,
       ef_QoSClass = DeriveQoS guaranteed burstable,
       ef_StatementTimeout = Option.bind (wc_Limits class) tl_StatementTimeout,
       ef_TempFileLimit = Option.bind (wc_Limits class) tl_TempFileLimit,
       ef_AutomaticMigrationAllowed = option_or (wc_AllowAutomatic class) True\<rparr>)"

section \<open>The ledger\<close>

definition Allocatable :: "int \<Rightarrow> int \<Rightarrow> int" where
  "Allocatable backendConnections headroomPercent =
     (let headroom = max (min headroomPercent 100) 0 in
      wrap32 ((backendConnections * (100 - headroom)) sdiv 100))"

definition HeadroomPercent :: "elastic_pool \<Rightarrow> elastic_class option \<Rightarrow> int" where
  "HeadroomPercent pool class =
     (case ep_HeadroomPercent pool of
        Some h \<Rightarrow> h
      | None \<Rightarrow>
          option_or (Option.bind (Option.bind class ec_Defaults) cd_HeadroomPercent) DefaultHeadroomPercent)"

record ledger =
  lg_BackendConnections :: int
  lg_HeadroomPercent :: int
  lg_Allocatable :: int
  lg_Reserved :: int
  lg_Available :: int
  lg_CommittedBurst :: int
  lg_Tenants :: int

definition Ledger_settle :: "ledger \<Rightarrow> ledger" where
  "Ledger_settle l = l\<lparr>lg_Available := max (wrap32 (lg_Allocatable l - lg_Reserved l)) 0\<rparr>"

definition Ledger_add :: "ledger \<Rightarrow> effective \<Rightarrow> ledger" where
  "Ledger_add l e =
     Ledger_settle
       (l\<lparr>lg_Reserved := wrap32 (lg_Reserved l + ef_Guaranteed e),
          lg_CommittedBurst := wrap32 (lg_CommittedBurst l + ef_Burstable e),
          lg_Tenants := wrap32 (lg_Tenants l + 1)\<rparr>)"

section \<open>The workload class ladder\<close>

definition ErrNoWorkloadClass :: string where
  "ErrNoWorkloadClass =
     ''no workload class: the tenant names none, no pool or class default applies, and no PgWorkloadClass is global''"

definition ElasticClassFor :: "cluster \<Rightarrow> elastic_pool \<Rightarrow> elastic_class read" where
  "ElasticClassFor c pool = cl_ElasticClass c (ep_ClassRef pool)"

definition GlobalWorkloadClassNames :: "cluster \<Rightarrow> string + string list" where
  "GlobalWorkloadClassNames c =
     (case cl_WorkloadClasses c of
        Inl e \<Rightarrow> Inl e
      | Inr classes \<Rightarrow> Inr (sort (map wc_Name (filter (\<lambda>w. wc_Global w = Some True) classes))))"

definition poolDefaultWorkloadClassName :: "elastic_pool option \<Rightarrow> string" where
  "poolDefaultWorkloadClassName pool =
     (case Option.bind pool ep_Admission of None \<Rightarrow> [] | Some a \<Rightarrow> pa_DefaultWorkloadClassName a)"

definition elasticClassDefaultWorkloadClassName :: "elastic_class option \<Rightarrow> string" where
  "elasticClassDefaultWorkloadClassName class =
     option_or (Option.bind (Option.bind (Option.bind class ec_Defaults) cd_Admission) ca_DefaultWorkloadClassName) []"

definition WorkloadClassNameFor ::
  "cluster \<Rightarrow> pg_tenant \<Rightarrow> elastic_pool option \<Rightarrow> elastic_class option \<Rightarrow> string + string" where
  "WorkloadClassNameFor c tenant pool class =
     (let own = option_or (pt_WorkloadClassName tenant) [] in
      if own \<noteq> [] then Inr own
      else if poolDefaultWorkloadClassName pool \<noteq> [] then Inr (poolDefaultWorkloadClassName pool)
      else if elasticClassDefaultWorkloadClassName class \<noteq> [] then Inr (elasticClassDefaultWorkloadClassName class)
      else case GlobalWorkloadClassNames c of
        Inl e \<Rightarrow> Inl e
      | Inr globals \<Rightarrow> (case globals of [] \<Rightarrow> Inl ErrNoWorkloadClass | name # _ \<Rightarrow> Inr name))"

text \<open>The class a tenant that names none inherits: the ladder on the zero value of a tenant.\<close>

definition DefaultWorkloadClassNameFor ::
  "cluster \<Rightarrow> elastic_pool option \<Rightarrow> elastic_class option \<Rightarrow> string + string" where
  "DefaultWorkloadClassNameFor c pool class =
     WorkloadClassNameFor c
       \<lparr>pt_Namespace = [], pt_Name = [], pt_Deleting = False, pt_PoolRef = [], pt_DatabaseName = [],
        pt_WorkloadClassName = None, pt_Capacity = None\<rparr> pool class"

definition AllowedWorkloadClassNames :: "elastic_pool option \<Rightarrow> elastic_class option \<Rightarrow> string list" where
  "AllowedWorkloadClassNames pool class =
     (let own = (case Option.bind pool ep_Admission of None \<Rightarrow> [] | Some a \<Rightarrow> pa_AllowedWorkloadClassNames a) in
      if own \<noteq> [] then own
      else case Option.bind (Option.bind class ec_Defaults) cd_Admission of
        None \<Rightarrow> []
      | Some a \<Rightarrow> ca_AllowedWorkloadClassNames a)"

definition tenantsOfPool :: "cluster \<Rightarrow> elastic_pool \<Rightarrow> string + pg_tenant list" where
  "tenantsOfPool c pool =
     (case cl_Tenants c (ep_PoolNamespace pool) of
        Inl e \<Rightarrow> Inl e
      | Inr tenants \<Rightarrow> Inr (filter (\<lambda>t. pt_PoolRef t = ep_PoolName pool) tenants))"

text \<open>
  The loop of \<open>LedgerFor\<close>, with the cache of classes already read; a class that does not exist is
  cached as such.
\<close>

fun ledger_loop ::
  "cluster \<Rightarrow> elastic_pool \<Rightarrow> elastic_class option \<Rightarrow> string \<Rightarrow> (string \<rightharpoonup> workload_class option) \<Rightarrow>
   pg_tenant list \<Rightarrow> ledger \<Rightarrow> string + ledger" where
  "ledger_loop c pool class excluding cache [] l = Inr l"
| "ledger_loop c pool class excluding cache (t # ts) l =
     (if pt_Name t = excluding then ledger_loop c pool class excluding cache ts l
      else case WorkloadClassNameFor c t (Some pool) class of
        Inl _ \<Rightarrow> ledger_loop c pool class excluding cache ts l
      | Inr name \<Rightarrow>
          (case cache name of
             Some (Some w) \<Rightarrow> ledger_loop c pool class excluding cache ts (Ledger_add l (EffectiveFor t w))
           | Some None \<Rightarrow> ledger_loop c pool class excluding cache ts l
           | None \<Rightarrow>
               (case cl_WorkloadClass c name of
                  ReadFailed e \<Rightarrow> Inl e
                | NotFound \<Rightarrow> ledger_loop c pool class excluding (cache(name \<mapsto> None)) ts l
                | Found w \<Rightarrow>
                    ledger_loop c pool class excluding (cache(name \<mapsto> Some w)) ts
                      (Ledger_add l (EffectiveFor t w)))))"

definition ledger_start :: "elastic_pool \<Rightarrow> elastic_class option \<Rightarrow> ledger" where
  "ledger_start pool class =
     (let headroom = HeadroomPercent pool class in
      Ledger_settle
        \<lparr>lg_BackendConnections = ep_BackendConnections pool, lg_HeadroomPercent = headroom,
         lg_Allocatable = Allocatable (ep_BackendConnections pool) headroom,
         lg_Reserved = 0, lg_Available = 0, lg_CommittedBurst = 0, lg_Tenants = 0\<rparr>)"

definition LedgerFor :: "cluster \<Rightarrow> elastic_pool \<Rightarrow> elastic_class option \<Rightarrow> string \<Rightarrow> string + ledger" where
  "LedgerFor c pool class excluding =
     (case tenantsOfPool c pool of
        Inl e \<Rightarrow> Inl e
      | Inr tenants \<Rightarrow> ledger_loop c pool class excluding (\<lambda>_. None) tenants (ledger_start pool class))"

section \<open>Consent\<close>

fun namespace_from_string :: "namespace_from \<Rightarrow> string" where
  "namespace_from_string NamespaceFromAll = ''All''"
| "namespace_from_string NamespaceFromSame = ''Same''"
| "namespace_from_string NamespaceFromSelector = ''Selector''"
| "namespace_from_string (NamespaceFromOther s) = s"

definition NamespaceAdmits :: "cluster \<Rightarrow> namespace_admission option \<Rightarrow> string \<Rightarrow> string \<Rightarrow> string + bool" where
  "NamespaceAdmits c rule owningNamespace candidate =
     (case option_or (Option.bind rule na_From) NamespaceFromSame of
        NamespaceFromAll \<Rightarrow> Inr True
      | NamespaceFromSame \<Rightarrow> Inr (candidate = owningNamespace)
      | NamespaceFromSelector \<Rightarrow>
          (case Option.bind rule na_Selector of
             None \<Rightarrow> Inr False
           | Some (Inl e) \<Rightarrow> Inl e
           | Some (Inr matches) \<Rightarrow>
               (case cl_NamespaceLabels c candidate of
                  Found labels \<Rightarrow> Inr (matches labels)
                | NotFound \<Rightarrow> Inl (''namespaces '' @ candidate @ '' not found'')
                | ReadFailed e \<Rightarrow> Inl e))
      | NamespaceFromOther s \<Rightarrow> Inl (''unknown namespace admission strategy '' @ s))"

section \<open>Self-consistency\<close>

datatype problem_detail =
    NotALimit duration
  | MustBePositive
  | MustBePositiveWhenRequired
  | NothingToEvict
  | WithholdsTheWholeBudget int int
  | DefaultNotAllowed string

record problem =
  pb_Path :: string
  pb_Detail :: problem_detail

text \<open>The two maps of \<open>limitProblems\<close> are walked in the sorted order of their keys.\<close>

definition limitProblems :: "tenant_limits option \<Rightarrow> problem list" where
  "limitProblems limits =
     (case limits of
        None \<Rightarrow> []
      | Some l \<Rightarrow>
          List.map_filter (\<lambda>(path, value). case value of
              None \<Rightarrow> None
            | Some d \<Rightarrow> if d \<le> 0 then Some \<lparr>pb_Path = path, pb_Detail = NotALimit d\<rparr> else None)
            [(''spec.limits.idleInTransactionSessionTimeout'', tl_IdleInTransactionSessionTimeout l),
             (''spec.limits.idleSessionTimeout'', tl_IdleSessionTimeout l),
             (''spec.limits.lockTimeout'', tl_LockTimeout l),
             (''spec.limits.statementTimeout'', tl_StatementTimeout l)] @
          List.map_filter (\<lambda>(path, value). case value of
              None \<Rightarrow> None
            | Some q \<Rightarrow> if q \<le> 0 then Some \<lparr>pb_Path = path, pb_Detail = MustBePositive\<rparr> else None)
            [(''spec.limits.maxResultBytes'', tl_MaxResultBytes l),
             (''spec.limits.rateLimit.bytesPerSecond'', tl_BytesPerSecond l),
             (''spec.limits.tempFileLimit'', tl_TempFileLimit l)])"

definition WorkloadClassProblems :: "workload_class \<Rightarrow> problem list" where
  "WorkloadClassProblems w =
     limitProblems (wc_Limits w) @
     (case wc_Quarantine w of
        Some (Some True, Some d) \<Rightarrow>
          if d \<le> 0 then
            [\<lparr>pb_Path = ''spec.admission.quarantine.duration'', pb_Detail = MustBePositiveWhenRequired\<rparr>]
          else []
      | _ \<Rightarrow> []) @
     (if DeriveQoS (option_or (wc_Guaranteed w) 0) (wc_Burstable w) = QoSGuaranteed \<and>
         wc_OnBudgetExhaustion w = Some BudgetExhaustionEvict then
        [\<lparr>pb_Path = ''spec.onBudgetExhaustion'', pb_Detail = NothingToEvict\<rparr>]
      else [])"

definition ElasticClassProblems :: "elastic_class \<Rightarrow> problem list" where
  "ElasticClassProblems class =
     (case ec_Defaults class of
        None \<Rightarrow> []
      | Some d \<Rightarrow>
          (let headroom = option_or (cd_HeadroomPercent d) 0;
               migration = option_or (cd_MigrationHeadroomPercent d) 0 in
           if wrap32 (headroom + migration) \<ge> 100 then
             [\<lparr>pb_Path = ''spec.defaults.migrationHeadroomPercent'',
               pb_Detail = WithholdsTheWholeBudget migration headroom\<rparr>]
           else []) @
          (case cd_Admission d of
             None \<Rightarrow> []
           | Some a \<Rightarrow>
               (case ca_DefaultWorkloadClassName a of
                  None \<Rightarrow> []
                | Some name \<Rightarrow>
                    if ca_AllowedWorkloadClassNames a \<noteq> [] \<and> name \<notin> set (ca_AllowedWorkloadClassNames a) then
                      [\<lparr>pb_Path = ''spec.defaults.admission.defaultWorkloadClassName'',
                        pb_Detail = DefaultNotAllowed name\<rparr>]
                    else [])))"

section \<open>The ledger as a sum\<close>

text \<open>
  What a tenant contributes: the effective capacity under the class it resolves to, or nothing when it
  is excluded or its class does not resolve or does not exist.
\<close>

definition contribution ::
  "cluster \<Rightarrow> elastic_pool \<Rightarrow> elastic_class option \<Rightarrow> string \<Rightarrow> pg_tenant \<Rightarrow> effective option" where
  "contribution c pool class excluding t =
     (if pt_Name t = excluding then None
      else case WorkloadClassNameFor c t (Some pool) class of
        Inl _ \<Rightarrow> None
      | Inr name \<Rightarrow> (case cl_WorkloadClass c name of Found w \<Rightarrow> Some (EffectiveFor t w) | _ \<Rightarrow> None))"

definition reads_well :: "cluster \<Rightarrow> bool" where
  "reads_well c \<longleftrightarrow> (\<forall>name e. cl_WorkloadClass c name \<noteq> ReadFailed e)"

text \<open>The cache only holds what reading again would give.\<close>

definition cache_agrees :: "cluster \<Rightarrow> (string \<rightharpoonup> workload_class option) \<Rightarrow> bool" where
  "cache_agrees c cache \<longleftrightarrow>
     (\<forall>name entry. cache name = Some entry \<longrightarrow>
        cl_WorkloadClass c name = (case entry of None \<Rightarrow> NotFound | Some w \<Rightarrow> Found w))"

lemma ledger_loop_sum:
  assumes "reads_well c" "cache_agrees c cache"
  shows "ledger_loop c pool class excluding cache ts l =
    Inr (foldl Ledger_add l (List.map_filter (contribution c pool class excluding) ts))"
  using assms(2)
proof (induction ts arbitrary: cache l)
  case (Cons t ts)
  show ?case
  proof (cases "pt_Name t = excluding \<or> (\<exists>e. WorkloadClassNameFor c t (Some pool) class = Inl e)")
    case True
    with Cons show ?thesis by (auto simp: contribution_def List.map_filter_simps)
  next
    case False
    then obtain name where name: "WorkloadClassNameFor c t (Some pool) class = Inr name" "pt_Name t \<noteq> excluding"
      by (cases "WorkloadClassNameFor c t (Some pool) class") auto
    have kept: "cache_agrees c (cache(name \<mapsto> entry))"
      if "cl_WorkloadClass c name = (case entry of None \<Rightarrow> NotFound | Some w \<Rightarrow> Found w)" for entry
      using Cons.prems that by (simp add: cache_agrees_def)
    show ?thesis
    proof (cases "cache name")
      case None
      show ?thesis
      proof (cases "cl_WorkloadClass c name")
        case (Found w)
        with kept [of "Some w"] have "cache_agrees c (cache(name \<mapsto> Some w))" by simp
        from Cons.IH [OF this] name None Found show ?thesis
          by (simp add: contribution_def List.map_filter_simps del: fun_upd_apply)
      next
        case NotFound
        with kept [of None] have "cache_agrees c (cache(name \<mapsto> None))" by simp
        from Cons.IH [OF this] name None NotFound show ?thesis
          by (simp add: contribution_def List.map_filter_simps del: fun_upd_apply)
      next
        case (ReadFailed e)
        with assms(1) show ?thesis by (simp add: reads_well_def)
      qed
    next
      case (Some entry)
      with Cons.prems have "cl_WorkloadClass c name = (case entry of None \<Rightarrow> NotFound | Some w \<Rightarrow> Found w)"
        by (simp add: cache_agrees_def)
      with Some name Cons.IH [OF Cons.prems] show ?thesis
        by (cases entry) (auto simp: contribution_def List.map_filter_simps)
    qed
  qed
qed (simp add: List.map_filter_simps)

lemma LedgerFor_sum:
  assumes "reads_well c" "tenantsOfPool c pool = Inr tenants"
  shows "LedgerFor c pool class excluding =
    Inr (foldl Ledger_add (ledger_start pool class) (List.map_filter (contribution c pool class excluding) tenants))"
  using ledger_loop_sum [OF assms(1), of "\<lambda>_. None"] assms(2)
  by (simp add: LedgerFor_def cache_agrees_def)

text \<open>
  A failing list of the workload classes is not an error of the ledger: when the tenants of a pool rely
  on the global class, every one of them is skipped and the ledger reports a pool without reservations.
\<close>

lemma unreadable_classes_reserve_nothing:
  assumes "cl_WorkloadClasses c = Inl e" "tenantsOfPool c pool = Inr tenants"
    and "\<forall>t \<in> set tenants. pt_WorkloadClassName t = None"
    and "poolDefaultWorkloadClassName (Some pool) = []" "elasticClassDefaultWorkloadClassName class = []"
  shows "LedgerFor c pool class excluding = Inr (ledger_start pool class)"
proof -
  have skipped: "WorkloadClassNameFor c t (Some pool) class = Inl e" if "t \<in> set tenants" for t
    using that assms by (simp add: WorkloadClassNameFor_def GlobalWorkloadClassNames_def option_or_def Let_def)
  have "ledger_loop c pool class excluding cache ts l = Inr l" if "set ts \<subseteq> set tenants" for cache ts l
    using that by (induction ts) (auto simp: skipped)
  then show ?thesis using assms(2) by (simp add: LedgerFor_def)
qed

end
