(* ===== verification/Admission.thy ===== *)
theory Admission
  imports Policy Pgconf
begin

text \<open>
  The validating webhooks (\<open>internal/webhook/v1alpha1\<close>): what the API server asks before it stores a
  tenant, a pool, a workload class, a tenant user or an instance. They read the cluster through an
  uncached reader, a \<open>cluster\<close> of the theory \<open>Policy\<close>; the parser of quantities is a parameter that
  gives the milli value of what it accepts. The second half puts the webhooks in front of a store and
  follows every sequence of writes.
\<close>

section \<open>Field errors\<close>

datatype field_error_kind =
    FieldInvalid
  | FieldForbidden
  | FieldDuplicate
  | FieldRequired
  | FieldNotSupported
  | FieldInternal

datatype refusal_detail =
    NoSuchPool string string
  | PoolClassMissing string string
  | PoolDoesNotAdmit string string
  | ClassDoesNotAdmit string string
  | DatabaseNameClaimed string string string
  | ClassUnresolved string
  | ClassNotAllowed string "string list"
  | NoSuchWorkloadClass string
  | GuaranteeAboveCeiling int int string
  | GuaranteeDoesNotFit int string ledger
  | ReplicaBudgetExceeded int int int string ledger
  | NoSuchElasticClass string
  | AllocatableBelowReserved ledger
  | OthersAreGlobal "string list"
  | SelfContradiction problem_detail
  | ParameterPinned string ownership "string list"
  | NotOneLine string
  | ContainerBesideTheProxy string
  | EncodingFailed string
  | PodField string
  | ContainerField string
  | EnvFromElsewhere
  | NoSuchTenant string string
  | OwnerName string
  | CredentialWithoutLogin string
  | UserNameTaken string string string
  | MemberOfItself string
  | NoSuchUser string string

record field_error =
  fe_Kind :: field_error_kind
  fe_Path :: string
  fe_Detail :: refusal_detail

datatype admission_verdict = Admitted | Refused "field_error list" | Errored string

definition field_error_of :: "field_error_kind \<Rightarrow> string \<Rightarrow> refusal_detail \<Rightarrow> field_error" where
  "field_error_of k path d = \<lparr>fe_Kind = k, fe_Path = path, fe_Detail = d\<rparr>"

definition invalid :: "field_error list \<Rightarrow> admission_verdict" where
  "invalid problems = (if problems = [] then Admitted else Refused problems)"

definition fieldErrors :: "problem list \<Rightarrow> field_error list" where
  "fieldErrors problems =
     map (\<lambda>p. field_error_of FieldInvalid (pb_Path p) (SelfContradiction (pb_Detail p))) problems"

definition index_path :: "string \<Rightarrow> nat \<Rightarrow> string" where
  "index_path path i = path @ ''['' @ Itoa (int i) @ '']''"

definition key_path :: "string \<Rightarrow> string \<Rightarrow> string" where
  "key_path path key = path @ ''['' @ key @ '']''"

section \<open>Instances\<close>

definition isTheOperatorsOwnValue :: "string \<Rightarrow> string \<Rightarrow> bool" where
  "isTheOperatorsOwnValue name v \<longleftrightarrow>
     ow_Ownership (Classify name) = OwnershipBlocked \<and> \<not> ow_Omit (Classify name) \<and> ow_Value (Classify name) = v"

definition parameter_problem :: "string \<Rightarrow> string \<times> string \<Rightarrow> field_error option" where
  "parameter_problem path p =
     (case p of (name, v) \<Rightarrow>
        if IsPinned name \<and> \<not> isTheOperatorsOwnValue name v then
          Some (field_error_of FieldForbidden (key_path path name)
            (ParameterPinned name (ow_Ownership (Classify name)) PinnedNames))
        else if \<not> RenderableParameter name v then
          Some (field_error_of FieldInvalid (key_path path name) (NotOneLine v))
        else None)"

definition parameterProblems :: "string \<Rightarrow> (string \<times> string) list \<Rightarrow> field_error list" where
  "parameterProblems path parameters = List.map_filter (parameter_problem path) (sort_key fst parameters)"

definition instance_validate :: "(string \<times> string) list \<Rightarrow> admission_verdict" where
  "instance_validate parameters = invalid (parameterProblems ''spec.parameters'' parameters)"

section \<open>Pools\<close>

definition DefaultReplicas :: int where "DefaultReplicas = 3"

definition Replicas :: "elastic_pool \<Rightarrow> int" where
  "Replicas pool = option_or (Option.bind (ep_Proxy pool) px_Replicas) DefaultReplicas"

definition defaultOversubscriptionRatio :: string where "defaultOversubscriptionRatio = ''12''"

definition committableConnections :: "(string \<Rightarrow> int option) \<Rightarrow> elastic_pool \<Rightarrow> int \<Rightarrow> string \<times> int" where
  "committableConnections parse pool allocatable =
     (let declared = (if ep_MaxOversubscriptionRatio pool = [] then defaultOversubscriptionRatio
                      else ep_MaxOversubscriptionRatio pool);
          (ratio, milli) = (case parse declared of
             Some q \<Rightarrow> (declared, q)
           | None \<Rightarrow> (defaultOversubscriptionRatio, 12000)) in
      (ratio, wrap64 (allocatable * milli) sdiv 1000))"

definition replicaBudgetProblems ::
  "(string \<Rightarrow> int option) \<Rightarrow> elastic_pool \<Rightarrow> ledger \<Rightarrow> string \<Rightarrow> field_error list" where
  "replicaBudgetProblems parse pool l path =
     (if ep_Proxy pool = None then []
      else if Replicas pool \<le> 0 \<or> lg_CommittedBurst l \<le> 0 then []
      else
        let worstCase = Replicas pool * lg_CommittedBurst l;
            (ratio, committable) = committableConnections parse pool (lg_Allocatable l) in
        if worstCase \<le> committable then []
        else [field_error_of FieldForbidden path (ReplicaBudgetExceeded (Replicas pool) worstCase committable ratio l)])"

definition defaultWorkloadClassProblems :: "elastic_pool \<Rightarrow> elastic_class \<Rightarrow> field_error list" where
  "defaultWorkloadClassProblems pool class =
     (case ep_Admission pool of
        None \<Rightarrow> []
      | Some a \<Rightarrow>
          (let allowed = AllowedWorkloadClassNames (Some pool) (Some class);
               name = pa_DefaultWorkloadClassName a in
           if name = [] \<or> allowed = [] \<or> name \<in> set allowed then []
           else [field_error_of FieldNotSupported ''spec.admission.defaultWorkloadClassName'' (ClassNotAllowed name allowed)]))"

definition ContainerName :: string where "ContainerName = ''proxy''"

definition proxyContainerFields :: "string list" where
  "proxyContainerFields =
     [''name'', ''resources'', ''env'', ''readinessProbe'', ''livenessProbe'', ''startupProbe'']"

definition proxyContainerProblems :: "proxy_container \<Rightarrow> string \<Rightarrow> field_error list" where
  "proxyContainerProblems c path =
     List.map_filter (\<lambda>(i, from). if from
         then Some (field_error_of FieldForbidden (index_path (path @ ''.env'') i @ ''.valueFrom'') EnvFromElsewhere)
         else None) (List.enumerate 0 (ct_EnvValueFrom c)) @
     (case ct_Encoded c of
        Inl e \<Rightarrow> [field_error_of FieldInternal path (EncodingFailed e)]
      | Inr keys \<Rightarrow>
          map (\<lambda>name. field_error_of FieldForbidden (path @ ''.'' @ name) (ContainerField name))
            (filter (\<lambda>name. name \<notin> set proxyContainerFields) (sort keys)))"

definition proxyPodTemplateProblems :: "elastic_pool \<Rightarrow> field_error list" where
  "proxyPodTemplateProblems pool =
     (case Option.bind (ep_Proxy pool) px_Template of
        None \<Rightarrow> []
      | Some spec \<Rightarrow>
          (let path = ''spec.proxy.template.spec'';
               refuse = (\<lambda>name. field_error_of FieldForbidden (path @ ''.'' @ name) (PodField name)) in
           concat (map (\<lambda>(i, c).
               let at_index = index_path (path @ ''.containers'') i in
               if ct_Name c \<noteq> ContainerName
               then [field_error_of FieldInvalid (at_index @ ''.name'') (ContainerBesideTheProxy (ct_Name c))]
               else proxyContainerProblems c at_index) (List.enumerate 0 (ps_Containers spec))) @
           (if ps_InitContainers spec > 0 then [refuse ''initContainers''] else []) @
           (if ps_EphemeralContainers spec > 0 then [refuse ''ephemeralContainers''] else []) @
           (if ps_Volumes spec > 0 then [refuse ''volumes''] else []) @
           (if ps_ServiceAccountName spec \<noteq> [] \<or> ps_DeprecatedServiceAccount spec \<noteq> []
            then [refuse ''serviceAccountName''] else []) @
           (if ps_HostNetwork spec \<or> ps_HostPID spec \<or> ps_HostIPC spec then [refuse ''hostNetwork''] else []) @
           (if ps_SecurityContext spec then [refuse ''securityContext''] else [])))"

definition pool_validate :: "(string \<Rightarrow> int option) \<Rightarrow> cluster \<Rightarrow> elastic_pool \<Rightarrow> admission_verdict" where
  "pool_validate parse c pool =
     (case ElasticClassFor c pool of
        ReadFailed e \<Rightarrow> Errored e
      | NotFound \<Rightarrow>
          invalid [field_error_of FieldInvalid ''spec.classRef.name'' (NoSuchElasticClass (ep_ClassRef pool))]
      | Found class \<Rightarrow>
          (case NamespaceAdmits c (ec_AdmittedNamespaces class) (ep_PoolNamespace pool) (ep_PoolNamespace pool) of
             Inl e \<Rightarrow> Errored e
           | Inr admitted \<Rightarrow>
               (case LedgerFor c pool (Some class) [] of
                  Inl e \<Rightarrow> Errored e
                | Inr l \<Rightarrow>
                    invalid
                      ((if admitted then []
                        else [field_error_of FieldForbidden ''metadata.namespace''
                          (ClassDoesNotAdmit (ec_Name class) (ep_PoolNamespace pool))]) @
                       defaultWorkloadClassProblems pool class @
                       (if lg_Reserved l > lg_Allocatable l
                        then [field_error_of FieldForbidden ''spec.capacity.backendConnections'' (AllocatableBelowReserved l)]
                        else []) @
                       replicaBudgetProblems parse pool l ''spec.proxy.replicas'' @
                       parameterProblems ''spec.instances.template.parameters'' (ep_TemplateParameters pool) @
                       proxyPodTemplateProblems pool))))"

definition pool_ValidateUpdate :: "(string \<Rightarrow> int option) \<Rightarrow> cluster \<Rightarrow> elastic_pool \<Rightarrow> admission_verdict" where
  "pool_ValidateUpdate parse c pool = (if ep_Deleting pool then Admitted else pool_validate parse c pool)"

section \<open>Tenants\<close>

definition consentProblems :: "cluster \<Rightarrow> pg_tenant \<Rightarrow> elastic_pool \<Rightarrow> elastic_class \<Rightarrow> string + field_error list" where
  "consentProblems c t pool class =
     (case NamespaceAdmits c (Option.bind (ep_Admission pool) pa_AdmittedNamespaces) (ep_PoolNamespace pool) (pt_Namespace t) of
        Inl e \<Rightarrow> Inl e
      | Inr byPool \<Rightarrow>
          (case NamespaceAdmits c (ec_AdmittedNamespaces class) (ep_PoolNamespace pool) (pt_Namespace t) of
             Inl e \<Rightarrow> Inl e
           | Inr byClass \<Rightarrow>
               Inr ((if byPool then [] else [field_error_of FieldForbidden ''metadata.namespace''
                       (PoolDoesNotAdmit (ep_PoolName pool) (pt_Namespace t))]) @
                    (if byClass then [] else [field_error_of FieldForbidden ''metadata.namespace''
                       (ClassDoesNotAdmit (ec_Name class) (pt_Namespace t))]))))"

definition claims_database :: "pg_tenant \<Rightarrow> pg_tenant \<Rightarrow> bool" where
  "claims_database t sibling \<longleftrightarrow>
     \<not> (pt_Name sibling = pt_Name t \<or> pt_Deleting sibling \<or> pt_PoolRef sibling \<noteq> pt_PoolRef t \<or>
        pt_DatabaseName sibling \<noteq> pt_DatabaseName t)"

definition databaseNameProblems :: "cluster \<Rightarrow> pg_tenant \<Rightarrow> string + field_error list" where
  "databaseNameProblems c t =
     (case cl_Tenants c (pt_Namespace t) of
        Inl e \<Rightarrow> Inl e
      | Inr siblings \<Rightarrow>
          Inr (map (\<lambda>sibling. field_error_of FieldDuplicate ''spec.databaseName''
                 (DatabaseNameClaimed (pt_Name sibling) (pt_PoolRef t) (pt_DatabaseName t)))
               (filter (claims_database t) siblings)))"

definition workloadClassProblems ::
  "cluster \<Rightarrow> pg_tenant \<Rightarrow> elastic_pool \<Rightarrow> elastic_class \<Rightarrow> string + workload_class option \<times> field_error list" where
  "workloadClassProblems c t pool class =
     (let path = ''spec.workloadClassName'' in
      case WorkloadClassNameFor c t (Some pool) (Some class) of
        Inl e \<Rightarrow> Inr (None, [field_error_of FieldRequired path (ClassUnresolved e)])
      | Inr name \<Rightarrow>
          (let allowed = AllowedWorkloadClassNames (Some pool) (Some class) in
           if allowed \<noteq> [] \<and> name \<notin> set allowed then
             Inr (None, [field_error_of FieldNotSupported path (ClassNotAllowed name allowed)])
           else case cl_WorkloadClass c name of
             ReadFailed e \<Rightarrow> Inl e
           | NotFound \<Rightarrow> Inr (None, [field_error_of FieldInvalid path (NoSuchWorkloadClass name)])
           | Found w \<Rightarrow> Inr (Some w, [])))"

definition overrides_guaranteed :: "pg_tenant \<Rightarrow> bool" where
  "overrides_guaranteed t \<longleftrightarrow> Option.bind (pt_Capacity t) co_Guaranteed \<noteq> None"

definition overrides_burstable :: "pg_tenant \<Rightarrow> bool" where
  "overrides_burstable t \<longleftrightarrow> Option.bind (pt_Capacity t) co_Burstable \<noteq> None"

definition reservationProblems ::
  "(string \<Rightarrow> int option) \<Rightarrow> cluster \<Rightarrow> pg_tenant \<Rightarrow> elastic_pool \<Rightarrow> elastic_class \<Rightarrow> workload_class \<Rightarrow>
   string + field_error list" where
  "reservationProblems parse c t pool class w =
     (let e = EffectiveFor t w in
      case LedgerFor c pool (Some class) (pt_Name t) of
        Inl err \<Rightarrow> Inl err
      | Inr l \<Rightarrow>
          (let ceilingPath = (if overrides_guaranteed t then ''spec.capacity.guaranteed''
                              else if overrides_burstable t then ''spec.capacity.burstable''
                              else ''spec.workloadClassName'');
               fitPath = (if overrides_guaranteed t then ''spec.capacity.guaranteed'' else ''spec.workloadClassName'');
               burstPath = (if overrides_burstable t then ''spec.capacity.burstable'' else ''spec.workloadClassName'');
               joined = l\<lparr>lg_CommittedBurst := wrap32 (lg_CommittedBurst l + ef_Burstable e),
                          lg_Tenants := wrap32 (lg_Tenants l + 1)\<rparr> in
           Inr ((if ef_Guaranteed e > ef_Burstable e then
                   [field_error_of FieldInvalid ceilingPath (GuaranteeAboveCeiling (ef_Guaranteed e) (ef_Burstable e) (wc_Name w))]
                 else []) @
                (if ef_Guaranteed e > 0 \<and> ef_Guaranteed e > lg_Available l then
                   [field_error_of FieldForbidden fitPath (GuaranteeDoesNotFit (ef_Guaranteed e) (ep_PoolName pool) l)]
                 else []) @
                replicaBudgetProblems parse pool joined burstPath)))"

definition tenant_validate :: "(string \<Rightarrow> int option) \<Rightarrow> cluster \<Rightarrow> pg_tenant \<Rightarrow> admission_verdict" where
  "tenant_validate parse c t =
     (case cl_Pool c (pt_Namespace t) (pt_PoolRef t) of
        ReadFailed e \<Rightarrow> Errored e
      | NotFound \<Rightarrow>
          invalid [field_error_of FieldInvalid ''spec.poolRef.name'' (NoSuchPool (pt_PoolRef t) (pt_Namespace t))]
      | Found pool \<Rightarrow>
          (case ElasticClassFor c pool of
             ReadFailed e \<Rightarrow> Errored e
           | NotFound \<Rightarrow>
               invalid [field_error_of FieldInvalid ''spec.poolRef.name'' (PoolClassMissing (ep_PoolName pool) (ep_ClassRef pool))]
           | Found class \<Rightarrow>
               (case consentProblems c t pool class of
                  Inl e \<Rightarrow> Errored e
                | Inr consent \<Rightarrow>
                    (case databaseNameProblems c t of
                       Inl e \<Rightarrow> Errored e
                     | Inr claimed \<Rightarrow>
                         (case workloadClassProblems c t pool class of
                            Inl e \<Rightarrow> Errored e
                          | Inr (None, membership) \<Rightarrow> invalid (consent @ claimed @ membership)
                          | Inr (Some w, membership) \<Rightarrow>
                              (case reservationProblems parse c t pool class w of
                                 Inl e \<Rightarrow> Errored e
                               | Inr reservation \<Rightarrow> invalid (consent @ claimed @ membership @ reservation)))))))"

definition tenant_ValidateUpdate :: "(string \<Rightarrow> int option) \<Rightarrow> cluster \<Rightarrow> pg_tenant \<Rightarrow> admission_verdict" where
  "tenant_ValidateUpdate parse c t = (if pt_Deleting t then Admitted else tenant_validate parse c t)"

section \<open>Workload classes and tenant users\<close>

definition workload_class_validate :: "cluster \<Rightarrow> workload_class \<Rightarrow> admission_verdict" where
  "workload_class_validate c w =
     (let problems = fieldErrors (WorkloadClassProblems w) in
      if wc_Global w = Some True then
        (case GlobalWorkloadClassNames c of
           Inl e \<Rightarrow> Errored e
         | Inr globals \<Rightarrow>
             (let others = filter (\<lambda>name. name \<noteq> wc_Name w) globals in
              invalid (problems @
                (if others \<noteq> [] then [field_error_of FieldForbidden ''spec.global'' (OthersAreGlobal others)] else []))))
      else invalid problems)"

record tenant_user =
  tu_Namespace :: string
  tu_Name :: string
  tu_Deleting :: bool
  tu_TenantRef :: string
  tu_UserName :: string
  tu_Login :: "bool option"
  tu_CredentialsSecretRef :: "string option"
  tu_MemberOf :: "string list"

text \<open>
  The reader of the tenant user webhook: the tenant named, as its database name and the owner its spec
  gives, and the users of a namespace.
\<close>

record user_cluster =
  uc_Tenant :: "string \<Rightarrow> string \<Rightarrow> (string \<times> string option) read"
  uc_Users :: "string \<Rightarrow> string + tenant_user list"

definition member_problems :: "tenant_user \<Rightarrow> string list \<Rightarrow> field_error list" where
  "member_problems user known =
     List.map_filter (\<lambda>(i, name).
       let path = index_path ''spec.memberOf'' i in
       if name = tu_UserName user then Some (field_error_of FieldInvalid path (MemberOfItself name))
       else if name \<notin> set known then Some (field_error_of FieldInvalid path (NoSuchUser (tu_TenantRef user) name))
       else None) (List.enumerate 0 (tu_MemberOf user))"

definition tenant_user_validate :: "user_cluster \<Rightarrow> tenant_user \<Rightarrow> admission_verdict" where
  "tenant_user_validate c user =
     (case uc_Tenant c (tu_Namespace user) (tu_TenantRef user) of
        ReadFailed e \<Rightarrow> Errored e
      | NotFound \<Rightarrow>
          invalid [field_error_of FieldInvalid ''spec.tenantRef.name'' (NoSuchTenant (tu_TenantRef user) (tu_Namespace user))]
      | Found (databaseName, declared) \<Rightarrow>
          (let owner = (case declared of None \<Rightarrow> databaseName | Some d \<Rightarrow> if d = [] then databaseName else d) in
           case uc_Users c (tu_Namespace user) of
             Inl e \<Rightarrow> Errored e
           | Inr users \<Rightarrow>
               (let siblings = filter (\<lambda>u. tu_TenantRef u = tu_TenantRef user) users in
                invalid
                  ((if tu_UserName user = owner
                    then [field_error_of FieldDuplicate ''spec.userName'' (OwnerName owner)] else []) @
                   (case tu_CredentialsSecretRef user of
                      Some secret \<Rightarrow> if tu_Login user = Some False
                        then [field_error_of FieldInvalid ''spec.credentialsSecretRef'' (CredentialWithoutLogin secret)] else []
                    | None \<Rightarrow> []) @
                   List.map_filter (\<lambda>u. if tu_Name u \<noteq> tu_Name user \<and> tu_UserName u = tu_UserName user
                     then Some (field_error_of FieldDuplicate ''spec.userName''
                       (UserNameTaken (tu_TenantRef user) (tu_UserName user) (tu_Name u)))
                     else None) siblings @
                   member_problems user (map tu_UserName siblings)))))"

definition tenant_user_ValidateUpdate :: "user_cluster \<Rightarrow> tenant_user \<Rightarrow> admission_verdict" where
  "tenant_user_ValidateUpdate c user = (if tu_Deleting user then Admitted else tenant_user_validate c user)"

section \<open>What is written\<close>

text \<open>
  The store of the API server and the reader the webhooks use on it. A write goes through the schema
  of its kind (the bounds the API types declare) and through the webhook, one write at a time; a
  terminating object only has its finalizer cleared, as the comment of \<open>ValidateUpdate\<close> says.
\<close>

record store =
  so_Pools :: "elastic_pool list"
  so_Classes :: "elastic_class list"
  so_WorkloadClasses :: "workload_class list"
  so_Tenants :: "pg_tenant list"
  so_Labels :: "string \<Rightarrow> (string \<rightharpoonup> string) read"

definition tenant_key :: "pg_tenant \<Rightarrow> string \<times> string" where
  "tenant_key t = (pt_Namespace t, pt_Name t)"

definition pool_key :: "elastic_pool \<Rightarrow> string \<times> string" where
  "pool_key p = (ep_PoolNamespace p, ep_PoolName p)"

definition read_found :: "'a list \<Rightarrow> 'a read" where
  "read_found xs = (case xs of [] \<Rightarrow> NotFound | x # _ \<Rightarrow> Found x)"

definition reader :: "store \<Rightarrow> cluster" where
  "reader s =
     \<lparr>cl_Pool = (\<lambda>ns name. read_found (filter (\<lambda>p. pool_key p = (ns, name)) (so_Pools s))),
      cl_ElasticClass = (\<lambda>name. read_found (filter (\<lambda>k. ec_Name k = name) (so_Classes s))),
      cl_WorkloadClass = (\<lambda>name. read_found (filter (\<lambda>w. wc_Name w = name) (so_WorkloadClasses s))),
      cl_WorkloadClasses = Inr (so_WorkloadClasses s),
      cl_Tenants = (\<lambda>ns. Inr (filter (\<lambda>t. pt_Namespace t = ns) (so_Tenants s))),
      cl_NamespaceLabels = so_Labels s\<rparr>"

definition tenant_schema :: "pg_tenant \<Rightarrow> bool" where
  "tenant_schema t \<longleftrightarrow>
     pt_Name t \<noteq> [] \<and>
     (case Option.bind (pt_Capacity t) co_Guaranteed of None \<Rightarrow> True | Some g \<Rightarrow> 0 \<le> g \<and> g \<le> 10000)"

definition workload_class_schema :: "workload_class \<Rightarrow> bool" where
  "workload_class_schema w \<longleftrightarrow> (case wc_Guaranteed w of None \<Rightarrow> True | Some g \<Rightarrow> 0 \<le> g \<and> g \<le> 100000)"

definition pool_schema :: "elastic_pool \<Rightarrow> bool" where
  "pool_schema p \<longleftrightarrow> 1 \<le> ep_BackendConnections p \<and> ep_BackendConnections p \<le> 100000"

inductive writes :: "(string \<Rightarrow> int option) \<Rightarrow> store \<Rightarrow> store \<Rightarrow> bool" for parse where
  create_tenant: "writes parse s (s\<lparr>so_Tenants := so_Tenants s @ [t]\<rparr>)"
    if "tenant_schema t" "tenant_key t \<notin> tenant_key ` set (so_Tenants s)"
      "tenant_validate parse (reader s) t = Admitted"
| update_tenant: "writes parse s (s\<lparr>so_Tenants := map (\<lambda>u. if tenant_key u = tenant_key t then t else u) (so_Tenants s)\<rparr>)"
    if "tenant_schema t" "old \<in> set (so_Tenants s)" "tenant_key old = tenant_key t" "\<not> pt_Deleting t"
      "tenant_ValidateUpdate parse (reader s) t = Admitted"
| delete_tenant: "writes parse s (s\<lparr>so_Tenants := map (\<lambda>u. if tenant_key u = k then u\<lparr>pt_Deleting := True\<rparr> else u) (so_Tenants s)\<rparr>)"
| remove_tenant: "writes parse s (s\<lparr>so_Tenants := filter (\<lambda>u. tenant_key u \<noteq> k) (so_Tenants s)\<rparr>)"
| put_pool: "writes parse s (s\<lparr>so_Pools := p # filter (\<lambda>q. pool_key q \<noteq> pool_key p) (so_Pools s)\<rparr>)"
    if "pool_schema p" "\<not> ep_Deleting p" "pool_ValidateUpdate parse (reader s) p = Admitted"
      "length (so_Tenants s) \<le> 21474"
| remove_pool: "writes parse s (s\<lparr>so_Pools := filter (\<lambda>q. pool_key q \<noteq> k) (so_Pools s)\<rparr>)"

definition guarantee_of :: "cluster \<Rightarrow> elastic_pool \<Rightarrow> elastic_class option \<Rightarrow> pg_tenant \<Rightarrow> int" where
  "guarantee_of c pool class t = (case contribution c pool class [] t of None \<Rightarrow> 0 | Some e \<Rightarrow> ef_Guaranteed e)"

definition tenants_in :: "pg_tenant list \<Rightarrow> elastic_pool \<Rightarrow> pg_tenant list" where
  "tenants_in ts pool = filter (\<lambda>t. pt_Namespace t = ep_PoolNamespace pool \<and> pt_PoolRef t = ep_PoolName pool) ts"

definition reserved_in :: "store \<Rightarrow> elastic_pool \<Rightarrow> elastic_class \<Rightarrow> int" where
  "reserved_in s pool class =
     sum_list (map (guarantee_of (reader s) pool (Some class)) (tenants_in (so_Tenants s) pool))"

definition within_budget :: "store \<Rightarrow> bool" where
  "within_budget s \<longleftrightarrow>
     (\<forall>pool \<in> set (so_Pools s). \<forall>class. ElasticClassFor (reader s) pool = Found class \<longrightarrow>
        reserved_in s pool class \<le> Allocatable (ep_BackendConnections pool) (HeadroomPercent pool (Some class)))"

definition well_stored :: "store \<Rightarrow> bool" where
  "well_stored s \<longleftrightarrow>
     list_all tenant_schema (so_Tenants s) \<and> list_all workload_class_schema (so_WorkloadClasses s) \<and>
     list_all pool_schema (so_Pools s) \<and> distinct (map tenant_key (so_Tenants s)) \<and>
     distinct (map pool_key (so_Pools s))"

section \<open>The ledger of a store\<close>

lemma read_found_Found: "read_found xs = Found x \<Longrightarrow> x \<in> set xs"
  by (cases xs) (auto simp: read_found_def)

lemma reads_well_reader [simp]: "reads_well (reader s)"
  by (auto simp: reads_well_def reader_def read_found_def split: list.split)

lemma tenantsOfPool_reader [simp]: "tenantsOfPool (reader s) pool = Inr (tenants_in (so_Tenants s) pool)"
  by (simp add: tenantsOfPool_def reader_def tenants_in_def conj_commute)

text \<open>What the webhooks resolve does not depend on the tenants stored.\<close>

lemma reader_same_classes:
  assumes "so_WorkloadClasses s' = so_WorkloadClasses s"
  shows "WorkloadClassNameFor (reader s') = WorkloadClassNameFor (reader s)"
    and "cl_WorkloadClass (reader s') = cl_WorkloadClass (reader s)"
    and "contribution (reader s') = contribution (reader s)"
    and "guarantee_of (reader s') = guarantee_of (reader s)"
proof -
  have "GlobalWorkloadClassNames (reader s') = GlobalWorkloadClassNames (reader s)"
    using assms by (simp add: GlobalWorkloadClassNames_def reader_def)
  then show *: "WorkloadClassNameFor (reader s') = WorkloadClassNameFor (reader s)"
    by (intro ext) (simp add: WorkloadClassNameFor_def Let_def)
  show c: "cl_WorkloadClass (reader s') = cl_WorkloadClass (reader s)"
    using assms by (simp add: reader_def)
  show d: "contribution (reader s') = contribution (reader s)"
    by (intro ext) (simp only: contribution_def * c)
  show "guarantee_of (reader s') = guarantee_of (reader s)"
    by (intro ext) (simp only: guarantee_of_def d)
qed

lemma contribution_bounds:
  assumes "well_stored s" "tenant_schema t" "contribution (reader s) pool class excluding t = Some e"
  shows "0 \<le> ef_Guaranteed e \<and> ef_Guaranteed e \<le> 100000"
proof -
  from assms(3) obtain w name where w: "cl_WorkloadClass (reader s) name = Found w" and e: "e = EffectiveFor t w"
    by (auto simp: contribution_def split: if_splits sum.splits read.splits)
  from w have "w \<in> set (so_WorkloadClasses s)" by (auto simp: reader_def dest: read_found_Found)
  then have "workload_class_schema w" using assms(1) by (simp add: well_stored_def list_all_iff)
  with assms(2) show ?thesis
    by (auto simp: e EffectiveFor_def Let_def option_or_def tenant_schema_def workload_class_schema_def split: option.splits)
qed

lemma guarantee_of_bounds:
  "well_stored s \<Longrightarrow> tenant_schema t \<Longrightarrow>
   0 \<le> guarantee_of (reader s) pool class t \<and> guarantee_of (reader s) pool class t \<le> 100000"
  using contribution_bounds [of s t pool "class" "[]"] by (auto simp: guarantee_of_def split: option.split)

lemma Allocatable_bounds:
  assumes "pool_schema p"
  shows "0 \<le> Allocatable (ep_BackendConnections p) h" "Allocatable (ep_BackendConnections p) h \<le> 100000"
proof -
  define headroom where "headroom = max (min h 100) 0"
  define m where "m = ep_BackendConnections p * (100 - headroom)"
  have "0 \<le> m" using assms by (simp add: m_def pool_schema_def headroom_def)
  moreover have "m \<le> 100000 * 100"
    unfolding m_def using assms by (intro mult_mono) (auto simp: pool_schema_def headroom_def)
  ultimately have "0 \<le> m div 100" "m div 100 \<le> 100000" by linarith+
  moreover have "Allocatable (ep_BackendConnections p) h = wrap32 (m div 100)"
    using \<open>0 \<le> m\<close> by (simp only: Allocatable_def Let_def headroom_def [symmetric] m_def [symmetric] sdiv_nonneg)
  ultimately show "0 \<le> Allocatable (ep_BackendConnections p) h" "Allocatable (ep_BackendConnections p) h \<le> 100000"
    by (simp_all add: wrap32_id in_int32_def)
qed

lemma foldl_Ledger_add:
  assumes "\<forall>e \<in> set es. 0 \<le> ef_Guaranteed e" "0 \<le> lg_Reserved l"
    and "lg_Reserved l + sum_list (map ef_Guaranteed es) < 2147483648"
    and "lg_Available l = max (wrap32 (lg_Allocatable l - lg_Reserved l)) 0"
  shows "lg_Reserved (foldl Ledger_add l es) = lg_Reserved l + sum_list (map ef_Guaranteed es) \<and>
    lg_Allocatable (foldl Ledger_add l es) = lg_Allocatable l \<and>
    lg_Available (foldl Ledger_add l es) = max (wrap32 (lg_Allocatable l - lg_Reserved (foldl Ledger_add l es))) 0"
  using assms
proof (induction es arbitrary: l)
  case (Cons e es)
  have "0 \<le> sum_list (map ef_Guaranteed es)" using Cons.prems(1) by (intro sum_list_nonneg) auto
  with Cons.prems have "wrap32 (lg_Reserved l + ef_Guaranteed e) = lg_Reserved l + ef_Guaranteed e"
    by (intro wrap32_id) (auto simp: in_int32_def)
  then have "lg_Reserved (Ledger_add l e) = lg_Reserved l + ef_Guaranteed e"
      "lg_Allocatable (Ledger_add l e) = lg_Allocatable l"
      "lg_Available (Ledger_add l e) = max (wrap32 (lg_Allocatable l - lg_Reserved (Ledger_add l e))) 0"
    by (simp_all add: Ledger_add_def Ledger_settle_def)
  then show ?case using Cons.IH [of "Ledger_add l e"] Cons.prems by (simp add: add.assoc)
qed simp

lemma sum_contributions:
  assumes "\<forall>t \<in> set ts. pt_Name t \<noteq> []"
  shows "sum_list (map ef_Guaranteed (List.map_filter (contribution c pool class excluding) ts)) =
    sum_list (map (guarantee_of c pool class) (filter (\<lambda>t. pt_Name t \<noteq> excluding) ts))"
  using assms
  by (induction ts) (auto simp: List.map_filter_simps guarantee_of_def contribution_def split: option.splits sum.splits read.splits)

text \<open>The ledger of a pool is the exact sum, as long as the sum is an \<open>int32\<close>.\<close>

lemma LedgerFor_reader:
  assumes "well_stored s" "pool_schema pool" "others = filter (\<lambda>t. pt_Name t \<noteq> excluding) (tenants_in (so_Tenants s) pool)"
    and "sum_list (map (guarantee_of (reader s) pool class) others) < 2147483648"
  obtains l where "LedgerFor (reader s) pool class excluding = Inr l"
    and "lg_Reserved l = sum_list (map (guarantee_of (reader s) pool class) others)"
    and "lg_Allocatable l = Allocatable (ep_BackendConnections pool) (HeadroomPercent pool class)"
    and "lg_Available l = max (lg_Allocatable l - lg_Reserved l) 0"
proof -
  let ?es = "List.map_filter (contribution (reader s) pool class excluding) (tenants_in (so_Tenants s) pool)"
  let ?start = "ledger_start pool class"
  let ?l = "foldl Ledger_add ?start ?es"
  have schema: "tenant_schema t" if "t \<in> set (tenants_in (so_Tenants s) pool)" for t
    using that assms(1) by (auto simp: tenants_in_def well_stored_def list_all_iff)
  have nonneg: "\<forall>e \<in> set ?es. 0 \<le> ef_Guaranteed e"
    using contribution_bounds [OF assms(1) schema] by (auto simp: List.map_filter_def)
  have total: "sum_list (map ef_Guaranteed ?es) = sum_list (map (guarantee_of (reader s) pool class) others)"
    unfolding assms(3) using schema by (intro sum_contributions) (auto simp: tenant_schema_def)
  have start: "lg_Reserved ?start = 0" "lg_Available ?start = max (wrap32 (lg_Allocatable ?start - lg_Reserved ?start)) 0"
      "lg_Allocatable ?start = Allocatable (ep_BackendConnections pool) (HeadroomPercent pool class)"
    by (simp_all add: ledger_start_def Ledger_settle_def Let_def)
  from foldl_Ledger_add [of ?es ?start, OF nonneg] start total assms(4)
  have l: "lg_Reserved ?l = sum_list (map (guarantee_of (reader s) pool class) others)"
      "lg_Allocatable ?l = lg_Allocatable ?start"
      "lg_Available ?l = max (wrap32 (lg_Allocatable ?l - lg_Reserved ?l)) 0"
    by auto
  have "0 \<le> sum_list (map ef_Guaranteed ?es)" using nonneg by (intro sum_list_nonneg) auto
  then have "in_int32 (lg_Allocatable ?l - lg_Reserved ?l)"
    using l total start assms(4) Allocatable_bounds [OF assms(2), of "HeadroomPercent pool class"]
    by (auto simp: in_int32_def)
  then have "lg_Available ?l = max (lg_Allocatable ?l - lg_Reserved ?l) 0" using l(3) by (simp add: wrap32_id)
  then show thesis
    using that [of ?l] l start LedgerFor_sum [OF reads_well_reader tenantsOfPool_reader, of s pool "class" excluding] by simp
qed

section \<open>Writes keep the budget\<close>

lemma sum_list_filter_le:
  "\<forall>x \<in> set xs. (0::int) \<le> f x \<Longrightarrow> sum_list (map f (filter P xs)) \<le> sum_list (map f xs)"
  by (induction xs) auto

lemma reserved_in_same_tenants:
  "so_Tenants s' = so_Tenants s \<Longrightarrow> so_WorkloadClasses s' = so_WorkloadClasses s \<Longrightarrow>
   reserved_in s' pool class = reserved_in s pool class"
  by (simp add: reserved_in_def reader_same_classes [of s' s])

lemma ElasticClassFor_reader:
  "so_Classes s' = so_Classes s \<Longrightarrow> ElasticClassFor (reader s') pool = ElasticClassFor (reader s) pool"
  by (simp add: ElasticClassFor_def reader_def)

lemma cl_Pool_reader:
  assumes "well_stored s" "pool \<in> set (so_Pools s)"
  shows "cl_Pool (reader s) (ep_PoolNamespace pool) (ep_PoolName pool) = Found pool"
proof -
  have "distinct (map pool_key (so_Pools s))" using assms(1) by (simp add: well_stored_def)
  then have "filter (\<lambda>p. pool_key p = pool_key pool) (so_Pools s) = [pool]"
    using assms(2)
  proof (induction "so_Pools s" arbitrary: s)
    case (Cons q qs)
    from Cons(2) have eq: "so_Pools s = q # qs" by simp
    show ?case
    proof (cases "q = pool")
      case True
      with Cons(3) eq have "filter (\<lambda>p. pool_key p = pool_key pool) qs = []" by (auto simp: filter_empty_conv image_iff)
      with True eq show ?thesis by simp
    next
      case False
      with Cons(3,4) eq have "pool_key q \<noteq> pool_key pool" by (auto simp: image_iff)
      with Cons(1) [of "s\<lparr>so_Pools := qs\<rparr>"] Cons(3,4) False eq show ?thesis by simp
    qed
  qed simp
  then show ?thesis by (simp add: reader_def read_found_def pool_key_def)
qed

lemma class_or_problem: "workloadClassProblems c t pool class \<noteq> Inr (None, [])"
  by (auto simp: workloadClassProblems_def Let_def split: sum.splits if_splits read.splits)

text \<open>
  What admitting a tenant means for its pool: the guarantee fits beside those of all the others.
\<close>

lemma admitted_tenant_fits:
  assumes "well_stored s" "within_budget s" "tenant_schema t" "tenant_validate parse (reader s) t = Admitted"
    and "pool \<in> set (so_Pools s)" "pt_Namespace t = ep_PoolNamespace pool" "pt_PoolRef t = ep_PoolName pool"
    and "ElasticClassFor (reader s) pool = Found class"
    and "others = filter (\<lambda>u. tenant_key u \<noteq> tenant_key t) (tenants_in (so_Tenants s) pool)"
  shows "sum_list (map (guarantee_of (reader s) pool (Some class)) others) + guarantee_of (reader s) pool (Some class) t
    \<le> Allocatable (ep_BackendConnections pool) (HeadroomPercent pool (Some class))"
proof -
  let ?g = "guarantee_of (reader s) pool (Some class)"
  have others: "others = filter (\<lambda>u. pt_Name u \<noteq> pt_Name t) (tenants_in (so_Tenants s) pool)"
    unfolding assms(9) using assms(6) by (intro filter_cong) (auto simp: tenants_in_def tenant_key_def)
  have "sum_list (map ?g others) \<le> reserved_in s pool class"
    unfolding reserved_in_def others using assms(1)
    by (intro sum_list_filter_le) (auto simp: guarantee_of_bounds tenants_in_def well_stored_def list_all_iff)
  also have "\<dots> \<le> Allocatable (ep_BackendConnections pool) (HeadroomPercent pool (Some class))"
    using assms(2,5,8) by (simp add: within_budget_def)
  finally have fits: "sum_list (map ?g others) \<le> Allocatable (ep_BackendConnections pool) (HeadroomPercent pool (Some class))" .
  have schema: "pool_schema pool" using assms(1,5) by (simp add: well_stored_def list_all_iff)
  have "sum_list (map ?g others) < 2147483648"
    using fits Allocatable_bounds(2) [OF schema, of "HeadroomPercent pool (Some class)"] by linarith
  then obtain l where l: "LedgerFor (reader s) pool (Some class) (pt_Name t) = Inr l"
      "lg_Reserved l = sum_list (map ?g others)"
      "lg_Allocatable l = Allocatable (ep_BackendConnections pool) (HeadroomPercent pool (Some class))"
      "lg_Available l = max (lg_Allocatable l - lg_Reserved l) 0"
    by (rule LedgerFor_reader [OF assms(1) schema others])
  have found: "cl_Pool (reader s) (pt_Namespace t) (pt_PoolRef t) = Found pool"
    using cl_Pool_reader [OF assms(1,5)] assms(6,7) by simp
  obtain w where w: "workloadClassProblems (reader s) t pool class = Inr (Some w, [])"
      "reservationProblems parse (reader s) t pool class w = Inr []"
    using assms(4,8) class_or_problem [of "reader s" t pool "class"] unfolding tenant_validate_def found
    by (auto simp: invalid_def split: sum.splits option.splits prod.splits if_splits)
  obtain name where name: "WorkloadClassNameFor (reader s) t (Some pool) (Some class) = Inr name"
      "cl_WorkloadClass (reader s) name = Found w"
    using w(1) by (auto simp: workloadClassProblems_def Let_def split: sum.splits if_splits read.splits)
  have "?g t = ef_Guaranteed (EffectiveFor t w)"
    using assms(3) name by (simp add: guarantee_of_def contribution_def tenant_schema_def)
  moreover have "ef_Guaranteed (EffectiveFor t w) \<le> 0 \<or> ef_Guaranteed (EffectiveFor t w) \<le> lg_Available l"
    using w(2) l(1) by (auto simp: reservationProblems_def Let_def split: if_splits)
  ultimately show ?thesis using fits l(2-4) by auto
qed

text \<open>A store with a tenant set, its other tenants kept.\<close>

lemma set_tenant_keeps_budget:
  assumes "well_stored s" "within_budget s" "tenant_schema t" "tenant_validate parse (reader s) t = Admitted"
    and "\<And>pool f. sum_list (map f (tenants_in ts pool)) =
      sum_list (map f (filter (\<lambda>u. tenant_key u \<noteq> tenant_key t) (tenants_in (so_Tenants s) pool))) +
      (if pt_Namespace t = ep_PoolNamespace pool \<and> pt_PoolRef t = ep_PoolName pool then f t else (0::int))"
  shows "within_budget (s\<lparr>so_Tenants := ts\<rparr>)"
  unfolding within_budget_def
proof (intro ballI allI impI)
  fix pool "class"
  assume pool: "pool \<in> set (so_Pools (s\<lparr>so_Tenants := ts\<rparr>))"
    and "ElasticClassFor (reader (s\<lparr>so_Tenants := ts\<rparr>)) pool = Found class"
  then have found: "ElasticClassFor (reader s) pool = Found class"
    using ElasticClassFor_reader [of "s\<lparr>so_Tenants := ts\<rparr>" s] by simp
  let ?g = "guarantee_of (reader s) pool (Some class)"
  let ?others = "filter (\<lambda>u. tenant_key u \<noteq> tenant_key t) (tenants_in (so_Tenants s) pool)"
  have eq: "reserved_in (s\<lparr>so_Tenants := ts\<rparr>) pool class = sum_list (map ?g (tenants_in ts pool))"
    by (simp add: reserved_in_def reader_same_classes [of "s\<lparr>so_Tenants := ts\<rparr>" s])
  show "reserved_in (s\<lparr>so_Tenants := ts\<rparr>) pool class
    \<le> Allocatable (ep_BackendConnections pool) (HeadroomPercent pool (Some class))"
  proof (cases "pt_Namespace t = ep_PoolNamespace pool \<and> pt_PoolRef t = ep_PoolName pool")
    case True
    then show ?thesis
      using admitted_tenant_fits [OF assms(1-4) _ _ _ found refl] pool by (simp add: eq assms(5))
  next
    case False
    have "sum_list (map ?g ?others) \<le> reserved_in s pool class"
      unfolding reserved_in_def using assms(1)
      by (intro sum_list_filter_le) (auto simp: guarantee_of_bounds tenants_in_def well_stored_def list_all_iff)
    also have "\<dots> \<le> Allocatable (ep_BackendConnections pool) (HeadroomPercent pool (Some class))"
      using assms(2) pool found by (simp add: within_budget_def)
    finally show ?thesis unfolding eq assms(5) using False by auto
  qed
qed

lemma sum_replaced:
  assumes "distinct (map tenant_key us)" "old \<in> set us" "tenant_key old = tenant_key t"
  shows "sum_list (map f (tenants_in (map (\<lambda>u. if tenant_key u = tenant_key t then t else u) us) pool)) =
    sum_list (map f (filter (\<lambda>u. tenant_key u \<noteq> tenant_key t) (tenants_in us pool))) +
    (if pt_Namespace t = ep_PoolNamespace pool \<and> pt_PoolRef t = ep_PoolName pool then f t else (0::int))"
  using assms
proof (induction us)
  case (Cons u us)
  show ?case
  proof (cases "tenant_key u = tenant_key t")
    case True
    with Cons.prems have none: "tenant_key v \<noteq> tenant_key t" if "v \<in> set us" for v
      using that by (metis (mono_tags, lifting) distinct.simps(2) image_eqI list.simps(9) set_map)
    then have "map (\<lambda>u. if tenant_key u = tenant_key t then t else u) us = us" by (auto intro!: map_idI)
    moreover have "filter (\<lambda>u. tenant_key u \<noteq> tenant_key t) (tenants_in us pool) = tenants_in us pool"
      using none by (intro filter_True) (auto simp: tenants_in_def)
    ultimately show ?thesis using True by (simp add: tenants_in_def)
  next
    case False
    with Cons show ?thesis by (auto simp: tenants_in_def)
  qed
qed simp

lemma put_pool_reserved:
  assumes "well_stored s" "pool_schema p" "length (so_Tenants s) \<le> 21474"
    and "pool_validate parse (reader s) p = Admitted" "ElasticClassFor (reader s) p = Found class"
  shows "reserved_in s p class \<le> Allocatable (ep_BackendConnections p) (HeadroomPercent p (Some class))"
proof -
  let ?g = "guarantee_of (reader s) p (Some class)"
  let ?ts = "tenants_in (so_Tenants s) p"
  have schema: "tenant_schema t" if "t \<in> set ?ts" for t
    using that assms(1) by (auto simp: tenants_in_def well_stored_def list_all_iff)
  have "sum_list (map ?g ?ts) \<le> sum_list (map (\<lambda>_. 100000) ?ts)"
    using guarantee_of_bounds [OF assms(1) schema] by (intro sum_list_mono) auto
  moreover have "length ?ts \<le> length (so_Tenants s)" by (simp add: tenants_in_def)
  ultimately have "sum_list (map ?g ?ts) < 2147483648"
    using assms(3) by (simp add: sum_list_triv)
  moreover have named: "?ts = filter (\<lambda>t. pt_Name t \<noteq> []) ?ts"
    using schema by (intro filter_True [symmetric]) (auto simp: tenant_schema_def)
  ultimately obtain l where "LedgerFor (reader s) p (Some class) [] = Inr l" "lg_Reserved l = sum_list (map ?g ?ts)"
      "lg_Allocatable l = Allocatable (ep_BackendConnections p) (HeadroomPercent p (Some class))"
    using LedgerFor_reader [OF assms(1,2) named, of "Some class"] by metis
  then show ?thesis
    using assms(4,5) by (auto simp: pool_validate_def invalid_def reserved_in_def split: sum.splits if_splits)
qed

lemma guarantee_of_deleting [simp]:
  "guarantee_of c pool class (t\<lparr>pt_Deleting := b\<rparr>) = guarantee_of c pool class t"
proof -
  have same: "WorkloadClassNameFor c (t\<lparr>pt_Deleting := b\<rparr>) = WorkloadClassNameFor c t"
      "EffectiveFor (t\<lparr>pt_Deleting := b\<rparr>) = EffectiveFor t"
    by (intro ext, simp add: WorkloadClassNameFor_def Let_def, intro ext, simp add: EffectiveFor_def)
  show ?thesis unfolding guarantee_of_def contribution_def same by simp
qed

lemma tenant_key_deleting [simp]: "tenant_key (t\<lparr>pt_Deleting := b\<rparr>) = tenant_key t"
  by (simp add: tenant_key_def)

text \<open>A write that leaves no pool with more reserved than before keeps every pool within its budget.\<close>

lemma within_budget_mono:
  assumes "within_budget s" "set (so_Pools s') \<subseteq> set (so_Pools s)" "so_Classes s' = so_Classes s"
    and "\<And>pool class. reserved_in s' pool class \<le> reserved_in s pool class"
  shows "within_budget s'"
  unfolding within_budget_def
proof (intro ballI allI impI)
  fix pool "class"
  assume "pool \<in> set (so_Pools s')" "ElasticClassFor (reader s') pool = Found class"
  then have "pool \<in> set (so_Pools s)" "ElasticClassFor (reader s) pool = Found class"
    using assms(2) ElasticClassFor_reader [OF assms(3)] by auto
  then have "reserved_in s pool class \<le> Allocatable (ep_BackendConnections pool) (HeadroomPercent pool (Some class))"
    using assms(1) by (simp add: within_budget_def)
  with assms(4) [of pool "class"] show "reserved_in s' pool class
    \<le> Allocatable (ep_BackendConnections pool) (HeadroomPercent pool (Some class))" by linarith
qed

lemma well_stored_writes: "writes parse s s' \<Longrightarrow> well_stored s \<Longrightarrow> well_stored s'"
proof (induction rule: writes.induct)
  case (update_tenant t old s)
  have "map tenant_key (map (\<lambda>u. if tenant_key u = tenant_key t then t else u) (so_Tenants s)) =
      map tenant_key (so_Tenants s)" by (auto simp: comp_def)
  then show ?case using update_tenant
    by (auto simp: well_stored_def list_all_iff simp del: map_map)
next
  case (delete_tenant s k)
  have "map tenant_key (map (\<lambda>u. if tenant_key u = k then u\<lparr>pt_Deleting := True\<rparr> else u) (so_Tenants s)) =
      map tenant_key (so_Tenants s)" by (auto simp: comp_def)
  then show ?case using delete_tenant
    by (auto simp: well_stored_def list_all_iff tenant_schema_def simp del: map_map)
qed (auto simp: well_stored_def list_all_iff distinct_map_filter)

lemma within_budget_writes:
  "writes parse s s' \<Longrightarrow> well_stored s \<Longrightarrow> within_budget s \<Longrightarrow> within_budget s'"
proof (induction rule: writes.induct)
  case (create_tenant t s)
  have "filter (\<lambda>u. tenant_key u \<noteq> tenant_key t) (tenants_in (so_Tenants s) pool) = tenants_in (so_Tenants s) pool" for pool
    using create_tenant(2) by (intro filter_True) (auto simp: tenants_in_def image_iff)
  then show ?case
    using create_tenant by (intro set_tenant_keeps_budget [of s t parse]) (auto simp: tenants_in_def)
next
  case (update_tenant t old s)
  then show ?case
    by (intro set_tenant_keeps_budget [of s t parse] sum_replaced [where old = old])
      (auto simp: tenant_ValidateUpdate_def well_stored_def)
next
  case (delete_tenant s k)
  let ?mark = "\<lambda>u. if tenant_key u = k then u\<lparr>pt_Deleting := True\<rparr> else u"
  let ?s' = "s\<lparr>so_Tenants := map ?mark (so_Tenants s)\<rparr>"
  have marked: "tenants_in (map ?mark us) pool = map ?mark (tenants_in us pool)" for us pool
    by (induction us) (auto simp: tenants_in_def)
  have unchanged: "map (guarantee_of c pool class) (map ?mark us) = map (guarantee_of c pool class) us" for c pool "class" us
    by (induction us) simp_all
  have "reserved_in ?s' pool class = reserved_in s pool class" for pool "class"
  proof -
    have same: "guarantee_of (reader ?s') = guarantee_of (reader s)" by (rule reader_same_classes) simp
    have "so_Tenants ?s' = map ?mark (so_Tenants s)" by simp
    then show ?thesis by (simp only: reserved_in_def same marked unchanged)
  qed
  then show ?case by (intro within_budget_mono [OF delete_tenant(2)]) (simp_all only: order_refl, simp_all)
next
  case (remove_tenant s k)
  let ?s' = "s\<lparr>so_Tenants := filter (\<lambda>u. tenant_key u \<noteq> k) (so_Tenants s)\<rparr>"
  have kept: "tenants_in (filter (\<lambda>u. tenant_key u \<noteq> k) us) pool = filter (\<lambda>u. tenant_key u \<noteq> k) (tenants_in us pool)" for us pool
    by (induction us) (auto simp: tenants_in_def)
  have "reserved_in ?s' pool class \<le> reserved_in s pool class" for pool "class"
  proof -
    have same: "guarantee_of (reader ?s') = guarantee_of (reader s)" by (rule reader_same_classes) simp
    have "so_Tenants ?s' = filter (\<lambda>u. tenant_key u \<noteq> k) (so_Tenants s)" by simp
    moreover have "\<forall>t \<in> set (tenants_in (so_Tenants s) pool). 0 \<le> guarantee_of (reader s) pool (Some class) t"
      using remove_tenant(1) guarantee_of_bounds [OF remove_tenant(1)]
      by (auto simp: tenants_in_def well_stored_def list_all_iff)
    ultimately show ?thesis by (simp only: reserved_in_def same kept sum_list_filter_le)
  qed
  then show ?case by (intro within_budget_mono [OF remove_tenant(2)]) (simp_all only:, simp_all)
next
  case (put_pool p s)
  let ?s' = "s\<lparr>so_Pools := p # filter (\<lambda>q. pool_key q \<noteq> pool_key p) (so_Pools s)\<rparr>"
  have same: "reserved_in ?s' = reserved_in s" by (intro ext reserved_in_same_tenants) auto
  have new: "reserved_in s p class \<le> Allocatable (ep_BackendConnections p) (HeadroomPercent p (Some class))"
    if "ElasticClassFor (reader s) p = Found class" for "class"
    using put_pool that by (intro put_pool_reserved) (auto simp: pool_ValidateUpdate_def)
  show ?case
    unfolding within_budget_def same
  proof (intro ballI allI impI)
    fix q "class"
    assume "q \<in> set (so_Pools ?s')" "ElasticClassFor (reader ?s') q = Found class"
    moreover have "ElasticClassFor (reader ?s') q = ElasticClassFor (reader s) q" by (rule ElasticClassFor_reader) simp
    ultimately have "q = p \<or> q \<in> set (so_Pools s)" "ElasticClassFor (reader s) q = Found class" by auto
    then show "reserved_in s q class \<le> Allocatable (ep_BackendConnections q) (HeadroomPercent q (Some class))"
      using new put_pool(6) by (auto simp: within_budget_def)
  qed
next
  case (remove_pool s k)
  let ?s' = "s\<lparr>so_Pools := filter (\<lambda>q. pool_key q \<noteq> k) (so_Pools s)\<rparr>"
  have "reserved_in ?s' = reserved_in s" by (intro ext reserved_in_same_tenants) auto
  then show ?case by (intro within_budget_mono [OF remove_pool(2)]) (simp_all only: order_refl, simp_all)
qed

lemma writes_invariant:
  assumes "(writes parse)\<^sup>*\<^sup>* s s'" "well_stored s" "within_budget s"
  shows "well_stored s' \<and> within_budget s'"
  using assms by (induction rule: rtranclp_induct) (auto intro: well_stored_writes within_budget_writes)

lemma empty_store_within_budget:
  assumes "well_stored s" "so_Tenants s = []"
  shows "within_budget s"
  using assms Allocatable_bounds(1)
  by (auto simp: within_budget_def reserved_in_def tenants_in_def well_stored_def list_all_iff)

section \<open>Properties\<close>


text \<open>A pool of one hundred connections and a class that guarantees forty.\<close>

definition example_workload_class :: workload_class where
  "example_workload_class =
     \<lparr>wc_Name = ''std'', wc_Global = Some True, wc_Priority = 0, wc_Guaranteed = Some 40, wc_Burstable = 50,
      wc_Weight = None, wc_Limits = None, wc_AllowAutomatic = None, wc_Quarantine = None,
      wc_OnBudgetExhaustion = None\<rparr>"

definition example_pool :: elastic_pool where
  "example_pool =
     \<lparr>ep_PoolNamespace = ''ns'', ep_PoolName = ''pool'', ep_Deleting = False, ep_ClassRef = ''gold'',
      ep_BackendConnections = 100, ep_HeadroomPercent = None, ep_MaxOversubscriptionRatio = [],
      ep_Admission = None, ep_Proxy = None, ep_TemplateParameters = []\<rparr>"

definition example_elastic_class :: elastic_class where
  "example_elastic_class = \<lparr>ec_Name = ''gold'', ec_Defaults = None, ec_AdmittedNamespaces = None\<rparr>"

definition example_store :: store where
  "example_store =
     \<lparr>so_Pools = [example_pool], so_Classes = [example_elastic_class],
      so_WorkloadClasses = [example_workload_class], so_Tenants = [], so_Labels = (\<lambda>_. NotFound)\<rparr>"

definition example_pg_tenant :: "string \<Rightarrow> pg_tenant" where
  "example_pg_tenant name =
     \<lparr>pt_Namespace = ''ns'', pt_Name = name, pt_Deleting = False, pt_PoolRef = ''pool'', pt_DatabaseName = name,
      pt_WorkloadClassName = None, pt_Capacity = None\<rparr>"

text \<open>
  C38. The single write is essential: the webhook and the store are not one transaction. There is a store in
  which two tenants are admitted one beside the other, each against a ledger without the other, and
  storing both promises more than the pool has.
\<close>

theorem concurrent_creates_overcommit:
  "\<exists>s t t'. well_stored s \<and> within_budget s \<and> tenant_key t \<noteq> tenant_key t' \<and>
     tenant_validate (\<lambda>_. None) (reader s) t = Admitted \<and>
     tenant_validate (\<lambda>_. None) (reader s) t' = Admitted \<and>
     \<not> within_budget (s\<lparr>so_Tenants := so_Tenants s @ [t, t']\<rparr>)"
proof (intro exI conjI)
  let ?s = "example_store" and ?t = "example_pg_tenant ''a''" and ?t' = "example_pg_tenant ''b''"
  show stored: "well_stored ?s" by code_simp
  show "within_budget ?s" using empty_store_within_budget [OF stored] by (simp add: example_store_def)
  show "tenant_key ?t \<noteq> tenant_key ?t'" by code_simp
  show "tenant_validate (\<lambda>_. None) (reader ?s) ?t = Admitted" by code_simp
  show "tenant_validate (\<lambda>_. None) (reader ?s) ?t' = Admitted" by code_simp
  let ?s' = "?s\<lparr>so_Tenants := so_Tenants ?s @ [?t, ?t']\<rparr>"
  have "example_pool \<in> set (so_Pools ?s')" by (simp add: example_store_def)
  moreover have "ElasticClassFor (reader ?s') example_pool = Found example_elastic_class"
    by (simp add: ElasticClassFor_def reader_def read_found_def example_store_def example_pool_def example_elastic_class_def)
  moreover have "Allocatable (ep_BackendConnections example_pool)
      (HeadroomPercent example_pool (Some example_elastic_class)) < reserved_in ?s' example_pool example_elastic_class"
    by code_simp
  ultimately show "\<not> within_budget ?s'" by (auto simp: within_budget_def not_le)
qed

text \<open>
  C27. An admitted parameter takes effect. Whatever the instance, every parameter of a spec the webhook admits
  has exactly the admitted value in the file that is rendered from it, so the second filter of the
  renderer never drops a value silently.
\<close>

theorem admitted_parameters_take_effect:
  assumes "instance_validate parameters = Admitted" "distinct (map fst parameters)" "map_of parameters name = Some v"
  shows "setting_value (RenderCustomConf (config\<lparr>ic_UserParameters := fst (UserParameters parameters)\<rparr>)) name = Some v"
proof -
  let ?kept = "fst (UserParameters parameters)"
  let ?config = "config\<lparr>ic_UserParameters := ?kept\<rparr>"
  have "parameterProblems ''spec.parameters'' parameters = []"
    using assms(1) by (auto simp: instance_validate_def invalid_def split: if_splits)
  then have "parameter_problem ''spec.parameters'' (name, v) = None"
    using map_of_SomeD [OF assms(3)]
    by (auto simp: parameterProblems_def List.map_filter_def filter_empty_conv)
  then have ok: "IsPinned name \<longrightarrow> isTheOperatorsOwnValue name v" "\<not> IsPinned name \<longrightarrow> RenderableParameter name v"
    by (auto simp: parameter_problem_def split: if_splits)
  have kept: "distinct (map fst ?kept)"
    using assms(2) by (simp add: UserParameters_def Let_def distinct_map_filter)
  show ?thesis
  proof (cases "IsPinned name")
    case True
    then have "map_of ?kept name = None"
      by (auto simp: UserParameters_def Let_def map_of_eq_None_iff)
    with True ok(1) kept show ?thesis
      using blocked_value_is_rendered [of name ?config]
      by (simp add: RenderCustomConf_value isTheOperatorsOwnValue_def)
  next
    case False
    with ok(2) map_of_SomeD [OF assms(3)] have "(name, v) \<in> set ?kept" by (simp add: UserParameters_def Let_def)
    with kept have "map_of ?kept name = Some v" by simp
    with False ok(2) kept show ?thesis by (simp add: RenderCustomConf_value)
  qed
qed

section \<open>Witnesses\<close>


theorem admitted_parameters_take_effect_witness:
  "setting_value (RenderCustomConf (example_config\<lparr>ic_UserParameters :=
      fst (UserParameters [(''fsync'', ''on''), (''work_mem'', ''64MB'')])\<rparr>)) ''fsync'' = Some ''on''"
proof (rule admitted_parameters_take_effect)
  show "instance_validate [(''fsync'', ''on''), (''work_mem'', ''64MB'')] = Admitted" by code_simp
qed simp_all

end
