(* ===== verification/Spec2Isabelle.thy ===== *)
theory Spec2Isabelle
  imports Agent_Promotion Proxy_Router Verify_Workload Metering Instance_Roll HA_Controller HA_Lease Migration_Controller Placement_Policy Autoscale Admission
begin

text \<open>
  pgelastic is a Kubernetes operator for elastic pools of PostgreSQL: tenants hold databases on shared
  instances, an instance is a small group of members with one primary, and a pool sells backend
  connections as guarantees. This development models the decisions of the operator, which the sources
  keep apart from the reconcilers that carry them out, and the reconcilers of failover and migration.

  \<^bold>\<open>Parts of the program and where they are modelled.\<close>

  \<^item> \<open>Go_Prelude\<close>, \<open>Go_Effects\<close>, \<open>Go_Float\<close>: what the sources use of Go. Integers with their
    wrap-around written out, instants and durations, sorting by a three-way comparator (locale
    \<open>go_comparator\<close>), strings and number parsing; operations that read and write a world and may fail
    (\<open>eff\<close>, with the bookkeeping of what an operation leaves alone); \<open>float64\<close> as rationals rounded to
    53 bits.
  \<^item> High availability, \<open>internal/ha\<close>: \<open>HA_LSN\<close> (log positions, \<open>lsn.go\<close>), \<open>HA_Quorum\<close>
    (\<open>quorum.go\<close>), \<open>HA_Candidate\<close> (\<open>candidate.go\<close>), \<open>HA_Decide\<close> (\<open>decide.go\<close>: the failover
    decision), \<open>HA_Lease\<close> (\<open>lease.go\<close>: the promotion Lease and the fence epoch), \<open>HA_Startup\<close>
    (\<open>startup.go\<close>, \<open>divergence.go\<close>, \<open>maintenance.go\<close>). \<open>HA_Controller\<close> is
    \<open>internal/controller/pginstance_failover.go\<close>: polling the members, the cached observations, the
    decision written into the status, and the step relation \<open>failover_step\<close> that interleaves
    reconciles with agents and other writers.
  \<^item> Live migration, \<open>internal/migration\<close>: \<open>Migration_Phase\<close> (\<open>phase.go\<close>: the phase machine),
    \<open>Migration_SQL\<close> (\<open>sql.go\<close>, \<open>podexec.go\<close>: the SQL port, quoting, psql's output),
    \<open>Migration_Steps\<close> (\<open>online.go\<close>, \<open>offline.go\<close>, \<open>roles.go\<close>, \<open>sequences.go\<close>, \<open>cleanup.go\<close>,
    \<open>verifier.go\<close>), \<open>Migration_Engine\<close> (\<open>engine.go\<close>: \<open>Step\<close> and \<open>Apply\<close>), \<open>Migration_Router\<close>
    (\<open>router.go\<close>: the route of a tenant as its stored binding, with conflicts and failures of the API
    server), \<open>Migration_Controller\<close> (\<open>pgtenantmigration_controller.go\<close> and
    \<open>pgtenantmigration_resolve.go\<close>: one reconcile, and sequences of them).
  \<^item> Placement, \<open>internal/placement\<close>: \<open>Placement\<close> (\<open>placement.go\<close>: packing by decreasing size,
    admission by two choices) and \<open>Placement_Policy\<close> (\<open>policy.go\<close>). The invariant of one packing
    dimension is proved once in the locale \<open>dimension\<close> and interpreted for connections, storage and
    relations; a run of the packer is the inductive relation \<open>packing\<close>.
  \<^item> Autoscaling, \<open>internal/autoscale\<close>: \<open>Autoscale\<close> (\<open>policy.go\<close>, \<open>schedule.go\<close>, \<open>guardrails.go\<close>,
    \<open>plan.go\<close>), which calls the packer.
  \<^item> Capacity and admission: \<open>Policy\<close> (\<open>internal/policy\<close>: effective capacity, the reservation ledger,
    the workload class ladder, consent), \<open>Pgconf\<close> (\<open>internal/instance/pgconf\<close>: who owns a parameter,
    the rendered configuration files) and \<open>Admission\<close> (\<open>internal/webhook/v1alpha1\<close>: the validating
    webhooks, and the step relation \<open>writes\<close> of the store they guard).

  \<^bold>\<open>What is shown.\<close>

  \<^item> Failover. A quorum verdict is the overlap of the reachable voters with every set that acknowledged
    a commit; the member an unplanned failover names holds every acknowledged commit; every recorded
    primary over every interleaving is justified by an observation; the failover completes in three
    reconciles once the primary is gone; the Lease is taken over only after the holder must have fenced
    itself.
  \<^item> Migration. The route moves only in a verified cutover; what a decision says it serves from is where
    the tenant is bound once its effects succeeded; the source is dropped at most once and never before
    the rollback window closes; a database the tenant's role does not own is never dropped; quoting and
    psql's output read back; an undisturbed migration reaches its end.
  \<^item> Placement and autoscaling. No instance is packed past a capacity it measures, pins and
    anti-affinity hold, every tenant is answered exactly once; an action that runs has passed every
    guardrail; a volume only grows.
  \<^item> Admission. Over all sequences of single writes the guarantees of a pool stay within what it can
    allocate and the ledger is their exact sum; an admitted parameter is the one in the rendered file; a
    rendered file reads back.
  \<^item> What the code does and does not mean to do is a theorem too: the drop of a source that the tenant
    has moved back to, a settled migration that takes the tenant back, a strategy resolved anew on
    every reconcile, an over-committed pool whose instances look empty, two creates that race past the
    ledger, a pinned parameter spelled in capitals, a refused switchover that leaves nobody serving.

  \<^bold>\<open>Conventions.\<close> A struct is a record whose fields carry a prefix, an enumeration or a reason is a
  datatype with the source's constant names, an error is the left of a sum or a constructor, a pointer
  is an option, a pointer to a bin is its position in the list of bins. A map that is only looked up is
  a HOL map, one that is walked an association list. \<open>int32\<close> and \<open>int64\<close> arithmetic that can leave its
  range is wrapped where the source computes it. Loops are structural recursion or folds over the lists
  the code walks, so every definition is total; the two exceptions are the redraw of \<open>Admit\<close>, which
  consumes the sequence of numbers the generator gives and is undefined (\<open>None\<close>) only when that
  sequence ends, and the retry loop of the router, which the code bounds itself. Bounds in the theorems
  are those the API types declare (at most 100000 connections, percentages up to 100) or the number of
  tenants below which an \<open>int32\<close> sum cannot wrap (21474).

  \<^bold>\<open>Parameters.\<close> PostgreSQL behind the SQL port, the shell of a Pod, the cron library and the time-zone
  database, the parser of quantities, label selectors, the random generator and the API server are not
  part of the repository; they are arguments of the definitions, and the theorems name what they rely on.

  \<^bold>\<open>Not modelled.\<close> The reconcilers of pools, tenants, instances, backups and restores, which render
  Kubernetes objects and copy status; the in-Pod agent's processes, signals and files; metering; the
  renderer of the proxy's configuration document and the proxy itself, which is written in Rust; SCRAM
  and hashing; the durability verifier and the benchmarks; the preflight gate and failover slots of a
  migration; the text of messages and SQL statements, which are constructors; metrics, logging and
  tracing. Generated code and API declarations appear only as the fields the modelled code reads.
\<close>

section \<open>The roll and the fleet\<close>

text \<open>The account of the fleet as the roll reads it.\<close>

definition roll_drain :: "instance_drain \<Rightarrow> InstanceDrain" where
  "roll_drain d =
     \<lparr>dr_Known = ds_Known (fd_status d), dr_Quiesced = ds_Quiesced (fd_status d), dr_InFlight = ds_InFlight (fd_status d),
      dr_Queued = ds_Queued (fd_status d), dr_Drained = ds_Drained (fd_status d)\<rparr>"

text \<open>The environment of a roll whose fleet is driven by the proxy router, from a state of that router.\<close>

definition fleet_env ::
  "roll_env \<Rightarrow> 'x Proxy_Router.cluster \<Rightarrow> object_key \<Rightarrow> string \<Rightarrow> string \<Rightarrow> 'x router_state \<Rightarrow> roll_env" where
  "fleet_env env cluster pool inst holder s =
     (case Proxy_Router.QuiesceInstance cluster pool inst holder s of
        (quiesced, s1) \<Rightarrow>
          env\<lparr>re_quiescer := True, re_quiesce := quiesced,
              re_drain := map_sum id roll_drain (fst (Proxy_Router.InstanceDrainStatus cluster pool inst s1))\<rparr>)"


definition rolled_fleet :: roll_env where
  "rolled_fleet = fleet_env (sample_env (2 * second)) sample_cluster (''ns'', ''p'') ''db'' ''roll''
     (Proxy_Router.sample_state ''k'' (Present True))"

lemma rolled_fleet_calls:
  "list_ex (\<lambda>c. c = PatchMaintenance ''db-1'') (ps_calls (snd (reconcileRoll rolled_fleet (sample_pods ''old'' ''new'') sample_decision
     \<lparr>ps_inst = sample_instance None Map.empty, ps_calls = []\<rparr>)))"
  by code_simp


end
